(* ===== verification/Prelude.thy ===== *)
theory Prelude
  imports Main "HOL-Library.Word"
begin

section \<open>Prelude: C characters, the ctype classes and shared lemmas\<close>

text \<open>
  What every component shares. A C \<open>char\<close> is signed on the targets of the program, so a byte
  read into an \<open>int\<close> is between -128 and 127 (\<open>schar\<close>), and storing an \<open>int\<close> in a \<open>char\<close>
  keeps its low eight bits (\<open>to_char\<close>). The classes of \<open>ctype.h\<close> are those of the C locale;
  they hold of no negative argument. \<open>int32\<close> is a 32-bit word, read by \<open>sint\<close>.
\<close>

named_theorems lex_adv "the lexer's steps only move forward and keep the line count"

type_synonym int32 = "32 word"
type_synonym uint16 = "16 word"

subsection \<open>Characters as integers\<close>

definition schar :: "char \<Rightarrow> int" where
  "schar c = (let n = (of_char c :: int) in if n < 128 then n else n - 256)"

definition to_char :: "int \<Rightarrow> char" where
  "to_char k = char_of (nat (k mod 256))"

lemma of_char_nat_int: "(of_char c :: int) = int (of_char c :: nat)"
  by (metis of_nat_of_char)

lemma of_char_bounds: "0 \<le> (of_char c :: int)" "(of_char c :: int) < 256"
proof -
  have "(of_char c :: nat) < 256"
    by (rule nat_of_char_less_256)
  then show "(of_char c :: int) < 256" by (simp add: of_char_nat_int)
  show "0 \<le> (of_char c :: int)" by (simp add: of_char_nat_int)
qed

lemma to_char_schar [simp]: "to_char (schar c) = c"
proof -
  have "nat (schar c mod 256) = (of_char c :: nat)"
    using of_char_bounds [of c] by (auto simp: schar_def Let_def of_char_nat_int)
  then show ?thesis by (simp add: to_char_def)
qed

lemma schar_inj: "schar c = schar d \<longleftrightarrow> c = d"
  by (metis to_char_schar)

subsection \<open>The classes of ctype.h in the C locale\<close>

definition isdigit :: "int \<Rightarrow> bool" where
  "isdigit ch \<longleftrightarrow> 48 \<le> ch \<and> ch \<le> 57"

definition isalpha :: "int \<Rightarrow> bool" where
  "isalpha ch \<longleftrightarrow> (65 \<le> ch \<and> ch \<le> 90) \<or> (97 \<le> ch \<and> ch \<le> 122)"

definition isalnum :: "int \<Rightarrow> bool" where
  "isalnum ch \<longleftrightarrow> isalpha ch \<or> isdigit ch"

definition ispunct :: "int \<Rightarrow> bool" where
  "ispunct ch \<longleftrightarrow> 33 \<le> ch \<and> ch \<le> 126 \<and> \<not> isalnum ch"

lemmas ctype_defs = isdigit_def isalpha_def isalnum_def ispunct_def

end
