(* ===== verification/Lexer.thy ===== *)
theory Lexer
  imports Prelude
begin

section \<open>The lexer, jspp/src/lex.c\<close>

text \<open>
  The state \<open>jspplex\<close> and its operations \<open>getch\<close>, \<open>ungetch\<close>, \<open>stripWS\<close> and \<open>jsppLex\<close>.
  A character read is an \<open>int\<close>, -1 at the end of the buffer, as in the code. The token
  buffer \<open>lex[LEX_TOKE_BUF]\<close> is written from index 0 by every token that writes it at all, so
  \<open>lex\<close> is the bytes stored before the terminating NUL, and the local accumulator \<open>acc\<close> of a
  scan is the part written so far, \<open>length acc\<close> being the code's \<open>lexpos\<close>. The ghost field
  \<open>overrun\<close> records a store at an index past the array. \<open>ungetch\<close> returns the byte before the
  new position; at position 0 that is a read before the buffer, the value None.

  The lemmas show that every step only moves forward, keeps the line count equal to the
  newlines passed, stops, and recognises each class of token.
\<close>

subsection \<open>Tokens, jspp/jspp/y.tab.h, and error numbers\<close>

text \<open>The token numbers, as the header defines them; 292 and 328 are not used.\<close>

type_synonym token = int

abbreviation (input) T_LEXERROR :: token where "T_LEXERROR \<equiv> 0"
abbreviation (input) T_IF :: token where "T_IF \<equiv> 257"
abbreviation (input) T_WHILE :: token where "T_WHILE \<equiv> 258"
abbreviation (input) T_FOR :: token where "T_FOR \<equiv> 259"
abbreviation (input) T_VAR :: token where "T_VAR \<equiv> 260"
abbreviation (input) T_RETURN :: token where "T_RETURN \<equiv> 261"
abbreviation (input) T_CLASS :: token where "T_CLASS \<equiv> 262"
abbreviation (input) T_PUBLIC :: token where "T_PUBLIC \<equiv> 263"
abbreviation (input) T_PRIVATE :: token where "T_PRIVATE \<equiv> 264"
abbreviation (input) T_PROTECTED :: token where "T_PROTECTED \<equiv> 265"
abbreviation (input) T_LBRACE :: token where "T_LBRACE \<equiv> 266"
abbreviation (input) T_RBRACE :: token where "T_RBRACE \<equiv> 267"
abbreviation (input) T_LPAR :: token where "T_LPAR \<equiv> 268"
abbreviation (input) T_RPAR :: token where "T_RPAR \<equiv> 269"
abbreviation (input) T_LBRAC :: token where "T_LBRAC \<equiv> 270"
abbreviation (input) T_RBRAC :: token where "T_RBRAC \<equiv> 271"
abbreviation (input) T_ID :: token where "T_ID \<equiv> 272"
abbreviation (input) T_CHAR :: token where "T_CHAR \<equiv> 273"
abbreviation (input) T_STRING :: token where "T_STRING \<equiv> 274"
abbreviation (input) T_INT :: token where "T_INT \<equiv> 275"
abbreviation (input) T_REAL :: token where "T_REAL \<equiv> 276"
abbreviation (input) T_ISNEQ :: token where "T_ISNEQ \<equiv> 277"
abbreviation (input) T_BANG :: token where "T_BANG \<equiv> 278"
abbreviation (input) T_ISEQUAL :: token where "T_ISEQUAL \<equiv> 279"
abbreviation (input) T_PLUSEQ :: token where "T_PLUSEQ \<equiv> 280"
abbreviation (input) T_MINUSEQ :: token where "T_MINUSEQ \<equiv> 281"
abbreviation (input) T_TIMESEQ :: token where "T_TIMESEQ \<equiv> 282"
abbreviation (input) T_DIVEQ :: token where "T_DIVEQ \<equiv> 283"
abbreviation (input) T_MODEQ :: token where "T_MODEQ \<equiv> 284"
abbreviation (input) T_XOREQ :: token where "T_XOREQ \<equiv> 285"
abbreviation (input) T_ASSIGN :: token where "T_ASSIGN \<equiv> 286"
abbreviation (input) T_INC :: token where "T_INC \<equiv> 287"
abbreviation (input) T_DEC :: token where "T_DEC \<equiv> 288"
abbreviation (input) T_PLUS :: token where "T_PLUS \<equiv> 289"
abbreviation (input) T_MINUS :: token where "T_MINUS \<equiv> 290"
abbreviation (input) T_STAR :: token where "T_STAR \<equiv> 291"
abbreviation (input) T_SLASH :: token where "T_SLASH \<equiv> 293"
abbreviation (input) T_AND :: token where "T_AND \<equiv> 294"
abbreviation (input) T_AMPR :: token where "T_AMPR \<equiv> 295"
abbreviation (input) T_OR :: token where "T_OR \<equiv> 296"
abbreviation (input) T_PIPE :: token where "T_PIPE \<equiv> 297"
abbreviation (input) T_XOR :: token where "T_XOR \<equiv> 298"
abbreviation (input) T_MOD :: token where "T_MOD \<equiv> 299"
abbreviation (input) T_SCOPE :: token where "T_SCOPE \<equiv> 300"
abbreviation (input) T_COLON :: token where "T_COLON \<equiv> 301"
abbreviation (input) T_SEMI :: token where "T_SEMI \<equiv> 302"
abbreviation (input) T_DOT :: token where "T_DOT \<equiv> 303"
abbreviation (input) T_COMMA :: token where "T_COMMA \<equiv> 304"
abbreviation (input) T_JEOF :: token where "T_JEOF \<equiv> 305"
abbreviation (input) T_STATIC :: token where "T_STATIC \<equiv> 306"
abbreviation (input) T_ELSE :: token where "T_ELSE \<equiv> 307"
abbreviation (input) T_BREAK :: token where "T_BREAK \<equiv> 308"
abbreviation (input) T_LT :: token where "T_LT \<equiv> 309"
abbreviation (input) T_GT :: token where "T_GT \<equiv> 310"
abbreviation (input) T_LTEQ :: token where "T_LTEQ \<equiv> 311"
abbreviation (input) T_GTEQ :: token where "T_GTEQ \<equiv> 312"
abbreviation (input) T_COMP :: token where "T_COMP \<equiv> 313"
abbreviation (input) T_COMPEQ :: token where "T_COMPEQ \<equiv> 314"
abbreviation (input) T_DO :: token where "T_DO \<equiv> 315"
abbreviation (input) T_CONTINUE :: token where "T_CONTINUE \<equiv> 316"
abbreviation (input) T_OREQ :: token where "T_OREQ \<equiv> 317"
abbreviation (input) T_ANDEQ :: token where "T_ANDEQ \<equiv> 318"
abbreviation (input) T_HEX :: token where "T_HEX \<equiv> 319"
abbreviation (input) T_SWITCH :: token where "T_SWITCH \<equiv> 320"
abbreviation (input) T_CASE :: token where "T_CASE \<equiv> 321"
abbreviation (input) T_NEW :: token where "T_NEW \<equiv> 322"
abbreviation (input) T_DELETE :: token where "T_DELETE \<equiv> 323"
abbreviation (input) T_CONST :: token where "T_CONST \<equiv> 324"
abbreviation (input) T_JNULL :: token where "T_JNULL \<equiv> 325"
abbreviation (input) T_TRY :: token where "T_TRY \<equiv> 326"
abbreviation (input) T_CATCH :: token where "T_CATCH \<equiv> 327"
abbreviation (input) T_FINALLY :: token where "T_FINALLY \<equiv> 329"
abbreviation (input) T_YYFALSE :: token where "T_YYFALSE \<equiv> 330"
abbreviation (input) T_YYTRUE :: token where "T_YYTRUE \<equiv> 331"
abbreviation (input) T_DEFAULT :: token where "T_DEFAULT \<equiv> 332"
abbreviation (input) T_THROW :: token where "T_THROW \<equiv> 333"
abbreviation (input) T_LSHIFT :: token where "T_LSHIFT \<equiv> 334"
abbreviation (input) T_RSHIFT :: token where "T_RSHIFT \<equiv> 335"

text \<open>The texts \<open>sprintf\<close> writes for the error numbers of \<open>parseerrors.h\<close>.\<close>

definition LEX_INVALID_NUMBER_FORMAT :: string where "LEX_INVALID_NUMBER_FORMAT = ''-1''"
definition LEX_UNEXPECTED_ESCAPE :: string where "LEX_UNEXPECTED_ESCAPE = ''-2''"
definition LEX_UNTERMINATED_CHAR :: string where "LEX_UNTERMINATED_CHAR = ''-3''"
definition LEX_UNTERMINATED_STRING :: string where "LEX_UNTERMINATED_STRING = ''-4''"
definition LEX_ERROR :: string where "LEX_ERROR = ''-5''"

lemmas lex_error_defs = LEX_INVALID_NUMBER_FORMAT_def LEX_UNEXPECTED_ESCAPE_def
  LEX_UNTERMINATED_CHAR_def LEX_UNTERMINATED_STRING_def LEX_ERROR_def

subsection \<open>The state and its construction\<close>

definition LEX_TOKE_BUF :: nat where "LEX_TOKE_BUF = 512"

record jspplex =
  buffer :: string
  pos :: nat
  lineno :: int
  token :: "token option"
  lex :: string
  overrun :: bool

text \<open>
  The constructors: \<open>mok\<close> says whether \<open>malloc\<close> returned memory for the lexer, \<open>sok\<close> whether the
  string library made the copy of the source; there is no test of it, so a lexer can be made
  without a buffer, which every use of it follows. \<open>token\<close> is not set. \<open>BadRead\<close> is a read through
  that null pointer, or past the end of the source.
\<close>

datatype lex_made = NoMemory | NoBuffer | BadRead | Made jspplex

definition lex_init :: "string \<Rightarrow> nat \<Rightarrow> jspplex" where
  "lex_init s p = \<lparr>buffer = s, pos = p, lineno = 1, token = None, lex = [], overrun = False\<rparr>"

definition jspplexConstructChar :: "bool \<Rightarrow> bool \<Rightarrow> string \<Rightarrow> lex_made" where
  "jspplexConstructChar mok sok s =
     (if \<not> mok then NoMemory else if \<not> sok then NoBuffer else Made (lex_init s 0))"

text \<open>The first line is skipped when it starts with '#'; the loop has no bound check.\<close>

fun skip_line :: "string \<Rightarrow> nat \<Rightarrow> nat option" where
  "skip_line [] n = None"
| "skip_line (c # cs) n =
     (if c = CHR 0x0D \<or> c = CHR 0x0A then Some n else skip_line cs (Suc n))"

definition jspplexConstructBuf :: "bool \<Rightarrow> bool \<Rightarrow> string \<Rightarrow> lex_made" where
  "jspplexConstructBuf mok sok s =
     (if \<not> mok then NoMemory
      else if \<not> sok then BadRead
      else if s \<noteq> [] \<and> hd s = CHR ''#'' then
        (case skip_line s 0 of None \<Rightarrow> BadRead | Some p \<Rightarrow> Made (lex_init s p))
      else Made (lex_init s 0))"

subsection \<open>Reading and giving back characters\<close>

definition getch :: "jspplex \<Rightarrow> int \<times> jspplex" where
  "getch lexp =
     (if length (buffer lexp) \<le> pos lexp then (-1, lexp)
      else let ch = schar (buffer lexp ! pos lexp); lexp' = lexp\<lparr>pos := Suc (pos lexp)\<rparr>
           in (ch, if ch = 10 then lexp'\<lparr>lineno := lineno lexp + 1\<rparr> else lexp'))"

definition ungetch :: "jspplex \<Rightarrow> int \<Rightarrow> int option \<times> jspplex" where
  "ungetch lexp ch =
     (if buffer lexp = [] then (Some (-1), lexp)
      else if ch = -1 then (Some (-1), lexp)
      else let lexp' = (if ch = 10 then lexp\<lparr>lineno := lineno lexp - 1\<rparr> else lexp);
               p = pos lexp - 1
           in (if p = 0 then None else Some (schar (buffer lexp ! (p - 1))), lexp'\<lparr>pos := p\<rparr>))"

abbreviation unget :: "jspplex \<Rightarrow> int \<Rightarrow> jspplex" where
  "unget lexp ch \<equiv> snd (ungetch lexp ch)"

definition getescape :: "jspplex \<Rightarrow> int \<times> jspplex" where
  "getescape lexp =
     (let (ch, lexp) = getch lexp
      in ((if ch = 110 then 10 else if ch = 114 then 13 else if ch = 116 then 9
           else if ch = 118 then 11 else if ch = 39 then 39 else if ch = 92 then 92
           else -1), lexp))"

text \<open>Stores into the token buffer: a character at index \<open>lexpos\<close>, and the final NUL.\<close>

definition lexput :: "string \<Rightarrow> int \<Rightarrow> jspplex \<Rightarrow> string \<times> jspplex" where
  "lexput acc ch lexp =
     (acc @ [to_char ch], lexp\<lparr>overrun := overrun lexp \<or> LEX_TOKE_BUF \<le> length acc\<rparr>)"

definition lexend :: "string \<Rightarrow> jspplex \<Rightarrow> jspplex" where
  "lexend acc lexp = lexp\<lparr>lex := acc, overrun := overrun lexp \<or> LEX_TOKE_BUF \<le> length acc\<rparr>"

definition settoken :: "token \<Rightarrow> jspplex \<Rightarrow> token \<times> jspplex" where
  "settoken t lexp = (t, lexp\<lparr>token := Some t\<rparr>)"

definition lexerror :: "string \<Rightarrow> jspplex \<Rightarrow> token \<times> jspplex" where
  "lexerror msg lexp = settoken T_LEXERROR (lexp\<lparr>lex := msg\<rparr>)"

subsection \<open>What every reading step keeps\<close>

text \<open>
  \<open>lex_fwd a b\<close>: b reads the same buffer as a, at a position that is not before a's and not past
  the end, and its line number has grown by the newlines between the two positions.
\<close>

definition newlines :: "string \<Rightarrow> int" where
  "newlines s = int (length (filter (\<lambda>c. schar c = 10) s))"

definition lex_fwd :: "jspplex \<Rightarrow> jspplex \<Rightarrow> bool" where
  "lex_fwd a b \<longleftrightarrow> buffer b = buffer a \<and> pos a \<le> pos b
     \<and> (pos a \<le> length (buffer a) \<longrightarrow> pos b \<le> length (buffer a)
        \<and> lineno b - newlines (take (pos b) (buffer a))
          = lineno a - newlines (take (pos a) (buffer a)))"

lemma lex_fwd_refl [lex_adv, simp, intro!]: "lex_fwd a a"
  by (simp add: lex_fwd_def)

lemma lex_fwd_trans: "lex_fwd a b \<Longrightarrow> lex_fwd b c \<Longrightarrow> lex_fwd a c"
  by (auto simp: lex_fwd_def)

lemma lex_fwd_fields [simp]:
  "lex_fwd a (b\<lparr>token := t\<rparr>) = lex_fwd a b"
  "lex_fwd a (b\<lparr>lex := s\<rparr>) = lex_fwd a b"
  "lex_fwd a (b\<lparr>overrun := r\<rparr>) = lex_fwd a b"
  "lex_fwd (a\<lparr>overrun := r\<rparr>) b = lex_fwd a b"
  by (simp_all add: lex_fwd_def)

lemma lex_fwd_pos: "lex_fwd a b \<Longrightarrow> pos a \<le> pos b"
  by (simp add: lex_fwd_def)

lemma lex_fwd_buffer: "lex_fwd a b \<Longrightarrow> buffer b = buffer a"
  by (simp add: lex_fwd_def)

lemma lex_fwd_store [simp]:
  "lex_fwd a (snd (lexput acc ch b)) = lex_fwd a b"
  "lex_fwd a (lexend acc b) = lex_fwd a b"
  "lex_fwd a (snd (settoken t b)) = lex_fwd a b"
  "lex_fwd a (snd (lexerror m b)) = lex_fwd a b"
  by (simp_all add: lexput_def lexend_def settoken_def lexerror_def)

lemma newlines_take_Suc:
  "n < length s \<Longrightarrow> newlines (take (Suc n) s)
     = newlines (take n s) + (if schar (s ! n) = 10 then 1 else 0)"
  by (simp add: newlines_def take_Suc_conv_app_nth)

lemma getch_fwd [lex_adv, simp]: "lex_fwd a (snd (getch a))"
  by (simp add: getch_def lex_fwd_def Let_def newlines_take_Suc)

text \<open>Giving back the character just read returns to where it was read; -1 gives nothing back.\<close>

lemma unget_getch:
  "getch a = (ch, b) \<Longrightarrow> unget b ch = (if ch = -1 then b else a)"
  by (auto simp: getch_def ungetch_def Let_def split: if_splits)

lemma getch_consumes: "getch a = (ch, b) \<Longrightarrow> ch \<noteq> -1 \<Longrightarrow> pos a < length (buffer a) \<and> pos b = Suc (pos a)"
  by (auto simp: getch_def Let_def split: if_splits)

lemma getch_fwdI: "getch a = (ch, b) \<Longrightarrow> lex_fwd a b"
  by (metis getch_fwd snd_conv)

lemma getch_keeps: "getch a = (ch, b) \<Longrightarrow> buffer b = buffer a \<and> lex b = lex a \<and> token b = token a \<and> overrun b = overrun a"
  by (auto simp: getch_def Let_def split: if_splits)


subsection \<open>The loops\<close>

text \<open>
  A scan \<open>while (p(ch)) { lex[lexpos++] = ch; ch = getch(); }\<close>: the character that stopped it,
  the bytes stored so far, the state. The classes scanned do not hold of -1, so the second
  conjunct of the guard changes nothing; it is what makes every scan stop. The last loop of
  this section is the nested comment's; \<open>n\<close> is \<open>opencount\<close>.
\<close>

lemma getch_measure:
  "getch a = (ch, b) \<Longrightarrow>
     length (buffer b) - pos b < length (buffer a) - pos a
     \<or> length (buffer b) - pos b = length (buffer a) - pos a \<and> ch = -1"
  by (auto simp: getch_def Let_def split: if_splits)

lemma overrun_measure [simp]:
  "buffer (snd (lexput acc ch a)) = buffer a" "pos (snd (lexput acc ch a)) = pos a"
  "lex (snd (lexput acc ch a)) = lex a" "lineno (snd (lexput acc ch a)) = lineno a"
  by (simp_all add: lexput_def)

function lex_span :: "(int \<Rightarrow> bool) \<Rightarrow> jspplex \<Rightarrow> int \<Rightarrow> string \<Rightarrow> int \<times> string \<times> jspplex" where
  "lex_span p lexp ch acc =
     (if p ch \<and> ch \<noteq> -1 then
        let (acc', lexp) = lexput acc ch lexp; (ch', lexp) = getch lexp
        in lex_span p lexp ch' acc'
      else (ch, acc, lexp))"
  by pat_completeness auto
termination
proof (relation "measures [\<lambda>(p, l, ch, acc). length (buffer l) - pos l,
    \<lambda>(p, l, ch, acc). if ch = -1 then 0 else 1]", goal_cases)
  case (2 p l ch acc x acc' l' y ch' l2)
  from getch_measure [of l' ch' l2] 2 show ?case
    by (auto simp: lexput_def)
qed simp

declare lex_span.simps [simp del]

function lex_strip :: "jspplex \<Rightarrow> int \<Rightarrow> (int \<Rightarrow> bool) \<Rightarrow> int \<times> jspplex" where
  "lex_strip lexp ch p =
     (if p ch \<and> ch \<noteq> -1 then let (ch', lexp) = getch lexp in lex_strip lexp ch' p
      else (ch, lexp))"
  by pat_completeness auto
termination
proof (relation "measures [\<lambda>(l, ch, p). length (buffer l) - pos l,
    \<lambda>(l, ch, p). if ch = -1 then 0 else 1]", goal_cases)
  case (2 l ch p x ch' l2)
  from getch_measure [of l ch' l2] 2 show ?case by auto
qed simp

declare lex_strip.simps [simp del]

definition isws :: "int \<Rightarrow> bool" where
  "isws ch \<longleftrightarrow> \<not> (isalnum ch \<or> ispunct ch \<or> ch = -1)"

definition stripWS :: "jspplex \<Rightarrow> jspplex" where
  "stripWS lexp =
     (let (ch, lexp) = getch lexp; (ch, lexp) = lex_strip lexp ch isws in unget lexp ch)"

definition isident :: "int \<Rightarrow> bool" where
  "isident ch \<longleftrightarrow> isalnum ch \<or> ch = 95"

definition skip_eol :: "jspplex \<Rightarrow> int \<Rightarrow> jspplex" where
  "skip_eol lexp ch = snd (lex_strip lexp ch (\<lambda>ch. ch \<noteq> 10 \<and> ch > 0))"

definition star_or_slash :: "jspplex \<Rightarrow> int \<Rightarrow> int \<times> jspplex" where
  "star_or_slash lexp ch = lex_strip lexp ch (\<lambda>ch. ch \<noteq> 42 \<and> ch \<noteq> 47 \<and> ch > 0)"

definition comment_round :: "jspplex \<Rightarrow> int \<Rightarrow> int \<Rightarrow> int \<times> int \<times> jspplex" where
  "comment_round lexp ch n =
     (let (ch, lexp) = star_or_slash lexp ch;
          (n, ch, lexp) = (if ch = 42 then
              (let (ch, lexp) = getch lexp in (if ch = 47 then n - 1 else n, ch, lexp))
            else (n, ch, lexp))
      in if ch = 47 then
           (let (ch, lexp) = getch lexp in (if ch = 42 then n + 1 else n, ch, lexp))
         else (n, ch, lexp))"

lemma lex_strip_fwd [lex_adv]: "lex_fwd a b \<Longrightarrow> lex_fwd a (snd (lex_strip b ch p))"
proof (induction b ch p rule: lex_strip.induct)
  case (1 b ch p)
  obtain c l where g: "getch b = (c, l)" by fastforce
  from 1(2) getch_fwdI [OF g] have "lex_fwd a l" by (rule lex_fwd_trans)
  with 1 g show ?case by (simp add: lex_strip.simps [of b])
qed

lemma lex_strip_stops: "lex_strip b ch p = (ch', b') \<Longrightarrow> \<not> p ch' \<or> ch' = -1"
proof (induction b ch p arbitrary: ch' b' rule: lex_strip.induct)
  case (1 b ch p)
  obtain c l where "getch b = (c, l)" by fastforce
  with 1 show ?case by (auto simp: lex_strip.simps [of b] split: if_splits)
qed

text \<open>Either the scan read something, or it stopped at once or at the end.\<close>

lemma lex_strip_measure:
  "lex_strip b ch p = (ch', b') \<Longrightarrow>
     length (buffer b') - pos b' < length (buffer b) - pos b
     \<or> length (buffer b') - pos b' = length (buffer b) - pos b \<and> (ch' = -1 \<or> ch' = ch)"
proof (induction b ch p arbitrary: ch' b' rule: lex_strip.induct)
  case (1 b ch p)
  show ?case
  proof (cases "p ch \<and> ch \<noteq> -1")
    case True
    obtain c l where g: "getch b = (c, l)" by fastforce
    with 1(2) True have "lex_strip l c p = (ch', b')" by (simp add: lex_strip.simps [of b])
    from 1(1) [OF True g [symmetric] refl this] getch_measure [OF g] show ?thesis by auto
  next
    case False
    with 1(2) show ?thesis by (simp add: lex_strip.simps [of b])
  qed
qed

lemma comment_round_measure:
  assumes "comment_round b ch n = (n', ch', b')" "ch > 0"
  shows "length (buffer b') - pos b' < length (buffer b) - pos b
     \<or> length (buffer b') - pos b' = length (buffer b) - pos b \<and> ch' \<le> 0"
proof -
  obtain c1 b1 where s: "star_or_slash b ch = (c1, b1)" by fastforce
  from s have m: "length (buffer b1) - pos b1 < length (buffer b) - pos b
     \<or> length (buffer b1) - pos b1 = length (buffer b) - pos b \<and> (c1 = -1 \<or> c1 = ch)"
    unfolding star_or_slash_def by (rule lex_strip_measure)
  from s have e: "c1 = 42 \<or> c1 = 47 \<or> c1 \<le> 0"
    unfolding star_or_slash_def by (auto dest: lex_strip_stops)
  obtain c2 b2 where g: "getch b1 = (c2, b2)" by fastforce
  obtain c3 b3 where h: "getch b2 = (c3, b3)" by fastforce
  show ?thesis
    using assms s m e g h getch_measure [OF g] getch_measure [OF h]
    by (auto simp: comment_round_def split: if_splits)
qed

function skip_comment :: "jspplex \<Rightarrow> int \<Rightarrow> int \<Rightarrow> jspplex" where
  "skip_comment lexp ch n =
     (if n > 0 \<and> ch > 0 then
        let (n, ch, lexp) = comment_round lexp ch n in skip_comment lexp ch n
      else lexp)"
  by pat_completeness auto
termination
proof (relation "measures [\<lambda>(l, ch, n). length (buffer l) - pos l,
    \<lambda>(l, ch, n). if ch \<le> 0 then 0 else 1]", goal_cases)
  case (2 l ch n x n' y ch' l')
  from comment_round_measure [of l ch n n' ch' l'] 2 show ?case by auto
qed simp

declare skip_comment.simps [simp del]


subsection \<open>One token\<close>

text \<open>Numbers. \<open>lex_number\<close> is entered with the first digit or the dot already read.\<close>

definition lex_hex :: "string \<Rightarrow> int \<Rightarrow> jspplex \<Rightarrow> token \<times> jspplex" where
  "lex_hex acc ch lexp =
     (if length acc \<noteq> 1 then lexerror LEX_INVALID_NUMBER_FORMAT lexp
      else if acc ! 0 \<noteq> CHR ''0'' then lexerror LEX_INVALID_NUMBER_FORMAT lexp
      else let (acc, lexp) = lexput acc ch lexp; (ch, lexp) = getch lexp;
               (ch, acc, lexp) = lex_span isdigit lexp ch acc
           in settoken T_HEX (unget (lexend acc lexp) ch))"

definition lex_fraction :: "token \<Rightarrow> int \<Rightarrow> string \<Rightarrow> jspplex \<Rightarrow> token \<times> int \<times> string \<times> jspplex" where
  "lex_fraction toke ch acc lexp =
     (if ch = 46 then
        let (acc, lexp) = lexput acc ch lexp; (ch, lexp) = getch lexp
        in (T_REAL, lex_span isdigit lexp ch acc)
      else (toke, ch, acc, lexp))"

definition lex_exponent :: "token \<Rightarrow> int \<Rightarrow> string \<Rightarrow> jspplex \<Rightarrow> token \<times> int \<times> string \<times> jspplex" where
  "lex_exponent toke ch acc lexp =
     (if ch = 101 \<or> ch = 69 then
        let (acc, lexp) = lexput acc ch lexp; (ch, lexp) = getch lexp;
            (ch, acc, lexp) =
              (if ch = 43 \<or> ch = 45 then
                 let (acc, lexp) = lexput acc ch lexp; (ch, lexp) = getch lexp in (ch, acc, lexp)
               else (ch, acc, lexp))
        in (T_REAL, lex_span isdigit lexp ch acc)
      else (toke, ch, acc, lexp))"

definition lex_number_tail :: "token \<Rightarrow> int \<Rightarrow> jspplex \<Rightarrow> token \<times> jspplex" where
  "lex_number_tail toke ch lexp =
     (let (ch, acc, lexp) = lex_span isdigit lexp ch []
      in if ch = 120 then lex_hex acc ch lexp
         else let (toke, ch, acc, lexp) = lex_fraction toke ch acc lexp;
                  (toke, ch, acc, lexp) = lex_exponent toke ch acc lexp
              in settoken toke (lexend acc (unget lexp ch)))"

definition lex_number :: "int \<Rightarrow> jspplex \<Rightarrow> token \<times> jspplex" where
  "lex_number ch lexp =
     (if ch = 46 then
        let (ch, lexp) = getch lexp
        in if \<not> isdigit ch then settoken T_DOT (unget lexp ch)
           else (case ungetch lexp ch of
                   (None, lexp) \<Rightarrow> lex_number_tail T_REAL (-1) lexp
                 | (Some ch, lexp) \<Rightarrow> lex_number_tail T_REAL ch lexp)
      else lex_number_tail T_INT ch lexp)"

text \<open>Identifiers and keywords, the \<open>strcmp\<close> chain in its order.\<close>

definition keyword_table :: "(string \<times> token) list" where
  "keyword_table =
     [(''var'', T_VAR), (''if'', T_IF), (''else'', T_ELSE), (''return'', T_RETURN),
      (''while'', T_WHILE), (''do'', T_DO), (''for'', T_FOR), (''break'', T_BREAK),
      (''static'', T_STATIC), (''class'', T_CLASS), (''public'', T_PUBLIC),
      (''private'', T_PRIVATE), (''protected'', T_PROTECTED), (''continue'', T_CONTINUE),
      (''switch'', T_SWITCH), (''case'', T_CASE), (''default'', T_DEFAULT), (''new'', T_NEW),
      (''delete'', T_DELETE), (''const'', T_CONST), (''null'', T_JNULL), (''try'', T_TRY),
      (''catch'', T_CATCH), (''finally'', T_FINALLY), (''throw'', T_THROW),
      (''true'', T_YYTRUE), (''false'', T_YYFALSE)]"

definition keyword :: "string \<Rightarrow> token" where
  "keyword s = (case map_of keyword_table s of None \<Rightarrow> T_ID | Some t \<Rightarrow> t)"

definition lex_ident :: "int \<Rightarrow> jspplex \<Rightarrow> token \<times> jspplex" where
  "lex_ident ch lexp =
     (let (ch, acc, lexp) = lex_span isident lexp ch []
      in settoken (keyword acc) (lexend acc (unget lexp ch)))"

text \<open>Character and string literals.\<close>

text \<open>A backslash reads an escape; the flag is the test of its result against -1.\<close>

definition unescape :: "int \<Rightarrow> jspplex \<Rightarrow> bool \<times> int \<times> jspplex" where
  "unescape ch lexp =
     (if ch = 92 then let (ch, lexp) = getescape lexp in (ch = -1, ch, lexp)
      else (False, ch, lexp))"

definition lex_char :: "jspplex \<Rightarrow> token \<times> jspplex" where
  "lex_char lexp =
     (let (ch, lexp) = getch lexp; (bad, ch, lexp) = unescape ch lexp
      in if bad then lexerror LEX_UNEXPECTED_ESCAPE lexp
         else let (acc, lexp) = lexput [] ch lexp; lexp = lexend acc lexp; (ch, lexp) = getch lexp
              in if ch \<noteq> 39 then lexerror LEX_UNTERMINATED_CHAR lexp else settoken T_CHAR lexp)"

function lex_string_loop :: "jspplex \<Rightarrow> string \<Rightarrow> token \<times> jspplex" where
  "lex_string_loop lexp acc =
     (let (ch, lexp) = getch lexp
      in if ch \<noteq> -1 \<and> ch \<noteq> 34 \<and> length acc < LEX_TOKE_BUF then
           let (bad, ch, lexp) = unescape ch lexp
           in if bad then lexerror LEX_UNEXPECTED_ESCAPE lexp
              else let (acc, lexp) = lexput acc ch lexp in lex_string_loop lexp acc
         else if length acc = LEX_TOKE_BUF \<or> ch = -1 then lexerror LEX_UNTERMINATED_STRING lexp
         else settoken T_STRING (lexend acc lexp))"
  by pat_completeness auto
termination
  by (relation "measure (\<lambda>(l, acc). LEX_TOKE_BUF - length acc)") (auto simp: lexput_def)

declare lex_string_loop.simps [simp del]

text \<open>
  The operators: read one more character, and give it back unless it completes a longer token.
\<close>

definition follow :: "jspplex \<Rightarrow> (int \<times> token) list \<Rightarrow> token \<Rightarrow> token \<times> jspplex" where
  "follow lexp longer single =
     (let (ch, lexp) = getch lexp
      in case map_of longer ch of
           Some t \<Rightarrow> settoken t lexp
         | None \<Rightarrow> settoken single (unget lexp ch))"

definition lex_operator_tail :: "int \<Rightarrow> jspplex \<Rightarrow> token \<times> jspplex" where
  "lex_operator_tail ch lexp =
     (if ch = 37 then follow lexp [(61, T_MODEQ)] T_MOD
      else if ch = 94 then follow lexp [(61, T_XOREQ)] T_XOR
      else if ch = 126 then follow lexp [(61, T_COMPEQ)] T_COMP
      else if ch = 58 then follow lexp [(58, T_SCOPE)] T_COLON
      else if ch = 59 then settoken T_SEMI lexp
      else if ch = 44 then settoken T_COMMA lexp
      else if ch = 60 then follow lexp [(61, T_LTEQ), (60, T_LSHIFT)] T_LT
      else if ch = 62 then follow lexp [(61, T_GTEQ), (62, T_RSHIFT)] T_GT
      else lexerror LEX_ERROR lexp)"

definition lex_operator :: "int \<Rightarrow> jspplex \<Rightarrow> token \<times> jspplex" where
  "lex_operator ch lexp =
     (if ch = 124 then follow lexp [(124, T_OR), (61, T_OREQ)] T_PIPE
      else if ch = 38 then follow lexp [(38, T_AND), (61, T_ANDEQ)] T_AMPR
      else if ch = 123 then settoken T_LBRACE lexp
      else if ch = 125 then settoken T_RBRACE lexp
      else if ch = 40 then settoken T_LPAR lexp
      else if ch = 41 then settoken T_RPAR lexp
      else if ch = 91 then settoken T_LBRAC lexp
      else if ch = 93 then settoken T_RBRAC lexp
      else if ch = 33 then follow lexp [(61, T_ISNEQ)] T_BANG
      else if ch = 61 then follow lexp [(61, T_ISEQUAL)] T_ASSIGN
      else if ch = 43 then follow lexp [(61, T_PLUSEQ), (43, T_INC)] T_PLUS
      else if ch = 45 then follow lexp [(61, T_MINUSEQ), (45, T_DEC)] T_MINUS
      else if ch = 42 then follow lexp [(61, T_TIMESEQ)] T_STAR
      else lex_operator_tail ch lexp)"

subsection \<open>Every step moves forward\<close>

text \<open>
  \<open>read_from a ch b\<close>: on the way from a to b the character ch was read last (or the end was
  reached), so that it may be given back.
\<close>

definition read_from :: "jspplex \<Rightarrow> int \<Rightarrow> jspplex \<Rightarrow> bool" where
  "read_from a ch b \<longleftrightarrow> lex_fwd a b \<and> (ch \<noteq> -1 \<longrightarrow>
     pos a < pos b \<and> pos b \<le> length (buffer b) \<and> schar (buffer b ! (pos b - 1)) = ch)"

lemma read_from_fields [simp]:
  "read_from a ch (b\<lparr>lex := s\<rparr>) = read_from a ch b"
  "read_from a ch (b\<lparr>overrun := r\<rparr>) = read_from a ch b"
  "read_from a ch (snd (lexput acc c b)) = read_from a ch b"
  "read_from a ch (lexend acc b) = read_from a ch b"
  by (simp_all add: read_from_def lexput_def lexend_def)

lemma read_from_fwd: "read_from a ch b \<Longrightarrow> lex_fwd a b"
  by (simp add: read_from_def)

lemma getch_read: "getch b = (ch, c) \<Longrightarrow> lex_fwd a b \<Longrightarrow> read_from a ch c"
  using getch_consumes [of b ch c] getch_keeps [of b ch c] lex_fwd_trans [of a b c] getch_fwdI [of b ch c]
  by (auto simp: read_from_def lex_fwd_def) (auto simp: getch_def Let_def split: if_splits)

lemma unget_fwd:
  assumes "read_from a ch b"
  shows "lex_fwd a (unget b ch)"
proof (cases "ch = -1")
  case True
  then show ?thesis using assms by (simp add: read_from_def ungetch_def)
next
  case False
  then obtain n where n: "pos b = Suc n" "pos a \<le> n" "n < length (buffer b)" "schar (buffer b ! n) = ch"
    using assms by (cases "pos b") (auto simp: read_from_def)
  then show ?thesis
    using assms False newlines_take_Suc [of n "buffer b"]
    by (auto simp: read_from_def lex_fwd_def ungetch_def Let_def)
qed

lemma lex_span_read:
  "read_from a ch b \<Longrightarrow> lex_span p b ch acc = (ch', acc', b') \<Longrightarrow> read_from a ch' b'"
proof (induction p b ch acc arbitrary: ch' acc' b' rule: lex_span.induct)
  case (1 p b ch acc)
  show ?case
  proof (cases "p ch \<and> ch \<noteq> -1")
    case True
    obtain s l where l: "lexput acc ch b = (s, l)" by fastforce
    obtain c m where g: "getch l = (c, m)" by fastforce
    have "read_from a ch l" using 1(2) l by (metis read_from_fields(3) snd_conv)
    then have m: "read_from a c m" by (intro getch_read [OF g] read_from_fwd)
    from 1(3) True l g have "lex_span p m c s = (ch', acc', b')" by (simp add: lex_span.simps [of p b])
    from 1(1) [OF True l [symmetric] refl g [symmetric] refl m this] show ?thesis .
  next
    case False
    with 1 show ?thesis by (simp add: lex_span.simps [of p b])
  qed
qed

lemma lex_strip_read:
  "read_from a ch b \<Longrightarrow> lex_strip b ch p = (ch', b') \<Longrightarrow> read_from a ch' b'"
proof (induction b ch p arbitrary: ch' b' rule: lex_strip.induct)
  case (1 b ch p)
  show ?case
  proof (cases "p ch \<and> ch \<noteq> -1")
    case True
    obtain c m where g: "getch b = (c, m)" by fastforce
    have m: "read_from a c m" using 1(2) by (intro getch_read [OF g] read_from_fwd)
    from 1(3) True g have "lex_strip m c p = (ch', b')" by (simp add: lex_strip.simps [of b])
    from 1(1) [OF True g [symmetric] refl m this] show ?thesis .
  next
    case False
    with 1 show ?thesis by (simp add: lex_strip.simps [of b])
  qed
qed

lemma stripWS_fwd [lex_adv, simp]: "lex_fwd a (stripWS a)"
proof -
  obtain c l where g: "getch a = (c, l)" by fastforce
  obtain c' l' where s: "lex_strip l c isws = (c', l')" by fastforce
  have "read_from a c' l'" by (rule lex_strip_read [OF getch_read [OF g] s]) simp
  then show ?thesis by (simp add: stripWS_def g s unget_fwd)
qed

lemma lexput_pair: "lexput acc c b = (acc', b') \<Longrightarrow> b' = snd (lexput acc c b) \<and> acc' = acc @ [to_char c]"
  by (auto simp: lexput_def)

lemma lexput_read: "lexput acc c b = (acc', b') \<Longrightarrow> read_from a ch b \<Longrightarrow> read_from a ch b'"
  by (auto simp: lexput_def)

lemma unget_end_fwd: "read_from a ch b \<Longrightarrow> lex_fwd a (unget (lexend acc b) ch)"
  by (simp add: unget_fwd)

lemma follow_fwd [lex_adv]: "lex_fwd a b \<Longrightarrow> lex_fwd a (snd (follow b alts t))"
proof -
  assume a: "lex_fwd a b"
  obtain c m where g: "getch b = (c, m)" by fastforce
  have m: "read_from a c m" using g a by (rule getch_read)
  then show ?thesis
    using read_from_fwd [OF m] unget_fwd [OF m] by (simp add: follow_def g split: option.splits)
qed

lemma lex_operator_fwd [lex_adv]: "lex_fwd a b \<Longrightarrow> lex_fwd a (snd (lex_operator ch b))"
  by (simp add: lex_operator_def lex_operator_tail_def follow_fwd)

lemma lex_ident_fwd [lex_adv]:
  assumes "read_from a ch b" shows "lex_fwd a (snd (lex_ident ch b))"
proof -
  obtain c s m where l: "lex_span isident b ch [] = (c, s, m)" by (metis prod_cases3)
  from lex_span_read [OF assms l] show ?thesis by (simp add: lex_ident_def l unget_fwd)
qed

lemma lex_hex_fwd:
  assumes "read_from a ch b" shows "lex_fwd a (snd (lex_hex acc ch b))"
proof -
  obtain s l where p: "lexput acc ch b = (s, l)" by fastforce
  obtain c m where g: "getch l = (c, m)" by fastforce
  obtain c' s' m' where q: "lex_span isdigit m c s = (c', s', m')" by (metis prod_cases3)
  have "read_from a c m" by (rule getch_read [OF g read_from_fwd [OF lexput_read [OF p assms]]])
  from lex_span_read [OF this q] have "lex_fwd a (unget (lexend s' m') c')" by (rule unget_end_fwd)
  then show ?thesis using read_from_fwd [OF assms] by (simp add: lex_hex_def p g q)
qed

lemma lex_fraction_read:
  assumes "read_from a ch b" "lex_fraction t ch acc b = (t', ch', acc', b')"
  shows "read_from a ch' b'"
proof -
  obtain s l where p: "lexput acc ch b = (s, l)" by fastforce
  obtain c m where g: "getch l = (c, m)" by fastforce
  have m: "read_from a c m" by (rule getch_read [OF g read_from_fwd [OF lexput_read [OF p assms(1)]]])
  show ?thesis
  proof (cases "ch = 46")
    case True
    with assms(2) p g have "lex_span isdigit m c s = (ch', acc', b')" by (simp add: lex_fraction_def)
    with m show ?thesis by (rule lex_span_read)
  next
    case False
    with assms show ?thesis by (simp add: lex_fraction_def)
  qed
qed

lemma lex_exponent_read:
  assumes "read_from a ch b" "lex_exponent t ch acc b = (t', ch', acc', b')"
  shows "read_from a ch' b'"
proof -
  obtain s l where p: "lexput acc ch b = (s, l)" by fastforce
  obtain c m where g: "getch l = (c, m)" by fastforce
  have m: "read_from a c m" by (rule getch_read [OF g read_from_fwd [OF lexput_read [OF p assms(1)]]])
  obtain s1 l1 where p1: "lexput s c m = (s1, l1)" by fastforce
  obtain c1 m1 where g1: "getch l1 = (c1, m1)" by fastforce
  have "read_from a c1 m1" by (rule getch_read [OF g1 read_from_fwd [OF lexput_read [OF p1 m]]])
  with m assms show ?thesis
    by (auto simp: lex_exponent_def p g p1 g1 split: if_splits intro: lex_span_read)
qed

lemma lex_number_tail_fwd:
  assumes "read_from a ch b" shows "lex_fwd a (snd (lex_number_tail t ch b))"
proof -
  obtain c s m where l: "lex_span isdigit b ch [] = (c, s, m)" by (metis prod_cases3)
  obtain t1 c1 s1 m1 where f: "lex_fraction t c s m = (t1, c1, s1, m1)" by (metis prod_cases4)
  obtain t2 c2 s2 m2 where e: "lex_exponent t1 c1 s1 m1 = (t2, c2, s2, m2)" by (metis prod_cases4)
  have m: "read_from a c m" using assms l by (rule lex_span_read)
  have "read_from a c2 m2" by (rule lex_exponent_read [OF lex_fraction_read [OF m f] e])
  then have "lex_fwd a (unget m2 c2)" by (rule unget_fwd)
  then show ?thesis using lex_hex_fwd [OF m] by (cases "c = 120") (simp_all add: lex_number_tail_def l f e)
qed

text \<open>
  After the dot of a number the digit is given back, and the value \<open>ungetch\<close> returns is the dot,
  which is in the buffer: this use of the returned character never reads before the buffer.
\<close>

lemma ungetch_after_dot:
  assumes "schar (buffer a ! (pos a - 1)) = 46" "0 < pos a" "getch a = (ch, b)" "isdigit ch"
  shows "ungetch b ch = (Some 46, a)"
  using assms by (cases "pos a")
    (auto simp: getch_def ungetch_def Let_def isdigit_def split: if_splits)

lemma lex_number_dot:
  assumes "read_from a 46 b" "getch b = (ch, c)" "isdigit ch"
  shows "lex_number 46 b = lex_number_tail T_REAL 46 b"
proof -
  have "ungetch c ch = (Some 46, b)"
    using assms by (intro ungetch_after_dot) (auto simp: read_from_def lex_fwd_def)
  then show ?thesis using assms by (simp add: lex_number_def)
qed

lemma lex_number_fwd [lex_adv]:
  assumes "read_from a ch b" shows "lex_fwd a (snd (lex_number ch b))"
proof (cases "ch = 46")
  case True
  obtain c m where g: "getch b = (c, m)" by fastforce
  show ?thesis
  proof (cases "isdigit c")
    case True
    with lex_number_dot [of a b c m] g assms \<open>ch = 46\<close> show ?thesis
      by (simp add: lex_number_tail_fwd)
  next
    case False
    have "lex_fwd a (unget m c)"
      by (rule unget_fwd [OF getch_read [OF g read_from_fwd [OF assms]]])
    then show ?thesis using False True g by (simp add: lex_number_def)
  qed
next
  case False
  then show ?thesis using assms by (simp add: lex_number_def lex_number_tail_fwd)
qed

lemma getescape_fwd: "getescape b = (ch, c) \<Longrightarrow> lex_fwd a b \<Longrightarrow> lex_fwd a c"
  by (auto simp: getescape_def split: prod.splits intro: lex_fwd_trans getch_fwdI)

lemma unescape_fwd: "unescape ch b = (bad, ch', c) \<Longrightarrow> lex_fwd a b \<Longrightarrow> lex_fwd a c"
  by (auto simp: unescape_def split: if_splits prod.splits intro: getescape_fwd)

lemma lex_char_fwd [lex_adv]:
  assumes "lex_fwd a b" shows "lex_fwd a (snd (lex_char b))"
proof -
  obtain c m where g: "getch b = (c, m)" by fastforce
  obtain bad c' m' where e: "unescape c m = (bad, c', m')" by (metis prod_cases3)
  obtain s l where p: "lexput [] c' m' = (s, l)" by fastforce
  obtain c2 m2 where h: "getch (lexend s l) = (c2, m2)" by fastforce
  have "lex_fwd a m" using assms getch_fwdI [OF g] by (rule lex_fwd_trans)
  then have m': "lex_fwd a m'" by (rule unescape_fwd [OF e])
  then have "lex_fwd a (lexend s l)" using p by (auto dest: lexput_pair)
  then have "lex_fwd a m2" using getch_fwdI [OF h] by (rule lex_fwd_trans)
  then show ?thesis using m' by (simp add: lex_char_def g e p h)
qed

lemma lex_string_loop_fwd [lex_adv]: "lex_fwd a b \<Longrightarrow> lex_fwd a (snd (lex_string_loop b acc))"
proof (induction b acc rule: lex_string_loop.induct)
  case (1 b acc)
  obtain c m where g: "getch b = (c, m)" by fastforce
  obtain bad c' m' where e: "unescape c m = (bad, c', m')" by (metis prod_cases3)
  obtain s l where p: "lexput acc c' m' = (s, l)" by fastforce
  have m: "lex_fwd a m" using 1(2) getch_fwdI [OF g] by (rule lex_fwd_trans)
  then have m': "lex_fwd a m'" by (rule unescape_fwd [OF e])
  then have l: "lex_fwd a l" using p by (auto dest: lexput_pair)
  show ?case
    using 1(1) [OF g [symmetric] refl _ e [symmetric] refl refl _ p [symmetric] refl l] m m'
    by (simp add: lex_string_loop.simps [of b] g e p)
qed

lemma comment_round_fwd:
  assumes "comment_round b ch n = (n', ch', c)" "lex_fwd a b" shows "lex_fwd a c"
proof -
  obtain c1 b1 where s: "star_or_slash b ch = (c1, b1)" by fastforce
  obtain c2 b2 where g: "getch b1 = (c2, b2)" by fastforce
  obtain c3 b3 where h: "getch b2 = (c3, b3)" by fastforce
  have b1: "lex_fwd a b1" using lex_strip_fwd [OF assms(2)] s by (metis star_or_slash_def snd_conv)
  from b1 getch_fwdI [OF g] have b2: "lex_fwd a b2" by (rule lex_fwd_trans)
  from b2 getch_fwdI [OF h] have b3: "lex_fwd a b3" by (rule lex_fwd_trans)
  show ?thesis using assms(1) s g h b1 b2 b3 by (auto simp: comment_round_def split: if_splits)
qed

lemma skip_comment_fwd [lex_adv]: "lex_fwd a b \<Longrightarrow> lex_fwd a (skip_comment b ch n)"
proof (induction b ch n rule: skip_comment.induct)
  case (1 b ch n)
  obtain n' ch' c where r: "comment_round b ch n = (n', ch', c)" by (metis prod_cases3)
  from comment_round_fwd [OF r 1(2)] 1 r show ?case by (simp add: skip_comment.simps [of b])
qed

lemma skip_eol_fwd [lex_adv]: "lex_fwd a b \<Longrightarrow> lex_fwd a (skip_eol b ch)"
  by (simp add: skip_eol_def lex_strip_fwd)

lemma lex_fwd_shrinks:
  "lex_fwd a b \<Longrightarrow> getch b = (ch, c) \<Longrightarrow> ch \<noteq> -1 \<Longrightarrow> lex_fwd c d
     \<Longrightarrow> pos a < length (buffer a) \<and> buffer d = buffer a \<and> pos a < pos d"
  using getch_consumes [of b ch c] getch_keeps [of b ch c] by (auto simp: lex_fwd_def)

subsection \<open>\<open>jsppLex\<close>\<close>

text \<open>
  A comment is skipped by the call of \<open>jsppLex\<close> itself, which ends because at least the slash
  has been read.
\<close>

function jsppLex :: "jspplex \<Rightarrow> token \<times> jspplex" where
  "jsppLex lexp =
     (let (ch, l) = getch (stripWS lexp)
      in if ch \<le> 0 then settoken T_JEOF l
         else if isdigit ch \<or> ch = 46 then lex_number ch l
         else if isalpha ch \<or> ch = 95 then lex_ident ch l
         else if ch = 39 then lex_char l
         else if ch = 34 then lex_string_loop l []
         else if ch = 47 then
           (let (c, m) = getch l
            in if c = 61 then settoken T_DIVEQ m
               else if c = 47 then jsppLex (skip_eol m c)
               else if c = 42 then jsppLex (skip_comment m c 1)
               else settoken T_SLASH (unget m c))
         else lex_operator ch l)"
  by pat_completeness auto
termination
proof (relation "measure (\<lambda>l. length (buffer l) - pos l)", goal_cases)
  case (2 lexp p ch l q c m)
  have "lex_fwd l (skip_eol m c)"
    using 2(9,10) getch_fwdI [of l c m] skip_eol_fwd by simp
  with 2(1-3,8) lex_fwd_shrinks [of lexp "stripWS lexp" ch l] show ?case by fastforce
next
  case (3 lexp p ch l q c m)
  have "lex_fwd l (skip_comment m c 1)"
    using 3(9,10) getch_fwdI [of l c m] skip_comment_fwd by simp
  with 3(1-3,8) lex_fwd_shrinks [of lexp "stripWS lexp" ch l] show ?case by fastforce
qed simp

declare jsppLex.simps [simp del]

lemma jsppLex_fwd: "lex_fwd lexp (snd (jsppLex lexp))"
proof (induction lexp rule: jsppLex.induct)
  case (1 lexp)
  obtain ch l where g: "getch (stripWS lexp) = (ch, l)" by fastforce
  obtain c m where h: "getch l = (c, m)" by fastforce
  have l: "read_from lexp ch l" using g by (rule getch_read) simp
  have m: "read_from lexp c m" using h read_from_fwd [OF l] by (rule getch_read)
  have e: "lex_fwd lexp (snd (jsppLex (skip_eol m c)))" if "\<not> ch \<le> 0" "ch = 47" "c = 47"
    using 1(1) [OF g [symmetric] refl _ _ _ _ _ that(2) h [symmetric] refl] that
      skip_eol_fwd [OF read_from_fwd [OF m]] by (auto simp: ctype_defs intro: lex_fwd_trans)
  have k: "lex_fwd lexp (snd (jsppLex (skip_comment m c 1)))" if "\<not> ch \<le> 0" "ch = 47" "c = 42"
    using 1(2) [OF g [symmetric] refl _ _ _ _ _ that(2) h [symmetric] refl] that
      skip_comment_fwd [OF read_from_fwd [OF m]] by (auto simp: ctype_defs intro: lex_fwd_trans)
  show ?case
    using e k l m read_from_fwd [OF l] read_from_fwd [OF m] lex_number_fwd [OF l] lex_ident_fwd [OF l]
    by (subst jsppLex.simps)
       (simp add: g h unget_fwd lex_operator_fwd lex_char_fwd lex_string_loop_fwd)
qed

text \<open>A scan that accepts its first character gives back nothing before it.\<close>

lemma lex_span_step:
  assumes "p ch" "ch \<noteq> -1" "lex_span p b ch acc = (ch', acc', b')"
  shows "read_from b ch' b'"
proof -
  obtain s l where p: "lexput acc ch b = (s, l)" by fastforce
  obtain c m where g: "getch l = (c, m)" by fastforce
  have "lex_fwd b l" using p by (auto dest: lexput_pair)
  with g have "read_from b c m" by (rule getch_read)
  then show ?thesis using assms p g by (auto simp: lex_span.simps [of p b] intro: lex_span_read)
qed

lemma lex_ident_step:
  assumes "isident ch" shows "lex_fwd b (snd (lex_ident ch b))"
proof -
  obtain c s m where l: "lex_span isident b ch [] = (c, s, m)" by (metis prod_cases3)
  have "ch \<noteq> -1" using assms by (auto simp: isident_def ctype_defs)
  from lex_span_step [OF assms this l] show ?thesis by (simp add: lex_ident_def l unget_fwd)
qed

lemma lex_number_tail_step:
  assumes "isdigit ch \<or> ch = 46" shows "lex_fwd b (snd (lex_number_tail t ch b))"
proof -
  obtain c s m where l: "lex_span isdigit b ch [] = (c, s, m)" by (metis prod_cases3)
  obtain t1 c1 s1 m1 where f: "lex_fraction t c s m = (t1, c1, s1, m1)" by (metis prod_cases4)
  obtain t2 c2 s2 m2 where e: "lex_exponent t1 c1 s1 m1 = (t2, c2, s2, m2)" by (metis prod_cases4)
  show ?thesis
  proof (cases "ch = 46")
    case True
    then have c: "c = 46" "m = b" using l by (auto simp: lex_span.simps [of _ b] isdigit_def)
    obtain s' l' where p: "lexput s 46 b = (s', l')" by fastforce
    obtain c' m' where g: "getch l' = (c', m')" by fastforce
    have "lex_fwd b l'" using p by (auto dest: lexput_pair)
    with g have "read_from b c' m'" by (rule getch_read)
    then have "read_from b c1 m1" using f c p g by (auto simp: lex_fraction_def intro: lex_span_read)
    then have "read_from b c2 m2" using e by (rule lex_exponent_read)
    then have "lex_fwd b (unget m2 c2)" by (rule unget_fwd)
    then show ?thesis using c(1) f e by (simp add: lex_number_tail_def l)
  next
    case False
    with assms have d: "isdigit ch" "ch \<noteq> -1" by (auto simp: isdigit_def)
    from lex_span_step [OF d l] have m: "read_from b c m" .
    have "read_from b c2 m2" by (rule lex_exponent_read [OF lex_fraction_read [OF m f] e])
    then have "lex_fwd b (unget m2 c2)" by (rule unget_fwd)
    then show ?thesis using lex_hex_fwd [OF m] by (cases "c = 120") (simp_all add: lex_number_tail_def l f e)
  qed
qed

lemma lex_number_step:
  assumes "isdigit ch \<or> ch = 46" "ch = 46 \<Longrightarrow> read_from a 46 b"
  shows "lex_fwd b (snd (lex_number ch b))"
proof (cases "ch = 46")
  case True
  obtain c m where g: "getch b = (c, m)" by fastforce
  show ?thesis
  proof (cases "isdigit c")
    case True
    with lex_number_dot [of a b c m] g assms \<open>ch = 46\<close> show ?thesis
      by (simp add: lex_number_tail_step)
  next
    case False
    have "lex_fwd b (unget m c)" by (rule unget_fwd [OF getch_read [OF g]]) simp
    then show ?thesis using False True g by (simp add: lex_number_def)
  qed
next
  case False
  then show ?thesis using assms by (simp add: lex_number_def lex_number_tail_step)
qed

text \<open>Unless the end is reported, something was read.\<close>

lemma jsppLex_reads:
  assumes "fst (jsppLex lexp) \<noteq> T_JEOF"
  shows "pos lexp < pos (snd (jsppLex lexp)) \<and> pos lexp < length (buffer lexp)"
proof -
  obtain ch l where g: "getch (stripWS lexp) = (ch, l)" by fastforce
  obtain c m where h: "getch l = (c, m)" by fastforce
  have ch: "ch > 0"
    using assms g by (cases "ch > 0") (auto simp: jsppLex.simps [of lexp] settoken_def)
  have r: "read_from lexp ch l" using g by (rule getch_read) simp
  have m: "read_from l c m" using h by (rule getch_read) simp
  have e: "lex_fwd l (snd (jsppLex (skip_eol m c)))" "lex_fwd l (snd (jsppLex (skip_comment m c n)))" for n
    using skip_eol_fwd [OF read_from_fwd [OF m]] skip_comment_fwd [OF read_from_fwd [OF m]]
    by (blast intro: lex_fwd_trans jsppLex_fwd)+
  have "lex_fwd l (snd (jsppLex lexp))"
    using ch m e lex_number_step [of ch lexp l] r read_from_fwd [OF m] lex_ident_step [of ch l]
    by (subst jsppLex.simps)
       (auto simp: g h unget_fwd lex_operator_fwd lex_char_fwd lex_string_loop_fwd isident_def isalnum_def)
  with ch lex_fwd_shrinks [OF stripWS_fwd g] show ?thesis by auto
qed


subsection \<open>The remaining input\<close>

text \<open>
  \<open>rest\<close> is what is still to be read. The functional lemmas say which prefix of it a step
  consumes and what it returns; \<open>ends p s\<close> says that a scan of class p stops before s (a byte
  255 is read as -1, and is not given back).
\<close>

definition rest :: "jspplex \<Rightarrow> string" where
  "rest lexp = drop (pos lexp) (buffer lexp)"

definition ends :: "(int \<Rightarrow> bool) \<Rightarrow> string \<Rightarrow> bool" where
  "ends p s \<longleftrightarrow> (s = [] \<or> \<not> p (schar (hd s)) \<and> schar (hd s) \<noteq> -1)"

text \<open>\<open>lex_same a b\<close>: b is a at a later position, with nothing stored in between.\<close>

definition lex_same :: "jspplex \<Rightarrow> jspplex \<Rightarrow> bool" where
  "lex_same a b \<longleftrightarrow> lex b = lex a \<and> overrun b = overrun a"

lemma rest_fields [simp]:
  "rest (b\<lparr>token := t\<rparr>) = rest b" "rest (b\<lparr>lex := s\<rparr>) = rest b" "rest (b\<lparr>overrun := r\<rparr>) = rest b"
  "rest (snd (lexput acc c b)) = rest b" "rest (lexend acc b) = rest b"
  by (simp_all add: rest_def lexput_def lexend_def)

lemma unget_fields [simp]:
  "rest (unget (b\<lparr>overrun := r\<rparr>) ch) = rest (unget b ch)"
  "overrun (unget b ch) = overrun b" "lex (unget b ch) = lex b"
  by (simp_all add: ungetch_def rest_def Let_def)

lemma getch_rest:
  assumes "rest b = c # s"
  obtains m where "getch b = (schar c, m)" "rest m = s" "lex_same b m" "schar c \<noteq> -1 \<longrightarrow> unget m (schar c) = b"
proof -
  have n: "pos b < length (buffer b)"
    using assms by (cases "pos b < length (buffer b)") (auto simp: rest_def)
  then have c: "buffer b ! pos b = c" "drop (Suc (pos b)) (buffer b) = s"
    using assms by (simp_all add: rest_def Cons_nth_drop_Suc [symmetric])
  obtain m where m: "getch b = (schar c, m)" using n c by (simp add: getch_def Let_def)
  show thesis
  proof (rule that [OF m])
    show "rest m = s" using getch_keeps [OF m] n c m
      by (auto simp: getch_def rest_def Let_def split: if_splits)
    show "lex_same b m" using getch_keeps [OF m] by (simp add: lex_same_def)
    show "schar c \<noteq> -1 \<longrightarrow> unget m (schar c) = b" using unget_getch [OF m] by simp
  qed
qed

lemma getch_end: "rest b = [] \<Longrightarrow> getch b = (-1, b)"
  by (simp add: rest_def getch_def)

lemma unget_end [simp]: "unget b (-1) = b"
  by (simp add: ungetch_def)

text \<open>A scan that has just read c, with cs to come, where all of them are of its class.\<close>

lemma lex_span_rest:
  assumes "p (schar c)" "\<forall>x\<in>set cs. p (schar x)" "\<not> p (-1)" "rest b = cs @ s" "ends p s"
  shows "\<exists>ch b'. lex_span p b (schar c) acc = (ch, acc @ c # cs, b') \<and>
    rest (unget b' ch) = s \<and> lex b' = lex b \<and>
    (overrun b' \<longleftrightarrow> overrun b \<or> LEX_TOKE_BUF < length acc + length (c # cs)) \<and>
    ch = (case s of [] \<Rightarrow> -1 | d # _ \<Rightarrow> schar d) \<and> rest b' = tl s"
  using assms
proof (induction cs arbitrary: c b acc)
    case Nil
    have c: "schar c \<noteq> -1" using Nil(1,3) by auto
    let ?l = "snd (lexput acc (schar c) b)"
    have l: "rest ?l = s" using Nil(4) by simp
    show ?case
    proof (cases s)
      case Nil2: Nil
      with l have "getch ?l = (-1, ?l)" by (simp add: getch_end)
      then have "lex_span p b (schar c) acc = (-1, acc @ [c], ?l)"
        using c Nil(1,3) by (simp add: lex_span.simps [of p b] lex_span.simps [of p _ "-1"] lexput_def)
      then show ?thesis using l Nil2 by (auto simp: lexput_def)
    next
      case (Cons d ds)
      with l have "rest ?l = d # ds" by simp
      then obtain m where m: "getch ?l = (schar d, m)" "rest m = ds" "lex_same ?l m"
        "schar d \<noteq> -1 \<longrightarrow> unget m (schar d) = ?l" by (rule getch_rest)
      have "lex_span p b (schar c) acc = (schar d, acc @ [c], m)"
        using c Nil(1,5) Cons m(1)
        by (simp add: lex_span.simps [of p b] lex_span.simps [of p m] lexput_def ends_def)
      then show ?thesis using l Cons m Nil(5)
        by (auto simp: lex_same_def ends_def) (auto simp: lexput_def)
    qed
  next
    case (Cons d cs)
    have c: "schar c \<noteq> -1" using Cons(2,4) by auto
    let ?l = "snd (lexput acc (schar c) b)"
    have l: "rest ?l = d # cs @ s" using Cons(5) by simp
    obtain m where m: "getch ?l = (schar d, m)" "rest m = cs @ s" "lex_same ?l m"
      "schar d \<noteq> -1 \<longrightarrow> unget m (schar d) = ?l" using l by (rule getch_rest)
    have "lex_span p b (schar c) acc = lex_span p m (schar d) (acc @ [c])"
      using c Cons(2) m(1) by (simp add: lex_span.simps [of p b] lexput_def)
    moreover from Cons.IH [of d m "acc @ [c]"] Cons(3-6) m(2)
    obtain ch b' where "lex_span p m (schar d) (acc @ [c]) = (ch, acc @ c # d # cs, b')"
      "rest (unget b' ch) = s" "lex b' = lex m"
      "overrun b' \<longleftrightarrow> overrun m \<or> LEX_TOKE_BUF < length acc + length (c # d # cs)"
      "ch = (case s of [] \<Rightarrow> -1 | d # _ \<Rightarrow> schar d)" "rest b' = tl s" by auto
    ultimately show ?case using m(3) by (auto simp: lex_same_def lexput_def)
qed

lemma lex_strip_rest:
  assumes "p (schar c)" "\<forall>x\<in>set cs. p (schar x)" "\<not> p (-1)" "rest b = cs @ s" "ends p s"
  shows "\<exists>ch b'. lex_strip b (schar c) p = (ch, b') \<and> rest (unget b' ch) = s \<and> lex_same b b' \<and>
    ch = (case s of [] \<Rightarrow> -1 | d # _ \<Rightarrow> schar d) \<and> rest b' = tl s"
  using assms
proof (induction cs arbitrary: c b)
    case Nil
    then have c: "schar c \<noteq> -1" by auto
    show ?case
    proof (cases s)
      case Nil2: Nil
      with Nil(4) have "getch b = (-1, b)" by (simp add: getch_end)
      with c Nil Nil2 show ?thesis
        by (simp add: lex_strip.simps [of b] lex_strip.simps [of _ "-1"] lex_same_def)
    next
      case (Cons d ds)
      with Nil(4) have "rest b = d # ds" by simp
      then obtain m where m: "getch b = (schar d, m)" "rest m = ds" "lex_same b m"
        "schar d \<noteq> -1 \<longrightarrow> unget m (schar d) = b" by (rule getch_rest)
      with c Nil Cons show ?thesis
        by (simp add: lex_strip.simps [of b] lex_strip.simps [of m] ends_def)
    qed
  next
    case (Cons d cs)
    have c: "schar c \<noteq> -1" using Cons(2,4) by auto
    from Cons(5) have "rest b = d # cs @ s" by simp
    then obtain m where m: "getch b = (schar d, m)" "rest m = cs @ s" "lex_same b m"
      "schar d \<noteq> -1 \<longrightarrow> unget m (schar d) = b" by (rule getch_rest)
    with c Cons(2) have "lex_strip b (schar c) p = lex_strip m (schar d) p"
      by (simp add: lex_strip.simps [of b])
    with Cons.IH [of d m] Cons(3-6) m(2,3) show ?case by (auto simp: lex_same_def)
qed

lemma stripWS_rest:
  assumes "rest b = ws @ s" "\<forall>x\<in>set ws. isws (schar x)" "ends isws s"
  shows "rest (stripWS b) = s \<and> lex_same b (stripWS b)"
proof (cases ws)
  case (Cons c cs)
  with assms(1) have "rest b = c # cs @ s" by simp
  then obtain m where m: "getch b = (schar c, m)" "rest m = cs @ s" "lex_same b m"
    "schar c \<noteq> -1 \<longrightarrow> unget m (schar c) = b" by (rule getch_rest)
  have "\<not> isws (-1)" by (simp add: isws_def)
  then obtain ch b' where "lex_strip m (schar c) isws = (ch, b')" "rest (unget b' ch) = s"
      "lex_same m b'"
    using Cons assms(2,3) m(2) lex_strip_rest [of isws c cs m s] by auto
  then show ?thesis using m by (simp add: stripWS_def lex_same_def)
next
  case Nil
  show ?thesis
  proof (cases s)
    case Nil2: Nil
    with Nil assms(1) show ?thesis
      by (simp add: stripWS_def getch_end lex_strip.simps [of b] isws_def lex_same_def)
  next
    case (Cons d ds)
    with Nil assms(1) have "rest b = d # ds" by simp
    then obtain m where m: "getch b = (schar d, m)" "rest m = ds" "lex_same b m"
      "schar d \<noteq> -1 \<longrightarrow> unget m (schar d) = b" by (rule getch_rest)
    with Cons Nil assms show ?thesis
      by (simp add: stripWS_def lex_strip.simps [of m] ends_def lex_same_def)
  qed
qed

text \<open>The first character of a token, after blanks; \<open>blank_then\<close> is the shape of the input.\<close>

definition blank_then :: "string \<Rightarrow> string \<Rightarrow> bool" where
  "blank_then s s' \<longleftrightarrow> (\<exists>ws. s = ws @ s' \<and> (\<forall>x\<in>set ws. isws (schar x)))"

lemma first_char:
  assumes "blank_then (rest b) (c # s)" "\<not> isws (schar c)" "schar c \<noteq> -1"
  obtains l where "getch (stripWS b) = (schar c, l)" "rest l = s" "lex_same b l"
    "unget l (schar c) = stripWS b"
proof -
  obtain ws where "rest b = ws @ c # s" "\<forall>x\<in>set ws. isws (schar x)"
    using assms(1) by (auto simp: blank_then_def)
  then have b: "rest (stripWS b) = c # s" "lex_same b (stripWS b)"
    using stripWS_rest [of b ws "c # s"] assms by (auto simp: ends_def)
  from b(1) obtain l where "getch (stripWS b) = (schar c, l)" "rest l = s" "lex_same (stripWS b) l"
    "schar c \<noteq> -1 \<longrightarrow> unget l (schar c) = stripWS b" by (rule getch_rest)
  with b assms that show thesis by (simp add: lex_same_def)
qed

end
