(* ===== verification/Lexer_Spec.thy ===== *)
theory Lexer_Spec
  imports Lexer
begin

section \<open>What the lexer promises\<close>

text \<open>
  The properties of \<open>jsppLex\<close>: the invariant of every state it reaches, that it reaches the end of
  its input, and, class by class, which token it returns, what it leaves in \<open>lex\<close> and where it
  stops.
\<close>

subsection \<open>Reachable states\<close>

definition lex_inv :: "jspplex \<Rightarrow> bool" where
  "lex_inv lexp \<longleftrightarrow> pos lexp \<le> length (buffer lexp)
     \<and> lineno lexp = 1 + newlines (take (pos lexp) (buffer lexp))"

inductive lexed :: "string \<Rightarrow> jspplex \<Rightarrow> bool" for s where
  from_char: "jspplexConstructChar mok sok s = Made lexp \<Longrightarrow> lexed s lexp"
| from_buf: "jspplexConstructBuf mok sok s = Made lexp \<Longrightarrow> lexed s lexp"
| next_token: "lexed s lexp \<Longrightarrow> jsppLex lexp = (t, lexp') \<Longrightarrow> lexed s lexp'"

lemma lex_inv_fwd: "lex_inv a \<Longrightarrow> lex_fwd a b \<Longrightarrow> lex_inv b"
  by (auto simp: lex_inv_def lex_fwd_def)

lemma lex_inv_start: "lex_inv (lex_init s 0)"
  by (simp add: lex_inv_def lex_init_def newlines_def)

lemma skip_line_prefix:
  "skip_line s n = Some p \<Longrightarrow> n \<le> p \<and> p - n \<le> length s \<and> newlines (take (p - n) s) = 0"
proof (induction s n arbitrary: p rule: skip_line.induct)
  case (2 c cs n)
  show ?case
  proof (cases "c = CHR 0x0D \<or> c = CHR 0x0A")
    case True
    with 2(2) show ?thesis by (auto simp: newlines_def)
  next
    case False
    have c: "schar c \<noteq> 10" using False schar_inj [of c "CHR 0x0A"] by (auto simp: schar_def)
    from False 2 have "Suc n \<le> p \<and> p - Suc n \<le> length cs \<and> newlines (take (p - Suc n) cs) = 0" by auto
    moreover from this have "p - n = Suc (p - Suc n)" by arith
    ultimately show ?thesis using c by (simp add: newlines_def)
  qed
qed simp

lemma lex_inv_skip: "skip_line s 0 = Some p \<Longrightarrow> lex_inv (lex_init s p)"
  by (frule skip_line_prefix) (simp add: lex_inv_def lex_init_def)

text \<open>C9. Every state the lexer reaches, from either constructor and through any number of
  tokens, reads the source it was built from, at a position inside it, and its line number is
  one more than the newlines before that position.\<close>

theorem lexed_invariant:
  assumes "lexed s lexp"
  shows "buffer lexp = s \<and> pos lexp \<le> length s \<and> lineno lexp = 1 + newlines (take (pos lexp) s)"
proof -
  from assms have "buffer lexp = s \<and> lex_inv lexp"
  proof induction
    case (from_char mok sok lexp)
    then show ?case using lex_inv_start
      by (auto simp: jspplexConstructChar_def lex_init_def split: if_splits)
  next
    case (from_buf mok sok lexp)
    then show ?case using lex_inv_start [of s] lex_inv_skip [of s]
      by (auto simp: jspplexConstructBuf_def lex_init_def split: if_splits option.splits)
  next
    case (next_token lexp t lexp')
    then show ?case using jsppLex_fwd [of lexp] by (auto simp: lex_fwd_buffer intro: lex_inv_fwd)
  qed
  then show ?thesis by (auto simp: lex_inv_def)
qed

theorem lexed_invariant_witness:
  "\<exists>t lexp. jsppLex (lex_init [CHR 0x0A, CHR ''a''] 0) = (t, lexp)
     \<and> buffer lexp = [CHR 0x0A, CHR ''a''] \<and> pos lexp \<le> 2"
proof -
  let ?s = "[CHR 0x0A, CHR ''a'']"
  obtain t lexp where j: "jsppLex (lex_init ?s 0) = (t, lexp)" by fastforce
  have "lexed ?s (lex_init ?s 0)"
    by (rule lexed.from_char [of True True]) (simp add: jspplexConstructChar_def)
  then have "lexed ?s lexp" using j by (rule lexed.next_token)
  from lexed_invariant [OF this] j show ?thesis by auto
qed

subsection \<open>The end is reached\<close>

lemma jsppLex_iterates:
  "length (buffer lexp) - pos lexp < n \<Longrightarrow>
     \<exists>k<n. fst (jsppLex (((\<lambda>l. snd (jsppLex l)) ^^ k) lexp)) = T_JEOF"
proof (induction n arbitrary: lexp)
  case (Suc n)
  let ?next = "snd (jsppLex lexp)"
  show ?case
  proof (cases "fst (jsppLex lexp) = T_JEOF")
    case False
    have "length (buffer ?next) - pos ?next < n"
      using jsppLex_reads [OF False] lex_fwd_buffer [OF jsppLex_fwd] Suc.prems by auto
    from Suc.IH [OF this] obtain k where "k < n"
      "fst (jsppLex (((\<lambda>l. snd (jsppLex l)) ^^ k) ?next)) = T_JEOF" by blast
    then have "fst (jsppLex (((\<lambda>l. snd (jsppLex l)) ^^ Suc k) lexp)) = T_JEOF"
      by (simp add: funpow_Suc_right del: funpow.simps)
    then show ?thesis using \<open>k < n\<close> by (metis Suc_less_eq)
  qed (auto intro: exI [of _ 0])
qed simp

text \<open>C10. Tokenising ends: after at most as many calls as there are characters left, the next call
  of \<open>jsppLex\<close> returns JEOF. Every other call has read at least one character.\<close>

theorem jsppLex_terminates:
  "(\<exists>k \<le> length (buffer lexp) - pos lexp.
      fst (jsppLex (((\<lambda>l. snd (jsppLex l)) ^^ k) lexp)) = T_JEOF)
   \<and> (fst (jsppLex lexp) = T_JEOF \<or> pos lexp < pos (snd (jsppLex lexp)))"
proof -
  from jsppLex_iterates [of lexp "Suc (length (buffer lexp) - pos lexp)"] jsppLex_reads [of lexp]
  show ?thesis by (auto simp: less_Suc_eq_le)
qed

subsection \<open>Identifiers and keywords\<close>

lemma class_not_ws:
  "isident ch \<Longrightarrow> \<not> isws ch \<and> ch \<noteq> -1" "isdigit ch \<Longrightarrow> \<not> isws ch \<and> ch \<noteq> -1"
  by (auto simp: isident_def isws_def ctype_defs)

lemma word_token:
  assumes "blank_then (rest lexp) (w @ s)" and "w \<noteq> []"
    and "isalpha (schar (hd w)) \<or> hd w = CHR ''_''"
    and "\<forall>x\<in>set w. isident (schar x)" and "ends isident s"
  shows "\<exists>lexp'. jsppLex lexp = (keyword w, lexp') \<and> lex lexp' = w \<and> rest lexp' = s
    \<and> (overrun lexp' \<longleftrightarrow> overrun lexp \<or> LEX_TOKE_BUF \<le> length w) \<and> token lexp' = Some (keyword w)"
proof -
  obtain c cs where w: "w = c # cs" using assms(2) by (cases w) auto
  have c: "isident (schar c)" "isalpha (schar c) \<or> schar c = 95"
    using assms(3,4) w by (auto simp: schar_def)
  obtain l where l: "getch (stripWS lexp) = (schar c, l)" "rest l = cs @ s" "lex_same lexp l"
    using assms(1) w class_not_ws(1) [OF c(1)] by (auto elim: first_char)
  have "\<not> isident (-1)" by (simp add: isident_def ctype_defs)
  then obtain ch b where b: "lex_span isident l (schar c) [] = (ch, [] @ c # cs, b)"
      "rest (unget b ch) = s" "overrun b \<longleftrightarrow> overrun l \<or> LEX_TOKE_BUF < length ([]::string) + length (c # cs)"
    using c(1) assms(4,5) w l(2) lex_span_rest [of isident c cs l s "[]"] by auto
  have "jsppLex lexp = lex_ident (schar c) l"
    using c(2) l(1) by (subst jsppLex.simps) (auto simp: ctype_defs)
  then show ?thesis
    using b w l(3) by (auto simp: lex_ident_def settoken_def lexend_def lex_same_def)
qed

text \<open>C11. Identifiers. After any blanks, a word (a letter or underscore, then letters, digits and
  underscores) that is not continued by the next character is returned as its keyword's token, or
  as ID; its text is in \<open>lex\<close>, and the next call starts right after it. The store overruns the
  512-byte token buffer exactly when the word has 512 characters or more.\<close>

theorem jsppLex_word:
  assumes "blank_then (rest lexp) (w @ s)" and "w \<noteq> []"
    and "isalpha (schar (hd w)) \<or> hd w = CHR ''_''"
    and "\<forall>x\<in>set w. isident (schar x)" and "ends isident s"
  shows "\<exists>lexp'. jsppLex lexp = (keyword w, lexp') \<and> lex lexp' = w \<and> rest lexp' = s
    \<and> (overrun lexp' \<longleftrightarrow> overrun lexp \<or> LEX_TOKE_BUF \<le> length w)"
  using word_token [OF assms] by blast

theorem jsppLex_word_witness:
  "\<exists>lexp. jsppLex (lex_init '' while(x)'' 0) = (T_WHILE, lexp) \<and> rest lexp = ''(x)''"
proof -
  have b: "blank_then (rest (lex_init '' while(x)'' 0)) (''while'' @ ''(x)'')"
    unfolding blank_then_def rest_def lex_init_def
    by (rule exI [of _ "'' ''"]) (simp add: isws_def ctype_defs schar_def)
  have k: "keyword ''while'' = T_WHILE" by (simp add: keyword_def keyword_table_def)
  show ?thesis using jsppLex_word [OF b] k
    by (auto simp: ends_def isident_def ctype_defs schar_def)
qed

text \<open>The keyword table. A word is a keyword exactly when it is one of the 27 the chain of
  \<open>strcmp\<close> tests, each of which has a token of its own; any other word is an ID.\<close>

lemma keyword_table_injective:
  "distinct (map fst keyword_table) \<and> distinct (map snd keyword_table)
   \<and> (\<forall>w. keyword w = T_ID \<longleftrightarrow> w \<notin> fst ` set keyword_table)
   \<and> (\<forall>w v. keyword w = keyword v \<longleftrightarrow> w = v \<or> keyword w = T_ID \<and> keyword v = T_ID)"
proof -
  have d: "distinct (map fst keyword_table)" "distinct (map snd keyword_table)"
    "T_ID \<notin> snd ` set keyword_table"
    by (simp_all add: keyword_table_def)
  have k: "keyword w = T_ID \<longleftrightarrow> w \<notin> fst ` set keyword_table" for w
  proof (cases "map_of keyword_table w")
    case None
    moreover from None have "w \<notin> fst ` set keyword_table" by (simp add: map_of_eq_None_iff)
    ultimately show ?thesis by (simp add: keyword_def)
  next
    case (Some t)
    then have "(w, t) \<in> set keyword_table" by (rule map_of_SomeD)
    with Some d(3) show ?thesis by (force simp: keyword_def)
  qed
  have in_table: "(w, keyword w) \<in> set keyword_table" if "keyword w \<noteq> T_ID" for w
    using that by (auto simp: keyword_def split: option.splits intro: map_of_SomeD)
  have "w = v" if "keyword w = keyword v" "keyword w \<noteq> T_ID" for w v
    using in_table [of w] in_table [of v] that d(2) by (metis distinct_map inj_on_def prod.inject snd_conv)
  with d k show ?thesis by metis
qed

subsection \<open>Numbers\<close>

definition isnumcont :: "int \<Rightarrow> bool" where
  "isnumcont ch \<longleftrightarrow> isdigit ch \<or> ch \<in> {120, 46, 101, 69}"

lemma int_token:
  assumes "blank_then (rest lexp) (w @ s)" and "w \<noteq> []"
    and "\<forall>x\<in>set w. isdigit (schar x)" and "ends isnumcont s"
  shows "\<exists>lexp'. jsppLex lexp = (T_INT, lexp') \<and> lex lexp' = w \<and> rest lexp' = s
    \<and> (overrun lexp' \<longleftrightarrow> overrun lexp \<or> LEX_TOKE_BUF \<le> length w) \<and> token lexp' = Some (T_INT)"
proof -
  obtain c cs where w: "w = c # cs" using assms(2) by (cases w) auto
  have c: "isdigit (schar c)" "schar c \<noteq> 46" using assms(3) w by (auto simp: isdigit_def)
  obtain l where l: "getch (stripWS lexp) = (schar c, l)" "rest l = cs @ s" "lex_same lexp l"
    using assms(1) w class_not_ws(2) [OF c(1)] by (auto elim: first_char)
  have "\<not> isdigit (-1)" "ends isdigit s"
    using assms(4) by (auto simp: isdigit_def ends_def isnumcont_def)
  then obtain ch b where b: "lex_span isdigit l (schar c) [] = (ch, [] @ c # cs, b)"
      "rest (unget b ch) = s" "overrun b \<longleftrightarrow> overrun l \<or> LEX_TOKE_BUF < length ([]::string) + length (c # cs)"
      "ch = (case s of [] \<Rightarrow> -1 | d # _ \<Rightarrow> schar d)"
    using c(1) assms(3) w l(2) lex_span_rest [of isdigit c cs l s "[]"] by auto
  have "ch \<noteq> 120" "ch \<noteq> 46" "ch \<noteq> 101" "ch \<noteq> 69"
    using b(4) assms(4) by (auto simp: ends_def isnumcont_def split: list.splits)
  moreover have "jsppLex lexp = lex_number_tail T_INT (schar c) l"
    using c l(1) by (subst jsppLex.simps) (auto simp: ctype_defs lex_number_def)
  ultimately show ?thesis
    using b w l(3)
    by (auto simp: lex_number_tail_def lex_fraction_def lex_exponent_def settoken_def lexend_def lex_same_def)
qed

text \<open>Integer literals. A run of decimal digits that is followed by none of a digit, a dot,
  \<open>x\<close>, \<open>e\<close> and \<open>E\<close> is an INT with those digits as its text; the next call starts after it.\<close>

lemma jsppLex_int:
  assumes "blank_then (rest lexp) (w @ s)" and "w \<noteq> []"
    and "\<forall>x\<in>set w. isdigit (schar x)" and "ends isnumcont s"
  shows "\<exists>lexp'. jsppLex lexp = (T_INT, lexp') \<and> lex lexp' = w \<and> rest lexp' = s
    \<and> (overrun lexp' \<longleftrightarrow> overrun lexp \<or> LEX_TOKE_BUF \<le> length w)"
  using int_token [OF assms] by blast

lemma jsppLex_int_witness:
  "\<exists>lexp. jsppLex (lex_init ''42;'' 0) = (T_INT, lexp) \<and> lex lexp = ''42'' \<and> rest lexp = '';''"
proof -
  have b: "blank_then (rest (lex_init ''42;'' 0)) (''42'' @ '';'')"
    unfolding blank_then_def rest_def lex_init_def by (rule exI [of _ "[]"]) simp
  show ?thesis using jsppLex_int [OF b]
    by (auto simp: ends_def isnumcont_def ctype_defs schar_def)
qed

subsection \<open>Operators\<close>

text \<open>
  The abstract specification of the operators: the table of their spellings, and the longest one
  that starts the input.
\<close>

definition operators :: "(string \<times> token) list" where
  "operators =
     [(''||'', T_OR), (''|='', T_OREQ), (''|'', T_PIPE), (''&&'', T_AND), (''&='', T_ANDEQ),
      (''&'', T_AMPR), (''{'', T_LBRACE), (''}'', T_RBRACE), (''('', T_LPAR), ('')'', T_RPAR),
      (''['', T_LBRAC), ('']'', T_RBRAC), (''!='', T_ISNEQ), (''!'', T_BANG), (''=='', T_ISEQUAL),
      (''='', T_ASSIGN), (''+='', T_PLUSEQ), (''++'', T_INC), (''+'', T_PLUS), (''-='', T_MINUSEQ),
      (''--'', T_DEC), (''-'', T_MINUS), (''*='', T_TIMESEQ), (''*'', T_STAR), (''/='', T_DIVEQ),
      (''/'', T_SLASH), (''%='', T_MODEQ), (''%'', T_MOD), (''^='', T_XOREQ), (''^'', T_XOR),
      (''~='', T_COMPEQ), (''~'', T_COMP), (''::'', T_SCOPE), ('':'', T_COLON), ('';'', T_SEMI),
      ('','', T_COMMA), (''<='', T_LTEQ), (''<<'', T_LSHIFT), (''<'', T_LT), (''>='', T_GTEQ),
      (''>>'', T_RSHIFT), (''>'', T_GT)]"

definition longest_operator :: "string \<Rightarrow> (token \<times> string) option" where
  "longest_operator s =
     (case map_of operators (take 2 s) of
        Some t \<Rightarrow> Some (t, drop 2 s)
      | None \<Rightarrow> map_option (\<lambda>t. (t, drop 1 s)) (map_of operators (take 1 s)))"

lemma follow_rest:
  assumes "rest l = s" "\<forall>x\<in>set s. schar x \<noteq> -1"
  shows "\<exists>b. follow l alts t =
      (case s of [] \<Rightarrow> (case map_of alts (-1) of Some t' \<Rightarrow> t' | None \<Rightarrow> t)
       | d # _ \<Rightarrow> (case map_of alts (schar d) of Some t' \<Rightarrow> t' | None \<Rightarrow> t), b)
    \<and> rest b = (case s of [] \<Rightarrow> [] | d # ds \<Rightarrow> (case map_of alts (schar d) of Some _ \<Rightarrow> ds | None \<Rightarrow> s))
    \<and> overrun b = overrun l \<and> token b = Some (fst (follow l alts t))"
proof (cases s)
  case Nil
  with assms show ?thesis by (auto simp: follow_def getch_end settoken_def ungetch_def split: option.splits)
next
  case (Cons d ds)
  with assms(1) have "rest l = d # ds" by simp
  then obtain m where "getch l = (schar d, m)" "rest m = ds" "lex_same l m"
    "schar d \<noteq> -1 \<longrightarrow> unget m (schar d) = l" by (rule getch_rest)
  with assms Cons show ?thesis by (auto simp: follow_def settoken_def lex_same_def split: option.splits)
qed

lemma schar_second:
  "schar d = 124 \<longleftrightarrow> d = CHR ''|''" "schar d = 38 \<longleftrightarrow> d = CHR 0x26" "schar d = 61 \<longleftrightarrow> d = CHR ''=''"
  "schar d = 43 \<longleftrightarrow> d = CHR ''+''" "schar d = 45 \<longleftrightarrow> d = CHR ''-''" "schar d = 58 \<longleftrightarrow> d = CHR '':''"
  "schar d = 60 \<longleftrightarrow> d = CHR ''<''" "schar d = 62 \<longleftrightarrow> d = CHR ''>''" "schar d = 42 \<longleftrightarrow> d = CHR ''*''"
  "schar d = 47 \<longleftrightarrow> d = CHR ''/''"
proof -
  have *: "schar d = k \<longleftrightarrow> d = c" if "schar c = k" for c k
    using that schar_inj [of d c] by auto
  show "schar d = 124 \<longleftrightarrow> d = CHR ''|''" by (rule *) (simp add: schar_def)
  show "schar d = 38 \<longleftrightarrow> d = CHR 0x26" by (rule *) (simp add: schar_def)
  show "schar d = 61 \<longleftrightarrow> d = CHR ''=''" by (rule *) (simp add: schar_def)
  show "schar d = 43 \<longleftrightarrow> d = CHR ''+''" by (rule *) (simp add: schar_def)
  show "schar d = 45 \<longleftrightarrow> d = CHR ''-''" by (rule *) (simp add: schar_def)
  show "schar d = 58 \<longleftrightarrow> d = CHR '':''" by (rule *) (simp add: schar_def)
  show "schar d = 60 \<longleftrightarrow> d = CHR ''<''" by (rule *) (simp add: schar_def)
  show "schar d = 62 \<longleftrightarrow> d = CHR ''>''" by (rule *) (simp add: schar_def)
  show "schar d = 42 \<longleftrightarrow> d = CHR ''*''" by (rule *) (simp add: schar_def)
  show "schar d = 47 \<longleftrightarrow> d = CHR ''/''" by (rule *) (simp add: schar_def)
qed

text \<open>One lemma for the operators that look at the next character, one for those that do not.\<close>

lemma munch_follow:
  assumes "\<forall>d. map_of operators [c, d] = map_of alts (schar d)" "map_of operators [c] = Some t0"
    "map_of alts (-1) = None" "rest l = cs" "\<forall>x\<in>set cs. schar x \<noteq> -1"
    "longest_operator (c # cs) = Some (t, s')"
  shows "\<exists>b. follow l alts t0 = (t, b) \<and> rest b = s' \<and> overrun b = overrun l \<and> token b = Some t"
proof (cases cs)
  case Nil
  with assms follow_rest [OF assms(4,5), of alts t0] show ?thesis by (auto simp: longest_operator_def)
next
  case (Cons d ds)
  with assms follow_rest [OF assms(4,5), of alts t0] show ?thesis
    by (auto simp: longest_operator_def split: option.splits)
qed

lemma munch_single:
  assumes "\<forall>d. map_of operators [c, d] = None" "map_of operators [c] = Some t0" "rest l = cs"
    "longest_operator (c # cs) = Some (t, s')"
  shows "\<exists>b. settoken t0 l = (t, b) \<and> rest b = s' \<and> overrun b = overrun l \<and> token b = Some t"
  using assms by (cases cs) (auto simp: longest_operator_def settoken_def)

lemma schar_codes:
  "schar (CHR ''|'') = 124"
  "schar (CHR 0x26) = 38"
  "schar (CHR ''{'') = 123"
  "schar (CHR ''}'') = 125"
  "schar (CHR ''('') = 40"
  "schar (CHR '')'') = 41"
  "schar (CHR ''['') = 91"
  "schar (CHR '']'') = 93"
  "schar (CHR ''!'') = 33"
  "schar (CHR ''='') = 61"
  "schar (CHR ''+'') = 43"
  "schar (CHR ''-'') = 45"
  "schar (CHR ''*'') = 42"
  "schar (CHR ''/'') = 47"
  "schar (CHR ''%'') = 37"
  "schar (CHR ''^'') = 94"
  "schar (CHR ''~'') = 126"
  "schar (CHR '':'') = 58"
  "schar (CHR '';'') = 59"
  "schar (CHR '','') = 44"
  "schar (CHR ''<'') = 60"
  "schar (CHR ''>'') = 62"
  "schar (CHR 0x22) = 34"
  "schar (CHR 0x5C) = 92"
  "schar (CHR 0x27) = 39"
  by (simp_all add: schar_def)

lemma lex_operator_munch:
  assumes "c \<in> set ''|&{}()[]!=+-*%^~:;,<>''" "rest l = cs" "\<forall>x\<in>set cs. schar x \<noteq> -1"
    "longest_operator (c # cs) = Some (t, s')"
  shows "\<exists>b. lex_operator (schar c) l = (t, b) \<and> rest b = s' \<and> overrun b = overrun l \<and> token b = Some t"
  using assms(1) munch_follow [OF _ _ _ assms(2-4)] munch_single [OF _ _ assms(2,4)]
  by simp (elim disjE; simp add: lex_operator_def lex_operator_tail_def schar_codes operators_def schar_second)

lemma slash_munch:
  assumes "rest l = cs" "\<forall>x\<in>set cs. schar x \<noteq> -1" "longest_operator (CHR ''/'' # cs) = Some (t, s')"
    "take 1 cs \<noteq> ''/''" "take 1 cs \<noteq> ''*''"
  shows "\<exists>b. follow l [(61, T_DIVEQ)] T_SLASH = (t, b) \<and> rest b = s' \<and> overrun b = overrun l \<and> token b = Some t"
  by (rule munch_follow [OF _ _ _ assms(1-3)]) (simp_all add: operators_def schar_second)

lemma operator_token:
  assumes "blank_then (rest lexp) s" and "\<forall>x\<in>set s. schar x \<noteq> -1"
    and "longest_operator s = Some (t, s')"
    and "take 2 s \<noteq> ''//''" and "take 2 s \<noteq> ''/*''"
  shows "\<exists>lexp'. jsppLex lexp = (t, lexp') \<and> rest lexp' = s' \<and> overrun lexp' = overrun lexp \<and> token lexp' = Some t"
proof -
  obtain c cs where s: "s = c # cs"
    using assms(3) by (cases s) (auto simp: longest_operator_def operators_def)
  have c: "c \<in> set ''/|&{}()[]!=+-*%^~:;,<>''"
    using assms(3) s by (cases cs) (auto simp: longest_operator_def operators_def split: if_splits)
  then have p: "\<not> isws (schar c)" "schar c \<noteq> -1" "schar c \<noteq> 46" "schar c \<noteq> 95"
    "schar c \<noteq> 39" "schar c \<noteq> 34" "\<not> isdigit (schar c)" "\<not> isalpha (schar c)" "\<not> schar c \<le> 0"
    by (auto simp: isws_def ctype_defs schar_codes)
  obtain l where l: "getch (stripWS lexp) = (schar c, l)" "rest l = cs" "overrun l = overrun lexp"
    using assms(1) s p by (auto simp: lex_same_def elim: first_char)
  have cs: "\<forall>x\<in>set cs. schar x \<noteq> -1" using assms(2) s by simp
  show ?thesis
  proof (cases "c = CHR ''/''")
    case True
    obtain d m where g: "getch l = (d, m)" by fastforce
    have d: "d \<noteq> 47" "d \<noteq> 42"
      using True assms(4,5) s l(2) g by (cases cs; auto simp: getch_end schar_second elim!: getch_rest)+
    have "follow l [(61, T_DIVEQ)] T_SLASH = jsppLex lexp"
      using p l g True d by (subst jsppLex.simps) (simp add: follow_def schar_codes)
    then show ?thesis
      using slash_munch [OF l(2) cs] assms(3-5) s True l(3) by (cases cs) auto
  next
    case False
    with c have "c \<in> set ''|&{}()[]!=+-*%^~:;,<>''" by simp
    moreover have "schar c \<noteq> 47" using False by (simp add: schar_second)
    ultimately show ?thesis
      using lex_operator_munch [OF _ l(2) cs] assms(3) s p l(1,3) by (subst jsppLex.simps) simp
  qed
qed

text \<open>C12. Operators are matched longest first: where the input starts, after blanks, with an
  operator and not with a comment, \<open>jsppLex\<close> returns the longest operator that starts it and
  leaves what follows that operator (input without the byte 255, which reads as the end).\<close>

theorem jsppLex_operator:
  assumes "blank_then (rest lexp) s" and "\<forall>x\<in>set s. schar x \<noteq> -1"
    and "longest_operator s = Some (t, s')"
    and "take 2 s \<noteq> ''//''" and "take 2 s \<noteq> ''/*''"
  shows "\<exists>lexp'. jsppLex lexp = (t, lexp') \<and> rest lexp' = s'"
  using operator_token [OF assms] by blast

theorem jsppLex_operator_witness:
  "\<exists>lexp. jsppLex (lex_init ''<<=x'' 0) = (T_LSHIFT, lexp) \<and> rest lexp = ''=x''"
proof (rule jsppLex_operator)
  show "blank_then (rest (lex_init ''<<=x'' 0)) ''<<=x''"
    unfolding blank_then_def rest_def lex_init_def by (rule exI [of _ "[]"]) simp
qed (simp_all add: schar_def longest_operator_def operators_def)

end
