(* ===== verification/Lexer_Literals.thy ===== *)
theory Lexer_Literals
  imports Lexer_Spec
begin

section \<open>String literals and comments\<close>

text \<open>
  A string literal is read back from the escaped form of its text (\<open>escape\<close> is the inverse that
  \<open>getescape\<close> implements), within the bounds of the token buffer; and what comments skip.
\<close>

subsection \<open>String literals\<close>

definition escape :: "char \<Rightarrow> string" where
  "escape c =
     (if schar c = 10 then [CHR 0x5C, CHR ''n''] else if schar c = 13 then [CHR 0x5C, CHR ''r'']
      else if schar c = 9 then [CHR 0x5C, CHR ''t''] else if schar c = 11 then [CHR 0x5C, CHR ''v'']
      else if schar c = 39 then [CHR 0x5C, CHR 0x27] else if schar c = 92 then [CHR 0x5C, CHR 0x5C]
      else [c])"

definition quotable :: "char \<Rightarrow> bool" where
  "quotable c \<longleftrightarrow> c \<noteq> CHR 0x22 \<and> schar c \<noteq> -1"

lemma getch_rest_ex:
  "rest b = c # s \<Longrightarrow> \<exists>m. getch b = (schar c, m) \<and> rest m = s \<and> lex_same b m"
  by (metis getch_rest)

text \<open>Reading one escaped character inside a literal.\<close>

lemma getescape_rest:
  assumes "rest m = d # s"
  shows "\<exists>b. getescape m = (if schar d = 110 then 10 else if schar d = 114 then 13
      else if schar d = 116 then 9 else if schar d = 118 then 11 else if schar d = 39 then 39
      else if schar d = 92 then 92 else -1, b) \<and> rest b = s \<and> lex_same m b"
  using getch_rest_ex [OF assms] by (auto simp: getescape_def)

lemma read_escape:
  assumes "quotable c" "rest b = escape c @ s"
  shows "\<exists>ch m m'. getch b = (ch, m) \<and> ch \<noteq> -1 \<and> ch \<noteq> 34
     \<and> unescape ch m = (False, schar c, m') \<and> rest m' = s \<and> lex_same b m'"
proof (cases "schar c \<in> {10, 13, 9, 11, 39, 92}")
  case True
  define e where "e = hd (tl (escape c))"
  have e: "escape c = [CHR 0x5C, e]" using True by (auto simp: e_def escape_def)
  with assms(2) have "rest b = CHR 0x5C # e # s" by simp
  from getch_rest_ex [OF this] obtain m where m: "getch b = (92, m)" "rest m = e # s" "lex_same b m"
    by (auto simp: schar_codes)
  from getescape_rest [OF m(2)] m True show ?thesis
    by (auto simp: e_def escape_def unescape_def lex_same_def schar_def)
next
  case False
  then have "escape c = [c]" by (simp add: escape_def)
  with assms(2) have "rest b = c # s" by simp
  from getch_rest_ex [OF this] obtain m where m: "getch b = (schar c, m)" "rest m = s" "lex_same b m"
    by auto
  have "schar c \<noteq> 34" "schar c \<noteq> -1" using assms(1) schar_inj [of c "CHR 0x22"]
    by (auto simp: quotable_def schar_codes)
  with m False show ?thesis by (simp add: unescape_def)
qed

lemma lex_string_loop_text:
  assumes "\<forall>c\<in>set w. quotable c" "rest b = concat (map escape w) @ CHR 0x22 # s"
    "length acc + length w < LEX_TOKE_BUF"
  shows "\<exists>b'. lex_string_loop b acc = (T_STRING, b') \<and> lex b' = acc @ w \<and> rest b' = s
     \<and> overrun b' = overrun b"
  using assms
proof (induction w arbitrary: b acc)
  case Nil
  then have "rest b = CHR 0x22 # s" by simp
  from getch_rest_ex [OF this] obtain m where "getch b = (34, m)" "rest m = s" "lex_same b m"
    by (auto simp: schar_codes)
  with Nil(3) show ?case
    by (auto simp: lex_string_loop.simps [of b] settoken_def lexend_def lex_same_def)
next
  case (Cons c w)
  have "quotable c" "rest b = escape c @ concat (map escape w) @ CHR 0x22 # s" using Cons(2,3) by auto
  from read_escape [OF this] obtain ch m m' where
    m: "getch b = (ch, m)" "ch \<noteq> -1" "ch \<noteq> 34" "unescape ch m = (False, schar c, m')"
       "rest m' = concat (map escape w) @ CHR 0x22 # s" "lex_same b m'" by blast
  let ?l = "snd (lexput acc (schar c) m')"
  have "lex_string_loop b acc = lex_string_loop ?l (acc @ [c])"
    using m Cons(4) by (simp add: lex_string_loop.simps [of b] lexput_def)
  moreover have "overrun ?l = overrun b" using m(6) Cons(4) by (simp add: lexput_def lex_same_def)
  ultimately show ?case using Cons.IH [of ?l "acc @ [c]"] Cons(2,4) m(5) by auto
qed

text \<open>C13. String literals round trip: the text w (no double quote: the lexer has no escape for
  it), written with its escapes between quotes, is returned as a STRING whose text is w again,
  the next call starts after the closing quote, and the token buffer is never overrun; the
  limit is 511 characters.\<close>

theorem jsppLex_string:
  assumes "blank_then (rest lexp) (CHR 0x22 # concat (map escape w) @ CHR 0x22 # s)"
    and "\<forall>c\<in>set w. quotable c" and "length w < LEX_TOKE_BUF"
  shows "\<exists>lexp'. jsppLex lexp = (T_STRING, lexp') \<and> lex lexp' = w \<and> rest lexp' = s
    \<and> overrun lexp' = overrun lexp"
proof -
  have q: "\<not> isws (schar (CHR 0x22))" "schar (CHR 0x22) \<noteq> -1"
    by (simp_all add: isws_def ctype_defs schar_codes)
  from first_char [OF assms(1) q] obtain l where l: "getch (stripWS lexp) = (34, l)"
    "rest l = concat (map escape w) @ CHR 0x22 # s" "lex_same lexp l" by (auto simp: schar_codes)
  have "jsppLex lexp = lex_string_loop l []"
    using l(1) by (subst jsppLex.simps) (simp add: ctype_defs)
  then show ?thesis
    using lex_string_loop_text [OF assms(2) l(2), of "[]"] assms(3) l(3) by (auto simp: lex_same_def)
qed

theorem jsppLex_string_witness:
  "\<exists>lexp. jsppLex (lex_init [CHR 0x22, CHR ''a'', CHR 0x5C, CHR ''n'', CHR 0x22] 0) = (T_STRING, lexp)
     \<and> lex lexp = [CHR ''a'', CHR 0x0A]"
proof -
  let ?w = "[CHR ''a'', CHR 0x0A]"
  have "blank_then (rest (lex_init [CHR 0x22, CHR ''a'', CHR 0x5C, CHR ''n'', CHR 0x22] 0))
      (CHR 0x22 # concat (map escape ?w) @ CHR 0x22 # [])"
    unfolding blank_then_def rest_def lex_init_def
    by (rule exI [of _ "[]"]) (simp add: escape_def schar_def)
  from jsppLex_string [OF this] show ?thesis by (auto simp: quotable_def schar_def LEX_TOKE_BUF_def)
qed

text \<open>A literal that is not closed, or whose text is too long, is the error -4.\<close>

lemma lex_string_loop_unterminated:
  assumes "\<forall>c\<in>set w. quotable c" "rest b = concat (map escape w) @ s"
    "length acc + length w \<le> LEX_TOKE_BUF" "length acc + length w = LEX_TOKE_BUF \<or> s = []"
  shows "\<exists>b'. lex_string_loop b acc = (T_LEXERROR, b') \<and> lex b' = LEX_UNTERMINATED_STRING
     \<and> overrun b' = overrun b"
  using assms
proof (induction w arbitrary: b acc)
  case Nil
  obtain ch m where g: "getch b = (ch, m)" by fastforce
  have "length acc = LEX_TOKE_BUF \<or> ch = -1" using Nil g by (auto simp: getch_end)
  then show ?case using g getch_keeps [OF g]
    by (auto simp: lex_string_loop.simps [of b] settoken_def lexerror_def)
next
  case (Cons c w)
  have "quotable c" "rest b = escape c @ concat (map escape w) @ s" using Cons(2,3) by auto
  from read_escape [OF this] obtain ch m m' where
    m: "getch b = (ch, m)" "ch \<noteq> -1" "ch \<noteq> 34" "unescape ch m = (False, schar c, m')"
       "rest m' = concat (map escape w) @ s" "lex_same b m'" by blast
  let ?l = "snd (lexput acc (schar c) m')"
  have "lex_string_loop b acc = lex_string_loop ?l (acc @ [c])"
    using m Cons(4) by (simp add: lex_string_loop.simps [of b] lexput_def)
  moreover have "overrun ?l = overrun b" using m(6) Cons(4) by (simp add: lexput_def lex_same_def)
  ultimately show ?case using Cons.IH [of ?l "acc @ [c]"] Cons(2,4,5) m(5) by auto
qed

text \<open>A string literal of 512 characters or more, or one whose closing quote is missing, is
  reported as LEXERROR with the text of LEX_UNTERMINATED_STRING, without overrunning the token
  buffer.\<close>

lemma jsppLex_string_error:
  assumes "blank_then (rest lexp) (CHR 0x22 # concat (map escape w) @ s)"
    and "\<forall>c\<in>set w. quotable c"
    and "length w = LEX_TOKE_BUF \<or> length w < LEX_TOKE_BUF \<and> s = []"
  shows "\<exists>lexp'. jsppLex lexp = (T_LEXERROR, lexp') \<and> lex lexp' = LEX_UNTERMINATED_STRING
    \<and> overrun lexp' = overrun lexp"
proof -
  have q: "\<not> isws (schar (CHR 0x22))" "schar (CHR 0x22) \<noteq> -1"
    by (simp_all add: isws_def ctype_defs schar_codes)
  from first_char [OF assms(1) q] obtain l where l: "getch (stripWS lexp) = (34, l)"
    "rest l = concat (map escape w) @ s" "lex_same lexp l" by (auto simp: schar_codes)
  have "jsppLex lexp = lex_string_loop l []"
    using l(1) by (subst jsppLex.simps) (simp add: ctype_defs)
  then show ?thesis
    using lex_string_loop_unterminated [OF assms(2) l(2), of "[]"] assms(3) l(3)
    by (auto simp: lex_same_def)
qed

lemma jsppLex_string_error_witness:
  "\<exists>lexp. jsppLex (lex_init [CHR 0x22, CHR ''a''] 0) = (T_LEXERROR, lexp) \<and> lex lexp = ''-4''"
proof -
  have "blank_then (rest (lex_init [CHR 0x22, CHR ''a''] 0)) (CHR 0x22 # concat (map escape ''a'') @ [])"
    unfolding blank_then_def rest_def lex_init_def
    by (rule exI [of _ "[]"]) (simp add: escape_def schar_def)
  from jsppLex_string_error [OF this] show ?thesis
    by (auto simp: quotable_def schar_def LEX_TOKE_BUF_def lex_error_defs)
qed

subsection \<open>Comments\<close>

definition plain :: "char \<Rightarrow> bool" where
  "plain c \<longleftrightarrow> schar c \<noteq> 42 \<and> schar c \<noteq> 47 \<and> schar c > 0"

lemma first_slash:
  assumes "blank_then (rest lexp) (CHR ''/'' # d # s)"
  shows "\<exists>l m. getch (stripWS lexp) = (47, l) \<and> getch l = (schar d, m) \<and> rest m = s \<and> lex_same lexp m"
proof -
  have q: "\<not> isws (schar (CHR ''/''))" "schar (CHR ''/'') \<noteq> -1"
    by (simp_all add: isws_def ctype_defs schar_codes)
  from first_char [OF assms q] obtain l where l: "getch (stripWS lexp) = (47, l)" "rest l = d # s"
    "lex_same lexp l" by (auto simp: schar_codes)
  from getch_rest_ex [OF l(2)] l show ?thesis by (auto simp: lex_same_def)
qed

text \<open>A line comment is skipped to the end of its line: the token is that of the next line.\<close>

lemma jsppLex_line_comment:
  assumes "blank_then (rest lexp) (''//'' @ body @ CHR 0x0A # s)"
    and "\<forall>x\<in>set body. schar x \<noteq> 10 \<and> schar x > 0"
  shows "\<exists>next. jsppLex lexp = jsppLex next \<and> rest next = s \<and> lex_same lexp next"
proof -
  let ?p = "\<lambda>ch::int. ch \<noteq> 10 \<and> ch > 0"
  have "blank_then (rest lexp) (CHR ''/'' # CHR ''/'' # body @ CHR 0x0A # s)" using assms(1) by simp
  from first_slash [OF this] obtain l m where m: "getch (stripWS lexp) = (47, l)" "getch l = (47, m)"
    "rest m = body @ CHR 0x0A # s" "lex_same lexp m" by (auto simp: schar_codes)
  have nl: "schar (CHR 0x0A) = 10" by (simp add: schar_def)
  then have "\<exists>b'. lex_strip m (schar (CHR ''/'')) ?p = (10, b') \<and> rest b' = s \<and> lex_same m b'"
  proof (cases "body = []")
    case True
    with m(3) have "rest m = CHR 0x0A # s" by simp
    from getch_rest_ex [OF this] nl show ?thesis
      by (auto simp: lex_strip.simps [of m] lex_strip.simps [of _ 10] schar_codes)
  next
    case False
    then obtain c cs where c: "body = c # cs" by (cases body) auto
    with m(3) have "rest m = c # cs @ CHR 0x0A # s" by simp
    from getch_rest_ex [OF this] obtain m1 where m1: "getch m = (schar c, m1)"
      "rest m1 = cs @ CHR 0x0A # s" "lex_same m m1" by auto
    have "?p (schar c)" "\<forall>x\<in>set cs. ?p (schar x)" "\<not> ?p (-1)" "ends ?p (CHR 0x0A # s)"
      using c assms(2) nl by (auto simp: ends_def)
    from lex_strip_rest [of ?p c cs m1, OF this(1-3) m1(2) this(4)] m1 nl show ?thesis
      by (auto simp: lex_strip.simps [of m] schar_codes lex_same_def)
  qed
  then obtain b' where b: "skip_eol m 47 = b'" "rest b' = s" "lex_same m b'"
    by (auto simp: skip_eol_def schar_codes)
  have "jsppLex lexp = jsppLex b'"
    using m(1,2) b(1) by (subst jsppLex.simps) (simp add: ctype_defs)
  with b m(4) show ?thesis by (auto simp: lex_same_def)
qed

lemma jsppLex_line_comment_witness:
  "\<exists>next. jsppLex (lex_init (''//x'' @ [CHR 0x0A, CHR '';'']) 0) = jsppLex next \<and> rest next = '';''"
proof -
  have "blank_then (rest (lex_init (''//x'' @ [CHR 0x0A, CHR '';'']) 0)) (''//'' @ ''x'' @ CHR 0x0A # '';'')"
    unfolding blank_then_def rest_def lex_init_def by (rule exI [of _ "[]"]) simp
  from jsppLex_line_comment [OF this] show ?thesis by (auto simp: schar_def)
qed

text \<open>The round of the loop that closes a comment reads one character past it.\<close>

lemma closing_round:
  assumes "rest m = CHR ''/'' # c # s" "schar c \<noteq> 42"
  shows "\<exists>m'. comment_round m 42 n = (n - 1, schar c, m') \<and> rest m' = s \<and> lex_same m m'"
proof -
  from getch_rest_ex [OF assms(1)] obtain m1 where m1: "getch m = (47, m1)" "rest m1 = c # s"
    "lex_same m m1" by (auto simp: schar_codes)
  from getch_rest_ex [OF m1(2)] m1 assms(2) show ?thesis
    by (auto simp: comment_round_def star_or_slash_def lex_strip.simps [of m] lex_same_def)
qed

lemma skip_comment_plain:
  assumes "rest m = body @ ''*/'' @ c # s" "\<forall>x\<in>set body. plain x" "schar c \<noteq> 42"
  shows "rest (skip_comment m 42 1) = s \<and> lex_same m (skip_comment m 42 1)"
proof -
  let ?p = "\<lambda>ch::int. ch \<noteq> 42 \<and> ch \<noteq> 47 \<and> ch > 0"
  obtain d ds where d: "body @ ''*/'' @ c # s = d # ds" "schar d \<noteq> 47" "schar d > 0"
    using assms(2) by (cases body) (auto simp: plain_def schar_codes)
  with assms(1) getch_rest_ex [of m d ds] obtain m1 where
    m1: "getch m = (schar d, m1)" "rest m1 = ds" "lex_same m m1" by auto
  have r1: "skip_comment m 42 1 = skip_comment m1 (schar d) 1"
    using m1(1) d(2) by (simp add: skip_comment.simps [of m] comment_round_def star_or_slash_def
        lex_strip.simps [of m])
  have "\<exists>m2. star_or_slash m1 (schar d) = (42, m2) \<and> rest m2 = ''/'' @ c # s \<and> lex_same m1 m2"
  proof (cases body)
    case Nil
    with d m1(2) show ?thesis
      by (auto simp: star_or_slash_def lex_strip.simps [of m1] schar_codes lex_same_def)
  next
    case (Cons e es)
    with d(1) m1(2) have e: "e = d" "rest m1 = es @ ''*/'' @ c # s" by auto
    have p: "?p (schar d)" "\<forall>x\<in>set es. ?p (schar x)" "\<not> ?p (-1)" "ends ?p (''*/'' @ c # s)"
      using Cons e(1) assms(2) by (auto simp: plain_def ends_def schar_codes)
    from lex_strip_rest [of ?p d es m1, OF p(1-3) e(2) p(4)] show ?thesis
      by (auto simp: star_or_slash_def schar_codes)
  qed
  then obtain m2 where m2: "star_or_slash m1 (schar d) = (42, m2)" "rest m2 = CHR ''/'' # c # s"
    "lex_same m1 m2" by auto
  from closing_round [OF m2(2) assms(3), of 1] obtain m3 where
    m3: "comment_round m2 42 1 = (0, schar c, m3)" "rest m3 = s" "lex_same m2 m3" by auto
  have "comment_round m1 (schar d) 1 = comment_round m2 42 1"
    by (simp add: comment_round_def m2(1)) (simp add: star_or_slash_def lex_strip.simps [of m2])
  with m3 d(3) have "skip_comment m1 (schar d) 1 = m3"
    by (simp add: skip_comment.simps [of m1] skip_comment.simps [of m3])
  with r1 m1 m2 m3 show ?thesis by (simp add: lex_same_def)
qed

text \<open>C14. After a block comment the lexer loses one character: the character that follows the
  closing star and slash is read by the comment's loop and not given back, so the next token is
  read from the character after it.\<close>

theorem jsppLex_block_comment:
  assumes "blank_then (rest lexp) (''/*'' @ body @ ''*/'' @ c # s)"
    and "\<forall>x\<in>set body. plain x" and "c \<noteq> CHR ''*''"
  shows "\<exists>next. jsppLex lexp = jsppLex next \<and> rest next = s \<and> lex_same lexp next"
proof -
  have "blank_then (rest lexp) (CHR ''/'' # CHR ''*'' # body @ ''*/'' @ c # s)" using assms(1) by simp
  from first_slash [OF this] obtain l m where m: "getch (stripWS lexp) = (47, l)" "getch l = (42, m)"
    "rest m = body @ ''*/'' @ c # s" "lex_same lexp m" by (auto simp: schar_codes)
  have c: "schar c \<noteq> 42" using assms(3) by (simp add: schar_second)
  have "jsppLex lexp = jsppLex (skip_comment m 42 1)"
    using m(1,2) by (subst jsppLex.simps) (simp add: ctype_defs)
  with skip_comment_plain [OF m(3) assms(2) c] m(4) show ?thesis by (auto simp: lex_same_def)
qed

theorem jsppLex_block_comment_witness:
  "\<exists>next. jsppLex (lex_init ''/* c */var x;'' 0) = jsppLex next \<and> rest next = ''ar x;''"
proof -
  have "blank_then (rest (lex_init ''/* c */var x;'' 0)) (''/*'' @ '' c '' @ ''*/'' @ CHR ''v'' # ''ar x;'')"
    unfolding blank_then_def rest_def lex_init_def by (rule exI [of _ "[]"]) simp
  from jsppLex_block_comment [OF this] show ?thesis by (auto simp: plain_def schar_def)
qed

end
