(* ===== verification/Bytecode.thy ===== *)
theory Bytecode
  imports Prelude
begin

section \<open>Instructions and their coding, jspp/jspp/opcodes.h and jspp/src/program.c\<close>

text \<open>
  An instruction is one 16-bit word, with the opcode in its bits 0 to 6, the number of immediate
  arguments in 7 and 8 and the two modes in 9 to 11 and 12 to 14; each argument is a 32-bit word
  in two elements after it. The code of a method is an \<open>int16array\<close> of the spl library, whose
  source is not under src/: its operations are the record \<open>i16ops\<close>, and what the program relies
  on is \<open>i16_laws\<close>, that an element read is the one last written and that a 32-bit word takes
  two elements.
\<close>

unbundle bit_operations_syntax

subsection \<open>Modes and opcodes\<close>

type_synonym mode = nat
type_synonym opcode = nat

abbreviation (input) MODE_CLASS :: mode where "MODE_CLASS \<equiv> 0"
abbreviation (input) MODE_INST :: mode where "MODE_INST \<equiv> 1"
abbreviation (input) MODE_BLOCK :: mode where "MODE_BLOCK \<equiv> 2"
abbreviation (input) MODE_CONST :: mode where "MODE_CONST \<equiv> 3"
abbreviation (input) MODE_IM :: mode where "MODE_IM \<equiv> 4"

abbreviation (input) OP_NOP :: opcode where "OP_NOP \<equiv> 0"
abbreviation (input) OP_POP :: opcode where "OP_POP \<equiv> 1"
abbreviation (input) OP_PUSH :: opcode where "OP_PUSH \<equiv> 2"
abbreviation (input) OP_ROT :: opcode where "OP_ROT \<equiv> 3"
abbreviation (input) OP_ROT3 :: opcode where "OP_ROT3 \<equiv> 4"
abbreviation (input) OP_DUP :: opcode where "OP_DUP \<equiv> 5"
abbreviation (input) OP_ADD :: opcode where "OP_ADD \<equiv> 6"
abbreviation (input) OP_SUB :: opcode where "OP_SUB \<equiv> 7"
abbreviation (input) OP_NEGATE :: opcode where "OP_NEGATE \<equiv> 8"
abbreviation (input) OP_MULT :: opcode where "OP_MULT \<equiv> 9"
abbreviation (input) OP_DIV :: opcode where "OP_DIV \<equiv> 10"
abbreviation (input) OP_MOD :: opcode where "OP_MOD \<equiv> 11"
abbreviation (input) OP_INC :: opcode where "OP_INC \<equiv> 12"
abbreviation (input) OP_DEC :: opcode where "OP_DEC \<equiv> 13"
abbreviation (input) OP_PINC :: opcode where "OP_PINC \<equiv> 14"
abbreviation (input) OP_PDEC :: opcode where "OP_PDEC \<equiv> 15"
abbreviation (input) OP_AND :: opcode where "OP_AND \<equiv> 16"
abbreviation (input) OP_BINAND :: opcode where "OP_BINAND \<equiv> 17"
abbreviation (input) OP_OR :: opcode where "OP_OR \<equiv> 18"
abbreviation (input) OP_BINOR :: opcode where "OP_BINOR \<equiv> 19"
abbreviation (input) OP_XOR :: opcode where "OP_XOR \<equiv> 20"
abbreviation (input) OP_COMPL :: opcode where "OP_COMPL \<equiv> 21"
abbreviation (input) OP_NOT :: opcode where "OP_NOT \<equiv> 22"
abbreviation (input) OP_RSHIFT :: opcode where "OP_RSHIFT \<equiv> 23"
abbreviation (input) OP_LSHIFT :: opcode where "OP_LSHIFT \<equiv> 24"
abbreviation (input) OP_LT :: opcode where "OP_LT \<equiv> 25"
abbreviation (input) OP_GT :: opcode where "OP_GT \<equiv> 26"
abbreviation (input) OP_LTEQ :: opcode where "OP_LTEQ \<equiv> 27"
abbreviation (input) OP_GTEQ :: opcode where "OP_GTEQ \<equiv> 28"
abbreviation (input) OP_EQ :: opcode where "OP_EQ \<equiv> 29"
abbreviation (input) OP_NEQ :: opcode where "OP_NEQ \<equiv> 30"
abbreviation (input) OP_ASSIGN :: opcode where "OP_ASSIGN \<equiv> 31"
abbreviation (input) OP_THIS :: opcode where "OP_THIS \<equiv> 32"
abbreviation (input) OP_RVALUE :: opcode where "OP_RVALUE \<equiv> 33"
abbreviation (input) OP_LVALUE :: opcode where "OP_LVALUE \<equiv> 34"
abbreviation (input) OP_DEREF :: opcode where "OP_DEREF \<equiv> 35"
abbreviation (input) OP_SDEREF :: opcode where "OP_SDEREF \<equiv> 36"
abbreviation (input) OP_NULL :: opcode where "OP_NULL \<equiv> 37"
abbreviation (input) OP_ENTER :: opcode where "OP_ENTER \<equiv> 38"
abbreviation (input) OP_LEAVE :: opcode where "OP_LEAVE \<equiv> 39"
abbreviation (input) OP_CALL :: opcode where "OP_CALL \<equiv> 40"
abbreviation (input) OP_CONSTRUCT :: opcode where "OP_CONSTRUCT \<equiv> 41"
abbreviation (input) OP_BASECALL :: opcode where "OP_BASECALL \<equiv> 42"
abbreviation (input) OP_SCALL :: opcode where "OP_SCALL \<equiv> 43"
abbreviation (input) OP_VRET :: opcode where "OP_VRET \<equiv> 44"
abbreviation (input) OP_RET :: opcode where "OP_RET \<equiv> 45"
abbreviation (input) OP_NEW :: opcode where "OP_NEW \<equiv> 46"
abbreviation (input) OP_NATIVE :: opcode where "OP_NATIVE \<equiv> 47"
abbreviation (input) OP_JMPZ :: opcode where "OP_JMPZ \<equiv> 48"
abbreviation (input) OP_JMPNZ :: opcode where "OP_JMPNZ \<equiv> 49"
abbreviation (input) OP_JMP :: opcode where "OP_JMP \<equiv> 50"
abbreviation (input) OP_BREAK :: opcode where "OP_BREAK \<equiv> 51"
abbreviation (input) OP_SETBREAK :: opcode where "OP_SETBREAK \<equiv> 52"
abbreviation (input) OP_CONTINUE :: opcode where "OP_CONTINUE \<equiv> 53"
abbreviation (input) OP_TRY :: opcode where "OP_TRY \<equiv> 54"
abbreviation (input) OP_THROW :: opcode where "OP_THROW \<equiv> 55"
abbreviation (input) OP_LINE :: opcode where "OP_LINE \<equiv> 56"

subsection \<open>Coding, encodeOp and decodeOp\<close>

definition encodeOp :: "opcode \<Rightarrow> nat \<Rightarrow> mode \<Rightarrow> mode \<Rightarrow> uint16" where
  "encodeOp oc argcount mode mode2 =
     of_nat (oc OR push_bit 7 argcount OR push_bit 9 mode OR push_bit 12 mode2)"

definition decodeOp :: "uint16 \<Rightarrow> opcode \<times> nat \<times> mode \<times> mode" where
  "decodeOp w =
     (unat (w AND mask 7),
      unat (drop_bit 7 (w AND push_bit 7 (mask 2))),
      unat (drop_bit 9 (w AND push_bit 9 (mask 3))),
      unat (drop_bit 12 (w AND push_bit 12 (mask 3))))"

lemma bit_uint16: "bit (w :: uint16) n \<Longrightarrow> n < 16"
  using bit_imp_le_length [of w n] by simp

lemma decodeOp_fields:
  "decodeOp w = (take_bit 7 (unat w), take_bit 2 (drop_bit 7 (unat w)), take_bit 3 (drop_bit 9 (unat w)),
     take_bit 3 (drop_bit 12 (unat w)))"
  unfolding decodeOp_def
  by (auto intro!: bit_eqI simp: bit_simps dest: bit_uint16)

lemma take_bit_le: "take_bit n (x :: nat) = x \<Longrightarrow> bit x k \<Longrightarrow> k < n"
  by (metis bit_take_bit_iff)

lemma encodeOp_fields:
  assumes "oc < 128" "a < 4" "m < 8" "m2 < 8"
  shows "unat (encodeOp oc a m m2) = (oc OR push_bit 7 a OR push_bit 9 m OR push_bit 12 m2)"
proof -
  have t: "take_bit 7 oc = oc" "take_bit 2 a = a" "take_bit 3 m = m" "take_bit 3 m2 = m2"
    using assms by (simp_all add: take_bit_nat_eq_self)
  then show ?thesis
    by (auto intro!: bit_eqI simp: encodeOp_def bit_simps dest!: take_bit_le)
qed

lemma decode_encode_ok:
  assumes "oc < 128" "a < 4" "m < 8" "m2 < 8"
  shows "decodeOp (encodeOp oc a m m2) = (oc, a, m, m2)"
proof -
  have t: "take_bit 7 oc = oc" "take_bit 2 a = a" "take_bit 3 m = m" "take_bit 3 m2 = m2"
    using assms by (simp_all add: take_bit_nat_eq_self)
  have "\<not> bit oc (9 + n)" "\<not> bit oc (12 + n)" "\<not> bit oc (7 + n)" "\<not> bit a (2 + n)"
    "\<not> bit a (5 + n)" "\<not> bit m (3 + n)" for n
    using t [THEN take_bit_le] by fastforce+
  then show ?thesis unfolding decodeOp_fields encodeOp_fields [OF assms]
    by (auto intro!: bit_eqI simp: bit_simps dest: t [THEN take_bit_le])
qed

text \<open>C22. The instruction coding is lossless: an opcode below 128 with fewer than four arguments and
  modes below eight is decoded to itself, and a decoded word is encoded to itself but for its
  unused top bit.\<close>
theorem decode_encode:
  "(oc < 128 \<longrightarrow> a < 4 \<longrightarrow> m < 8 \<longrightarrow> m2 < 8 \<longrightarrow> decodeOp (encodeOp oc a m m2) = (oc, a, m, m2))
   \<and> (case decodeOp w of (oc, a, m, m2) \<Rightarrow> encodeOp oc a m m2 = take_bit 15 w
        \<and> oc < 128 \<and> a < 4 \<and> m < 8 \<and> m2 < 8)"
proof (intro conjI impI)
  show "oc < 128 \<Longrightarrow> a < 4 \<Longrightarrow> m < 8 \<Longrightarrow> m2 < 8 \<Longrightarrow> decodeOp (encodeOp oc a m m2) = (oc, a, m, m2)"
    by (rule decode_encode_ok)
next
  show "case decodeOp w of (oc, a, m, m2) \<Rightarrow> encodeOp oc a m m2 = take_bit 15 w
        \<and> oc < 128 \<and> a < 4 \<and> m < 8 \<and> m2 < 8"
    unfolding decodeOp_fields prod.case
  proof (intro conjI)
    show "encodeOp (take_bit 7 (unat w)) (take_bit 2 (drop_bit 7 (unat w))) (take_bit 3 (drop_bit 9 (unat w)))
        (take_bit 3 (drop_bit 12 (unat w))) = take_bit 15 w"
      unfolding encodeOp_def
    proof (rule bit_word_eqI)
      fix n
      show "bit (of_nat (take_bit 7 (unat w) OR push_bit 7 (take_bit 2 (drop_bit 7 (unat w)))
          OR push_bit 9 (take_bit 3 (drop_bit 9 (unat w))) OR push_bit 12 (take_bit 3 (drop_bit 12 (unat w)))) :: uint16) n
        \<longleftrightarrow> bit (take_bit 15 w) n"
        by (cases "n < 7"; cases "n < 9"; cases "n < 12") (auto simp: bit_simps)
    qed
  qed (auto simp: take_bit_eq_mod)
qed

theorem decode_encode_witness:
  "decodeOp (encodeOp OP_SDEREF 2 MODE_CONST MODE_IM) = (OP_SDEREF, 2, MODE_CONST, MODE_IM)"
  using decode_encode [of OP_SDEREF 2 MODE_CONST MODE_IM 0] by simp

subsection \<open>The code array\<close>

record 'c i16ops =
  i16_new :: 'c
  i16_set :: "'c \<Rightarrow> uint16 \<Rightarrow> int \<Rightarrow> bool \<times> 'c"
  i16_set2 :: "'c \<Rightarrow> int32 \<Rightarrow> int \<Rightarrow> bool \<times> 'c"
  i16_get :: "'c \<Rightarrow> int \<Rightarrow> uint16"
  i16_get32 :: "'c \<Rightarrow> int \<Rightarrow> int32"

text \<open>A store that succeeds is read back, and touches only the one or two elements written.\<close>

definition i16_laws :: "'c i16ops \<Rightarrow> bool" where
  "i16_laws I \<longleftrightarrow> (\<forall>c v k p c'. 0 \<le> p \<longrightarrow>
     (i16_set I c v p = (True, c') \<longrightarrow>
        i16_get I c' p = v \<and> (\<forall>q. q \<noteq> p \<longrightarrow> i16_get I c' q = i16_get I c q)
        \<and> (\<forall>q. q \<noteq> p \<longrightarrow> q + 1 \<noteq> p \<longrightarrow> i16_get32 I c' q = i16_get32 I c q))
     \<and> (i16_set2 I c k p = (True, c') \<longrightarrow>
        i16_get32 I c' p = k \<and> (\<forall>q. q \<noteq> p \<longrightarrow> q \<noteq> p + 1 \<longrightarrow> i16_get I c' q = i16_get I c q)
        \<and> (\<forall>q. q + 1 < p \<or> p + 1 < q \<longrightarrow> i16_get32 I c' q = i16_get32 I c q)))"

text \<open>An instance: the array as a function, a 32-bit word low half first.\<close>

definition fun_i16 :: "(int \<Rightarrow> uint16) i16ops" where
  "fun_i16 = \<lparr>i16_new = (\<lambda>i. 0),
     i16_set = (\<lambda>c v p. (True, c(p := v))),
     i16_set2 = (\<lambda>c k p. (True, c(p := ucast k, p + 1 := ucast (drop_bit 16 k)))),
     i16_get = (\<lambda>c p. c p),
     i16_get32 = (\<lambda>c p. ucast (c p) OR push_bit 16 (ucast (c (p + 1))))\<rparr>"

lemma fun_i16_laws: "i16_laws fun_i16"
proof -
  have "(ucast (ucast k :: uint16) OR push_bit 16 (ucast (ucast (drop_bit 16 k) :: uint16)) :: int32) = k" for k
    by (rule bit_word_eqI) (auto simp: bit_simps)
  then show ?thesis by (auto simp: i16_laws_def fun_i16_def)
qed

text \<open>What the interpreter fetches at pc: the decoded word, as many arguments as it has, and the
  position after them.\<close>

definition blockDecode :: "'c i16ops \<Rightarrow> 'c \<Rightarrow> int \<Rightarrow> (opcode \<times> nat \<times> mode \<times> mode) \<times> int" where
  "blockDecode I code pc = (decodeOp (i16_get I code pc), pc + 1)"

definition blockFetchInt32 :: "'c i16ops \<Rightarrow> 'c \<Rightarrow> int \<Rightarrow> int32 \<times> int" where
  "blockFetchInt32 I code pc = (i16_get32 I code pc, pc + 2)"

definition fetch :: "'c i16ops \<Rightarrow> 'c \<Rightarrow> int \<Rightarrow> (opcode \<times> nat \<times> mode \<times> mode) \<times> int32 list \<times> int" where
  "fetch I code pc =
     (let (d, pc) = blockDecode I code pc; n = fst (snd d)
      in if n = 0 then (d, [], pc)
         else let (a1, pc) = blockFetchInt32 I code pc
              in if n = 1 then (d, [a1], pc)
                 else let (a2, pc) = blockFetchInt32 I code pc in (d, [a1, a2], pc))"

end
