(* ===== verification/Variant.thy ===== *)
theory Variant
  imports Prelude "HOL-Library.Signed_Division" "HOL-Library.Monad_Syntax"
begin

section \<open>Variants and their memory, jspp/src/variant.c\<close>

text \<open>
  A \<open>variant\<close> is a tag and a union: the record keeps the two apart, as the C struct does, so
  that code which writes one and not the other can be written down (\<open>wf_variant\<close> says that they
  agree). Variants are mutated through pointers that may alias, so they live in a store:
  \<open>vars\<close> maps the addresses \<open>'l\<close> of the live variants to their contents, and \<open>insts\<close> the
  class instances with their field addresses, reference counts and native data (\<open>jsinst\<close> of
  jsclass.h).

  A step returns None where the C code has no defined result: a read or write of a variant or
  an instance that was freed, a pointer read from a union that holds no pointer, an integer
  division that traps, or a recursion deeper than the C stack. Otherwise it returns the C
  result and the new store.

  What is not under src/ is the record \<open>'f ext\<close>, an argument of every definition: the C type
  \<open>float\<close> with its operations, and the functions of \<open>spl/cstring.h\<close>, whose constructors return
  None when memory is exhausted. Signed integers wrap at 32 bits; reference counts do not. The places
  an operation gets are not null, so the tests of \<open>varAssign\<close> for that are left out.
\<close>

subsection \<open>Types\<close>

datatype jstype = TYPE_VOID | TYPE_NULL | TYPE_INT | TYPE_CHAR | TYPE_BOOL | TYPE_FLOAT
  | TYPE_INST | TYPE_DELEGATE | TYPE_STRING | TYPE_PTR

fun jstype_code :: "jstype \<Rightarrow> nat" where
  "jstype_code TYPE_VOID = 0" | "jstype_code TYPE_NULL = 1" | "jstype_code TYPE_INT = 2"
| "jstype_code TYPE_CHAR = 3" | "jstype_code TYPE_BOOL = 4" | "jstype_code TYPE_FLOAT = 5"
| "jstype_code TYPE_INST = 6" | "jstype_code TYPE_DELEGATE = 7" | "jstype_code TYPE_STRING = 8"
| "jstype_code TYPE_PTR = 9"

text \<open>The union: an int, a float, a string, a pointer to a variant, an instance; or NULL.\<close>

datatype ('l, 'f) vdata = DI int32 | DF 'f | DS string | DP 'l | DInst nat | DNull

record ('l, 'f) variant =
  vtype :: jstype
  data :: "('l, 'f) vdata"

text \<open>
  What a native constructor hangs on an instance: an array with its dimensions and their lengths,
  a vector, a string buffer, a time or a hash table. The variants in it are its own.
\<close>

datatype 'l native = NoNative | ArrayData nat "int32 list" "'l option list" | VectorData "'l option list"
  | StrbufData string | TimeData int | HashData "(string \<times> 'l) list"

fun those_of :: "'l option list \<Rightarrow> 'l list" where
  "those_of [] = []"
| "those_of (None # xs) = those_of xs"
| "those_of (Some l # xs) = l # those_of xs"

fun native_vars :: "'l native \<Rightarrow> 'l list" where
  "native_vars (ArrayData dims lens xs) = those_of xs"
| "native_vars (VectorData xs) = those_of xs"
| "native_vars (HashData t) = map snd t"
| "native_vars _ = []"

text \<open>\<open>jsinstConstruct\<close> leaves \<open>magic\<close> as it is in the new memory (None).\<close>

record 'l jsinst =
  myclass :: nat
  ifields :: "'l list"
  refcount :: int
  nativedata :: "'l native"
  magic :: "nat option"

definition owned :: "'l jsinst \<Rightarrow> 'l list" where
  "owned x = ifields x @ native_vars (nativedata x)"

lemma owned_refcount [simp]: "owned (x\<lparr>refcount := c\<rparr>) = owned x" "owned (x\<lparr>magic := m\<rparr>) = owned x"
  by (simp_all add: owned_def)

record ('l, 'f) mem =
  vars :: "'l \<rightharpoonup> ('l, 'f) variant"
  insts :: "nat \<rightharpoonup> 'l jsinst"

record 'f ext =
  fl_of_int :: "int32 \<Rightarrow> 'f"
  fl_to_int :: "'f \<Rightarrow> int32"
  fl_bits :: "'f \<Rightarrow> int32"
  fl_add :: "'f \<Rightarrow> 'f \<Rightarrow> 'f"
  fl_sub :: "'f \<Rightarrow> 'f \<Rightarrow> 'f"
  fl_mul :: "'f \<Rightarrow> 'f \<Rightarrow> 'f"
  fl_div :: "'f \<Rightarrow> 'f \<Rightarrow> 'f"
  fl_lt :: "'f \<Rightarrow> 'f \<Rightarrow> bool"
  fl_le :: "'f \<Rightarrow> 'f \<Rightarrow> bool"
  fl_eq :: "'f \<Rightarrow> 'f \<Rightarrow> bool"
  fl_print :: "'f \<Rightarrow> string"
  fl_atof :: "string \<Rightarrow> 'f"
  fl_junk :: 'f
  s_isint :: "string \<Rightarrow> bool"
  s_isfloat :: "string \<Rightarrow> bool"
  s_cmp :: "string \<Rightarrow> string \<Rightarrow> int"
  s_make :: "string \<Rightarrow> string option"
  s_dup :: "string \<Rightarrow> string option"
  s_append :: "string \<Rightarrow> string \<Rightarrow> string option"
  cstack :: nat

definition fl_zero :: "'f ext \<Rightarrow> 'f" where
  "fl_zero E = fl_of_int E 0"

text \<open>The tag and the member of the union that is live agree.\<close>

definition wf_variant :: "('l, 'f) variant \<Rightarrow> bool" where
  "wf_variant v \<longleftrightarrow>
     (case vtype v of
        TYPE_VOID \<Rightarrow> True | TYPE_NULL \<Rightarrow> True | TYPE_DELEGATE \<Rightarrow> True
      | TYPE_INT \<Rightarrow> (\<exists>i. data v = DI i) | TYPE_CHAR \<Rightarrow> (\<exists>i. data v = DI i)
      | TYPE_BOOL \<Rightarrow> (\<exists>i. data v = DI i)
      | TYPE_FLOAT \<Rightarrow> (\<exists>f. data v = DF f) | TYPE_INST \<Rightarrow> (\<exists>i. data v = DInst i)
      | TYPE_STRING \<Rightarrow> (\<exists>s. data v = DS s) | TYPE_PTR \<Rightarrow> (\<exists>l. data v = DP l))"

definition wf_mem :: "('l, 'f) mem \<Rightarrow> bool" where
  "wf_mem st \<longleftrightarrow> (\<forall>l v. vars st l = Some v \<longrightarrow> wf_variant v)"

abbreviation mk :: "jstype \<Rightarrow> ('l, 'f) vdata \<Rightarrow> ('l, 'f) variant" where
  "mk t d \<equiv> \<lparr>vtype = t, data = d\<rparr>"

definition void_variant :: "('l, 'f) variant" where
  "void_variant = mk TYPE_VOID (DI 0)"

subsection \<open>Reading and writing\<close>

text \<open>
  Reading the union as an int. Reading a float's member as an int gives its bits; reading a
  pointer as one is not modelled further (None). The other members are read by pattern.
\<close>

fun as_int :: "'f ext \<Rightarrow> ('l, 'f) vdata \<Rightarrow> int32 option" where
  "as_int E (DI i) = Some i"
| "as_int E (DF f) = Some (fl_bits E f)"
| "as_int E _ = None"

fun as_float :: "('l, 'f) vdata \<Rightarrow> 'f option" where
  "as_float (DF f) = Some f"
| "as_float _ = None"

fun as_str :: "('l, 'f) vdata \<Rightarrow> string option" where
  "as_str (DS s) = Some s"
| "as_str _ = None"

fun as_ptr :: "('l, 'f) vdata \<Rightarrow> 'l option" where
  "as_ptr (DP l) = Some l"
| "as_ptr _ = None"

fun as_inst :: "('l, 'f) vdata \<Rightarrow> nat option" where
  "as_inst (DInst i) = Some i"
| "as_inst _ = None"

definition wr :: "'l \<Rightarrow> ('l, 'f) variant \<Rightarrow> ('l, 'f) mem \<Rightarrow> ('l, 'f) mem option" where
  "wr l v st = (if vars st l = None then None else Some (st\<lparr>vars := (vars st)(l \<mapsto> v)\<rparr>))"

text \<open>A write that returns true.\<close>

definition put :: "'l \<Rightarrow> jstype \<Rightarrow> ('l, 'f) vdata \<Rightarrow> ('l, 'f) mem \<Rightarrow> (bool \<times> ('l, 'f) mem) option" where
  "put l t d st = map_option (Pair True) (wr l (mk t d) st)"

primrec foldM :: "('a \<Rightarrow> 's \<Rightarrow> 's option) \<Rightarrow> 'a list \<Rightarrow> 's \<Rightarrow> 's option" where
  "foldM f [] s = Some s"
| "foldM f (x # xs) s = Option.bind (f x s) (foldM f xs)"

subsection \<open>Clearing, and the reference counts of instances (jsclass.c)\<close>

text \<open>
  \<open>varClear\<close> releases what a variant owns. Releasing an instance decrements its count, and at 0
  clears its fields and the variants of its native data (the finalizers of intrinsics.c) and frees
  it with them, which may release other instances: the C functions recurse through one another, here by the depth n the C stack still allows.
\<close>

definition clear_with ::
  "(nat \<Rightarrow> ('l, 'f) mem \<Rightarrow> ('l, 'f) mem option) \<Rightarrow> 'l \<Rightarrow> ('l, 'f) mem \<Rightarrow> ('l, 'f) mem option" where
  "clear_with release l st = do {
     v \<leftarrow> vars st l;
     (case vtype v of
        TYPE_VOID \<Rightarrow> Some st
      | TYPE_NULL \<Rightarrow> Some st
      | TYPE_INST \<Rightarrow> do { i \<leftarrow> as_inst (data v); st \<leftarrow> release i st; wr l void_variant st }
      | TYPE_STRING \<Rightarrow> do { _ \<leftarrow> as_str (data v); wr l void_variant st }
      | _ \<Rightarrow> wr l void_variant st) }"

definition jsinstRef :: "nat \<Rightarrow> ('l, 'f) mem \<Rightarrow> ('l, 'f) mem option" where
  "jsinstRef i st = do {
     x \<leftarrow> insts st i;
     Some (st\<lparr>insts := (insts st)(i \<mapsto> x\<lparr>refcount := refcount x + 1\<rparr>)\<rparr>) }"

definition free_inst :: "nat \<Rightarrow> 'l list \<Rightarrow> ('l, 'f) mem \<Rightarrow> ('l, 'f) mem" where
  "free_inst i fs st =
     st\<lparr>insts := (insts st)(i := None), vars := (vars st) |` (- set fs)\<rparr>"

primrec jsinstDeref :: "nat \<Rightarrow> nat \<Rightarrow> ('l, 'f) mem \<Rightarrow> ('l, 'f) mem option" where
  "jsinstDeref 0 i st = None"
| "jsinstDeref (Suc n) i st = do {
     x \<leftarrow> insts st i;
     let st = st\<lparr>insts := (insts st)(i \<mapsto> x\<lparr>refcount := refcount x - 1\<rparr>)\<rparr>;
     if refcount x - 1 \<le> 0 then do {
       st \<leftarrow> foldM (clear_with (jsinstDeref n)) (owned x) st;
       Some (free_inst i (owned x) st) }
     else Some st }"

definition varClear :: "'f ext \<Rightarrow> 'l \<Rightarrow> ('l, 'f) mem \<Rightarrow> ('l, 'f) mem option" where
  "varClear E l st = clear_with (jsinstDeref (cstack E)) l st"

definition VARCLEAR :: "'f ext \<Rightarrow> 'l \<Rightarrow> ('l, 'f) mem \<Rightarrow> ('l, 'f) mem option" where
  "VARCLEAR E l st = do {
     v \<leftarrow> vars st l;
     if jstype_code (vtype v) > jstype_code TYPE_BOOL then varClear E l st else Some st }"

subsection \<open>Assignment\<close>

definition varAssign :: "'f ext \<Rightarrow> 'l \<Rightarrow> 'l \<Rightarrow> ('l, 'f) mem \<Rightarrow> (bool \<times> ('l, 'f) mem) option" where
  "varAssign E var from st = do {
     st \<leftarrow> VARCLEAR E var st;
     v \<leftarrow> vars st var;
     w \<leftarrow> vars st from;
     (case vtype w of
        TYPE_VOID \<Rightarrow> put var TYPE_VOID (data v) st
      | TYPE_CHAR \<Rightarrow> do { i \<leftarrow> as_int E (data w); put var TYPE_CHAR (DI i) st }
      | TYPE_BOOL \<Rightarrow> do { i \<leftarrow> as_int E (data w); put var TYPE_BOOL (DI i) st }
      | TYPE_INT \<Rightarrow> do { i \<leftarrow> as_int E (data w); put var TYPE_INT (DI i) st }
      | TYPE_NULL \<Rightarrow> put var TYPE_NULL (data w) st
      | TYPE_FLOAT \<Rightarrow> do { f \<leftarrow> as_float (data w); put var TYPE_FLOAT (DF f) st }
      | TYPE_INST \<Rightarrow> do {
          i \<leftarrow> as_inst (data w); st \<leftarrow> wr var (mk TYPE_INST (DInst i)) st;
          st \<leftarrow> jsinstRef i st; Some (True, st) }
      | TYPE_DELEGATE \<Rightarrow> do { st \<leftarrow> wr var (mk TYPE_DELEGATE (data v)) st; Some (False, st) }
      | TYPE_STRING \<Rightarrow> do {
          s \<leftarrow> as_str (data w);
          (case s_dup E s of
             None \<Rightarrow> do { st \<leftarrow> wr var (mk TYPE_STRING DNull) st; Some (False, st) }
           | Some s' \<Rightarrow> put var TYPE_STRING (DS s') st) }
      | TYPE_PTR \<Rightarrow> do { l \<leftarrow> as_ptr (data w); put var TYPE_PTR (DP l) st }) }"

definition varRef :: "'f ext \<Rightarrow> 'l \<Rightarrow> 'l \<Rightarrow> ('l, 'f) mem \<Rightarrow> (bool \<times> ('l, 'f) mem) option" where
  "varRef E var ptrto st = do { st \<leftarrow> VARCLEAR E var st; put var TYPE_PTR (DP ptrto) st }"

definition varDeref :: "'f ext \<Rightarrow> 'l \<Rightarrow> ('l, 'f) mem \<Rightarrow> ('l, 'f) mem option" where
  "varDeref E var st = do {
     v \<leftarrow> vars st var;
     if vtype v = TYPE_PTR then do {
       vp \<leftarrow> as_ptr (data v);
       st \<leftarrow> VARCLEAR E var st;
       (_, st) \<leftarrow> varAssign E var vp st;
       Some st }
     else Some st }"

definition varAssignInt :: "'f ext \<Rightarrow> 'l \<Rightarrow> int32 \<Rightarrow> ('l, 'f) mem \<Rightarrow> (bool \<times> ('l, 'f) mem) option" where
  "varAssignInt E var i st = do { st \<leftarrow> VARCLEAR E var st; put var TYPE_INT (DI i) st }"

definition varAssignFloat :: "'f ext \<Rightarrow> 'l \<Rightarrow> 'f \<Rightarrow> ('l, 'f) mem \<Rightarrow> (bool \<times> ('l, 'f) mem) option" where
  "varAssignFloat E var f st = do { st \<leftarrow> VARCLEAR E var st; put var TYPE_FLOAT (DF f) st }"

definition varAssignBool :: "'f ext \<Rightarrow> 'l \<Rightarrow> bool \<Rightarrow> ('l, 'f) mem \<Rightarrow> (bool \<times> ('l, 'f) mem) option" where
  "varAssignBool E var b st = do { st \<leftarrow> VARCLEAR E var st; put var TYPE_BOOL (DI (of_bool b)) st }"

definition varAssignCh :: "'f ext \<Rightarrow> 'l \<Rightarrow> int32 \<Rightarrow> ('l, 'f) mem \<Rightarrow> (bool \<times> ('l, 'f) mem) option" where
  "varAssignCh E var ch st = do { st \<leftarrow> VARCLEAR E var st; put var TYPE_CHAR (DI ch) st }"

definition varAssignChar :: "'f ext \<Rightarrow> 'l \<Rightarrow> string \<Rightarrow> ('l, 'f) mem \<Rightarrow> (bool \<times> ('l, 'f) mem) option" where
  "varAssignChar E var cp st = do {
     st \<leftarrow> VARCLEAR E var st;
     v \<leftarrow> vars st var;
     (case s_make E cp of
        None \<Rightarrow> do { st \<leftarrow> wr var (v\<lparr>data := DNull\<rparr>) st; Some (False, st) }
      | Some s \<Rightarrow> put var TYPE_STRING (DS s) st) }"

definition varAssignInst :: "'f ext \<Rightarrow> 'l \<Rightarrow> nat option \<Rightarrow> ('l, 'f) mem \<Rightarrow> (bool \<times> ('l, 'f) mem) option" where
  "varAssignInst E var inst st =
     (case inst of
        None \<Rightarrow> Some (False, st)
      | Some i \<Rightarrow> do {
          st \<leftarrow> VARCLEAR E var st;
          st \<leftarrow> wr var (mk TYPE_INST (DInst i)) st;
          st \<leftarrow> jsinstRef i st;
          Some (True, st) })"

definition varAssignString :: "'f ext \<Rightarrow> 'l \<Rightarrow> string \<Rightarrow> ('l, 'f) mem \<Rightarrow> (bool \<times> ('l, 'f) mem) option" where
  "varAssignString E var str st = do { st \<leftarrow> VARCLEAR E var st; put var TYPE_STRING (DS str) st }"

text \<open>
  Allocation: the argument a is what \<open>malloc\<close> returned, a fresh address or None. \<open>varDup\<close> copies
  the int member of the union, which for a float are all its bits; a pointer it copies without
  counting the reference, and whole only where pointers have 32 bits, so that is None.
\<close>

definition varConstruct :: "'l option \<Rightarrow> ('l, 'f) mem \<Rightarrow> 'l option \<times> ('l, 'f) mem" where
  "varConstruct a st =
     (case a of None \<Rightarrow> (None, st) | Some l \<Rightarrow> (Some l, st\<lparr>vars := (vars st)(l \<mapsto> void_variant)\<rparr>))"

definition varDestruct :: "'f ext \<Rightarrow> 'l \<Rightarrow> ('l, 'f) mem \<Rightarrow> ('l, 'f) mem option" where
  "varDestruct E l st = do { st \<leftarrow> VARCLEAR E l st; Some (st\<lparr>vars := (vars st)(l := None)\<rparr>) }"

definition varConstructDup ::
  "'f ext \<Rightarrow> 'l option \<Rightarrow> 'l \<Rightarrow> ('l, 'f) mem \<Rightarrow> ('l option \<times> ('l, 'f) mem) option" where
  "varConstructDup E a from st =
     (case varConstruct a st of
        (None, st) \<Rightarrow> Some (None, st)
      | (Some l, st) \<Rightarrow> do {
          (ok, st) \<leftarrow> varAssign E l from st;
          if ok then Some (Some l, st)
          else do { st \<leftarrow> varDestruct E l st; Some (None, st) } })"

definition varDup ::
  "'f ext \<Rightarrow> 'l option \<Rightarrow> 'l \<Rightarrow> ('l, 'f) mem \<Rightarrow> ('l option \<times> ('l, 'f) mem) option" where
  "varDup E a var st = do {
     v \<leftarrow> vars st var;
     (case varConstruct a st of
        (None, st) \<Rightarrow> Some (None, st)
      | (Some l, st) \<Rightarrow>
          (if vtype v = TYPE_STRING then do {
             s \<leftarrow> as_str (data v);
             (case s_dup E s of
                None \<Rightarrow> Some (None, st\<lparr>vars := (vars st)(l := None)\<rparr>)
              | Some s' \<Rightarrow> do { st \<leftarrow> wr l (mk TYPE_STRING (DS s')) st; Some (Some l, st) }) }
           else if vtype v \<in> {TYPE_INST, TYPE_PTR} then None
           else do { st \<leftarrow> wr l v st; Some (Some l, st) })) }"

subsection \<open>Reading values\<close>

text \<open>
  The readers follow pointers by recursion; \<open>chase\<close> is that recursion, ending at a variant that
  is no pointer. \<open>normalize1\<close> follows one pointer.
\<close>

fun chase :: "nat \<Rightarrow> ('l, 'f) mem \<Rightarrow> 'l \<Rightarrow> 'l option" where
  "chase 0 st l = None"
| "chase (Suc n) st l = do {
     v \<leftarrow> vars st l;
     if vtype v = TYPE_PTR then do { vp \<leftarrow> as_ptr (data v); chase n st vp } else Some l }"

definition normalize1 :: "('l, 'f) mem \<Rightarrow> 'l \<Rightarrow> 'l option" where
  "normalize1 st arg = do {
     v \<leftarrow> vars st arg;
     if vtype v = TYPE_PTR then as_ptr (data v) else Some arg }"

definition target :: "'f ext \<Rightarrow> ('l, 'f) mem \<Rightarrow> 'l \<Rightarrow> ('l, 'f) variant option" where
  "target E st l = do { l \<leftarrow> chase (cstack E) st l; vars st l }"

definition varIsFloat :: "'f ext \<Rightarrow> ('l, 'f) mem \<Rightarrow> 'l \<Rightarrow> bool option" where
  "varIsFloat E st l = do { v \<leftarrow> target E st l; Some (vtype v = TYPE_FLOAT) }"

definition varIsNumeric :: "'f ext \<Rightarrow> ('l, 'f) mem \<Rightarrow> 'l \<Rightarrow> bool option" where
  "varIsNumeric E st l = do {
     v \<leftarrow> target E st l;
     Some (vtype v \<in> {TYPE_VOID, TYPE_NULL, TYPE_INT, TYPE_FLOAT, TYPE_CHAR, TYPE_BOOL}) }"

text \<open>The inner option is the result: None where the C function returns false and stores nothing.\<close>

definition varGetInt :: "'f ext \<Rightarrow> ('l, 'f) mem \<Rightarrow> 'l \<Rightarrow> int32 option option" where
  "varGetInt E st l = do {
     v \<leftarrow> target E st l;
     (case vtype v of
        TYPE_VOID \<Rightarrow> Some (Some 0)
      | TYPE_NULL \<Rightarrow> Some (Some 0)
      | TYPE_INT \<Rightarrow> do { i \<leftarrow> as_int E (data v); Some (Some i) }
      | TYPE_CHAR \<Rightarrow> do { i \<leftarrow> as_int E (data v); Some (Some i) }
      | TYPE_BOOL \<Rightarrow> do { i \<leftarrow> as_int E (data v); Some (Some i) }
      | TYPE_FLOAT \<Rightarrow> do { f \<leftarrow> as_float (data v); Some (Some (fl_to_int E f)) }
      | _ \<Rightarrow> Some None) }"

definition varGetFloat :: "'f ext \<Rightarrow> ('l, 'f) mem \<Rightarrow> 'l \<Rightarrow> 'f option option" where
  "varGetFloat E st l = do {
     v \<leftarrow> target E st l;
     (case vtype v of
        TYPE_VOID \<Rightarrow> Some (Some (fl_zero E))
      | TYPE_NULL \<Rightarrow> Some (Some (fl_zero E))
      | TYPE_INT \<Rightarrow> do { i \<leftarrow> as_int E (data v); Some (Some (fl_of_int E i)) }
      | TYPE_CHAR \<Rightarrow> do { i \<leftarrow> as_int E (data v); Some (Some (fl_of_int E i)) }
      | TYPE_BOOL \<Rightarrow> do { i \<leftarrow> as_int E (data v); Some (Some (fl_of_int E i)) }
      | TYPE_FLOAT \<Rightarrow> do { f \<leftarrow> as_float (data v); Some (Some f) }
      | _ \<Rightarrow> Some None) }"

subsection \<open>Decimal conversion\<close>

text \<open>
  \<open>itoa\<close> of splc/src/string.c for the radix 10 the variants use: the digits are produced from
  the least significant on, of the value or of its negation as an unsigned int.
\<close>

fun itoa_digits :: "nat \<Rightarrow> string" where
  "itoa_digits v = (if v < 10 then [char_of (48 + v)] else itoa_digits (v div 10) @ [char_of (48 + v mod 10)])"

declare itoa_digits.simps [simp del]

definition itoa :: "int32 \<Rightarrow> string" where
  "itoa value =
     (let sign = (sint value < 0); v = unat (if sign then - value else value)
      in (if sign then ''-'' else []) @ itoa_digits v)"

text \<open>The C library's \<open>atoi\<close>: blanks, a sign, then digits up to the first other character.\<close>

fun digits_value :: "int \<Rightarrow> string \<Rightarrow> int" where
  "digits_value n [] = n"
| "digits_value n (c # cs) =
     (if isdigit (schar c) then digits_value (10 * n + (schar c - 48)) cs else n)"

definition isspace :: "int \<Rightarrow> bool" where
  "isspace ch \<longleftrightarrow> ch = 32 \<or> (9 \<le> ch \<and> ch \<le> 13)"

definition atoi :: "string \<Rightarrow> int32" where
  "atoi s =
     (let s = dropWhile (\<lambda>c. isspace (schar c)) s
      in case s of
           [] \<Rightarrow> 0
         | c # cs \<Rightarrow>
             if c = CHR ''-'' then word_of_int (- digits_value 0 cs)
             else if c = CHR ''+'' then word_of_int (digits_value 0 cs)
             else word_of_int (digits_value 0 s))"

subsection \<open>Strings\<close>

text \<open>A string built from a C buffer stops at its first NUL.\<close>

definition varToString :: "'f ext \<Rightarrow> ('l, 'f) mem \<Rightarrow> 'l \<Rightarrow> string option option" where
  "varToString E st l = do {
     v \<leftarrow> target E st l;
     (case vtype v of
        TYPE_VOID \<Rightarrow> Some (s_make E ''*unassigned*'')
      | TYPE_NULL \<Rightarrow> Some (s_make E ''<null>'')
      | TYPE_INT \<Rightarrow> do { i \<leftarrow> as_int E (data v); Some (s_make E (itoa i)) }
      | TYPE_FLOAT \<Rightarrow> do { f \<leftarrow> as_float (data v); Some (s_make E (fl_print E f)) }
      | TYPE_CHAR \<Rightarrow> do {
          i \<leftarrow> as_int E (data v);
          Some (s_make E (let c = to_char (sint i) in if c = CHR 0x00 then [] else [c])) }
      | TYPE_BOOL \<Rightarrow> do {
          i \<leftarrow> as_int E (data v); Some (s_make E (if i \<noteq> 0 then ''true'' else ''false'')) }
      | TYPE_INST \<Rightarrow> Some (s_make E ''<instance>'')
      | TYPE_DELEGATE \<Rightarrow> Some (s_make E ''<delegate>'')
      | TYPE_STRING \<Rightarrow> do { s \<leftarrow> as_str (data v); Some (s_dup E s) }
      | TYPE_PTR \<Rightarrow> None) }"

text \<open>The type name; \<open>cname\<close> is the name of a class. Every pointer adds a star.\<close>

fun varTypeName :: "nat \<Rightarrow> 'f ext \<Rightarrow> (nat \<Rightarrow> string) \<Rightarrow> ('l, 'f) mem \<Rightarrow> 'l \<Rightarrow> string option option" where
  "varTypeName 0 E cname st l = None"
| "varTypeName (Suc n) E cname st l = do {
     v \<leftarrow> vars st l;
     (case vtype v of
        TYPE_VOID \<Rightarrow> Some (s_make E ''void'')
      | TYPE_NULL \<Rightarrow> Some (s_make E ''null'')
      | TYPE_INT \<Rightarrow> Some (s_make E ''int'')
      | TYPE_FLOAT \<Rightarrow> Some (s_make E ''float'')
      | TYPE_CHAR \<Rightarrow> Some (s_make E ''char'')
      | TYPE_BOOL \<Rightarrow> Some (s_make E ''bool'')
      | TYPE_INST \<Rightarrow> do {
          i \<leftarrow> as_inst (data v); x \<leftarrow> insts st i; Some (s_make E (cname (myclass x))) }
      | TYPE_DELEGATE \<Rightarrow> Some (s_make E ''delegate'')
      | TYPE_STRING \<Rightarrow> Some (s_make E ''string'')
      | TYPE_PTR \<Rightarrow> do {
          vp \<leftarrow> as_ptr (data v);
          r \<leftarrow> varTypeName n E cname st vp;
          Some (case r of
             None \<Rightarrow> None
           | Some s \<Rightarrow> (case s_make E ''*'' of None \<Rightarrow> None | Some star \<Rightarrow> s_append E star s)) }) }"


subsection \<open>Casts\<close>

text \<open>
  \<open>varCast\<close> converts in place. Each target type has a switch over the current type; a type the
  switch does not list returns false. \<open>narrow\<close> is the C cast to \<open>char\<close>.
\<close>

definition narrow :: "int32 \<Rightarrow> int32" where
  "narrow i = signed_take_bit 7 i"

definition fails :: "('l, 'f) mem \<Rightarrow> (bool \<times> ('l, 'f) mem) option" where
  "fails st = Some (False, st)"

definition cast_char :: "'f ext \<Rightarrow> 'l \<Rightarrow> ('l, 'f) variant \<Rightarrow> ('l, 'f) mem \<Rightarrow> (bool \<times> ('l, 'f) mem) option" where
  "cast_char E l v st =
     (case vtype v of
        TYPE_VOID \<Rightarrow> put l TYPE_CHAR (DI 0) st
      | TYPE_INT \<Rightarrow> do { i \<leftarrow> as_int E (data v); put l TYPE_CHAR (DI (narrow i)) st }
      | TYPE_FLOAT \<Rightarrow> do { f \<leftarrow> as_float (data v); put l TYPE_CHAR (DI (narrow (fl_to_int E f))) st }
      | TYPE_BOOL \<Rightarrow> put l TYPE_CHAR (data v) st
      | TYPE_STRING \<Rightarrow> do {
          s \<leftarrow> as_str (data v);
          if s_isint E s then put l TYPE_CHAR (DI (narrow (atoi s))) st else fails st }
      | _ \<Rightarrow> fails st)"

definition cast_int :: "'f ext \<Rightarrow> 'l \<Rightarrow> ('l, 'f) variant \<Rightarrow> ('l, 'f) mem \<Rightarrow> (bool \<times> ('l, 'f) mem) option" where
  "cast_int E l v st =
     (case vtype v of
        TYPE_VOID \<Rightarrow> put l TYPE_INT (DI 0) st
      | TYPE_CHAR \<Rightarrow> put l TYPE_INT (data v) st
      | TYPE_INT \<Rightarrow> Some (True, st)
      | TYPE_FLOAT \<Rightarrow> do { f \<leftarrow> as_float (data v); put l TYPE_INT (DI (fl_to_int E f)) st }
      | TYPE_BOOL \<Rightarrow> put l TYPE_INT (data v) st
      | TYPE_STRING \<Rightarrow> do {
          s \<leftarrow> as_str (data v);
          if s_isint E s then put l TYPE_INT (DI (atoi s)) st
          else if s_isfloat E s then put l TYPE_INT (DI (fl_to_int E (fl_atof E s))) st
          else fails st }
      | _ \<Rightarrow> fails st)"

text \<open>
  The case for a char falls through into the one for an int, which reads the member \<open>i\<close> again
  after the float has been stored.
\<close>

definition cast_float :: "'f ext \<Rightarrow> 'l \<Rightarrow> ('l, 'f) variant \<Rightarrow> ('l, 'f) mem \<Rightarrow> (bool \<times> ('l, 'f) mem) option" where
  "cast_float E l v st =
     (case vtype v of
        TYPE_VOID \<Rightarrow> put l TYPE_FLOAT (DF (fl_zero E)) st
      | TYPE_CHAR \<Rightarrow> do {
          i \<leftarrow> as_int E (data v);
          let f = fl_of_int E i;
          i \<leftarrow> as_int E (DF f :: ('l, 'f) vdata);
          put l TYPE_FLOAT (DF (fl_of_int E i)) st }
      | TYPE_INT \<Rightarrow> do { i \<leftarrow> as_int E (data v); put l TYPE_FLOAT (DF (fl_of_int E i)) st }
      | TYPE_FLOAT \<Rightarrow> Some (True, st)
      | TYPE_BOOL \<Rightarrow> do { i \<leftarrow> as_int E (data v); put l TYPE_FLOAT (DF (fl_of_int E i)) st }
      | TYPE_STRING \<Rightarrow> do {
          s \<leftarrow> as_str (data v);
          if s_isfloat E s then put l TYPE_FLOAT (DF (fl_atof E s)) st
          else if s_isint E s then put l TYPE_FLOAT (DF (fl_of_int E (atoi s))) st
          else fails st }
      | _ \<Rightarrow> fails st)"

text \<open>The cases for a string store the truth value but leave the tag.\<close>

definition cast_bool :: "'f ext \<Rightarrow> 'l \<Rightarrow> ('l, 'f) variant \<Rightarrow> ('l, 'f) mem \<Rightarrow> (bool \<times> ('l, 'f) mem) option" where
  "cast_bool E l v st =
     (case vtype v of
        TYPE_VOID \<Rightarrow> put l TYPE_BOOL (DI 0) st
      | TYPE_CHAR \<Rightarrow> do { i \<leftarrow> as_int E (data v); put l TYPE_BOOL (DI (of_bool (i \<noteq> 0))) st }
      | TYPE_INT \<Rightarrow> do { i \<leftarrow> as_int E (data v); put l TYPE_BOOL (DI (of_bool (i \<noteq> 0))) st }
      | TYPE_FLOAT \<Rightarrow> do {
          f \<leftarrow> as_float (data v); put l TYPE_BOOL (DI (of_bool (\<not> fl_eq E f (fl_zero E)))) st }
      | TYPE_BOOL \<Rightarrow> Some (True, st)
      | TYPE_STRING \<Rightarrow> do {
          s \<leftarrow> as_str (data v);
          if s_cmp E s ''true'' = 0 \<or> s_cmp E s ''TRUE'' = 0 then put l (vtype v) (DI 1) st
          else if s_cmp E s ''false'' = 0 \<or> s_cmp E s ''FALSE'' = 0 then put l (vtype v) (DI 0) st
          else fails st }
      | _ \<Rightarrow> fails st)"

definition cast_null :: "'f ext \<Rightarrow> 'l \<Rightarrow> ('l, 'f) mem \<Rightarrow> (bool \<times> ('l, 'f) mem) option" where
  "cast_null E l st = do {
     st \<leftarrow> VARCLEAR E l st; v \<leftarrow> vars st l; put l TYPE_NULL (data v) st }"

definition cast_string :: "'f ext \<Rightarrow> 'l \<Rightarrow> ('l, 'f) mem \<Rightarrow> (bool \<times> ('l, 'f) mem) option" where
  "cast_string E l st = do {
     str \<leftarrow> varToString E st l;
     st \<leftarrow> VARCLEAR E l st;
     put l TYPE_STRING (case str of None \<Rightarrow> DNull | Some s \<Rightarrow> DS s) st }"

definition cast_at :: "'f ext \<Rightarrow> 'l \<Rightarrow> jstype \<Rightarrow> ('l, 'f) mem \<Rightarrow> (bool \<times> ('l, 'f) mem) option" where
  "cast_at E l ty st = do {
     v \<leftarrow> vars st l;
     (case ty of
        TYPE_VOID \<Rightarrow> do { st \<leftarrow> VARCLEAR E l st; Some (True, st) }
      | TYPE_NULL \<Rightarrow> cast_null E l st
      | TYPE_CHAR \<Rightarrow> cast_char E l v st
      | TYPE_INT \<Rightarrow> cast_int E l v st
      | TYPE_FLOAT \<Rightarrow> cast_float E l v st
      | TYPE_BOOL \<Rightarrow> cast_bool E l v st
      | TYPE_INST \<Rightarrow>
          (case vtype v of
             TYPE_NULL \<Rightarrow> cast_null E l st
           | TYPE_INST \<Rightarrow> Some (True, st)
           | _ \<Rightarrow> fails st)
      | TYPE_DELEGATE \<Rightarrow> (case vtype v of TYPE_NULL \<Rightarrow> cast_null E l st | _ \<Rightarrow> fails st)
      | TYPE_STRING \<Rightarrow> cast_string E l st
      | TYPE_PTR \<Rightarrow> fails st) }"

definition varCast :: "'f ext \<Rightarrow> 'l \<Rightarrow> jstype \<Rightarrow> ('l, 'f) mem \<Rightarrow> (bool \<times> ('l, 'f) mem) option" where
  "varCast E l ty st = do {
     v \<leftarrow> vars st l;
     if vtype v = TYPE_PTR then
       if ty = TYPE_NULL then do {
         st \<leftarrow> varDeref E l st; v \<leftarrow> vars st l; put l TYPE_NULL (data v) st }
       else do { vp \<leftarrow> as_ptr (data v); l' \<leftarrow> chase (cstack E) st vp; cast_at E l' ty st }
     else cast_at E l ty st }"

text \<open>The macro VARBOOL: types before the float count as truth values as they are.\<close>

definition VARBOOL :: "'f ext \<Rightarrow> 'l \<Rightarrow> ('l, 'f) mem \<Rightarrow> (bool \<times> ('l, 'f) mem) option" where
  "VARBOOL E l st = do {
     v \<leftarrow> vars st l;
     if jstype_code (vtype v) < jstype_code TYPE_FLOAT then Some (True, st)
     else varCast E l TYPE_BOOL st }"

subsection \<open>Operators\<close>

text \<open>
  The binary operators clear the destination, follow the arguments' pointers and compute into
  the destination. \<open>arith\<close> is the shape of those that work on floats when either argument is
  one, and on ints when both are numeric; \<open>varGetFloat\<close>'s result is not tested there, so an
  argument that is no number leaves the C variable uninitialised (\<open>fl_junk\<close>). An integer
  operation that traps is None.
\<close>

definition or_junk :: "'f ext \<Rightarrow> 'f option \<Rightarrow> 'f" where
  "or_junk E x = (case x of None \<Rightarrow> fl_junk E | Some f \<Rightarrow> f)"

definition either_float :: "'f ext \<Rightarrow> ('l, 'f) mem \<Rightarrow> 'l \<Rightarrow> 'l \<Rightarrow> bool option" where
  "either_float E st a b = do { x \<leftarrow> varIsFloat E st a; if x then Some True else varIsFloat E st b }"

definition both_numeric :: "'f ext \<Rightarrow> ('l, 'f) mem \<Rightarrow> 'l \<Rightarrow> 'l \<Rightarrow> bool option" where
  "both_numeric E st a b = do { x \<leftarrow> varIsNumeric E st a; if x then varIsNumeric E st b else Some False }"

definition either_numeric :: "'f ext \<Rightarrow> ('l, 'f) mem \<Rightarrow> 'l \<Rightarrow> 'l \<Rightarrow> bool option" where
  "either_numeric E st a b = do { x \<leftarrow> varIsNumeric E st a; if x then Some True else varIsNumeric E st b }"

type_synonym ('l, 'f) result = "jstype \<times> ('l, 'f) vdata"

definition arith_at ::
  "'f ext \<Rightarrow> ('f \<Rightarrow> 'f \<Rightarrow> ('l, 'f) result) \<Rightarrow> (int32 \<Rightarrow> int32 \<Rightarrow> ('l, 'f) result option)
     \<Rightarrow> 'l \<Rightarrow> 'l \<Rightarrow> 'l \<Rightarrow> ('l, 'f) mem \<Rightarrow> (bool \<times> ('l, 'f) mem) option" where
  "arith_at E fop iop dest a b st = do {
     fl \<leftarrow> either_float E st a b;
     if fl then do {
       x \<leftarrow> varGetFloat E st a;
       y \<leftarrow> varGetFloat E st b;
       (case fop (or_junk E x) (or_junk E y) of (t, d) \<Rightarrow> put dest t d st) }
     else do {
       n \<leftarrow> both_numeric E st a b;
       if n then do {
         x \<leftarrow> varGetInt E st a; y \<leftarrow> varGetInt E st b;
         i \<leftarrow> x; j \<leftarrow> y;
         (t, d) \<leftarrow> iop i j;
         put dest t d st }
       else fails st } }"

definition arith ::
  "'f ext \<Rightarrow> ('f \<Rightarrow> 'f \<Rightarrow> ('l, 'f) result) \<Rightarrow> (int32 \<Rightarrow> int32 \<Rightarrow> ('l, 'f) result option)
     \<Rightarrow> 'l \<Rightarrow> 'l \<Rightarrow> 'l \<Rightarrow> ('l, 'f) mem \<Rightarrow> (bool \<times> ('l, 'f) mem) option" where
  "arith E fop iop dest arg1 arg2 st = do {
     st \<leftarrow> VARCLEAR E dest st;
     a \<leftarrow> normalize1 st arg1;
     b \<leftarrow> normalize1 st arg2;
     arith_at E fop iop dest a b st }"

definition rbool :: "bool \<Rightarrow> ('l, 'f) result" where
  "rbool b = (TYPE_BOOL, DI (of_bool b))"

definition rint :: "int32 \<Rightarrow> ('l, 'f) result" where
  "rint i = (TYPE_INT, DI i)"

definition rfloat :: "'f \<Rightarrow> ('l, 'f) result" where
  "rfloat f = (TYPE_FLOAT, DF f)"

definition varAssignOpLT where
  "varAssignOpLT E = arith E (\<lambda>x y. rbool (fl_lt E x y)) (\<lambda>i j. Some (rbool (i <s j)))"

definition varAssignOpLE where
  "varAssignOpLE E = arith E (\<lambda>x y. rbool (fl_le E x y)) (\<lambda>i j. Some (rbool (i \<le>s j)))"

definition varAssignOpGT where
  "varAssignOpGT E = arith E (\<lambda>x y. rbool (fl_lt E y x)) (\<lambda>i j. Some (rbool (j <s i)))"

definition varAssignOpGE where
  "varAssignOpGE E = arith E (\<lambda>x y. rbool (fl_le E y x)) (\<lambda>i j. Some (rbool (j \<le>s i)))"

definition varAssignOpSub where
  "varAssignOpSub E = arith E (\<lambda>x y. rfloat (fl_sub E x y)) (\<lambda>i j. Some (rint (i - j)))"

definition varAssignOpMul where
  "varAssignOpMul E = arith E (\<lambda>x y. rfloat (fl_mul E x y)) (\<lambda>i j. Some (rint (i * j)))"

text \<open>C division truncates; by zero, and of the least int by -1, it traps.\<close>

definition int_div :: "int32 \<Rightarrow> int32 \<Rightarrow> int32 option" where
  "int_div i j =
     (if j = 0 \<or> sint i = - (2 ^ 31) \<and> j = -1 then None else Some (word_of_int (sint i sdiv sint j)))"

definition int_mod :: "int32 \<Rightarrow> int32 \<Rightarrow> int32 option" where
  "int_mod i j =
     (if j = 0 \<or> sint i = - (2 ^ 31) \<and> j = -1 then None else Some (word_of_int (sint i smod sint j)))"

definition varAssignOpDiv where
  "varAssignOpDiv E = arith E (\<lambda>x y. rfloat (fl_div E x y)) (\<lambda>i j. map_option rint (int_div i j))"

text \<open>Addition first concatenates when either argument is a string.\<close>

definition varAssignOpPlus ::
  "'f ext \<Rightarrow> 'l \<Rightarrow> 'l \<Rightarrow> 'l \<Rightarrow> ('l, 'f) mem \<Rightarrow> (bool \<times> ('l, 'f) mem) option" where
  "varAssignOpPlus E dest arg1 arg2 st = do {
     st \<leftarrow> VARCLEAR E dest st;
     a \<leftarrow> normalize1 st arg1;
     b \<leftarrow> normalize1 st arg2;
     va \<leftarrow> vars st a;
     vb \<leftarrow> vars st b;
     if vtype va = TYPE_STRING \<or> vtype vb = TYPE_STRING then do {
       r \<leftarrow> varToString E st a;
       s \<leftarrow> r;
       (_, st) \<leftarrow> varAssignString E dest s st;
       r \<leftarrow> varToString E st b;
       u \<leftarrow> r;
       v \<leftarrow> vars st dest;
       sp \<leftarrow> as_str (data v);
       put dest TYPE_STRING (DS (case s_append E sp u of None \<Rightarrow> sp | Some w \<Rightarrow> w)) st }
     else arith_at E (\<lambda>x y. rfloat (fl_add E x y)) (\<lambda>i j. Some (rint (i + j))) dest a b st }"

text \<open>Equality tests what \<open>varGetFloat\<close> and \<open>varGetInt\<close> return, and compares strings.\<close>

definition equality ::
  "'f ext \<Rightarrow> bool \<Rightarrow> 'l \<Rightarrow> 'l \<Rightarrow> 'l \<Rightarrow> ('l, 'f) mem \<Rightarrow> (bool \<times> ('l, 'f) mem) option" where
  "equality E sense dest arg1 arg2 st = do {
     st \<leftarrow> VARCLEAR E dest st;
     a \<leftarrow> normalize1 st arg1;
     b \<leftarrow> normalize1 st arg2;
     n \<leftarrow> either_numeric E st a b;
     if n then do {
       fl \<leftarrow> either_float E st a b;
       if fl then do {
         x \<leftarrow> varGetFloat E st a;
         (case x of None \<Rightarrow> fails st | Some f \<Rightarrow> do {
            y \<leftarrow> varGetFloat E st b;
            (case y of None \<Rightarrow> fails st
             | Some g \<Rightarrow> put dest TYPE_BOOL (DI (of_bool (fl_eq E f g = sense))) st) }) }
       else do {
         x \<leftarrow> varGetInt E st a;
         (case x of None \<Rightarrow> fails st | Some i \<Rightarrow> do {
            y \<leftarrow> varGetInt E st b;
            (case y of None \<Rightarrow> fails st
             | Some j \<Rightarrow> put dest TYPE_BOOL (DI (of_bool ((i = j) = sense))) st) }) } }
     else do {
       va \<leftarrow> vars st a;
       vb \<leftarrow> vars st b;
       if vtype va = TYPE_STRING \<and> vtype vb = TYPE_STRING then do {
         s \<leftarrow> as_str (data va);
         u \<leftarrow> as_str (data vb);
         put dest TYPE_BOOL (DI (of_bool ((s_cmp E s u = 0) = sense))) st }
       else fails st } }"

definition varAssignOpEQ where "varAssignOpEQ E = equality E True"

definition varAssignOpNEQ where "varAssignOpNEQ E = equality E False"

text \<open>The operators on ints only. A shift takes both its operands from the first argument.\<close>

definition int_op ::
  "'f ext \<Rightarrow> (int32 \<Rightarrow> int32 \<Rightarrow> int32 option) \<Rightarrow> ('l \<Rightarrow> 'l \<Rightarrow> 'l)
     \<Rightarrow> 'l \<Rightarrow> 'l \<Rightarrow> 'l \<Rightarrow> ('l, 'f) mem \<Rightarrow> (bool \<times> ('l, 'f) mem) option" where
  "int_op E iop second dest arg1 arg2 st = do {
     st \<leftarrow> VARCLEAR E dest st;
     a \<leftarrow> normalize1 st arg1;
     b \<leftarrow> normalize1 st arg2;
     x \<leftarrow> varGetInt E st a;
     (case x of None \<Rightarrow> fails st | Some i \<Rightarrow> do {
        y \<leftarrow> varGetInt E st (second a b);
        (case y of None \<Rightarrow> fails st | Some j \<Rightarrow> do { r \<leftarrow> iop i j; put dest TYPE_INT (DI r) st }) }) }"

text \<open>A shift by a negative count, or by 32 or more, is undefined.\<close>

definition shift_right :: "int32 \<Rightarrow> int32 \<Rightarrow> int32 option" where
  "shift_right i j = (if sint j < 0 \<or> 32 \<le> sint j then None else Some (signed_drop_bit (nat (sint j)) i))"

definition shift_left :: "int32 \<Rightarrow> int32 \<Rightarrow> int32 option" where
  "shift_left i j = (if sint j < 0 \<or> 32 \<le> sint j then None else Some (push_bit (nat (sint j)) i))"

definition varAssignOpRightShift where
  "varAssignOpRightShift E = int_op E shift_right (\<lambda>a b. a)"

definition varAssignOpLeftShift where
  "varAssignOpLeftShift E = int_op E shift_left (\<lambda>a b. a)"

definition varAssignOpMod where
  "varAssignOpMod E = int_op E int_mod (\<lambda>a b. b)"

unbundle bit_operations_syntax

definition varAssignOpBinOr where
  "varAssignOpBinOr E = int_op E (\<lambda>i j. Some (i OR j)) (\<lambda>a b. b)"

definition varAssignOpBinAnd where
  "varAssignOpBinAnd E = int_op E (\<lambda>i j. Some (i AND j)) (\<lambda>a b. b)"

definition varAssignOpBinXOr where
  "varAssignOpBinXOr E = int_op E (\<lambda>i j. Some (i XOR j)) (\<lambda>a b. b)"

text \<open>The unary operators work in place, through a pointer where there is one.\<close>

definition unary ::
  "'f ext \<Rightarrow> (int32 \<Rightarrow> ('l, 'f) result) \<Rightarrow> 'l \<Rightarrow> ('l, 'f) mem \<Rightarrow> (bool \<times> ('l, 'f) mem) option" where
  "unary E iop arg st = do {
     a \<leftarrow> normalize1 st arg;
     x \<leftarrow> varGetInt E st a;
     (case x of None \<Rightarrow> fails st | Some i \<Rightarrow> (case iop i of (t, d) \<Rightarrow> put a t d st)) }"

definition varComp where "varComp E = unary E (\<lambda>i. rint (NOT i))"

definition varLogNot where "varLogNot E = unary E (\<lambda>i. rbool (i = 0))"

definition varNegate where "varNegate E = unary E (\<lambda>i. rint (- i))"


end
