(* ===== verification/Variant_Heap.thy ===== *)
theory Variant_Heap
  imports Variant
begin

section \<open>Reference counts\<close>

text \<open>
  The ownership discipline of the store. \<open>refs P st i\<close> counts the live variants outside P that
  hold the instance i; P is the set of the variants that are being cleared, which the C code
  has already released but not yet overwritten. The counts are exact when every \<open>refcount\<close> is
  that number (\<open>counted\<close>; the argument k is an instance with one reference more, given up but not
  yet counted down). \<open>heap r st\<close> is the rest of the discipline: well-formed variants, each
  instance owning its fields (here and below with the variants of its native data), and a rank r
  that falls along the references from an instance's fields, so that the instances form no cycle. The lemmas show that releasing keeps all of it,
  returns when the rank is within the C stack, and changes nothing but what it releases
  (\<open>released\<close>).
\<close>

subsection \<open>The invariant\<close>

definition inst_at :: "('l, 'f) mem \<Rightarrow> 'l \<Rightarrow> nat option" where
  "inst_at st l =
     (case vars st l of None \<Rightarrow> None
      | Some v \<Rightarrow> if vtype v = TYPE_INST then as_inst (data v) else None)"

definition refs :: "'l set \<Rightarrow> ('l, 'f) mem \<Rightarrow> nat \<Rightarrow> nat" where
  "refs P st i = card {l. l \<notin> P \<and> inst_at st l = Some i}"

definition fields_of :: "('l, 'f) mem \<Rightarrow> nat \<Rightarrow> 'l set" where
  "fields_of st i = (case insts st i of None \<Rightarrow> {} | Some x \<Rightarrow> set (owned x))"

definition counted :: "'l set \<Rightarrow> ('l, 'f) mem \<Rightarrow> nat option \<Rightarrow> bool" where
  "counted P st k \<longleftrightarrow>
     (\<forall>i. insts st i = None \<longrightarrow> refs P st i = 0)
     \<and> (\<forall>i x. insts st i = Some x \<longrightarrow> refcount x = int (refs P st i) + (if k = Some i then 1 else 0))"

definition heap :: "(nat \<Rightarrow> nat) \<Rightarrow> ('l, 'f) mem \<Rightarrow> bool" where
  "heap r st \<longleftrightarrow> finite (dom (vars st)) \<and> wf_mem st
     \<and> (\<forall>i. fields_of st i \<subseteq> dom (vars st))
     \<and> (\<forall>i j. i \<noteq> j \<longrightarrow> fields_of st i \<inter> fields_of st j = {})
     \<and> (\<forall>i l j. l \<in> fields_of st i \<longrightarrow> inst_at st l = Some j \<longrightarrow> r j < r i)"

text \<open>
  \<open>released r b st st'\<close>: on the way from st to st' instances of rank up to b have lost references
  or were freed; the fields of such instances may have been cleared, and those of freed ones
  are gone.
\<close>

definition released :: "(nat \<Rightarrow> nat) \<Rightarrow> nat \<Rightarrow> ('l, 'f) mem \<Rightarrow> ('l, 'f) mem \<Rightarrow> bool" where
  "released r b st st' \<longleftrightarrow>
     (\<forall>l. vars st' l = vars st l \<or> (\<exists>i. r i \<le> b \<and> l \<in> fields_of st i
        \<and> (vars st' l = Some void_variant \<or> vars st' l = None \<and> insts st' i = None)))
     \<and> (\<forall>j. insts st' j = insts st j \<or> r j \<le> b \<and> (insts st' j = None
        \<or> (\<exists>x c. insts st j = Some x \<and> 0 < c \<and> insts st' j = Some (x\<lparr>refcount := c\<rparr>))))"

lemma released_refl [simp, intro!]: "released r b st st"
  by (simp add: released_def)

lemma released_fields:
  assumes "released r b st st'" shows "fields_of st' i = fields_of st i \<or> insts st' i = None"
proof -
  from assms have "insts st' i = insts st i \<or> insts st' i = None
      \<or> (\<exists>x c. insts st i = Some x \<and> insts st' i = Some (x\<lparr>refcount := c\<rparr>))"
    unfolding released_def by meson
  then show ?thesis by (auto simp: fields_of_def)
qed

lemma released_fields_sub: "released r b st st' \<Longrightarrow> fields_of st' i \<subseteq> fields_of st i"
  using released_fields [of r b st st' i] by (auto simp: fields_of_def)

lemma released_high: "released r b st st' \<Longrightarrow> b < r i \<Longrightarrow> insts st' i = insts st i"
  by (auto simp: released_def)

lemma released_dead: "released r b st st' \<Longrightarrow> insts st i = None \<Longrightarrow> insts st' i = None"
  unfolding released_def by (metis option.distinct(1))

lemma released_var:
  "released r b st st' \<Longrightarrow> \<forall>i. r i \<le> b \<longrightarrow> l \<notin> fields_of st i \<Longrightarrow> vars st' l = vars st l"
  by (auto simp: released_def)

lemma inst_at_void [simp]:
  "vars st l = Some void_variant \<Longrightarrow> inst_at st l = None" "vars st l = None \<Longrightarrow> inst_at st l = None"
  by (simp_all add: inst_at_def void_variant_def)

lemma released_inst_at: "released r b st st' \<Longrightarrow> inst_at st' l = inst_at st l \<or> inst_at st' l = None"
  unfolding released_def by (metis (no_types, lifting) inst_at_def inst_at_void)

lemma released_varE:
  assumes "released r b st st'"
  obtains "vars st' l = vars st l"
  | i where "r i \<le> b" "l \<in> fields_of st i" "vars st' l = Some void_variant"
  | i where "r i \<le> b" "l \<in> fields_of st i" "vars st' l = None" "insts st' i = None"
  using assms unfolding released_def by meson

lemma released_instE:
  assumes "released r b st st'"
  obtains "insts st' j = insts st j"
  | "r j \<le> b" "insts st' j = None"
  | x c where "r j \<le> b" "insts st j = Some x" "0 < c" "insts st' j = Some (x\<lparr>refcount := c\<rparr>)"
  using assms unfolding released_def by meson

lemma released_void:
  "l \<in> fields_of st i \<Longrightarrow> r i \<le> b \<Longrightarrow> released r b st (st\<lparr>vars := (vars st)(l \<mapsto> void_variant)\<rparr>)"
  by (auto simp: released_def)

lemma released_trans:
  assumes a: "released r b st st'" "released r b' st' st''" and le: "b \<le> c" "b' \<le> c"
  shows "released r c st st''"
proof -
  have "vars st'' l = vars st l \<or> (\<exists>i. r i \<le> c \<and> l \<in> fields_of st i
      \<and> (vars st'' l = Some void_variant \<or> vars st'' l = None \<and> insts st'' i = None))" for l
    using a(2)
  proof (cases rule: released_varE [where l = l])
    case 1
    from a(1) show ?thesis
      by (cases rule: released_varE [where l = l])
         (use 1 le released_dead [OF a(2)] in \<open>auto intro: order_trans\<close>)
  qed (use le released_fields_sub [OF a(1)] in \<open>blast intro: order_trans\<close>)+
  moreover have "insts st'' j = insts st j \<or> r j \<le> c \<and> (insts st'' j = None
      \<or> (\<exists>x c. insts st j = Some x \<and> 0 < c \<and> insts st'' j = Some (x\<lparr>refcount := c\<rparr>)))" for j
    using a(2)
  proof (cases rule: released_instE [where j = j])
    case 1
    from a(1) show ?thesis
      by (cases rule: released_instE [where j = j]) (use 1 le in \<open>auto intro: order_trans\<close>)
  next
    case 2
    then show ?thesis using le by auto
  next
    case (3 x d)
    note d = this
    from a(1) show ?thesis
    proof (cases rule: released_instE [where j = j])
      case 1
      with d le(2) show ?thesis by (metis le_trans)
    next
      case (3 y e)
      with d(2) have "x = y\<lparr>refcount := e\<rparr>" by simp
      with d 3 le(1) show ?thesis by auto
    qed (use d in auto)
  qed
  ultimately show ?thesis unfolding released_def by blast
qed

lemma released_mono: "released r b st st' \<Longrightarrow> b \<le> c \<Longrightarrow> released r c st st'"
  by (rule released_trans [of r b st st' 0 st' c]) auto

lemma released_heap:
  assumes "heap r st" "released r b st st'" shows "heap r st'"
proof -
  have v: "vars st' l = vars st l \<or> vars st' l = Some void_variant \<or> vars st' l = None" for l
    using assms(2) unfolding released_def by metis
  have d: "dom (vars st') \<subseteq> dom (vars st)"
    using assms unfolding released_def heap_def by (smt (verit, ccfv_SIG) domD domI domIff subset_eq)
  have "wf_variant w" if "vars st' l = Some w" for l w
    using v [of l] that assms(1) by (auto simp: heap_def wf_mem_def wf_variant_def void_variant_def)
  then have "wf_mem st'" by (simp add: wf_mem_def)
  moreover have "fields_of st' i \<subseteq> dom (vars st')" for i
  proof
    fix l assume l: "l \<in> fields_of st' i"
    then have f: "l \<in> fields_of st i" "insts st' i \<noteq> None"
      using released_fields_sub [OF assms(2), of i] by (auto simp: fields_of_def split: option.splits)
    then have "vars st l \<noteq> None" "\<forall>k. l \<in> fields_of st k \<longrightarrow> k = i"
      using assms(1) unfolding heap_def by blast+
    with f(2) have "vars st' l \<noteq> None"
      by (cases rule: released_varE [OF assms(2), where l = l]) auto
    then show "l \<in> dom (vars st')" by auto
  qed
  moreover have "fields_of st' i \<inter> fields_of st' j = {}" if "i \<noteq> j" for i j
    using assms(1) that released_fields_sub [OF assms(2)] unfolding heap_def by blast
  moreover have "r j < r i" if "l \<in> fields_of st' i" "inst_at st' l = Some j" for i l j
    using that assms(1) released_fields_sub [OF assms(2)] released_inst_at [OF assms(2), of l]
    unfolding heap_def by (metis option.distinct(1) subsetD)
  ultimately show ?thesis using assms(1) d unfolding heap_def by (meson finite_subset)
qed

subsection \<open>Counting\<close>

lemma refs_finite: "finite (dom (vars st)) \<Longrightarrow> finite {l. l \<notin> P \<and> inst_at st l = Some i}"
  by (rule finite_subset [of _ "dom (vars st)"]) (auto simp: inst_at_def split: option.splits)

lemma refs_pos: "finite (dom (vars st)) \<Longrightarrow> l \<notin> P \<Longrightarrow> inst_at st l = Some i \<Longrightarrow> 0 < refs P st i"
  using refs_finite [of st P i] by (auto simp: refs_def card_gt_0_iff)

text \<open>A variant that is about to be released counts no more, one reference is to be given up.\<close>

lemma refs_insert:
  assumes "finite (dom (vars st))" "l \<notin> P"
  shows "refs P st i = refs (insert l P) st i + (if inst_at st l = Some i then 1 else 0)"
proof (cases "inst_at st l = Some i")
  case True
  with assms(2) have "{k. k \<notin> P \<and> inst_at st k = Some i} = insert l {k. k \<notin> insert l P \<and> inst_at st k = Some i}"
    by auto
  with True show ?thesis using refs_finite [OF assms(1), of "insert l P" i] by (simp add: refs_def)
next
  case False
  then have "{k. k \<notin> P \<and> inst_at st k = Some i} = {k. k \<notin> insert l P \<and> inst_at st k = Some i}" by auto
  with False show ?thesis by (simp add: refs_def)
qed

lemma refs_cong: "(\<And>l. l \<notin> P \<Longrightarrow> inst_at st l = inst_at st' l) \<Longrightarrow> refs P st = refs P st'"
  by (rule ext) (simp add: refs_def, metis (mono_tags, lifting))

lemma inst_at_upd:
  "inst_at (st\<lparr>vars := (vars st)(l \<mapsto> v)\<rparr>) k =
     (if k = l then if vtype v = TYPE_INST then as_inst (data v) else None else inst_at st k)"
  by (simp add: inst_at_def)

lemma inst_at_insts [simp]: "inst_at (st\<lparr>insts := f\<rparr>) = inst_at st"
  by (simp add: inst_at_def fun_eq_iff)

lemma refs_insts [simp]: "refs P (st\<lparr>insts := f\<rparr>) = refs P st"
  by (simp add: refs_def fun_eq_iff)

lemma refs_upd:
  "refs (insert l P) (st\<lparr>vars := (vars st)(l \<mapsto> v)\<rparr>) = refs (insert l P) st"
  by (rule refs_cong) (auto simp: inst_at_upd)

lemma fields_of_vars [simp]: "fields_of (st\<lparr>vars := f\<rparr>) = fields_of st"
  by (simp add: fields_of_def fun_eq_iff)

text \<open>Overwriting a variant that holds no instance, by one that holds none.\<close>

lemma heap_upd:
  assumes "heap r st" "vars st l \<noteq> None" "wf_variant v" "vtype v \<noteq> TYPE_INST"
  shows "heap r (st\<lparr>vars := (vars st)(l \<mapsto> v)\<rparr>)"
  using assms unfolding heap_def wf_mem_def
  by (auto simp: inst_at_upd split: if_splits)

lemma counted_upd:
  assumes "finite (dom (vars st))" "l \<notin> P" "vtype v \<noteq> TYPE_INST"
    "counted P st None \<and> inst_at st l = None \<or> counted (insert l P) st None"
  shows "counted P (st\<lparr>vars := (vars st)(l \<mapsto> v)\<rparr>) None"
proof -
  let ?s = "st\<lparr>vars := (vars st)(l \<mapsto> v)\<rparr>"
  have f: "finite (dom (vars ?s))" using assms(1) by simp
  have "refs P ?s i = refs (insert l P) st i" for i
    using refs_insert [OF f assms(2), of i] assms(3) by (simp add: inst_at_upd refs_upd)
  moreover have "inst_at st l = None \<Longrightarrow> refs (insert l P) st i = refs P st i" for i
    using refs_insert [OF assms(1,2), of i] by simp
  ultimately show ?thesis using assms(4) by (auto simp: counted_def)
qed

lemma counted_release:
  assumes "finite (dom (vars st))" "l \<notin> P" "counted P st None" "inst_at st l = Some j"
  shows "counted (insert l P) st (Some j)" "insts st j \<noteq> None"
  using assms refs_insert [OF assms(1,2)] refs_pos [OF assms(1,2,4)]
  by (auto simp: counted_def split: if_splits)

text \<open>Counting down.\<close>

lemma counted_down:
  assumes "counted P st (Some i)" "insts st i = Some x"
  shows "counted P (st\<lparr>insts := (insts st)(i \<mapsto> x\<lparr>refcount := refcount x - 1\<rparr>)\<rparr>) None"
  using assms by (auto simp: counted_def)

lemma fields_of_count [simp]:
  "insts st i = Some x \<Longrightarrow> fields_of (st\<lparr>insts := (insts st)(i \<mapsto> x\<lparr>refcount := c\<rparr>)\<rparr>) = fields_of st"
  by (auto simp: fields_of_def fun_eq_iff)

lemma heap_count [simp]:
  "insts st i = Some x \<Longrightarrow> heap r (st\<lparr>insts := (insts st)(i \<mapsto> x\<lparr>refcount := c\<rparr>)\<rparr>) = heap r st"
  by (simp add: heap_def wf_mem_def)

lemma released_count:
  "insts st i = Some x \<Longrightarrow> 0 < c \<Longrightarrow> r i \<le> b
     \<Longrightarrow> released r b st (st\<lparr>insts := (insts st)(i \<mapsto> x\<lparr>refcount := c\<rparr>)\<rparr>)"
  by (auto simp: released_def)

subsection \<open>Releasing\<close>

text \<open>
  \<open>can_release r b P st\<close>: none of the variants being cleared is a field of an instance of rank up
  to b, the ones a release at rank b may reach.
\<close>

definition can_release :: "(nat \<Rightarrow> nat) \<Rightarrow> nat \<Rightarrow> 'l set \<Rightarrow> ('l, 'f) mem \<Rightarrow> bool" where
  "can_release r b P st \<longleftrightarrow> (\<forall>k. r k \<le> b \<longrightarrow> fields_of st k \<inter> P = {})"

lemma can_release_later:
  "can_release r b P st \<Longrightarrow> released r c st st' \<Longrightarrow> can_release r b P st'"
  unfolding can_release_def using released_fields_sub by blast

lemma can_release_mono: "can_release r b P st \<Longrightarrow> c \<le> b \<Longrightarrow> can_release r c P st"
  unfolding can_release_def by auto

text \<open>What a release of rank b promises, for an instance that has just lost a reference.\<close>

definition releases ::
  "(nat \<Rightarrow> nat) \<Rightarrow> nat \<Rightarrow> (nat \<Rightarrow> ('l, 'f) mem \<Rightarrow> ('l, 'f) mem option) \<Rightarrow> bool" where
  "releases r n rel \<longleftrightarrow> (\<forall>i P st.
     r i < n \<longrightarrow> insts st i \<noteq> None \<longrightarrow> heap r st \<longrightarrow> counted P st (Some i) \<longrightarrow> can_release r (r i) P st \<longrightarrow>
     (\<exists>st'. rel i st = Some st' \<and> counted P st' None \<and> released r (r i) st st'))"

lemma heap_wf: "heap r st \<Longrightarrow> vars st l = Some v \<Longrightarrow> wf_variant v"
  by (simp add: heap_def wf_mem_def)

text \<open>Then clearing a variant works, and leaves nothing in it.\<close>

lemma clear_with_releases:
  assumes rel: "releases r n rel" and h: "heap r st" and c: "counted P st None"
    and l: "vars st l \<noteq> None" "l \<notin> P"
    and j: "\<And>j. inst_at st l = Some j \<Longrightarrow> r j < n \<and> r j \<le> b \<and> can_release r (r j) (insert l P) st"
  shows "\<exists>st1 st'. clear_with rel l st = Some st' \<and> released r b st st1 \<and> vars st1 l = vars st l
    \<and> (\<forall>k. (\<forall>j. inst_at st l = Some j \<longrightarrow> r j < r k) \<longrightarrow> insts st1 k = insts st k)
    \<and> (st' = st1 \<or> st' = st1\<lparr>vars := (vars st1)(l \<mapsto> void_variant)\<rparr>)
    \<and> heap r st' \<and> counted P st' None
    \<and> (\<exists>w. vars st' l = Some w \<and> (w = void_variant \<or> vars st l = Some w \<and> vtype w \<in> {TYPE_VOID, TYPE_NULL}))"
proof -
  obtain v where v: "vars st l = Some v" using l(1) by auto
  have f: "finite (dom (vars st))" using h by (simp add: heap_def)
  have void: "wf_variant void_variant" "vtype void_variant \<noteq> TYPE_INST"
    by (simp_all add: wf_variant_def void_variant_def)
  show ?thesis
  proof (cases "vtype v = TYPE_INST")
    case True
    with heap_wf [OF h v] obtain i where i: "data v = DInst i" by (auto simp: wf_variant_def)
    then have at: "inst_at st l = Some i" using v True by (simp add: inst_at_def)
    from counted_release [OF f l(2) c at] rel j [OF at] h obtain st1 where
      st1: "rel i st = Some st1" "counted (insert l P) st1 None" "released r (r i) st st1"
      unfolding releases_def by blast
    have rb: "released r b st st1" using st1(3) j [OF at] released_mono by blast
    have same: "vars st1 l = vars st l"
      using j [OF at] released_var [OF st1(3), of l] unfolding can_release_def by auto
    have h1: "heap r st1" using h st1(3) by (rule released_heap)
    then have f1: "finite (dom (vars st1))" by (simp add: heap_def)
    have "heap r (st1\<lparr>vars := (vars st1)(l \<mapsto> void_variant)\<rparr>)"
      by (rule heap_upd [OF h1 _ void]) (simp add: same v)
    moreover have "counted P (st1\<lparr>vars := (vars st1)(l \<mapsto> void_variant)\<rparr>) None"
      by (rule counted_upd [OF f1 l(2) void(2)]) (simp add: st1)
    moreover have "insts st1 k = insts st k" if "r i < r k" for k
      using released_high [OF st1(3) that] .
    ultimately show ?thesis using True v i at st1(1) rb same by (simp add: clear_with_def wr_def) auto
  next
    case False
    then have at: "inst_at st l = None" using v by (simp add: inst_at_def)
    have "heap r (st\<lparr>vars := (vars st)(l \<mapsto> void_variant)\<rparr>)"
      by (rule heap_upd [OF h l(1) void])
    moreover have "counted P (st\<lparr>vars := (vars st)(l \<mapsto> void_variant)\<rparr>) None"
      by (rule counted_upd [OF f l(2) void(2)]) (simp add: c at)
    moreover have "vtype v = TYPE_STRING \<Longrightarrow> \<exists>s. data v = DS s"
      using h v by (force simp: heap_def wf_mem_def wf_variant_def split: jstype.splits)
    ultimately show ?thesis using False v h c
      by (cases "vtype v") (auto simp: clear_with_def wr_def intro: exI [of _ st])
  qed
qed

text \<open>Clearing the fields of an instance that nothing refers to any more.\<close>

lemma clear_fields:
  assumes rel: "releases r n rel" and n: "r i \<le> n"
  shows "insts st i = Some x \<Longrightarrow> set fs \<subseteq> set (owned x) \<Longrightarrow> heap r st \<Longrightarrow> counted P st None
    \<Longrightarrow> can_release r (r i) P st
    \<Longrightarrow> \<exists>st'. foldM (clear_with rel) fs st = Some st' \<and> insts st' i = Some x \<and> heap r st'
          \<and> counted P st' None \<and> released r (r i) st st' \<and> (\<forall>l\<in>set fs. inst_at st' l = None)"
proof (induction fs arbitrary: st)
  case Nil
  then show ?case by auto
next
  case (Cons l fs)
  have own: "l \<in> fields_of st i" using Cons.prems(1,2) by (auto simp: fields_of_def)
  have l: "vars st l \<noteq> None" "l \<notin> P" "\<And>k. k \<noteq> i \<Longrightarrow> l \<notin> fields_of st k"
    "\<And>j. inst_at st l = Some j \<Longrightarrow> r j < r i"
    using own Cons.prems(3,5) unfolding heap_def can_release_def by blast+
  have can: "can_release r (r j) (insert l P) st" if "inst_at st l = Some j" for j
    unfolding can_release_def
  proof (intro allI impI)
    fix k assume k: "r k \<le> r j"
    with l(4) [OF that] have "k \<noteq> i" by auto
    with k l(3) l(4) [OF that] Cons.prems(5) show "fields_of st k \<inter> insert l P = {}"
      unfolding can_release_def by simp
  qed
  have "\<And>j. inst_at st l = Some j \<Longrightarrow> r j < n \<and> r j \<le> r i \<and> can_release r (r j) (insert l P) st"
    using l(4) n can by fastforce
  from clear_with_releases [OF rel Cons.prems(3,4) l(1,2) this] obtain st1 st2 where
    st: "clear_with rel l st = Some st2" "released r (r i) st st1"
      "st2 = st1 \<or> st2 = st1\<lparr>vars := (vars st1)(l \<mapsto> void_variant)\<rparr>"
      "insts st1 i = insts st i" "heap r st2" "counted P st2 None"
    and w: "\<exists>w. vars st2 l = Some w \<and> (w = void_variant \<or> vars st l = Some w \<and> vtype w \<in> {TYPE_VOID, TYPE_NULL})"
    using l(4) by auto
  have i2: "insts st2 i = Some x" using st(3,4) Cons.prems(1) by auto
  have "l \<in> fields_of st1 i" using own st(4) by (simp add: fields_of_def)
  then have "released r (r i) st1 st2" using st(3) released_void [of l st1 i r "r i"] by auto
  with st(2) have r2: "released r (r i) st st2" by (rule released_trans) auto
  have at2: "inst_at st2 l = None" using w by (auto simp: inst_at_def void_variant_def)
  from Cons.IH [OF i2 _ st(5,6) can_release_later [OF Cons.prems(5) r2]] Cons.prems(2)
  obtain st3 where st3: "foldM (clear_with rel) fs st2 = Some st3" "insts st3 i = Some x" "heap r st3"
    "counted P st3 None" "released r (r i) st2 st3" "\<forall>l\<in>set fs. inst_at st3 l = None" by auto
  from r2 st3(5) have "released r (r i) st st3" by (rule released_trans) auto
  moreover have "inst_at st3 l = None" using released_inst_at [OF st3(5), of l] at2 by simp
  ultimately show ?case using st(1) st3 by auto
qed

lemma free_inst_frees:
  assumes h: "heap r st" and i: "insts st i = Some x" and fs: "\<forall>l\<in>set (owned x). inst_at st l = None"
    and c: "counted P st None" and z: "refcount x \<le> 0"
  shows "counted P (free_inst i (owned x) st) None" "released r (r i) st (free_inst i (owned x) st)"
proof -
  have "inst_at (free_inst i (owned x) st) l = inst_at st l" for l
    using fs by (auto simp: free_inst_def inst_at_def restrict_map_def)
  then have "refs P (free_inst i (owned x) st) = refs P st" by (rule refs_cong)
  moreover have "refs P st i = 0" using c i z by (auto simp: counted_def)
  ultimately show "counted P (free_inst i (owned x) st) None"
    using c by (auto simp: counted_def free_inst_def)
  show "released r (r i) st (free_inst i (owned x) st)"
    using i by (auto simp: released_def free_inst_def fields_of_def restrict_map_def)
qed

text \<open>Releasing an instance: \<open>jsinstDeref\<close> with a stack of depth n keeps the promise for ranks below n.\<close>

lemma released_start:
  assumes "insts st i = Some x" "released r (r i) (st\<lparr>insts := (insts st)(i \<mapsto> y)\<rparr>) st'"
    "owned y = owned x" "insts st' i = None"
  shows "released r (r i) st st'"
proof -
  have "fields_of (st\<lparr>insts := (insts st)(i \<mapsto> y)\<rparr>) = fields_of st"
    using assms(1,3) by (auto simp: fields_of_def fun_eq_iff)
  then show ?thesis using assms(2,4) unfolding released_def
    by (auto split: if_splits)
qed

lemma jsinstDeref_releases: "releases r n (jsinstDeref n :: nat \<Rightarrow> ('l, 'f) mem \<Rightarrow> ('l, 'f) mem option)"
proof (induction n)
  case 0
  then show ?case by (simp add: releases_def)
next
  case (Suc n)
  have "\<exists>st'. jsinstDeref (Suc n) i st = Some st' \<and> counted P st' None \<and> released r (r i) st st'"
    if "r i < Suc n" and x: "insts st i = Some x" and h: "heap r st" and c: "counted P st (Some i)"
      and can: "can_release r (r i) P st" for i P x and st :: "('l, 'f) mem"
  proof -
    let ?x = "x\<lparr>refcount := refcount x - 1\<rparr>"
    let ?s = "st\<lparr>insts := (insts st)(i \<mapsto> ?x)\<rparr>"
    have s: "insts ?s i = Some ?x" "heap r ?s" "counted P ?s None" "can_release r (r i) P ?s"
      using x h can counted_down [OF c x] by (simp_all add: can_release_def)
    show ?thesis
    proof (cases "refcount x - 1 \<le> 0")
      case False
      then show ?thesis using x s(3) released_count [OF x, of "refcount x - 1" r "r i"] by simp
    next
      case True
      have "r i \<le> n" using \<open>r i < Suc n\<close> by simp
      from clear_fields [where r = r and i = i and fs = "owned x", OF Suc this s(1) _ s(2,3,4)] obtain st1 where
        st1: "foldM (clear_with (jsinstDeref n)) (owned x) ?s = Some st1" "insts st1 i = Some ?x"
          "heap r st1" "counted P st1 None" "released r (r i) ?s st1" "\<forall>l\<in>set (owned x). inst_at st1 l = None"
        by auto
      have "counted P (free_inst i (owned x) st1) None" "released r (r i) st1 (free_inst i (owned x) st1)"
        using free_inst_frees [OF st1(3,2) _ st1(4)] st1(6) True by auto
      moreover from st1(5) this(2) have "released r (r i) ?s (free_inst i (owned x) st1)"
        by (rule released_trans) auto
      from released_start [OF x this] have "released r (r i) st (free_inst i (owned x) st1)"
        by (simp add: free_inst_def)
      ultimately show ?thesis using x True st1(1) by simp
    qed
  qed
  then show ?case unfolding releases_def by blast
qed

subsection \<open>The operations\<close>

text \<open>
  A variant may be cleared when the instance it holds is within the C stack's depth, and it is
  not itself a field of an instance that goes with it.
\<close>

definition may_clear :: "(nat \<Rightarrow> nat) \<Rightarrow> 'f ext \<Rightarrow> ('l, 'f) mem \<Rightarrow> 'l \<Rightarrow> bool" where
  "may_clear r E st l \<longleftrightarrow> vars st l \<noteq> None
     \<and> (\<forall>j. inst_at st l = Some j \<longrightarrow> r j < cstack E \<and> (\<forall>k. r k \<le> r j \<longrightarrow> l \<notin> fields_of st k))"

definition no_garbage :: "('l, 'f) mem \<Rightarrow> bool" where
  "no_garbage st \<longleftrightarrow> (\<forall>i x. insts st i = Some x \<longrightarrow> 0 < refcount x)"

lemma released_no_garbage: "released r b st st' \<Longrightarrow> no_garbage st \<Longrightarrow> no_garbage st'"
  unfolding no_garbage_def
proof (intro allI impI)
  fix i x
  assume r: "released r b st st'" and g: "\<forall>i x. insts st i = Some x \<longrightarrow> 0 < refcount x" and i: "insts st' i = Some x"
  from r show "0 < refcount x" by (cases rule: released_instE [where j = i]) (use g i in auto)
qed

lemma varClear_ok:
  assumes "heap r st" "counted {} st None" "may_clear r E st l"
  obtains st' st1 w where "varClear E l st = Some st'" "heap r st'" "counted {} st' None"
    "released r (case inst_at st l of None \<Rightarrow> 0 | Some j \<Rightarrow> r j) st st1"
    "st' = st1 \<or> st' = st1\<lparr>vars := (vars st1)(l \<mapsto> void_variant)\<rparr>"
    "vars st' l = Some w" "w = void_variant \<or> vars st l = Some w \<and> vtype w \<in> {TYPE_VOID, TYPE_NULL}"
proof -
  have "r j < cstack E \<and> r j \<le> (case inst_at st l of None \<Rightarrow> 0 | Some j \<Rightarrow> r j) \<and> can_release r (r j) (insert l {}) st"
    if "inst_at st l = Some j" for j
    using assms(3) that by (auto simp: may_clear_def can_release_def)
  from clear_with_releases [OF jsinstDeref_releases assms(1,2) _ _ this] assms(3) that show thesis
    unfolding varClear_def may_clear_def by blast
qed

text \<open>C15. Clearing a variant. On a heap of exact reference counts \<open>varClear\<close> returns, the counts
  are exact again, and the variant is left empty. An instance whose last reference goes is
  freed with everything only it held, so no instance remains that nothing refers to; no other
  variant changes, except the fields of the instances that lost a reference.\<close>
theorem varClear_counts:
  assumes "heap r st" and "counted {} st None" and "may_clear r E st l"
  shows "\<exists>st'. varClear E l st = Some st' \<and> heap r st' \<and> counted {} st' None
    \<and> (no_garbage st \<longrightarrow> no_garbage st') \<and> inst_at st' l = None
    \<and> (\<forall>k. k \<noteq> l \<longrightarrow> (\<forall>i. k \<notin> fields_of st i) \<longrightarrow> vars st' k = vars st k)"
proof -
  from assms obtain st' st1 w where s: "varClear E l st = Some st'" "heap r st'" "counted {} st' None"
    "released r (case inst_at st l of None \<Rightarrow> 0 | Some j \<Rightarrow> r j) st st1"
    "st' = st1 \<or> st' = st1\<lparr>vars := (vars st1)(l \<mapsto> void_variant)\<rparr>"
    "vars st' l = Some w" "w = void_variant \<or> vars st l = Some w \<and> vtype w \<in> {TYPE_VOID, TYPE_NULL}"
    by (rule varClear_ok)
  have "no_garbage st \<longrightarrow> no_garbage st'"
    using released_no_garbage [OF s(4)] s(5) by (auto simp: no_garbage_def)
  moreover have "inst_at st' l = None" using s(6,7) by (auto simp: inst_at_def void_variant_def)
  moreover have "vars st' k = vars st k" if "k \<noteq> l" "\<forall>i. k \<notin> fields_of st i" for k
    using released_var [OF s(4), of k] that s(5) by auto
  ultimately show ?thesis using s by blast
qed

text \<open>
  A concrete instance of what is not under src/, for the witnesses: floats that are integers,
  strings that are lists, and an allocator that never fails.
\<close>

definition int_ext :: "int ext" where
  "int_ext = \<lparr>fl_of_int = sint, fl_to_int = word_of_int, fl_bits = word_of_int,
     fl_add = (+), fl_sub = (-), fl_mul = (*), fl_div = (sdiv), fl_lt = (<), fl_le = (\<le>), fl_eq = (=),
     fl_print = (\<lambda>i. itoa (word_of_int i)), fl_atof = (\<lambda>s. sint (atoi s)), fl_junk = 0,
     s_isint = (\<lambda>s. list_all (\<lambda>c. isdigit (schar c)) (if take 1 s = ''-'' then tl s else s)), s_isfloat = (\<lambda>s. False),
     s_cmp = (\<lambda>s t. if s = t then 0 else 1), s_make = Some, s_dup = Some,
     s_append = (\<lambda>s t. Some (s @ t)), cstack = 100\<rparr>"

text \<open>Two variables hold an instance, with one field, that holds a vector with one variant.\<close>

definition two_level :: "(nat, int) mem" where
  "two_level = \<lparr>
     vars = [0 \<mapsto> mk TYPE_INST (DInst 0), 1 \<mapsto> mk TYPE_INT (DI 7), 2 \<mapsto> mk TYPE_INST (DInst 1),
             3 \<mapsto> mk TYPE_STRING (DS ''a'')],
     insts = [0 \<mapsto> \<lparr>myclass = 0, ifields = [2], refcount = 1, nativedata = NoNative, magic = None\<rparr>,
              1 \<mapsto> \<lparr>myclass = 1, ifields = [], refcount = 1, nativedata = VectorData [None, Some 3], magic = None\<rparr>]\<rparr>"

lemma two_level_at: "inst_at two_level l = (if l = 0 then Some 0 else if l = 2 then Some 1 else None)"
  by (simp add: two_level_def inst_at_def)

lemma two_level_fields: "fields_of two_level i = (if i = 0 then {2} else if i = 1 then {3} else {})"
  by (simp add: two_level_def fields_of_def owned_def)

lemma two_level_heap: "heap (\<lambda>i. 1 - i) two_level" "counted {} two_level None" "no_garbage two_level"
proof -
  show "heap (\<lambda>i. 1 - i) two_level"
    by (auto simp: heap_def two_level_at two_level_fields)
       (auto simp: two_level_def wf_mem_def wf_variant_def)
  have at: "{l. l \<notin> {} \<and> inst_at two_level l = Some i} = (if i = 0 then {0} else if i = 1 then {2} else {})" for i
    by (auto simp: two_level_at split: if_splits)
  have r: "refs {} two_level i = (if i \<le> 1 then 1 else 0)" for i
    unfolding refs_def at by auto
  show "counted {} two_level None"
    unfolding counted_def r by (auto simp: two_level_def split: if_splits)
  show "no_garbage two_level" by (auto simp: no_garbage_def two_level_def)
qed

theorem varClear_counts_witness:
  "\<exists>st'. varClear int_ext 0 two_level = Some st' \<and> heap (\<lambda>i. 1 - i) st' \<and> counted {} st' None
    \<and> no_garbage st' \<and> vars st' 1 = Some (mk TYPE_INT (DI 7))"
proof -
  have m: "may_clear (\<lambda>i. 1 - i) int_ext two_level 0"
    by (simp add: may_clear_def two_level_at two_level_fields int_ext_def) (simp add: two_level_def)
  from varClear_counts [OF two_level_heap(1,2) m] obtain st' where
    s: "varClear int_ext 0 two_level = Some st'" "heap (\<lambda>i. 1 - i) st'" "counted {} st' None"
      "no_garbage st'" "\<forall>k. k \<noteq> 0 \<longrightarrow> (\<forall>i. k \<notin> fields_of two_level i) \<longrightarrow> vars st' k = vars two_level k"
    using two_level_heap(3) by blast
  then have "vars st' 1 = vars two_level 1" by (simp add: two_level_fields)
  with s show ?thesis by (simp add: two_level_def)
qed

subsection \<open>Assignment\<close>

text \<open>The macro in front of every assignment clears only what has something to release.\<close>

lemma VARCLEAR_ok:
  assumes "heap r st" "counted {} st None" "may_clear r E st l"
  obtains st' st1 w where "VARCLEAR E l st = Some st'" "heap r st'" "counted {} st' None"
    "released r (case inst_at st l of None \<Rightarrow> 0 | Some j \<Rightarrow> r j) st st1"
    "st' = st1 \<or> st' = st1\<lparr>vars := (vars st1)(l \<mapsto> void_variant)\<rparr>"
    "vars st' l = Some w" "inst_at st' l = None"
proof -
  obtain v where v: "vars st l = Some v" using assms(3) by (auto simp: may_clear_def)
  show thesis
  proof (cases "jstype_code (vtype v) > jstype_code TYPE_BOOL")
    case True
    from assms obtain st' st1 w where s: "varClear E l st = Some st'" "heap r st'" "counted {} st' None"
      "released r (case inst_at st l of None \<Rightarrow> 0 | Some j \<Rightarrow> r j) st st1"
      "st' = st1 \<or> st' = st1\<lparr>vars := (vars st1)(l \<mapsto> void_variant)\<rparr>"
      "vars st' l = Some w" "w = void_variant \<or> vars st l = Some w \<and> vtype w \<in> {TYPE_VOID, TYPE_NULL}"
      by (rule varClear_ok)
    moreover have "inst_at st' l = None" using s(6,7) by (auto simp: inst_at_def void_variant_def)
    ultimately show thesis using that True v by (simp add: VARCLEAR_def)
  next
    case False
    then have "inst_at st l = None" using v by (cases "vtype v") (auto simp: inst_at_def)
    with False v assms show thesis
      by (intro that [of st st v]) (auto simp: VARCLEAR_def)
  qed
qed

text \<open>Storing an instance, and counting its new reference.\<close>

lemma store_inst:
  assumes h: "heap r st" and c: "counted {} st None" and l: "vars st l \<noteq> None" "inst_at st l = None"
    and i: "insts st i \<noteq> None" and rank: "\<forall>k. l \<in> fields_of st k \<longrightarrow> r i < r k"
  obtains st' where "Option.bind (wr l (mk TYPE_INST (DInst i)) st) (jsinstRef i) = Some st'"
    "heap r st'" "counted {} st' None" "vars st' l = Some (mk TYPE_INST (DInst i))"
    "vars st' = (vars st)(l \<mapsto> mk TYPE_INST (DInst i))"
proof -
  obtain x where x: "insts st i = Some x" using i by auto
  let ?s = "st\<lparr>vars := (vars st)(l \<mapsto> mk TYPE_INST (DInst i))\<rparr>"
  let ?t = "?s\<lparr>insts := (insts ?s)(i \<mapsto> x\<lparr>refcount := refcount x + 1\<rparr>)\<rparr>"
  have f: "finite (dom (vars st))" "finite (dom (vars ?s))" using h by (simp_all add: heap_def)
  have hs: "heap r ?s"
    using h l rank unfolding heap_def wf_mem_def
    by (auto simp: inst_at_upd wf_variant_def split: if_splits)
  have "refs {} ?s k = refs {} st k + (if k = i then 1 else 0)" for k
    using refs_insert [OF f(1), of l "{}" k] refs_insert [OF f(2), of l "{}" k] l(2)
      refs_upd [of l "{}" st "mk TYPE_INST (DInst i)"]
    by (auto simp: inst_at_upd)
  then have "counted {} ?t None" using c x by (auto simp: counted_def)
  moreover have "heap r ?t" using hs heap_count [of ?s i x r "refcount x + 1"] x by simp
  ultimately show thesis using that [of ?t] l(1) x by (simp add: wr_def jsinstRef_def)
qed

text \<open>What is copied: strings are duplicated, instances shared.\<close>

definition copy_of :: "'f ext \<Rightarrow> ('l, 'f) variant \<Rightarrow> ('l, 'f) variant \<Rightarrow> bool" where
  "copy_of E w u \<longleftrightarrow> vtype u = vtype w \<and>
     (case vtype w of
        TYPE_VOID \<Rightarrow> True
      | TYPE_STRING \<Rightarrow> \<exists>s s'. data w = DS s \<and> s_dup E s = Some s' \<and> data u = DS s'
      | _ \<Rightarrow> data u = data w)"

lemma varAssign_ok:
  assumes h: "heap r st" and c: "counted {} st None" and m: "may_clear r E st var"
    and w: "vars st from = Some w" "from \<noteq> var" "vtype w \<noteq> TYPE_DELEGATE"
    and dup: "\<forall>s. data w = DS s \<longrightarrow> s_dup E s \<noteq> None"
    and kept: "\<forall>j k. inst_at st var = Some j \<longrightarrow> r k \<le> r j \<longrightarrow> from \<notin> fields_of st k"
    and rank: "\<forall>i k. inst_at st from = Some i \<longrightarrow> var \<in> fields_of st k \<longrightarrow> r i < r k"
  shows "\<exists>st' u. varAssign E var from st = Some (True, st') \<and> heap r st' \<and> counted {} st' None
    \<and> vars st' var = Some u \<and> copy_of E w u \<and> vars st' from = Some w"
proof -
  from h c m obtain s1 s0 v where s: "VARCLEAR E var st = Some s1" "heap r s1" "counted {} s1 None"
    "released r (case inst_at st var of None \<Rightarrow> 0 | Some j \<Rightarrow> r j) st s0"
    "s1 = s0 \<or> s1 = s0\<lparr>vars := (vars s0)(var \<mapsto> void_variant)\<rparr>"
    "vars s1 var = Some v" "inst_at s1 var = None" by (rule VARCLEAR_ok)
  have from1: "vars s1 from = Some w"
  proof (cases "inst_at st var")
    case None
    with m s(1) w show ?thesis
      by (auto simp: may_clear_def inst_at_def VARCLEAR_def varClear_def clear_with_def wr_def
          split: if_splits jstype.splits option.splits bind_splits)
  next
    case (Some j)
    then have "vars s0 from = vars st from" using released_var [OF s(4), of "from"] kept by simp
    then show ?thesis using s(5) w by auto
  qed
  have wf: "wf_variant w" using h w(1) by (rule heap_wf)
  have plain: "heap r (s1\<lparr>vars := (vars s1)(var \<mapsto> u)\<rparr>)" "counted {} (s1\<lparr>vars := (vars s1)(var \<mapsto> u)\<rparr>) None"
    if "wf_variant u" "vtype u \<noteq> TYPE_INST" for u
    using heap_upd [OF s(2) _ that, of var] s(6) counted_upd [of s1 var "{}" u] s(2,3,7) that(2)
    by (auto simp: heap_def)
  show ?thesis
  proof (cases "vtype w = TYPE_INST")
    case True
    with wf obtain i where i: "data w = DInst i" by (auto simp: wf_variant_def)
    have at: "inst_at s1 from = Some i" "inst_at st from = Some i"
      using True i from1 w(1) by (simp_all add: inst_at_def)
    have live: "insts s1 i \<noteq> None"
      using counted_release [of s1 "from" "{}" i] s(2,3) at(1) by (simp add: heap_def)
    have rk: "\<forall>k. var \<in> fields_of s1 k \<longrightarrow> r i < r k"
      using rank at(2) released_fields_sub [OF s(4)] s(5) by (metis fields_of_vars subsetD)
    from store_inst [OF s(2,3) _ s(7) live rk] s(6) obtain s2 where
      s2: "Option.bind (wr var (mk TYPE_INST (DInst i)) s1) (jsinstRef i) = Some s2" "heap r s2"
        "counted {} s2 None" "vars s2 var = Some (mk TYPE_INST (DInst i))"
        "vars s2 = (vars s1)(var \<mapsto> mk TYPE_INST (DInst i))" by auto
    have "varAssign E var from st = Some (True, s2)"
      using True i s(1,6) from1 s2(1) by (simp add: varAssign_def) (auto simp: bind_eq_Some_conv)
    with s2 True i from1 w(2) show ?thesis by (simp add: copy_of_def)
  next
    case False
    let ?d = "case vtype w of TYPE_VOID \<Rightarrow> data v | TYPE_STRING \<Rightarrow> DS (the (s_dup E (the (as_str (data w))))) | _ \<Rightarrow> data w"
    let ?s2 = "s1\<lparr>vars := (vars s1)(var \<mapsto> mk (vtype w) ?d)\<rparr>"
    have "wf_variant (mk (vtype w) ?d)" using wf by (cases "vtype w") (auto simp: wf_variant_def)
    then have "heap r ?s2" "counted {} ?s2 None" using plain False by simp_all
    moreover have "varAssign E var from st = Some (True, ?s2)" "copy_of E w (mk (vtype w) ?d)"
      using False w(3) wf dup s(1,6) from1
      by (cases "vtype w"; auto simp: wf_variant_def varAssign_def put_def wr_def copy_of_def split: option.splits)+
    ultimately show ?thesis using w(2) from1 by auto
  qed
qed

text \<open>C16. Assignment. On a heap of exact reference counts, \<open>varAssign\<close> of a variant that is no
  delegate and whose string, if it is one, can be duplicated returns true; the destination then
  holds a copy, the counts are exact again, and an instance that is now referred to twice is
  counted so. The destination must be clearable, the source must not be a field of what the
  destination releases, and the assignment must not close a cycle.\<close>
theorem varAssign_counts:
  assumes h: "heap r st" and c: "counted {} st None" and m: "may_clear r E st var"
    and w: "vars st from = Some w" "from \<noteq> var" "vtype w \<noteq> TYPE_DELEGATE"
    and dup: "\<forall>s. data w = DS s \<longrightarrow> s_dup E s \<noteq> None"
    and kept: "\<forall>j k. inst_at st var = Some j \<longrightarrow> r k \<le> r j \<longrightarrow> from \<notin> fields_of st k"
    and rank: "\<forall>i k. inst_at st from = Some i \<longrightarrow> var \<in> fields_of st k \<longrightarrow> r i < r k"
  shows "\<exists>st' u. varAssign E var from st = Some (True, st') \<and> heap r st' \<and> counted {} st' None
    \<and> vars st' var = Some u \<and> copy_of E w u \<and> vars st' from = Some w"
  using assms by (rule varAssign_ok)

theorem varAssign_counts_witness:
  "\<exists>st' u. varAssign int_ext 1 0 two_level = Some (True, st') \<and> counted {} st' None
     \<and> vars st' 1 = Some u \<and> copy_of int_ext (mk TYPE_INST (DInst 0)) u"
proof -
  have m: "may_clear (\<lambda>i. 1 - i) int_ext two_level 1"
    by (simp add: may_clear_def two_level_at two_level_fields int_ext_def) (simp add: two_level_def)
  have w: "vars two_level 0 = Some (mk TYPE_INST (DInst 0))" by (simp add: two_level_def)
  have k: "inst_at two_level 1 = None" "\<forall>k. 1 \<notin> fields_of two_level k"
    by (simp_all add: two_level_at two_level_fields)
  from varAssign_counts [OF two_level_heap(1,2) m w] k show ?thesis by auto
qed

text \<open>C17. An assignment reads what it has just freed: when the source is a field of an instance
  that only the destination holds (as in \<open>list = list.next\<close> or \<open>v = v[0]\<close> for the last reference to it),
  clearing the destination frees the field before it is copied, and the C code reads freed
  memory.\<close>
theorem varAssign_use_after_free:
  assumes "vars st var = Some v" "vtype v = TYPE_INST" "data v = DInst j"
    and "insts st j = Some x" "refcount x \<le> 1" "from \<in> set (owned x)" "from \<noteq> var"
  shows "varAssign E var from st = None"
proof -
  have "vars s from = None" if "varClear E var st = Some s" for s
    using that assms
    by (cases "cstack E") (auto simp: varClear_def clear_with_def wr_def free_inst_def bind_eq_Some_conv split: if_splits)
  then show ?thesis using assms(1,2)
    by (cases "varClear E var st") (auto simp: varAssign_def VARCLEAR_def split: option.splits bind_splits)
qed

theorem varAssign_use_after_free_witness:
  "varAssign int_ext 0 2 two_level = None"
  by (rule varAssign_use_after_free [where j = 0 and v = "mk TYPE_INST (DInst 0)"
        and x = "\<lparr>myclass = 0, ifields = [2], refcount = 1, nativedata = NoNative, magic = None\<rparr>"]) (simp_all add: two_level_def owned_def)

subsection \<open>Allocation\<close>

lemma heap_construct:
  assumes "heap r st" "counted {} st None" "vars st l = None"
  shows "heap r (snd (varConstruct (Some l) st))" "counted {} (snd (varConstruct (Some l) st)) None"
    "may_clear r E (snd (varConstruct (Some l) st)) l" "inst_at (snd (varConstruct (Some l) st)) l = None"
    "fields_of (snd (varConstruct (Some l) st)) = fields_of st" "\<forall>k. l \<notin> fields_of st k"
proof -
  let ?s = "st\<lparr>vars := (vars st)(l \<mapsto> void_variant)\<rparr>"
  have at: "inst_at ?s k = inst_at st k" for k
    using assms(3) by (simp add: inst_at_upd void_variant_def inst_at_def)
  have "heap r ?s" using assms(1) unfolding heap_def at
    by (auto simp: wf_mem_def wf_variant_def void_variant_def)
  moreover have "refs {} ?s = refs {} st" by (rule refs_cong) (simp add: at)
  then have "counted {} ?s None" using assms(2) by (simp add: counted_def)
  ultimately show "heap r (snd (varConstruct (Some l) st))" "counted {} (snd (varConstruct (Some l) st)) None"
    by (simp_all add: varConstruct_def)
  show "\<forall>k. l \<notin> fields_of st k" using assms(1,3) by (auto simp: heap_def)
qed (use assms(3) in \<open>auto simp: varConstruct_def may_clear_def inst_at_upd void_variant_def\<close>)

text \<open>A duplicate on the heap: \<open>varConstructDup\<close> returns a new variant that holds a copy, with
  the reference counts exact again, and leaves every variant it copied from as it was.\<close>
lemma varConstructDup_counts:
  assumes h: "heap r st" and c: "counted {} st None" and l: "vars st l = None"
    and w: "vars st from = Some w" "vtype w \<noteq> TYPE_DELEGATE" and dup: "\<forall>s. data w = DS s \<longrightarrow> s_dup E s \<noteq> None"
  shows "\<exists>st' u. varConstructDup E (Some l) from st = Some (Some l, st') \<and> heap r st' \<and> counted {} st' None
    \<and> vars st' l = Some u \<and> copy_of E w u \<and> vars st' from = Some w"
proof -
  let ?s = "snd (varConstruct (Some l) st)"
  note n = heap_construct [OF h c l]
  have "from \<noteq> l" using w(1) l by auto
  moreover from this have "vars ?s from = Some w" using w(1) by (simp add: varConstruct_def)
  ultimately obtain st' u where "varAssign E l from ?s = Some (True, st')" "heap r st'" "counted {} st' None"
    "vars st' l = Some u" "copy_of E w u" "vars st' from = Some w"
    using varAssign_ok [OF n(1,2,3) _ _ w(2) dup, of "from"] n(4-6) by auto
  then show ?thesis by (simp add: varConstructDup_def varConstruct_def)
qed

lemma varConstructDup_counts_witness:
  "\<exists>st'. varConstructDup int_ext (Some 9) 0 two_level = Some (Some 9, st') \<and> counted {} st' None"
proof -
  have "vars two_level 9 = None" "vars two_level 0 = Some (mk TYPE_INST (DInst 0))"
    by (simp_all add: two_level_def)
  from varConstructDup_counts [OF two_level_heap(1,2) this] show ?thesis by auto
qed

end
