(* ===== verification/Classes.thy ===== *)
theory Classes
  imports Bytecode Variant_Heap
begin

section \<open>Classes, methods and fields, jspp/src/jsclass.c\<close>

text \<open>
  Classes and methods are C objects that point to one another, so they live in the \<open>world\<close> under
  their addresses, next to the store of the variants. The containers of the spl library, which
  are not under src/, are lists (vectors) and maps (hash tables) of the same elements.

  Allocation is explicit: \<open>mallocs\<close> says, call by call, whether the next allocation succeeds
  (an empty list: all of them do), and \<open>live\<close> counts the blocks handed out and not freed, a
  string, a vector or an array counting as one block. So the unwinding of a failed constructor is
  part of the model, and that nothing leaks is a property of it. A growing vector or string
  asks for memory without becoming another block (\<open>grow\<close>).

  What the native methods see of the outside is in the world, too: the characters to come on the
  standard input, those written to the standard output, and how often the clock and the random
  generator were asked.

  A function of \<open>lib\<close> is one of the spl library that the code relies on: the code arrays, the
  insertion into a hash table, which may refuse a key, and \<open>stringSetChar\<close>.
\<close>

subsection \<open>Objects\<close>

datatype loc = Stk nat | Local nat nat | Fld nat nat | Var nat | Const nat nat | Tempdata1 | Null | Retval nat | Elem nat

datatype jsaccess = ACC_PRIVATE | ACC_PROTECTED | ACC_PUBLIC

record vardef =
  voffset :: int
  vname :: string
  srcmode :: mode
  visstatic :: bool
  isauto :: bool
  isptr :: bool
  visnative :: bool
  nativefield :: "nat option"

record 'c jsmethod =
  mname :: string
  margs :: "vardef list"
  misstatic :: bool
  misnative :: bool
  hasretval :: bool
  access :: jsaccess
  msig :: string
  mclass :: nat
  mpc :: int
  code :: 'c
  nativemethod :: "nat option"

record jsclass =
  cname :: string
  basename :: string
  baseclass :: "nat option"
  cmethods :: "nat list"
  cfields :: "vardef list"
  staticlocations :: "loc list"
  instancelocations :: "loc list"
  vtable :: "(string \<rightharpoonup> nat) option"
  constdata :: "nat option"
  privateclassdata :: "nat option"

record ('c, 'f) world =
  classes :: "nat \<rightharpoonup> jsclass"
  methods :: "nat \<rightharpoonup> 'c jsmethod"
  store :: "(loc, 'f) mem"
  fresh :: nat
  mallocs :: "bool list"
  live :: int
  stdin :: string
  stdout :: string
  asked :: nat

record 'c lib =
  i16 :: "'c i16ops"
  ht_add :: "(string \<rightharpoonup> nat) \<Rightarrow> string \<Rightarrow> nat \<Rightarrow> (string \<rightharpoonup> nat) option"
  st_setchar :: "string \<Rightarrow> nat \<Rightarrow> char \<Rightarrow> string"

text \<open>A key the table accepts is mapped to its value, and setting the character at the end appends.\<close>

definition lib_laws :: "'c lib \<Rightarrow> bool" where
  "lib_laws L \<longleftrightarrow> i16_laws (i16 L)
     \<and> (\<forall>m k v m'. ht_add L m k v = Some m' \<longrightarrow> m' = m(k \<mapsto> v))
     \<and> (\<forall>s c. st_setchar L s (length s) c = s @ [c])"

subsection \<open>Allocation\<close>

definition next_malloc :: "('c, 'f) world \<Rightarrow> bool \<times> ('c, 'f) world" where
  "next_malloc w = (case mallocs w of [] \<Rightarrow> (True, w) | b # bs \<Rightarrow> (b, w\<lparr>mallocs := bs\<rparr>))"

definition take_block :: "('c, 'f) world \<Rightarrow> bool \<times> ('c, 'f) world" where
  "take_block w = (let (ok, w) = next_malloc w in (ok, if ok then w\<lparr>live := live w + 1\<rparr> else w))"

definition free_blocks :: "nat \<Rightarrow> ('c, 'f) world \<Rightarrow> ('c, 'f) world" where
  "free_blocks n w = w\<lparr>live := live w - int n\<rparr>"

abbreviation grow :: "('c, 'f) world \<Rightarrow> bool \<times> ('c, 'f) world" where
  "grow \<equiv> next_malloc"

definition new_address :: "('c, 'f) world \<Rightarrow> nat \<times> ('c, 'f) world" where
  "new_address w = (fresh w, w\<lparr>fresh := fresh w + 1\<rparr>)"

text \<open>\<open>stringAppend\<close> and its variants, whose result the callers here ignore.\<close>

definition append_to :: "string \<Rightarrow> string \<Rightarrow> ('c, 'f) world \<Rightarrow> string \<times> ('c, 'f) world" where
  "append_to s t w = (let (ok, w) = grow w in (if ok then s @ t else s, w))"

subsection \<open>Signatures\<close>

definition buildMethodSig :: "'c lib \<Rightarrow> string \<Rightarrow> bool \<Rightarrow> ('c, 'f) world \<Rightarrow> string option \<times> ('c, 'f) world" where
  "buildMethodSig L name isstatic w =
     (let (ok, w) = take_block w
      in if \<not> ok then (None, w)
         else let (str, w) = append_to [] name w;
                  (str, w) = append_to str (if isstatic then '':S'' else '':I'') w
              in (Some (st_setchar L str (length name + 2) (CHR ''v'')), w))"

definition methodSigAppendArg :: "string \<Rightarrow> ('c, 'f) world \<Rightarrow> string \<times> ('c, 'f) world" where
  "methodSigAppendArg sig w = append_to sig ''v'' w"

subsection \<open>Variables\<close>

definition createVar :: "string \<Rightarrow> bool \<Rightarrow> mode \<Rightarrow> bool \<Rightarrow> ('c, 'f) world \<Rightarrow> vardef option \<times> ('c, 'f) world" where
  "createVar name isstatic mode ptr w =
     (let (ok, w) = take_block w
      in if \<not> ok then (None, w)
         else let (ok, w) = take_block w
              in if \<not> ok then (None, free_blocks 1 w)
                 else (Some \<lparr>voffset = 0, vname = name, srcmode = mode, visstatic = isstatic, isauto = False,
                         isptr = ptr, visnative = False, nativefield = None\<rparr>, w))"

definition deleteVar :: "('c, 'f) world \<Rightarrow> ('c, 'f) world" where
  "deleteVar w = free_blocks 2 w"

subsection \<open>Classes\<close>

definition jsclassConstruct ::
  "string \<Rightarrow> string \<Rightarrow> nat option \<Rightarrow> ('c, 'f) world \<Rightarrow> nat option \<times> ('c, 'f) world" where
  "jsclassConstruct name base private w =
     (let (ok, w) = take_block w in if \<not> ok then (None, w) else
      let (ok, w) = take_block w in if \<not> ok then (None, free_blocks 1 w) else
      let (ok, w) = take_block w in if \<not> ok then (None, free_blocks 2 w) else
      let (ok, w) = take_block w in if \<not> ok then (None, free_blocks 3 w) else
      let (ok, w) = take_block w in if \<not> ok then (None, free_blocks 4 w) else
      let (ok, w) = take_block w in if \<not> ok then (None, free_blocks 5 w) else
      let (ok, w) = take_block w in if \<not> ok then (None, free_blocks 6 w) else
      let (a, w) = new_address w;
          jsp = \<lparr>cname = name, basename = base, baseclass = None, cmethods = [], cfields = [],
                 staticlocations = [], instancelocations = [], vtable = None, constdata = None,
                 privateclassdata = private\<rparr>
      in (Some a, w\<lparr>classes := (classes w)(a \<mapsto> jsp)\<rparr>))"

text \<open>
  A static or an instance location is a variant of its own, allocated here. The offset of a
  field is its index among the locations of its kind.
\<close>

definition new_variant :: "('c, 'f) world \<Rightarrow> loc option \<times> ('c, 'f) world" where
  "new_variant w =
     (let (ok, w) = take_block w
      in if \<not> ok then (None, w)
         else let (a, w) = new_address w
              in (Some (Var a), w\<lparr>store := snd (varConstruct (Some (Var a)) (store w))\<rparr>))"

definition vector_add :: "'a list \<Rightarrow> 'a \<Rightarrow> ('c, 'f) world \<Rightarrow> 'a list \<times> ('c, 'f) world" where
  "vector_add xs x w = (let (ok, w) = grow w in (if ok then xs @ [x] else xs, w))"

definition jsclassAddField ::
  "nat \<Rightarrow> string \<Rightarrow> bool \<Rightarrow> ('c, 'f) world \<Rightarrow> (vardef option \<times> ('c, 'f) world) option" where
  "jsclassAddField cl name isstatic w =
     (case classes w cl of None \<Rightarrow> None | Some jsp \<Rightarrow>
        let (vdp, w) = createVar name isstatic (if isstatic then MODE_CLASS else MODE_INST) False w
        in case vdp of None \<Rightarrow> Some (None, w) | Some vdp \<Rightarrow>
          let (lp, w) = new_variant w
          in case lp of None \<Rightarrow> Some (None, free_blocks 1 w) | Some lp \<Rightarrow>
            if isstatic then
              let vdp = vdp\<lparr>visstatic := True, voffset := int (length (staticlocations jsp))\<rparr>;
                  (locs, w) = vector_add (staticlocations jsp) lp w;
                  (fs, w) = vector_add (cfields jsp) vdp w
              in Some (Some vdp, w\<lparr>classes := (classes w)(cl \<mapsto> jsp\<lparr>staticlocations := locs, cfields := fs\<rparr>)\<rparr>)
            else
              let vdp = vdp\<lparr>visstatic := False, voffset := int (length (instancelocations jsp))\<rparr>;
                  (locs, w) = vector_add (instancelocations jsp) lp w;
                  (fs, w) = vector_add (cfields jsp) vdp w
              in Some (Some vdp, w\<lparr>classes := (classes w)(cl \<mapsto> jsp\<lparr>instancelocations := locs, cfields := fs\<rparr>)\<rparr>))"

definition jsclassFindField :: "jsclass \<Rightarrow> string \<Rightarrow> vardef option" where
  "jsclassFindField jsp name = find (\<lambda>vdp. vname vdp = name) (cfields jsp)"

definition jsclassGetStaticField :: "jsclass \<Rightarrow> int \<Rightarrow> loc option" where
  "jsclassGetStaticField jsp offset =
     (if 0 \<le> offset \<and> nat offset < length (staticlocations jsp) then Some (staticlocations jsp ! nat offset) else None)"

text \<open>The native variant of the same: the vector holds the pointer, so the element changes too.\<close>

definition jsclassAddNativeField ::
  "nat \<Rightarrow> nat \<Rightarrow> string \<Rightarrow> bool \<Rightarrow> ('c, 'f) world \<Rightarrow> (vardef option \<times> ('c, 'f) world) option" where
  "jsclassAddNativeField cl fld name isstatic w =
     (case jsclassAddField cl name isstatic w of
        None \<Rightarrow> None
      | Some (None, w) \<Rightarrow> Some (None, w)
      | Some (Some vdp, w) \<Rightarrow>
          let vdp' = vdp\<lparr>nativefield := Some fld, visnative := True\<rparr>
          in map_option (\<lambda>jsp.
               let fs = cfields jsp;
                   fs = (if fs \<noteq> [] \<and> last fs = vdp then butlast fs @ [vdp'] else fs)
               in (Some vdp', w\<lparr>classes := (classes w)(cl \<mapsto> jsp\<lparr>cfields := fs\<rparr>)\<rparr>)) (classes w cl))"

subsection \<open>Methods\<close>

definition jsclassAddMethod :: "nat \<Rightarrow> nat \<Rightarrow> ('c, 'f) world \<Rightarrow> ('c, 'f) world option" where
  "jsclassAddMethod cl m w =
     map_option (\<lambda>jsp. let (ms, w) = vector_add (cmethods jsp) m w
                       in w\<lparr>classes := (classes w)(cl \<mapsto> jsp\<lparr>cmethods := ms\<rparr>)\<rparr>) (classes w cl)"

definition jsmethodConstruct ::
  "'c lib \<Rightarrow> nat \<Rightarrow> string \<Rightarrow> bool \<Rightarrow> jsaccess \<Rightarrow> ('c, 'f) world \<Rightarrow> (nat option \<times> ('c, 'f) world) option" where
  "jsmethodConstruct L cl name isstatic acc w =
     (let (ok, w) = take_block w in if \<not> ok then Some (None, w) else
      let (ok, w) = take_block w in if \<not> ok then Some (None, free_blocks 1 w) else
      let (ok, w) = take_block w in if \<not> ok then Some (None, free_blocks 2 w) else
      let (ok, w) = take_block w in if \<not> ok then Some (None, free_blocks 3 w) else
      let (sig, w) = buildMethodSig L name isstatic w
      in case sig of None \<Rightarrow> Some (None, free_blocks 4 w) | Some sig \<Rightarrow>
      let (m, w) = new_address w;
          mp = \<lparr>mname = name, margs = [], misstatic = isstatic, misnative = False, hasretval = False,
                access = acc, msig = sig, mclass = cl, mpc = 0, code = i16_new (i16 L), nativemethod = None\<rparr>;
          w = w\<lparr>methods := (methods w)(m \<mapsto> mp)\<rparr>
      in map_option (Pair (Some m)) (jsclassAddMethod cl m w))"

definition jsclassAddNativeMethod ::
  "'c lib \<Rightarrow> nat \<Rightarrow> nat \<Rightarrow> string \<Rightarrow> bool \<Rightarrow> jsaccess \<Rightarrow> bool \<Rightarrow> ('c, 'f) world
     \<Rightarrow> (nat option \<times> ('c, 'f) world) option" where
  "jsclassAddNativeMethod L cl meth name isstatic acc returnsvalue w =
     (case jsmethodConstruct L cl name isstatic acc w of
        None \<Rightarrow> None
      | Some (None, w) \<Rightarrow> Some (None, w)
      | Some (Some m, w) \<Rightarrow>
          map_option (\<lambda>mp. (Some m, w\<lparr>methods := (methods w)(m \<mapsto>
              mp\<lparr>nativemethod := Some meth, misnative := True, hasretval := returnsvalue\<rparr>)\<rparr>)) (methods w m))"

text \<open>An argument whose variable cannot be allocated is a null pointer, followed right after.\<close>

definition jsmethodAddArg :: "nat \<Rightarrow> string \<Rightarrow> bool \<Rightarrow> ('c, 'f) world \<Rightarrow> (int \<times> ('c, 'f) world) option" where
  "jsmethodAddArg m name ptr w =
     (case methods w m of None \<Rightarrow> None | Some mp \<Rightarrow>
        let (vdp, w) = createVar name False MODE_BLOCK ptr w
        in case vdp of None \<Rightarrow> None | Some vdp \<Rightarrow>
          let (ok, w) = grow w
          in if \<not> ok then Some (-1, deleteVar w)
             else let off = int (length (margs mp));
                      (sig, w) = methodSigAppendArg (msig mp) w
                  in Some (off, w\<lparr>methods := (methods w)(m \<mapsto>
                       mp\<lparr>margs := margs mp @ [vdp\<lparr>voffset := off\<rparr>], msig := sig\<rparr>)\<rparr>))"

definition jsmethodGetArg :: "'c jsmethod \<Rightarrow> nat \<Rightarrow> vardef option" where
  "jsmethodGetArg mp offset = (if offset < length (margs mp) then Some (margs mp ! offset) else None)"

definition jsmethodCodeLen :: "'c jsmethod \<Rightarrow> int" where
  "jsmethodCodeLen mp = mpc mp"

subsection \<open>Virtual tables\<close>

text \<open>
  The table of a class starts as a copy of its base's, which is built first; the methods are added
  in their order. Then one more variant is added to the static locations for every static field,
  which already has one. The fuel bounds the chain of base classes.
\<close>

fun add_methods :: "'c lib \<Rightarrow> (nat \<rightharpoonup> 'c jsmethod) \<Rightarrow> nat list \<Rightarrow> (string \<rightharpoonup> nat) \<Rightarrow> bool \<times> (string \<rightharpoonup> nat)" where
  "add_methods L ms [] vt = (True, vt)"
| "add_methods L ms (m # xs) vt =
     (case ms m of None \<Rightarrow> (False, vt) | Some mp \<Rightarrow>
        case ht_add L vt (msig mp) m of None \<Rightarrow> (False, vt) | Some vt \<Rightarrow> add_methods L ms xs vt)"

fun add_statics :: "vardef list \<Rightarrow> loc list \<Rightarrow> ('c, 'f) world \<Rightarrow> bool \<times> loc list \<times> ('c, 'f) world" where
  "add_statics [] locs w = (True, locs, w)"
| "add_statics (vdp # fs) locs w =
     (if visstatic vdp then
        let (lp, w) = new_variant w
        in case lp of None \<Rightarrow> (False, locs, w)
           | Some lp \<Rightarrow> let (locs, w) = vector_add locs lp w in add_statics fs locs w
      else add_statics fs locs w)"

definition set_class :: "nat \<Rightarrow> jsclass \<Rightarrow> ('c, 'f) world \<Rightarrow> ('c, 'f) world" where
  "set_class cl jsp w = w\<lparr>classes := (classes w)(cl \<mapsto> jsp)\<rparr>"

definition fill_vtab :: "'c lib \<Rightarrow> nat \<Rightarrow> (string \<rightharpoonup> nat) \<Rightarrow> ('c, 'f) world \<Rightarrow> (bool \<times> ('c, 'f) world) option" where
  "fill_vtab L cl vt w =
     (case classes w cl of None \<Rightarrow> None | Some jsp \<Rightarrow>
        let (ok, vt) = add_methods L (methods w) (cmethods jsp) vt;
            jsp = jsp\<lparr>vtable := Some vt\<rparr>
        in if \<not> ok then Some (False, set_class cl jsp w)
           else let (ok, locs, w) = add_statics (cfields jsp) (staticlocations jsp) w
                in Some (ok, set_class cl (jsp\<lparr>staticlocations := locs\<rparr>) w))"

fun jsclassInitVtab :: "nat \<Rightarrow> 'c lib \<Rightarrow> nat \<Rightarrow> ('c, 'f) world \<Rightarrow> (bool \<times> ('c, 'f) world) option" where
  "jsclassInitVtab 0 L cl w = None"
| "jsclassInitVtab (Suc n) L cl w =
     (case classes w cl of None \<Rightarrow> None | Some jsp \<Rightarrow>
        case baseclass jsp of
          None \<Rightarrow>
            (let (ok, w) = take_block w in if \<not> ok then Some (False, w) else fill_vtab L cl Map.empty w)
        | Some b \<Rightarrow>
            (case classes w b of None \<Rightarrow> None | Some base \<Rightarrow>
               case (if vtable base = None then jsclassInitVtab n L b w else Some (True, w)) of
                 None \<Rightarrow> None
               | Some (False, w) \<Rightarrow> Some (False, w)
               | Some (True, w) \<Rightarrow>
                   let (ok, w) = take_block w in if \<not> ok then Some (False, w) else
                   (case Option.bind (classes w b) vtable of
                      None \<Rightarrow> None | Some vt \<Rightarrow> fill_vtab L cl vt w)))"

definition jsclassFindMethod :: "(nat \<rightharpoonup> 'c jsmethod) \<Rightarrow> jsclass \<Rightarrow> string \<Rightarrow> nat option" where
  "jsclassFindMethod ms jsp sig =
     (case vtable jsp of
        None \<Rightarrow> find (\<lambda>m. map_option msig (ms m) = Some sig) (cmethods jsp)
      | Some vt \<Rightarrow> vt sig)"

subsection \<open>Destruction\<close>

text \<open>
  What a method and a class own is freed with them, the variants of the locations through
  \<open>varDestruct\<close>; E gives the reference counts of the instances they may hold.
\<close>

definition jsmethodDestruct :: "nat \<Rightarrow> ('c, 'f) world \<Rightarrow> ('c, 'f) world option" where
  "jsmethodDestruct m w =
     map_option (\<lambda>mp. let w = ((deleteVar ^^ length (margs mp)) w); w = free_blocks 5 w
                      in w\<lparr>methods := (methods w)(m := None)\<rparr>) (methods w m)"

definition destruct_loc :: "'f ext \<Rightarrow> loc \<Rightarrow> ('c, 'f) world \<Rightarrow> ('c, 'f) world option" where
  "destruct_loc E l w = map_option (\<lambda>st. free_blocks 1 (w\<lparr>store := st\<rparr>)) (varDestruct E l (store w))"

definition jsclassDestruct :: "'f ext \<Rightarrow> nat \<Rightarrow> ('c, 'f) world \<Rightarrow> ('c, 'f) world option" where
  "jsclassDestruct E cl w = do {
     jsp \<leftarrow> classes w cl;
     let w = free_blocks 2 w;
     w \<leftarrow> foldM jsmethodDestruct (cmethods jsp) w;
     let w = free_blocks 1 w;
     let w = (deleteVar ^^ length (cfields jsp)) w;
     let w = free_blocks 1 w;
     w \<leftarrow> foldM (destruct_loc E) (instancelocations jsp) w;
     let w = free_blocks 1 w;
     w \<leftarrow> foldM (destruct_loc E) (staticlocations jsp) w;
     let w = free_blocks 1 w;
     let w = (if vtable jsp \<noteq> None then free_blocks 1 w else w);
     let w = free_blocks 1 w;
     Some (w\<lparr>classes := (classes w)(cl := None)\<rparr>) }"

subsection \<open>Instances\<close>

text \<open>\<open>loadBaseFields\<close> lays out the fields of the bases first, then the class's own.\<close>

fun load_fields :: "nat \<Rightarrow> vardef list \<Rightarrow> nat \<Rightarrow> ('c, 'f) world \<Rightarrow> bool \<times> nat \<times> ('c, 'f) world" where
  "load_fields i [] n w = (True, n, w)"
| "load_fields i (vdp # fs) n w =
     (if visstatic vdp then load_fields i fs n w
      else let (ok, w) = grow w
           in if \<not> ok then (False, n, w)
              else load_fields i fs (Suc n) (w\<lparr>store := snd (varConstruct (Some (Fld i n)) (store w))\<rparr>))"

fun loadBaseFields :: "nat \<Rightarrow> nat \<Rightarrow> nat \<Rightarrow> ('c, 'f) world \<Rightarrow> (bool \<times> nat \<times> ('c, 'f) world) option" where
  "loadBaseFields 0 cl i w = None"
| "loadBaseFields (Suc d) cl i w =
     (case classes w cl of None \<Rightarrow> None | Some jsp \<Rightarrow>
        case (case baseclass jsp of None \<Rightarrow> Some (True, 0, w) | Some b \<Rightarrow> loadBaseFields d b i w) of
          None \<Rightarrow> None
        | Some (False, n, w) \<Rightarrow> Some (False, n, w)
        | Some (True, n, w) \<Rightarrow> Some (load_fields i (cfields jsp) n w))"

definition jsinstConstruct :: "nat \<Rightarrow> nat \<Rightarrow> ('c, 'f) world \<Rightarrow> (nat option \<times> ('c, 'f) world) option" where
  "jsinstConstruct d cl w =
     (let (ok, w) = take_block w in if \<not> ok then Some (None, w) else
      let (ok, w) = take_block w in if \<not> ok then Some (None, free_blocks 1 w) else
      let (i, w) = new_address w
      in case loadBaseFields d cl i w of
           None \<Rightarrow> None
         | Some (False, n, w) \<Rightarrow>
             Some (None, free_blocks 2 (w\<lparr>store := (store w)\<lparr>vars := vars (store w) |` (- Fld i ` {..<n})\<rparr>\<rparr>))
         | Some (True, n, w) \<Rightarrow>
             Some (Some i, w\<lparr>store := (store w)\<lparr>insts := (insts (store w))(i \<mapsto>
                 \<lparr>myclass = cl, ifields = map (Fld i) [0..<n], refcount = 0,
                   nativedata = NoNative, magic = None\<rparr>)\<rparr>\<rparr>))"

end
