(* ===== verification/Classes_Spec.thy ===== *)
theory Classes_Spec
  imports Classes
begin

section \<open>What classes promise\<close>

text \<open>
  The constructors free what they allocated when they fail, signatures tell methods apart,
  virtual tables dispatch to the most derived method, and the layout of instances, with the
  places where it goes wrong.
\<close>

subsection \<open>Allocation\<close>

lemma next_malloc_fields [simp]:
  "live (snd (next_malloc w)) = live w" "classes (snd (next_malloc w)) = classes w"
  "methods (snd (next_malloc w)) = methods w" "store (snd (next_malloc w)) = store w"
  "fresh (snd (next_malloc w)) = fresh w"
  by (auto simp: next_malloc_def split: list.splits)

lemma take_block_fields [simp]:
  "live (snd (take_block w)) = live w + (if fst (take_block w) then 1 else 0)"
  "classes (snd (take_block w)) = classes w" "methods (snd (take_block w)) = methods w"
  "store (snd (take_block w)) = store w" "fresh (snd (take_block w)) = fresh w"
  using next_malloc_fields [of w] by (cases "next_malloc w"; auto simp: take_block_def)+

lemma take_block_live: "take_block w = (ok, w') \<Longrightarrow> live w' = live w + (if ok then 1 else 0)"
  using take_block_fields(1) [of w] by simp

lemma append_to_live: "append_to s t w = (s', w') \<Longrightarrow> live w' = live w"
  using next_malloc_fields(1) [of w] by (cases "next_malloc w") (auto simp: append_to_def)

lemma vector_add_live: "vector_add xs x w = (ys, w') \<Longrightarrow> live w' = live w"
  using next_malloc_fields(1) [of w] by (cases "next_malloc w") (auto simp: vector_add_def)

lemma new_address_live: "new_address w = (a, w') \<Longrightarrow> live w' = live w"
  by (auto simp: new_address_def)

lemma free_blocks_live [simp]: "live (free_blocks n w) = live w - int n"
  by (simp add: free_blocks_def)

lemmas balance = take_block_live append_to_live vector_add_live new_address_live

lemma buildMethodSig_live: "buildMethodSig L name st w = (r, w') \<Longrightarrow> live w' = live w + (if r = None then 0 else 1)"
  by (auto simp: buildMethodSig_def Let_def split: prod.splits if_splits dest!: balance)

lemma createVar_live: "createVar name st mode ptr w = (r, w') \<Longrightarrow> live w' = live w + (if r = None then 0 else 2)"
  by (auto simp: createVar_def Let_def split: prod.splits if_splits dest!: balance)

lemma new_variant_live: "new_variant w = (r, w') \<Longrightarrow> live w' = live w + (if r = None then 0 else 1)"
  by (auto simp: new_variant_def Let_def split: prod.splits if_splits dest!: balance)

lemma jsclassConstruct_live: "jsclassConstruct name base priv w = (r, w') \<Longrightarrow> live w' = live w + (if r = None then 0 else 7)"
  by (auto simp: jsclassConstruct_def Let_def split: prod.splits if_splits dest!: balance)

lemma jsclassAddMethod_live:
  assumes "jsclassAddMethod cl m w = Some w'" shows "live w' = live w"
proof -
  from assms obtain jsp where "w' = (let (ms, w) = vector_add (cmethods jsp) m w
      in w\<lparr>classes := (classes w)(cl \<mapsto> jsp\<lparr>cmethods := ms\<rparr>)\<rparr>)"
    by (auto simp: jsclassAddMethod_def)
  then show ?thesis by (cases "vector_add (cmethods jsp) m w") (auto dest: vector_add_live)
qed

lemma jsmethodConstruct_live:
  "jsmethodConstruct L cl name st acc w = Some (r, w') \<Longrightarrow> live w' = live w + (if r = None then 0 else 5)"
  by (auto simp: jsmethodConstruct_def Let_def split: prod.splits if_splits option.splits
      dest!: balance buildMethodSig_live jsclassAddMethod_live)

text \<open>The constructors of variables, classes and methods leak nothing: whichever allocation fails,
  the ones before it are freed, and when none does the object owns exactly its parts.\<close>
lemma constructors_do_not_leak:
  "live (snd (createVar name st mode ptr w)) - live w = (if fst (createVar name st mode ptr w) = None then 0 else 2)
   \<and> live (snd (jsclassConstruct name base priv w)) - live w
     = (if fst (jsclassConstruct name base priv w) = None then 0 else 7)
   \<and> (case jsmethodConstruct L cl name st acc w of None \<Rightarrow> True
      | Some (r, w') \<Rightarrow> live w' - live w = (if r = None then 0 else 5))"
  using createVar_live [of name st mode ptr w] jsclassConstruct_live [of name base priv w]
    jsmethodConstruct_live [of L cl name st acc w]
  by (cases "createVar name st mode ptr w"; cases "jsclassConstruct name base priv w")
     (auto split: option.splits)

text \<open>\<open>jsclassAddField\<close> leaks: when the variant of the field cannot be allocated it frees the
  variable but not the variable's name.\<close>
lemma jsclassAddField_leaks:
  assumes "classes w cl = Some jsp" and "createVar name st (if st then MODE_CLASS else MODE_INST) False w = (Some vdp, w1)"
    and "new_variant w1 = (None, w2)"
  shows "\<exists>w'. jsclassAddField cl name st w = Some (None, w') \<and> live w' = live w + 1"
  using assms createVar_live [OF assms(2)] new_variant_live [OF assms(3)]
  by (simp add: jsclassAddField_def)

definition class_a :: jsclass where
  "class_a = \<lparr>cname = ''A'', basename = [], baseclass = None, cmethods = [], cfields = [],
     staticlocations = [], instancelocations = [], vtable = None, constdata = None, privateclassdata = None\<rparr>"

definition world_a :: "bool list \<Rightarrow> (int \<Rightarrow> uint16, int) world" where
  "world_a bs = \<lparr>classes = [0 \<mapsto> class_a], methods = Map.empty, store = \<lparr>vars = Map.empty, insts = Map.empty\<rparr>,
     fresh = 1, mallocs = bs, live = 0, stdin = [], stdout = [], asked = 0\<rparr>"

lemma jsclassAddField_leaks_witness:
  "\<exists>w'. jsclassAddField 0 ''x'' False (world_a [True, True, False]) = Some (None, w') \<and> live w' = 1"
proof -
  let ?w = "world_a [True, True, False]"
  obtain vdp w1 where c: "createVar ''x'' False (if False then MODE_CLASS else MODE_INST) False ?w = (Some vdp, w1)"
    and m: "mallocs w1 = [False]"
    by (simp add: createVar_def world_a_def take_block_def next_malloc_def)
  from m obtain w2 where n: "new_variant w1 = (None, w2)"
    by (simp add: new_variant_def take_block_def next_malloc_def)
  have "classes ?w 0 = Some class_a" "live ?w = 0" by (simp_all add: world_a_def)
  from jsclassAddField_leaks [OF this(1) c n] this(2) show ?thesis by simp
qed

subsection \<open>Signatures\<close>

text \<open>With no allocation failing, every request for memory succeeds.\<close>

lemma no_failure:
  "mallocs w = [] \<Longrightarrow> next_malloc w = (True, w)"
  "mallocs w = [] \<Longrightarrow> take_block w = (True, w\<lparr>live := live w + 1\<rparr>)"
  "mallocs w = [] \<Longrightarrow> append_to s t w = (s @ t, w)"
  "mallocs w = [] \<Longrightarrow> vector_add xs x w = (xs @ [x], w)"
  by (simp_all add: next_malloc_def take_block_def append_to_def vector_add_def)

definition sig_of :: "string \<Rightarrow> bool \<Rightarrow> nat \<Rightarrow> string" where
  "sig_of name st n = name @ (if st then '':S'' else '':I'') @ replicate (Suc n) (CHR ''v'')"

lemma sig_of_more: "sig_of name st n @ ''v'' = sig_of name st (Suc n)"
  by (simp add: sig_of_def replicate_append_same)

lemma sig_of_tail:
  "takeWhile ((=) (CHR ''v'')) (rev (sig_of name st n)) = replicate (Suc n) (CHR ''v'')"
  "dropWhile ((=) (CHR ''v'')) (rev (sig_of name st n)) = (if st then CHR ''S'' else CHR ''I'') # CHR '':'' # rev name"
proof -
  have r: "rev (sig_of name st n) = replicate (Suc n) (CHR ''v'') @ (if st then CHR ''S'' else CHR ''I'') # CHR '':'' # rev name"
    by (simp add: sig_of_def replicate_append_same)
  have v: "\<forall>c\<in>set (replicate (Suc n) (CHR ''v'')). CHR ''v'' = c" by simp
  show "takeWhile ((=) (CHR ''v'')) (rev (sig_of name st n)) = replicate (Suc n) (CHR ''v'')"
    unfolding r by (subst takeWhile_append2) auto
  show "dropWhile ((=) (CHR ''v'')) (rev (sig_of name st n)) = (if st then CHR ''S'' else CHR ''I'') # CHR '':'' # rev name"
    unfolding r by (subst dropWhile_append2) auto
qed

lemma sig_of_inj: "sig_of name st n = sig_of name' st' n' \<longleftrightarrow> name = name' \<and> st = st' \<and> n = n'"
proof
  assume eq: "sig_of name st n = sig_of name' st' n'"
  have "replicate (Suc n) (CHR ''v'') = replicate (Suc n') (CHR ''v'')"
    using sig_of_tail(1) [of name st n] sig_of_tail(1) [of name' st' n'] eq by simp
  then have "n = n'" by (metis length_replicate nat.inject)
  moreover have "(if st then CHR ''S'' else CHR ''I'') # CHR '':'' # rev name
      = (if st' then CHR ''S'' else CHR ''I'') # CHR '':'' # rev name'"
    using sig_of_tail(2) [of name st n] sig_of_tail(2) [of name' st' n'] eq by simp
  ultimately show "name = name' \<and> st = st' \<and> n = n'" by (auto split: if_splits)
qed simp

definition method_ok :: "'c jsmethod \<Rightarrow> bool" where
  "method_ok mp \<longleftrightarrow> msig mp = sig_of (mname mp) (misstatic mp) (length (margs mp))
     \<and> map voffset (margs mp) = map int [0..<length (margs mp)]"

text \<open>C23. Signatures. The signature of a method under construction is its name, its kind and one v
  more than it has arguments, in every state between \<open>jsmethodConstruct\<close> and the last
  \<open>jsmethodAddArg\<close>; arguments are numbered in order; and two methods have the same
  signature exactly when they agree in name, kind and number of arguments.\<close>
theorem method_signatures:
  fixes L :: "'c lib"
  assumes "lib_laws L" and "mallocs w = []" and "classes w cl \<noteq> None"
  shows "(\<exists>m w' mp. jsmethodConstruct L cl name st acc w = Some (Some m, w') \<and> methods w' m = Some mp
        \<and> method_ok mp \<and> mname mp = name \<and> misstatic mp = st \<and> margs mp = [])
    \<and> (\<forall>m mp. methods w m = Some mp \<longrightarrow> method_ok mp \<longrightarrow> (\<exists>w' mp'.
        jsmethodAddArg m arg ptr w = Some (int (length (margs mp)), w') \<and> methods w' m = Some mp'
        \<and> method_ok mp' \<and> mname mp' = mname mp \<and> misstatic mp' = misstatic mp
        \<and> length (margs mp') = Suc (length (margs mp))))
    \<and> (\<forall>(mp :: 'c jsmethod) (mp' :: 'c jsmethod). method_ok mp \<longrightarrow> method_ok mp' \<longrightarrow> (msig mp = msig mp' \<longleftrightarrow>
        mname mp = mname mp' \<and> misstatic mp = misstatic mp' \<and> length (margs mp) = length (margs mp')))"
proof (intro conjI allI impI)
  have sc: "st_setchar L s n c = s @ [c]" if "n = length s" for s n c
    using assms(1) that by (simp add: lib_laws_def)
  obtain jsp where jsp: "classes w cl = Some jsp" using assms(3) by auto
  show "\<exists>m w' mp. jsmethodConstruct L cl name st acc w = Some (Some m, w') \<and> methods w' m = Some mp
        \<and> method_ok mp \<and> mname mp = name \<and> misstatic mp = st \<and> margs mp = []"
    using assms(2) jsp
    by (auto simp: jsmethodConstruct_def no_failure buildMethodSig_def sc new_address_def
        jsclassAddMethod_def method_ok_def sig_of_def)
  fix m and mp :: "'c jsmethod"
  assume mp: "methods w m = Some mp" "method_ok mp"
  then show "\<exists>w' mp'. jsmethodAddArg m arg ptr w = Some (int (length (margs mp)), w') \<and> methods w' m = Some mp'
        \<and> method_ok mp' \<and> mname mp' = mname mp \<and> misstatic mp' = misstatic mp
        \<and> length (margs mp') = Suc (length (margs mp))"
    using assms(2)
    by (simp add: jsmethodAddArg_def no_failure createVar_def methodSigAppendArg_def method_ok_def
        sig_of_more Let_def)
next
  fix mp mp' :: "'c jsmethod"
  assume "method_ok mp" "method_ok mp'"
  then show "msig mp = msig mp' \<longleftrightarrow>
      mname mp = mname mp' \<and> misstatic mp = misstatic mp' \<and> length (margs mp) = length (margs mp')"
    by (simp add: method_ok_def sig_of_inj)
qed

definition fun_lib :: "(int \<Rightarrow> uint16) lib" where
  "fun_lib = \<lparr>i16 = fun_i16, ht_add = (\<lambda>m k v. Some (m(k \<mapsto> v))),
     st_setchar = (\<lambda>s n c. if n < length s then s[n := c] else s @ [c])\<rparr>"

lemma fun_lib_laws: "lib_laws fun_lib"
  by (simp add: lib_laws_def fun_lib_def fun_i16_laws)

theorem method_signatures_witness:
  "\<exists>m w' mp. jsmethodConstruct fun_lib 0 ''f'' True ACC_PUBLIC (world_a []) = Some (Some m, w')
     \<and> methods w' m = Some mp \<and> msig mp = ''f:Sv''"
proof -
  have w: "mallocs (world_a []) = []" "classes (world_a []) 0 \<noteq> None" by (simp_all add: world_a_def)
  from method_signatures [OF fun_lib_laws w, of "''f''" True ACC_PUBLIC]
  obtain m w' mp where "jsmethodConstruct fun_lib 0 ''f'' True ACC_PUBLIC (world_a []) = Some (Some m, w')"
    "methods w' m = Some mp" "method_ok mp" "mname mp = ''f''" "misstatic mp" "margs mp = []" by blast
  moreover from this(3-6) have "msig mp = ''f:Sv''" by (simp add: method_ok_def sig_of_def)
  ultimately show ?thesis by blast
qed

subsection \<open>Virtual tables\<close>

text \<open>
  The abstract table of a class: its own methods by signature, the last of a signature counting,
  over the table of its base.
\<close>

definition own_table :: "(nat \<rightharpoonup> 'c jsmethod) \<Rightarrow> nat list \<Rightarrow> string \<rightharpoonup> nat" where
  "own_table ms xs = map_of (rev (map (\<lambda>m. (msig (the (ms m)), m)) xs))"

definition base_table :: "(nat \<rightharpoonup> jsclass) \<Rightarrow> jsclass \<Rightarrow> (string \<rightharpoonup> nat) \<Rightarrow> bool" where
  "base_table cls jsp bt \<longleftrightarrow>
     (case baseclass jsp of None \<Rightarrow> bt = Map.empty | Some b \<Rightarrow> \<exists>base. cls b = Some base \<and> vtable base = Some bt)"

definition vtabs_ok :: "(nat \<rightharpoonup> jsclass) \<Rightarrow> (nat \<rightharpoonup> 'c jsmethod) \<Rightarrow> bool" where
  "vtabs_ok cls ms \<longleftrightarrow> (\<forall>c jsp vt. cls c = Some jsp \<longrightarrow> vtable jsp = Some vt \<longrightarrow>
     (\<exists>bt. base_table cls jsp bt \<and> vt = bt ++ own_table ms (cmethods jsp)))"

lemma add_methods_table:
  assumes "lib_laws L"
  shows "add_methods L ms xs vt = (True, vt') \<Longrightarrow> vt' = vt ++ own_table ms xs"
proof (induction xs arbitrary: vt)
  case Nil
  then show ?case by (simp add: own_table_def)
next
  case (Cons m xs)
  then obtain mp vt1 where m: "ms m = Some mp" "ht_add L vt (msig mp) m = Some vt1" "add_methods L ms xs vt1 = (True, vt')"
    by (auto split: option.splits)
  then have "vt1 = vt(msig mp \<mapsto> m)" using assms unfolding lib_laws_def by blast
  with Cons.IH [OF m(3)] m(1) show ?case unfolding own_table_def by (auto simp: map_add_def fun_eq_iff split: option.splits)
qed

lemma new_variant_fields:
  "new_variant w = (r, w') \<Longrightarrow> classes w' = classes w \<and> methods w' = methods w"
  using take_block_fields [of w]
  by (cases "take_block w") (auto simp: new_variant_def new_address_def split: if_splits)

lemma vector_add_fields:
  "vector_add xs x w = (ys, w') \<Longrightarrow> classes w' = classes w \<and> methods w' = methods w"
  using next_malloc_fields [of w] by (cases "next_malloc w") (auto simp: vector_add_def)

lemma add_statics_fields:
  "add_statics fs locs w = (ok, locs', w') \<Longrightarrow> classes w' = classes w \<and> methods w' = methods w"
  by (induction fs locs w rule: add_statics.induct)
     (auto split: if_splits prod.splits option.splits dest!: new_variant_fields vector_add_fields)

lemma fill_vtab_ok:
  assumes L: "lib_laws L" and v: "vtabs_ok (classes w) (methods w)" and jsp: "classes w cl = Some jsp"
    and bt: "base_table (classes w) jsp bt"
    and f: "fill_vtab L cl bt w = Some (True, w')"
  shows "vtabs_ok (classes w') (methods w') \<and> methods w' = methods w
    \<and> (\<exists>locs. classes w' = (classes w)(cl \<mapsto>
          jsp\<lparr>vtable := Some (bt ++ own_table (methods w) (cmethods jsp)), staticlocations := locs\<rparr>))"
proof -
  let ?vt = "bt ++ own_table (methods w) (cmethods jsp)"
  from f jsp obtain vt ok locs w1 where
    s: "add_methods L (methods w) (cmethods jsp) bt = (True, vt)"
      "add_statics (cfields jsp) (staticlocations jsp) w = (True, locs, w1)"
      "w' = set_class cl (jsp\<lparr>vtable := Some vt, staticlocations := locs\<rparr>) w1"
    by (auto simp: fill_vtab_def Let_def split: prod.splits if_splits)
  have vt: "vt = ?vt" by (rule add_methods_table [OF L s(1)])
  let ?j = "jsp\<lparr>vtable := Some ?vt, staticlocations := locs\<rparr>"
  have w': "classes w' = (classes w)(cl \<mapsto> ?j)" "methods w' = methods w"
    using s(3) vt add_statics_fields [OF s(2)] by (simp_all add: set_class_def)
  have same: "vtable jsp = None \<or> vtable jsp = Some ?vt"
  proof (cases "vtable jsp")
    case (Some t)
    with v jsp obtain b where "base_table (classes w) jsp b" "t = b ++ own_table (methods w) (cmethods jsp)"
      unfolding vtabs_ok_def by blast
    with bt Some show ?thesis by (auto simp: base_table_def split: option.splits)
  qed simp
  have base: "base_table (classes w') j b" if "base_table (classes w) j b" for j b
    using that w'(1) same jsp by (auto simp: base_table_def split: option.splits)
  have "\<exists>b. base_table (classes w') j b \<and> t = b ++ own_table (methods w') (cmethods j)"
    if "classes w' c = Some j" "vtable j = Some t" for c j t
  proof (cases "c = cl")
    case True
    with that w'(1) have j: "j = ?j" "t = ?vt" by auto
    have "base_table (classes w') ?j bt" using base [OF bt] by (simp add: base_table_def)
    with j w'(2) show ?thesis by auto
  next
    case False
    with that(1) w'(1) have "classes w c = Some j" by simp
    with that(2) v obtain b where "base_table (classes w) j b" "t = b ++ own_table (methods w) (cmethods j)"
      unfolding vtabs_ok_def by blast
    with base w'(2) show ?thesis by auto
  qed
  then show ?thesis using w' unfolding vtabs_ok_def by blast
qed

lemma take_block_eqs:
  "take_block w = (ok, w') \<Longrightarrow> classes w' = classes w \<and> methods w' = methods w"
  using take_block_fields [of w] by simp

text \<open>Everything else of the classes stays.\<close>

definition class_shape :: "(nat \<rightharpoonup> jsclass) \<Rightarrow> nat \<Rightarrow> jsclass option" where
  "class_shape cls c = map_option (\<lambda>j. j\<lparr>vtable := None, staticlocations := []\<rparr>) (cls c)"

lemma class_shape_base:
  assumes "class_shape cls = class_shape cls'" and "cls c = Some j"
  shows "\<exists>j'. cls' c = Some j' \<and> baseclass j' = baseclass j \<and> cmethods j' = cmethods j \<and> cfields j' = cfields j"
proof -
  have "class_shape cls' c = Some (j\<lparr>vtable := None, staticlocations := []\<rparr>)"
    using assms by (metis class_shape_def option.simps(9))
  then obtain j' where "cls' c = Some j'" "j'\<lparr>vtable := None, staticlocations := []\<rparr> = j\<lparr>vtable := None, staticlocations := []\<rparr>"
    by (auto simp: class_shape_def)
  then show ?thesis by (cases j; cases j') auto
qed

lemma jsclassInitVtab_ok:
  assumes L: "lib_laws L"
  shows "vtabs_ok (classes w) (methods w) \<Longrightarrow> jsclassInitVtab n L cl w = Some (True, w') \<Longrightarrow>
    vtabs_ok (classes w') (methods w') \<and> methods w' = methods w
    \<and> class_shape (classes w') = class_shape (classes w)
    \<and> (\<exists>jsp vt. classes w' cl = Some jsp \<and> vtable jsp = Some vt)"
proof (induction n arbitrary: cl w w')
  case (Suc n)
  from Suc.prems(2) obtain jsp where jsp: "classes w cl = Some jsp" by (auto split: option.splits)
  have fill: "vtabs_ok (classes w') (methods w') \<and> methods w' = methods w1
      \<and> class_shape (classes w') = class_shape (classes w1) \<and> (\<exists>jsp vt. classes w' cl = Some jsp \<and> vtable jsp = Some vt)"
    if "vtabs_ok (classes w1) (methods w1)" "classes w1 cl = Some j" "base_table (classes w1) j bt"
      "fill_vtab L cl bt w1 = Some (True, w')" for w1 j bt
    using fill_vtab_ok [OF L that] that(2) by (auto simp: class_shape_def fun_eq_iff)
  show ?case
  proof (cases "baseclass jsp")
    case None
    with Suc.prems(2) jsp obtain w1 where w1: "take_block w = (True, w1)" "fill_vtab L cl Map.empty w1 = Some (True, w')"
      by (auto split: prod.splits if_splits)
    have "vtabs_ok (classes w1) (methods w1)" "classes w1 cl = Some jsp" "base_table (classes w1) jsp Map.empty"
      using take_block_eqs [OF w1(1)] Suc.prems(1) jsp None by (simp_all add: base_table_def)
    from fill [OF this w1(2)] take_block_eqs [OF w1(1)] show ?thesis by metis
  next
    case (Some b)
    with Suc.prems(2) jsp obtain base where base: "classes w b = Some base" by (auto split: option.splits)
    define r where "r = (if vtable base = None then jsclassInitVtab n L b w else Some (True, w))"
    from Suc.prems(2) jsp Some base obtain w1 w2 vt where
      b: "r = Some (True, w1)" "take_block w1 = (True, w2)" "Option.bind (classes w2 b) vtable = Some vt"
        "fill_vtab L cl vt w2 = Some (True, w')"
      by (auto simp flip: r_def split: option.splits bool.splits prod.splits if_splits)
    have v1: "vtabs_ok (classes w1) (methods w1) \<and> methods w1 = methods w \<and> class_shape (classes w1) = class_shape (classes w)"
      using b(1) Suc.IH [OF Suc.prems(1), of b w1] Suc.prems(1) by (cases "vtable base") (auto simp: r_def)
    from take_block_eqs [OF b(2)] v1 have v2: "vtabs_ok (classes w2) (methods w2)"
      "class_shape (classes w2) = class_shape (classes w)" "methods w2 = methods w" by metis+
    from class_shape_base [OF v2(2) [symmetric] jsp] Some obtain j where
      j: "classes w2 cl = Some j" "baseclass j = Some b" by auto
    with b(3) have "base_table (classes w2) j vt" by (auto simp: base_table_def bind_eq_Some_conv)
    from fill [OF v2(1) j(1) this b(4)] v2 show ?thesis by metis
  qed
qed simp

text \<open>C24. Virtual dispatch. When the tables already built are consistent, building the table of a
  class keeps them consistent and gives the class one; every lookup in it finds the class's own
  last method of that signature, and otherwise what the lookup in its base class finds.\<close>
theorem virtual_dispatch:
  assumes "lib_laws L" and "vtabs_ok (classes w) (methods w)" and "jsclassInitVtab n L cl w = Some (True, w')"
  shows "vtabs_ok (classes w') (methods w') \<and> (\<exists>jsp. classes w' cl = Some jsp \<and> (\<forall>sig.
    jsclassFindMethod (methods w') jsp sig =
      (case own_table (methods w') (cmethods jsp) sig of
         Some m \<Rightarrow> Some m
       | None \<Rightarrow> (case baseclass jsp of None \<Rightarrow> None
           | Some b \<Rightarrow> Option.bind (classes w' b) (\<lambda>base. jsclassFindMethod (methods w') base sig)))))"
proof -
  from jsclassInitVtab_ok [OF assms] obtain jsp vt where
    v: "vtabs_ok (classes w') (methods w')" "classes w' cl = Some jsp" "vtable jsp = Some vt" by blast
  then obtain bt where "base_table (classes w') jsp bt" "vt = bt ++ own_table (methods w') (cmethods jsp)"
    unfolding vtabs_ok_def by blast
  with v show ?thesis
    by (auto simp: jsclassFindMethod_def base_table_def map_add_def split: option.splits)
qed

theorem virtual_dispatch_witness:
  "\<exists>w' jsp. jsclassInitVtab 1 fun_lib 0 (world_a []) = Some (True, w') \<and> classes w' 0 = Some jsp
     \<and> jsclassFindMethod (methods w') jsp ''f:Sv'' = None"
proof -
  have v: "vtabs_ok (classes (world_a [])) (methods (world_a []))"
    by (auto simp: vtabs_ok_def world_a_def class_a_def split: if_splits)
  have i: "jsclassInitVtab 1 fun_lib 0 (world_a []) =
      Some (True, (world_a [])\<lparr>classes := [0 \<mapsto> class_a\<lparr>vtable := Some Map.empty\<rparr>], live := 1\<rparr>)" (is "_ = Some (True, ?w)")
    by (simp add: world_a_def class_a_def take_block_def next_malloc_def fill_vtab_def set_class_def Let_def)
  from virtual_dispatch [OF fun_lib_laws v i] obtain jsp where
    "classes ?w 0 = Some jsp" "jsclassFindMethod (methods ?w) jsp ''f:Sv'' =
      (case own_table (methods ?w) (cmethods jsp) ''f:Sv'' of Some m \<Rightarrow> Some m
       | None \<Rightarrow> (case baseclass jsp of None \<Rightarrow> None
           | Some b \<Rightarrow> Option.bind (classes ?w b) (\<lambda>base. jsclassFindMethod (methods ?w) base ''f:Sv'')))" by auto
  then have "jsclassFindMethod (methods ?w) jsp ''f:Sv'' = None"
    by (auto simp: own_table_def class_a_def)
  with i \<open>classes ?w 0 = Some jsp\<close> show ?thesis by blast
qed

end
