(* ===== verification/Program.thy ===== *)
theory Program
  imports Classes_Spec
begin

section \<open>Programs under construction, jspp/src/program.c\<close>

text \<open>
  A \<open>program\<close> owns the classes the parser defines, their methods' code and a pool of constants.
  Programs refer to one another (the intrinsics), so they live in a table under their addresses;
  a \<open>pstate\<close> is that table with the world of the classes. The variants of the constant pool of
  program p are at the addresses \<open>Const p 0\<close>, \<open>Const p 1\<close>, up to \<open>ncdata\<close>.

  A step is None where the C code follows a null pointer. Of the hash tables the code relies on
  \<open>hashtableAdd\<close> (\<open>ht_add\<close>), lookup and removal of a key.
\<close>

record symtab =
  cumulative :: int
  symcount :: int
  patchupPc :: int
  syms :: "string \<rightharpoonup> vardef"
  symlist :: "vardef list"

record program =
  sourcecode :: "string list"
  errornum :: int
  errorline :: int
  errmsg :: "string option"
  isrhs :: bool
  pclasses :: "string \<rightharpoonup> nat"
  lclasses :: "nat list"
  curclass :: "nat option"
  curmethod :: "nat option"
  ncdata :: nat
  intrinsics :: "nat list option"
  symstack :: "symtab list"
  isdebuging :: bool

record ('c, 'f) pstate =
  wld :: "('c, 'f) world"
  progs :: "nat \<rightharpoonup> program"

definition set_prog :: "nat \<Rightarrow> program \<Rightarrow> ('c, 'f) pstate \<Rightarrow> ('c, 'f) pstate" where
  "set_prog p pp s = s\<lparr>progs := (progs s)(p \<mapsto> pp)\<rparr>"

definition set_method :: "nat \<Rightarrow> 'c jsmethod \<Rightarrow> ('c, 'f) pstate \<Rightarrow> ('c, 'f) pstate" where
  "set_method m mp s = s\<lparr>wld := (wld s)\<lparr>methods := (methods (wld s))(m \<mapsto> mp)\<rparr>\<rparr>"

subsection \<open>Construction and destruction\<close>

definition programConstruct :: "('c, 'f) pstate \<Rightarrow> nat option \<times> ('c, 'f) pstate" where
  "programConstruct s =
     (let w = wld s;
          (ok, w) = take_block w in if \<not> ok then (None, s\<lparr>wld := w\<rparr>) else
      let (ok, w) = take_block w in if \<not> ok then (None, s\<lparr>wld := free_blocks 1 w\<rparr>) else
      let (ok, w) = take_block w in if \<not> ok then (None, s\<lparr>wld := free_blocks 2 w\<rparr>) else
      let (ok, w) = take_block w in if \<not> ok then (None, s\<lparr>wld := free_blocks 3 w\<rparr>) else
      let (ok, w) = take_block w in if \<not> ok then (None, s\<lparr>wld := free_blocks 4 w\<rparr>) else
      let (ok, w) = take_block w in if \<not> ok then (None, s\<lparr>wld := free_blocks 5 w\<rparr>) else
      let (p, w) = new_address w;
          pp = \<lparr>sourcecode = [], errornum = 0, errorline = -1, errmsg = None, isrhs = False,
                pclasses = Map.empty, lclasses = [], curclass = None, curmethod = None, ncdata = 0,
                intrinsics = None, symstack = [], isdebuging = False\<rparr>
      in (Some p, set_prog p pp (s\<lparr>wld := w\<rparr>)))"

definition owns_string :: "(loc, 'f) variant \<Rightarrow> nat" where
  "owns_string v = (case data v of DS _ \<Rightarrow> 1 | _ \<Rightarrow> 0)"

definition const_strings :: "nat \<Rightarrow> nat \<Rightarrow> (loc, 'f) mem \<Rightarrow> nat" where
  "const_strings p n st = (\<Sum>k<n. case vars st (Const p k) of None \<Rightarrow> 0 | Some v \<Rightarrow> owns_string v)"

text \<open>The symbol tables left over from an error own their variables; a constant is cleared, and its string freed.\<close>

definition symtab_destruct :: "symtab \<Rightarrow> ('c, 'f) world \<Rightarrow> ('c, 'f) world" where
  "symtab_destruct stp w = free_blocks 1 (free_blocks 1 ((deleteVar ^^ length (symlist stp)) (free_blocks 1 w)))"

definition programDestruct :: "'f ext \<Rightarrow> nat \<Rightarrow> ('c, 'f) pstate \<Rightarrow> ('c, 'f) pstate option" where
  "programDestruct E p s = do {
     pp \<leftarrow> progs s p;
     let w = free_blocks (length (sourcecode pp)) (wld s);
     w \<leftarrow> foldM (jsclassDestruct E) (lclasses pp) w;
     st \<leftarrow> foldM (varClear E) (map (Const p) [0..<ncdata pp]) (store w);
     let w = free_blocks (const_strings p (ncdata pp) (store w)) w;
     let w = w\<lparr>store := st\<lparr>vars := vars st |` (- Const p ` {..<ncdata pp})\<rparr>\<rparr>;
     let w = fold symtab_destruct (symstack pp) w;
     let w = (if errmsg pp \<noteq> None then free_blocks 1 w else w);
     let w = free_blocks 6 w;
     Some (s\<lparr>wld := w, progs := (progs s)(p := None)\<rparr>) }"

definition programSetIntrinsics :: "nat \<Rightarrow> nat list \<Rightarrow> ('c, 'f) pstate \<Rightarrow> ('c, 'f) pstate option" where
  "programSetIntrinsics p ps s = map_option (\<lambda>pp. set_prog p (pp\<lparr>intrinsics := Some ps\<rparr>) s) (progs s p)"

subsection \<open>Definitions\<close>

definition programDefineClass ::
  "'f ext \<Rightarrow> 'c lib \<Rightarrow> nat \<Rightarrow> string \<Rightarrow> string \<Rightarrow> nat option \<Rightarrow> ('c, 'f) pstate
     \<Rightarrow> (nat option \<times> ('c, 'f) pstate) option" where
  "programDefineClass E L p name base private s = do {
     pp \<leftarrow> progs s p;
     (case jsclassConstruct name base private (wld s) of
        (None, w) \<Rightarrow> Some (None, s\<lparr>wld := w\<rparr>)
      | (Some c, w) \<Rightarrow>
          (case ht_add L (pclasses pp) name c of
             None \<Rightarrow> do { w \<leftarrow> jsclassDestruct E c w; Some (None, s\<lparr>wld := w\<rparr>) }
           | Some t \<Rightarrow>
               (let (ok, w) = grow w
                in if \<not> ok then do {
                     w \<leftarrow> jsclassDestruct E c w;
                     Some (None, set_prog p (pp\<lparr>pclasses := t(name := None)\<rparr>) (s\<lparr>wld := w\<rparr>)) }
                   else Some (Some c, set_prog p (pp\<lparr>pclasses := t, lclasses := lclasses pp @ [c],
                                                   curclass := Some c\<rparr>) (s\<lparr>wld := w\<rparr>))))) }"

definition programDefineMethod ::
  "'c lib \<Rightarrow> nat \<Rightarrow> string \<Rightarrow> bool \<Rightarrow> jsaccess \<Rightarrow> ('c, 'f) pstate \<Rightarrow> (nat option \<times> ('c, 'f) pstate) option" where
  "programDefineMethod L p name isstatic acc s = do {
     pp \<leftarrow> progs s p;
     c \<leftarrow> curclass pp;
     (mp, w) \<leftarrow> jsmethodConstruct L c name isstatic acc (wld s);
     Some (mp, set_prog p (pp\<lparr>curmethod := mp\<rparr>) (s\<lparr>wld := w\<rparr>)) }"

definition programDefineNativeMethod ::
  "'c lib \<Rightarrow> nat \<Rightarrow> nat \<Rightarrow> string \<Rightarrow> bool \<Rightarrow> jsaccess \<Rightarrow> bool \<Rightarrow> ('c, 'f) pstate
     \<Rightarrow> (nat option \<times> ('c, 'f) pstate) option" where
  "programDefineNativeMethod L p meth name isstatic acc hasret s = do {
     pp \<leftarrow> progs s p;
     c \<leftarrow> curclass pp;
     (mp, w) \<leftarrow> jsclassAddNativeMethod L c meth name isstatic acc hasret (wld s);
     Some (mp, set_prog p (pp\<lparr>curmethod := mp\<rparr>) (s\<lparr>wld := w\<rparr>)) }"

definition programDefineNativeField ::
  "nat \<Rightarrow> nat \<Rightarrow> string \<Rightarrow> bool \<Rightarrow> ('c, 'f) pstate \<Rightarrow> (vardef option \<times> ('c, 'f) pstate) option" where
  "programDefineNativeField p fld name isstatic s = do {
     pp \<leftarrow> progs s p;
     c \<leftarrow> curclass pp;
     (vdp, w) \<leftarrow> jsclassAddNativeField c fld name isstatic (wld s);
     Some (vdp, s\<lparr>wld := w\<rparr>) }"

definition programDefineField ::
  "nat \<Rightarrow> string \<Rightarrow> bool \<Rightarrow> ('c, 'f) pstate \<Rightarrow> (vardef option \<times> ('c, 'f) pstate) option" where
  "programDefineField p name isstatic s = do {
     pp \<leftarrow> progs s p;
     c \<leftarrow> curclass pp;
     (vdp, w) \<leftarrow> jsclassAddField c name isstatic (wld s);
     Some (vdp, s\<lparr>wld := w\<rparr>) }"

subsection \<open>Emitting code\<close>

text \<open>The method's pc moves before the class is looked at; the result of the store is not.\<close>

definition emit ::
  "'c lib \<Rightarrow> nat \<Rightarrow> opcode \<Rightarrow> nat \<Rightarrow> mode \<Rightarrow> mode \<Rightarrow> ('c, 'f) pstate \<Rightarrow> (int \<times> ('c, 'f) pstate) option" where
  "emit L p op argcount mode mode2 s = do {
     pp \<leftarrow> progs s p;
     m \<leftarrow> curmethod pp;
     mp \<leftarrow> methods (wld s) m;
     let pc = mpc mp;
     let mp = mp\<lparr>mpc := pc + 1\<rparr>;
     if curclass pp = None then Some (-1, set_method m mp s)
     else
       (let encop = encodeOp op argcount mode mode2;
            (_, c) = i16_set (i16 L) (code mp) encop pc;
            mp = mp\<lparr>code := c\<rparr>;
            mp = (if op = OP_RET then mp\<lparr>hasretval := True\<rparr> else mp)
        in Some (pc, set_method m mp s)) }"

definition programEmit0 where "programEmit0 L p op = emit L p op 0 0 0"

definition programEmit1 where "programEmit1 L p op destmode = emit L p op 1 destmode 0"

definition programEmit2 where "programEmit2 L p op mode mode2 = emit L p op 2 mode mode2"

definition programEmitArgAt ::
  "'c lib \<Rightarrow> nat \<Rightarrow> int \<Rightarrow> int32 \<Rightarrow> ('c, 'f) pstate \<Rightarrow> (bool \<times> ('c, 'f) pstate) option" where
  "programEmitArgAt L p pc arg s = do {
     pp \<leftarrow> progs s p;
     if curclass pp = None then Some (False, s)
     else case curmethod pp of
       None \<Rightarrow> Some (False, s)
     | Some m \<Rightarrow> do {
         mp \<leftarrow> methods (wld s) m;
         let (ok, c) = i16_set2 (i16 L) (code mp) arg pc;
         Some (ok, set_method m (mp\<lparr>code := c\<rparr>) s) } }"

definition programFixUpPc :: "'c lib \<Rightarrow> nat \<Rightarrow> int \<Rightarrow> ('c, 'f) pstate \<Rightarrow> (bool \<times> ('c, 'f) pstate) option" where
  "programFixUpPc L p fixuppcat s = do {
     pp \<leftarrow> progs s p;
     m \<leftarrow> curmethod pp;
     mp \<leftarrow> methods (wld s) m;
     programEmitArgAt L p fixuppcat (word_of_int (mpc mp)) s }"

definition programEmitArg :: "'c lib \<Rightarrow> nat \<Rightarrow> int32 \<Rightarrow> ('c, 'f) pstate \<Rightarrow> (int \<times> ('c, 'f) pstate) option" where
  "programEmitArg L p arg s = do {
     pp \<leftarrow> progs s p;
     m \<leftarrow> curmethod pp;
     mp \<leftarrow> methods (wld s) m;
     let pc = mpc mp;
     (ok, s) \<leftarrow> programEmitArgAt L p pc arg s;
     if \<not> ok then Some (-1, s)
     else do {
       mp \<leftarrow> methods (wld s) m;
       Some (pc, set_method m (mp\<lparr>mpc := mpc mp + 2\<rparr>) s) } }"

subsection \<open>Finding classes\<close>

text \<open>
  A class that is not the program's own is looked for in the intrinsics, which are programs with
  intrinsics of their own: n bounds that chain. The key of the lookup is a string of its own.
\<close>

fun search_class ::
  "(nat \<Rightarrow> ('c, 'f) pstate \<Rightarrow> (nat option \<times> ('c, 'f) pstate) option) \<Rightarrow> nat list \<Rightarrow> ('c, 'f) pstate
     \<Rightarrow> (nat option \<times> ('c, 'f) pstate) option" where
  "search_class find_in [] s = Some (None, s)"
| "search_class find_in (p # ps) s =
     (case find_in p s of
        None \<Rightarrow> None
      | Some (Some c, s) \<Rightarrow> Some (Some c, s)
      | Some (None, s) \<Rightarrow> search_class find_in ps s)"

primrec programFindClass ::
  "nat \<Rightarrow> string \<Rightarrow> nat \<Rightarrow> ('c, 'f) pstate \<Rightarrow> (nat option \<times> ('c, 'f) pstate) option" where
  "programFindClass 0 name p s = None"
| "programFindClass (Suc n) name p s = do {
     pp \<leftarrow> progs s p;
     let (ok, w) = take_block (wld s);
     let s = s\<lparr>wld := w\<rparr>;
     if \<not> ok then Some (None, s)
     else
       (let jsp = pclasses pp name;
            s = s\<lparr>wld := free_blocks 1 (wld s)\<rparr>
        in case (jsp, intrinsics pp) of
             (None, Some ps) \<Rightarrow> search_class (programFindClass n name) ps s
           | _ \<Rightarrow> Some (jsp, s)) }"

definition programSearchClass ::
  "nat \<Rightarrow> string \<Rightarrow> nat list \<Rightarrow> ('c, 'f) pstate \<Rightarrow> (nat option \<times> ('c, 'f) pstate) option" where
  "programSearchClass n name = search_class (programFindClass n name)"

fun find_with_method :: "string \<Rightarrow> nat list \<Rightarrow> ('c, 'f) world \<Rightarrow> nat option option" where
  "find_with_method sig [] w = Some None"
| "find_with_method sig (c # cs) w =
     (case classes w c of None \<Rightarrow> None | Some jsp \<Rightarrow>
        if jsclassFindMethod (methods w) jsp sig \<noteq> None then Some (Some c) else find_with_method sig cs w)"

definition programFindClassWithMethod :: "nat \<Rightarrow> string \<Rightarrow> ('c, 'f) pstate \<Rightarrow> nat option option" where
  "programFindClassWithMethod p sig s = do { pp \<leftarrow> progs s p; find_with_method sig (lclasses pp) (wld s) }"

subsection \<open>Constants\<close>

text \<open>
  A constant is made in a variant on the C stack and copied into the pool, bit by bit. When the
  pool cannot grow the variant is dropped as it is, with the string it may own.
\<close>

definition on_local ::
  "(loc \<Rightarrow> (loc, 'f) mem \<Rightarrow> (bool \<times> (loc, 'f) mem) option) \<Rightarrow> (bool \<times> (loc, 'f) variant) option" where
  "on_local f = do {
     (ok, st) \<leftarrow> f Null \<lparr>vars = [Null \<mapsto> void_variant], insts = Map.empty\<rparr>;
     v \<leftarrow> vars st Null;
     Some (ok, v) }"

definition add_const ::
  "nat \<Rightarrow> (bool \<times> (loc, 'f) variant) option \<Rightarrow> ('c, 'f) pstate \<Rightarrow> (int \<times> ('c, 'f) pstate) option" where
  "add_const p r s = do {
     pp \<leftarrow> progs s p;
     (ok, v) \<leftarrow> r;
     if \<not> ok then Some (-1, s)
     else
       (let w = (wld s)\<lparr>live := live (wld s) + int (owns_string v)\<rparr>;
            (ok, w) = grow w
        in if \<not> ok then Some (-1, s\<lparr>wld := w\<rparr>)
           else Some (int (ncdata pp),
             set_prog p (pp\<lparr>ncdata := ncdata pp + 1\<rparr>)
               (s\<lparr>wld := w\<lparr>store := (store w)\<lparr>vars := (vars (store w))(Const p (ncdata pp) \<mapsto> v)\<rparr>\<rparr>\<rparr>))) }"

definition programEmitConstInt where
  "programEmitConstInt E p val = add_const p (on_local (\<lambda>l. varAssignInt E l val))"

definition programEmitConstFloat where
  "programEmitConstFloat E p val = add_const p (on_local (\<lambda>l. varAssignFloat E l val))"

definition programEmitConstChars where
  "programEmitConstChars E p val = add_const p (on_local (\<lambda>l. varAssignChar E l val))"

definition programEmitConstChar where
  "programEmitConstChar E p val = add_const p (on_local (\<lambda>l. varAssignCh E l (word_of_int (schar val))))"

end
