(* ===== verification/Parser.thy ===== *)
theory Parser
  imports Program Lexer
begin

section \<open>The state of the parser, jspp/src/parse.c\<close>

text \<open>
  The parser reads tokens from a lexer and builds a program: its state has both. It is a recursive
  descent compiler that emits code as it goes, so a procedure of the source is a function from
  states to states, None where the C code follows a null pointer, reads a variable before it is
  set, writes past a buffer, or does not return within the fuel. A syntax error is recorded in
  the program (\<open>setupError\<close>); parsing goes on until the callers notice.

  The parameters are the library, the floats, the address of the program and how deep the chain
  of intrinsics is; \<open>note_add\<close> is \<open>hashtableAdd\<close> for the tables of variables.
\<close>

subsection \<open>Error numbers, jspp/jspp/parseerrors.h\<close>

abbreviation (input) YYER_EXPECTED_CLASS_DEF :: int where "YYER_EXPECTED_CLASS_DEF \<equiv> 1"
abbreviation (input) YYER_EXPECTED_CLASS_NAME :: int where "YYER_EXPECTED_CLASS_NAME \<equiv> 2"
abbreviation (input) YYER_OUT_OF_MEM :: int where "YYER_OUT_OF_MEM \<equiv> 3"
abbreviation (input) YYER_EXPECTED_SUPER_CLASS :: int where "YYER_EXPECTED_SUPER_CLASS \<equiv> 4"
abbreviation (input) YYER_EXPECTED_LBRACE :: int where "YYER_EXPECTED_LBRACE \<equiv> 5"
abbreviation (input) YYER_EXPECTED_RBRACE :: int where "YYER_EXPECTED_RBRACE \<equiv> 6"
abbreviation (input) YYER_EXPECTED_METHOD_NAME :: int where "YYER_EXPECTED_METHOD_NAME \<equiv> 7"
abbreviation (input) YYER_EXPECTED_LPAR :: int where "YYER_EXPECTED_LPAR \<equiv> 8"
abbreviation (input) YYER_EXPECTED_RPAR :: int where "YYER_EXPECTED_RPAR \<equiv> 9"
abbreviation (input) YYER_EXPECTED_VAR_NAME :: int where "YYER_EXPECTED_VAR_NAME \<equiv> 10"
abbreviation (input) YYER_EXPECTED_SEMI :: int where "YYER_EXPECTED_SEMI \<equiv> 11"
abbreviation (input) YYER_ASSIGN_SYNTAX :: int where "YYER_ASSIGN_SYNTAX \<equiv> 12"
abbreviation (input) YYER_NEW_SYNTAX :: int where "YYER_NEW_SYNTAX \<equiv> 13"
abbreviation (input) YYER_EXPECTED_ARRAY_INDEX :: int where "YYER_EXPECTED_ARRAY_INDEX \<equiv> 14"
abbreviation (input) YYER_EXPECTED_RBRAC :: int where "YYER_EXPECTED_RBRAC \<equiv> 15"
abbreviation (input) YYER_EXPECTED_COMMA :: int where "YYER_EXPECTED_COMMA \<equiv> 16"
abbreviation (input) YYERR_SYNTAX :: int where "YYERR_SYNTAX \<equiv> 17"
abbreviation (input) YYER_EXPECTED_ID :: int where "YYER_EXPECTED_ID \<equiv> 18"
abbreviation (input) YYER_EXPECTED_COLON :: int where "YYER_EXPECTED_COLON \<equiv> 19"
abbreviation (input) YYER_EXPECTED_CATCH :: int where "YYER_EXPECTED_CATCH \<equiv> 20"
abbreviation (input) YYER_UNKNOWN_CLASS :: int where "YYER_UNKNOWN_CLASS \<equiv> 21"
abbreviation (input) YYER_EXPECTED_SCOPE_OP :: int where "YYER_EXPECTED_SCOPE_OP \<equiv> 22"
abbreviation (input) YYER_EXPECTED_ACCESS :: int where "YYER_EXPECTED_ACCESS \<equiv> 23"
abbreviation (input) YYER_UNKNOWN_METHOD :: int where "YYER_UNKNOWN_METHOD \<equiv> 24"
abbreviation (input) YYER_UNKNOWN_ID :: int where "YYER_UNKNOWN_ID \<equiv> 25"
abbreviation (input) YYER_ILLEGAL_STATIC_REF :: int where "YYER_ILLEGAL_STATIC_REF \<equiv> 26"
abbreviation (input) YYER_INVALID_ARRAY_INDEX :: int where "YYER_INVALID_ARRAY_INDEX \<equiv> 27"
abbreviation (input) YYER_INST_REF_IN_STATIC :: int where "YYER_INST_REF_IN_STATIC \<equiv> 28"
abbreviation (input) YYER_EXPECTED_VAR_OR_CLASS :: int where "YYER_EXPECTED_VAR_OR_CLASS \<equiv> 29"
abbreviation (input) YYER_ILLEGAL_CASE_VALUE :: int where "YYER_ILLEGAL_CASE_VALUE \<equiv> 30"
abbreviation (input) YYER_ILLEGAL_ARRAY_INIT :: int where "YYER_ILLEGAL_ARRAY_INIT \<equiv> 31"
abbreviation (input) YYER_METH_RETURNS_VAL :: int where "YYER_METH_RETURNS_VAL \<equiv> 32"

subsection \<open>The state\<close>

record ('c, 'f) pst =
  plex :: jspplex
  pps :: "('c, 'f) pstate"

record ('c, 'f) pcx =
  clib :: "'c lib"
  cext :: "'f ext"
  cprog :: nat
  cdepth :: nat
  note_add :: "(string \<rightharpoonup> vardef) \<Rightarrow> string \<Rightarrow> vardef \<Rightarrow> (string \<rightharpoonup> vardef) option"

type_synonym ('c, 'f) act = "('c, 'f) pst \<Rightarrow> ('c, 'f) pst option"

definition at :: "token \<Rightarrow> ('c, 'f) pst \<Rightarrow> bool" where
  "at t s \<longleftrightarrow> token (plex s) = Some t"

definition text_of :: "('c, 'f) pst \<Rightarrow> string" where
  "text_of s = lex (plex s)"

text \<open>The next token. A token that overran the buffer has written over the lexer.\<close>

definition lexnext :: "('c, 'f) act" where
  "lexnext s =
     (let lexp = snd (jsppLex (plex s)) in if overrun lexp then None else Some (s\<lparr>plex := lexp\<rparr>))"

definition pprog :: "('c, 'f) pcx \<Rightarrow> ('c, 'f) pst \<Rightarrow> program option" where
  "pprog C s = progs (pps s) (cprog C)"

definition on_prog :: "('c, 'f) pcx \<Rightarrow> (program \<Rightarrow> program) \<Rightarrow> ('c, 'f) act" where
  "on_prog C f s = map_option (\<lambda>pp. s\<lparr>pps := set_prog (cprog C) (f pp) (pps s)\<rparr>) (pprog C s)"

definition set_isrhs :: "('c, 'f) pcx \<Rightarrow> bool \<Rightarrow> ('c, 'f) act" where
  "set_isrhs C b = on_prog C (\<lambda>pp. pp\<lparr>isrhs := b\<rparr>)"

definition set_curmethod :: "('c, 'f) pcx \<Rightarrow> nat option \<Rightarrow> ('c, 'f) act" where
  "set_curmethod C m = on_prog C (\<lambda>pp. pp\<lparr>curmethod := m\<rparr>)"

text \<open>\<open>if ( 0 == pp->errornum )\<close>\<close>

definition if_no_error :: "('c, 'f) pcx \<Rightarrow> ('c, 'f) act \<Rightarrow> ('c, 'f) act" where
  "if_no_error C f s = do { pp \<leftarrow> pprog C s; if errornum pp = 0 then f s else Some s }"

definition pworld :: "(('c, 'f) world \<Rightarrow> 'a \<times> ('c, 'f) world) \<Rightarrow> ('c, 'f) pst \<Rightarrow> 'a \<times> ('c, 'f) pst" where
  "pworld f s = (let (a, w) = f (wld (pps s)) in (a, s\<lparr>pps := (pps s)\<lparr>wld := w\<rparr>\<rparr>))"

definition pfree :: "nat \<Rightarrow> ('c, 'f) pst \<Rightarrow> ('c, 'f) pst" where
  "pfree n s = snd (pworld (\<lambda>w. ((), free_blocks n w)) s)"

text \<open>An operation of program.c.\<close>

definition onps :: "(('c, 'f) pstate \<Rightarrow> ('a \<times> ('c, 'f) pstate) option) \<Rightarrow> ('c, 'f) pst \<Rightarrow> ('a \<times> ('c, 'f) pst) option" where
  "onps f s = do { (a, ps) \<leftarrow> f (pps s); Some (a, s\<lparr>pps := ps\<rparr>) }"

definition curmeth :: "('c, 'f) pcx \<Rightarrow> ('c, 'f) pst \<Rightarrow> 'c jsmethod option" where
  "curmeth C s = do { pp \<leftarrow> pprog C s; m \<leftarrow> curmethod pp; methods (wld (pps s)) m }"

definition curcls :: "('c, 'f) pcx \<Rightarrow> ('c, 'f) pst \<Rightarrow> jsclass option" where
  "curcls C s = do { pp \<leftarrow> pprog C s; c \<leftarrow> curclass pp; classes (wld (pps s)) c }"

subsection \<open>Emitting\<close>

definition emit0 :: "('c, 'f) pcx \<Rightarrow> opcode \<Rightarrow> ('c, 'f) act" where
  "emit0 C op s = map_option snd (onps (programEmit0 (clib C) (cprog C) op) s)"

definition emit1 :: "('c, 'f) pcx \<Rightarrow> opcode \<Rightarrow> mode \<Rightarrow> ('c, 'f) act" where
  "emit1 C op m s = map_option snd (onps (programEmit1 (clib C) (cprog C) op m) s)"

definition emit2 :: "('c, 'f) pcx \<Rightarrow> opcode \<Rightarrow> mode \<Rightarrow> mode \<Rightarrow> ('c, 'f) act" where
  "emit2 C op m m2 s = map_option snd (onps (programEmit2 (clib C) (cprog C) op m m2) s)"

definition emitArg :: "('c, 'f) pcx \<Rightarrow> int \<Rightarrow> ('c, 'f) pst \<Rightarrow> (int \<times> ('c, 'f) pst) option" where
  "emitArg C k = onps (programEmitArg (clib C) (cprog C) (word_of_int k))"

definition put_arg :: "('c, 'f) pcx \<Rightarrow> int \<Rightarrow> ('c, 'f) act" where
  "put_arg C k s = map_option snd (emitArg C k s)"

text \<open>\<open>programEmitArgAt( pp, pc, pp->curmethod->pc )\<close> and with any other argument.\<close>

definition arg_at :: "('c, 'f) pcx \<Rightarrow> int \<Rightarrow> int \<Rightarrow> ('c, 'f) act" where
  "arg_at C pc k s = map_option snd (onps (programEmitArgAt (clib C) (cprog C) pc (word_of_int k)) s)"

definition cur_pc :: "('c, 'f) pcx \<Rightarrow> ('c, 'f) pst \<Rightarrow> int option" where
  "cur_pc C s = map_option mpc (curmeth C s)"

definition arg_here :: "('c, 'f) pcx \<Rightarrow> int \<Rightarrow> ('c, 'f) act" where
  "arg_here C pc s = do { k \<leftarrow> cur_pc C s; arg_at C pc k s }"

text \<open>An instruction with one operand, and with an operand to be filled in, whose place is returned.\<close>

definition emit_im :: "('c, 'f) pcx \<Rightarrow> opcode \<Rightarrow> int \<Rightarrow> ('c, 'f) act" where
  "emit_im C op k s = do { s \<leftarrow> emit1 C op MODE_IM s; put_arg C k s }"

definition emit_hole :: "('c, 'f) pcx \<Rightarrow> opcode \<Rightarrow> int \<Rightarrow> ('c, 'f) pst \<Rightarrow> (int \<times> ('c, 'f) pst) option" where
  "emit_hole C op k s = do { s \<leftarrow> emit1 C op MODE_IM s; emitArg C k s }"

definition const_chars :: "('c, 'f) pcx \<Rightarrow> string \<Rightarrow> ('c, 'f) pst \<Rightarrow> (int \<times> ('c, 'f) pst) option" where
  "const_chars C t = onps (programEmitConstChars (cext C) (cprog C) t)"

definition put_chars :: "('c, 'f) pcx \<Rightarrow> string \<Rightarrow> ('c, 'f) act" where
  "put_chars C t s = do { (k, s) \<leftarrow> const_chars C t s; put_arg C k s }"

subsection \<open>Errors\<close>

definition lex_message :: "int \<Rightarrow> string" where
  "lex_message num =
     (if num = -1 then ''invalid number format''
      else if num = -2 then ''unexpected escape sequence''
      else if num = -3 then ''unterminated char''
      else if num = -4 then ''unterminated string''
      else if num = -5 then ''internal error''
      else ''unknown error'')"

definition quoted :: "string \<Rightarrow> string" where
  "quoted s = [CHR 0x27] @ s @ [CHR 0x27]"

definition messages :: "(int \<times> string) list" where
  "messages = [(YYER_EXPECTED_CLASS_DEF, ''expected class definition''), (YYER_EXPECTED_CLASS_NAME, ''expected class name''),
     (YYER_OUT_OF_MEM, ''out of memory''), (YYER_EXPECTED_SUPER_CLASS, ''expected base class name''),
     (YYER_EXPECTED_LBRACE, ''expected '' @ quoted ''{''), (YYER_EXPECTED_RBRACE, ''expected '' @ quoted ''}''),
     (YYER_EXPECTED_METHOD_NAME, ''expected method name''), (YYER_EXPECTED_LPAR, ''expected '' @ quoted ''(''),
     (YYER_EXPECTED_RPAR, ''expected '' @ quoted '')''), (YYER_EXPECTED_VAR_NAME, ''expected variable name''),
     (YYER_EXPECTED_SEMI, ''expected semi colon''), (YYER_ASSIGN_SYNTAX, ''assignment syntax error''),
     (YYER_NEW_SYNTAX, quoted ''new'' @ '' operator syntax error''), (YYER_EXPECTED_ARRAY_INDEX, ''expected array index''),
     (YYER_EXPECTED_RBRAC, ''expected '' @ quoted '']''), (YYER_EXPECTED_COMMA, ''expected '' @ quoted '',''),
     (YYERR_SYNTAX, ''syntax error''), (YYER_EXPECTED_ID, ''expected identifier''),
     (YYER_EXPECTED_COLON, ''expected '' @ quoted '':''), (YYER_EXPECTED_CATCH, ''expected '' @ quoted ''catch''),
     (YYER_UNKNOWN_CLASS, ''undefined class name''), (YYER_EXPECTED_SCOPE_OP, ''expected '' @ quoted ''::''),
     (YYER_EXPECTED_ACCESS, ''expected public, protected, or private''), (YYER_UNKNOWN_METHOD, ''undefined method name''),
     (YYER_UNKNOWN_ID, ''undefined indentifier''), (YYER_ILLEGAL_STATIC_REF, ''illegal static reference''),
     (YYER_INVALID_ARRAY_INDEX, ''invalid array index''),
     (YYER_INST_REF_IN_STATIC, ''instance method cannot be called from static method''),
     (YYER_EXPECTED_VAR_OR_CLASS, ''expected var or class''), (YYER_ILLEGAL_CASE_VALUE, ''illegal case value''),
     (YYER_ILLEGAL_ARRAY_INIT, ''illegal array initializer''), (YYER_METH_RETURNS_VAL, ''Method must return a value'')]"

definition parse_message :: "int \<Rightarrow> string" where
  "parse_message num = (case map_of messages num of Some m \<Rightarrow> m | None \<Rightarrow> ''unknown error'')"

text \<open>
  The message goes through a buffer of 512 characters, its NUL included. A message that is
  already there is not freed.
\<close>

definition setupError :: "('c, 'f) pcx \<Rightarrow> int \<Rightarrow> ('c, 'f) act" where
  "setupError C parseerror s =
     (let line = lineno (plex s);
          lexical = at T_LEXERROR s;
          num = (if lexical then sint (atoi (text_of s)) else parseerror);
          buf = (if lexical then ''ERROR in lexical analysis of '' else ''ERROR parsing of '') @ quoted (text_of s)
            @ '' on line '' @ itoa (word_of_int line) @ [CHR 0x0A]
            @ (if lexical then lex_message num else parse_message num) @ [CHR 0x0A]
      in if 512 \<le> length buf then None
         else let (ok, s) = pworld take_block s
              in on_prog C (\<lambda>pp. pp\<lparr>errorline := line, errornum := num, errmsg := (if ok then Some buf else None)\<rparr>) s)"

text \<open>\<open>if ( t != lex->token ) { setupError(...); return; }\<close>, and then the next token.\<close>

definition expect :: "('c, 'f) pcx \<Rightarrow> token \<Rightarrow> int \<Rightarrow> ('c, 'f) act \<Rightarrow> ('c, 'f) act" where
  "expect C t e f s = (if \<not> at t s then setupError C e s else do { s \<leftarrow> lexnext s; f s })"

subsection \<open>Tables of local variables\<close>

fun lookup_in :: "symtab list \<Rightarrow> string \<Rightarrow> vardef option" where
  "lookup_in [] name = None"
| "lookup_in (stp # ss) name = (case syms stp name of Some vdp \<Rightarrow> Some vdp | None \<Rightarrow> lookup_in ss name)"

text \<open>The stack of tables has its top first.\<close>

definition symtabLookup :: "('c, 'f) pcx \<Rightarrow> string \<Rightarrow> ('c, 'f) pst \<Rightarrow> vardef option option" where
  "symtabLookup C name s = do {
     pp \<leftarrow> pprog C s;
     (case lookup_in (symstack pp) name of
        Some vdp \<Rightarrow> Some (Some vdp)
      | None \<Rightarrow> map_option (\<lambda>jsp. jsclassFindField jsp name) (curcls C s)) }"

text \<open>A table that cannot be added to the stack stays allocated; the callers go on without it.\<close>

definition symtabEnter :: "('c, 'f) pcx \<Rightarrow> int \<Rightarrow> ('c, 'f) act" where
  "symtabEnter C pc s =
     (let (ok, s) = pworld take_block s in if \<not> ok then Some s else
      let (ok, s) = pworld take_block s in if \<not> ok then Some (pfree 1 s) else
      let (ok, s) = pworld take_block s in if \<not> ok then Some (pfree 2 s) else
      do {
        pp \<leftarrow> pprog C s;
        let stp = \<lparr>cumulative = (case symstack pp of [] \<Rightarrow> 0 | t # _ \<Rightarrow> cumulative t), symcount = 0,
                   patchupPc = pc, syms = Map.empty, symlist = []\<rparr>;
        let (ok, s) = pworld grow s;
        if ok then on_prog C (\<lambda>pp. pp\<lparr>symstack := stp # symstack pp\<rparr>) s else Some s })"

definition symtabExit :: "('c, 'f) pcx \<Rightarrow> ('c, 'f) act" where
  "symtabExit C s = do {
     pp \<leftarrow> pprog C s;
     (case symstack pp of
        [] \<Rightarrow> None
      | stp # ss \<Rightarrow> do {
          s \<leftarrow> on_prog C (\<lambda>pp. pp\<lparr>symstack := ss\<rparr>) s;
          s \<leftarrow> arg_at C (patchupPc stp) (symcount stp) s;
          Some (snd (pworld (\<lambda>w. ((), symtab_destruct stp w)) s)) }) }"

definition symtabNote :: "('c, 'f) pcx \<Rightarrow> string \<Rightarrow> bool \<Rightarrow> ('c, 'f) pst \<Rightarrow> (vardef option \<times> ('c, 'f) pst) option" where
  "symtabNote C name ptr s =
     (case pworld (createVar name False MODE_BLOCK ptr) s of
        (None, s) \<Rightarrow> Some (None, s)
      | (Some vdp, s) \<Rightarrow> do {
          pp \<leftarrow> pprog C s;
          (case symstack pp of
             [] \<Rightarrow> None
           | stp # ss \<Rightarrow> do {
               let vdp = vdp\<lparr>isauto := True, voffset := cumulative stp\<rparr>;
               let (ok, s) = pworld grow s;
               let stp = stp\<lparr>cumulative := cumulative stp + 1, symcount := symcount stp + 1,
                         symlist := (if ok then symlist stp @ [vdp] else symlist stp),
                         syms := (case note_add C (syms stp) name vdp of Some t \<Rightarrow> t | None \<Rightarrow> syms stp)\<rparr>;
               s \<leftarrow> on_prog C (\<lambda>pp. pp\<lparr>symstack := stp # ss\<rparr>) s;
               Some (Some vdp, s) }) })"

end
