(* ===== verification/Parser_Expr.thy ===== *)
theory Parser_Expr
  imports Parser
begin

section \<open>Expressions, jspp/src/parse.c\<close>

text \<open>
  One definition per procedure of the grammar, from the innermost to \<open>expr\<close>. The procedures below
  \<open>expr\<close> that call it back take it as an argument; the fuel n bounds how often a loop or a list
  of operators goes round, and \<open>expr\<close> spends one for every expression within an expression.
\<close>

subsection \<open>Calls\<close>

text \<open>The signature a call starts with; one that cannot be built is left behind.\<close>

fun sig_append :: "('c, 'f) pcx \<Rightarrow> string \<Rightarrow> string list \<Rightarrow> ('c, 'f) pst \<Rightarrow> (string option \<times> ('c, 'f) pst) option" where
  "sig_append C sig [] s = Some (Some sig, s)"
| "sig_append C sig (t # ts) s =
     (let (ok, s) = pworld grow s
      in if ok then sig_append C (sig @ t) ts s
         else map_option (Pair None) (setupError C YYER_OUT_OF_MEM s))"

definition call_sig ::
  "('c, 'f) pcx \<Rightarrow> nat option \<Rightarrow> string \<Rightarrow> ('c, 'f) pst \<Rightarrow> (string option \<times> ('c, 'f) pst) option" where
  "call_sig C jsp methname s = do {
     (start, parts) \<leftarrow> (case jsp of
         None \<Rightarrow> Some (methname, ['':Ivv''])
       | Some c \<Rightarrow> map_option (\<lambda>cls. (cname cls, [''.'', methname, '':Sv''])) (classes (wld (pps s)) c));
     let (ok, s) = pworld take_block s;
     if \<not> ok then map_option (Pair None) (setupError C YYER_OUT_OF_MEM s)
     else sig_append C start parts s }"

primrec arg_loop ::
  "nat \<Rightarrow> ('c, 'f) pcx \<Rightarrow> ('c, 'f) act \<Rightarrow> bool \<Rightarrow> string \<Rightarrow> int \<Rightarrow> ('c, 'f) pst
     \<Rightarrow> ((string \<times> int) option \<times> ('c, 'f) pst) option" where
  "arg_loop 0 C e ctor sig argcount s = None"
| "arg_loop (Suc n) C e ctor sig argcount s =
     (if at T_RPAR s then Some (Some (sig, argcount), s)
      else do {
        let (sig, s) = (if ctor then (sig, s) else pworld (append_to sig ''v'') s);
        s \<leftarrow> e s;
        if \<not> at T_COMMA s \<and> \<not> at T_RPAR s then map_option (Pair None) (setupError C YYER_EXPECTED_COMMA s)
        else do {
          s \<leftarrow> (if at T_COMMA s then lexnext s else Some s);
          arg_loop n C e ctor sig (argcount + 1) s } })"

definition arglist_call ::
  "nat \<Rightarrow> ('c, 'f) pcx \<Rightarrow> ('c, 'f) act \<Rightarrow> nat option \<Rightarrow> string \<Rightarrow> bool \<Rightarrow> bool \<Rightarrow> ('c, 'f) act" where
  "arglist_call n C e jsp methname basecall ctor s = do {
     (sig, s) \<leftarrow> call_sig C jsp methname s;
     (case sig of
        None \<Rightarrow> Some s
      | Some sig \<Rightarrow> do {
          (r, s) \<leftarrow> arg_loop n C e ctor sig 0 s;
          (case r of
             None \<Rightarrow> Some s
           | Some (sig, argcount) \<Rightarrow> do {
               s \<leftarrow> (if jsp = None
                      then emit2 C (if basecall then OP_BASECALL else if ctor then OP_CONSTRUCT else OP_CALL)
                             MODE_CONST MODE_IM s
                      else emit1 C OP_SCALL MODE_CONST s);
               s \<leftarrow> put_chars C sig s;
               s \<leftarrow> (if jsp = None then put_arg C argcount s else Some s);
               Some (pfree 1 s) }) }) }"

text \<open>\<open>RPAR\<close> after the arguments, then whatever follows the call.\<close>

definition after_args :: "('c, 'f) pcx \<Rightarrow> ('c, 'f) act \<Rightarrow> ('c, 'f) act" where
  "after_args C f = expect C T_RPAR YYER_EXPECTED_RPAR f"

primrec index_loop ::
  "nat \<Rightarrow> ('c, 'f) pcx \<Rightarrow> ('c, 'f) act \<Rightarrow> string \<Rightarrow> int \<Rightarrow> ('c, 'f) pst \<Rightarrow> ((string \<times> int) \<times> ('c, 'f) pst) option" where
  "index_loop 0 C e sig argcount s = None"
| "index_loop (Suc n) C e sig argcount s = do {
     pp \<leftarrow> pprog C s;
     if at T_RBRAC s \<or> errornum pp \<noteq> 0 then Some ((sig, argcount), s)
     else do {
       let (sig, s) = pworld (append_to sig ''v'') s;
       s \<leftarrow> e s;
       s \<leftarrow> (if at T_COMMA s then lexnext s else Some s);
       index_loop n C e sig (argcount + 1) s } }"

definition arrayIndexCall :: "nat \<Rightarrow> ('c, 'f) pcx \<Rightarrow> ('c, 'f) act \<Rightarrow> ('c, 'f) act" where
  "arrayIndexCall n C e s = do {
     s \<leftarrow> lexnext s;
     let (ok, s) = pworld take_block s;
     if \<not> ok then setupError C YYER_OUT_OF_MEM s
     else do {
       ((sig, argcount), s) \<leftarrow> index_loop n C e ''[]:Ivv'' 0 s;
       if \<not> at T_RBRAC s then setupError C YYER_EXPECTED_RBRAC (pfree 1 s)
       else do {
         s \<leftarrow> lexnext s;
         s \<leftarrow> emit2 C OP_CALL MODE_CONST MODE_IM s;
         s \<leftarrow> put_chars C sig s;
         s \<leftarrow> put_arg C argcount s;
         Some (pfree 1 s) } } }"

text \<open>\<open>ASSIGN expr\<close>, at the assignment operator.\<close>

definition assign_rest :: "('c, 'f) pcx \<Rightarrow> ('c, 'f) act \<Rightarrow> ('c, 'f) act" where
  "assign_rest C e s = do {
     s \<leftarrow> lexnext s;
     s \<leftarrow> set_isrhs C True s;
     s \<leftarrow> e s;
     s \<leftarrow> emit0 C OP_RVALUE s;
     s \<leftarrow> emit0 C OP_ASSIGN s;
     set_isrhs C False s }"

text \<open>An identifier after a dot: d is \<open>deref\<close>. Its copy is left behind on a syntax error.\<close>

definition objderef :: "nat \<Rightarrow> ('c, 'f) pcx \<Rightarrow> ('c, 'f) act \<Rightarrow> ('c, 'f) act \<Rightarrow> ('c, 'f) act" where
  "objderef n C e d s =
     (if \<not> at T_ID s then setupError C YYER_EXPECTED_ID s
      else
        (let idname = text_of s; (ok, s) = pworld take_block s
         in if \<not> ok then setupError C YYER_OUT_OF_MEM s
            else do {
              s \<leftarrow> lexnext s;
              if at T_LPAR s then do {
                s \<leftarrow> lexnext s;
                s \<leftarrow> arglist_call n C e None idname False False s;
                after_args C (\<lambda>s. do { s \<leftarrow> d s; Some (pfree 1 s) }) s }
              else do {
                s \<leftarrow> emit1 C OP_DEREF MODE_CONST s;
                s \<leftarrow> put_chars C idname s;
                s \<leftarrow> (if at T_ASSIGN s then assign_rest C e s else d s);
                Some (pfree 1 s) } }))"

primrec deref :: "nat \<Rightarrow> ('c, 'f) pcx \<Rightarrow> ('c, 'f) act \<Rightarrow> ('c, 'f) act" where
  "deref 0 C e s = None"
| "deref (Suc n) C e s =
     (if at T_DOT s then do {
        s \<leftarrow> lexnext s;
        if \<not> at T_ID s then setupError C YYER_EXPECTED_ID s
        else objderef n C e (deref n C e) s }
      else if at T_LBRAC s then arrayIndexCall n C e s
      else Some s)"

subsection \<open>Identifiers\<close>

definition find_class :: "('c, 'f) pcx \<Rightarrow> string \<Rightarrow> ('c, 'f) pst \<Rightarrow> (nat option \<times> ('c, 'f) pst) option" where
  "find_class C name = onps (programFindClass (cdepth C) name (cprog C))"

text \<open>
  A static call or field of the class c; the name is a copy that may be the null pointer, which
  the calls to follow read. A copy is left behind on an error.
\<close>

definition static_ref :: "nat \<Rightarrow> ('c, 'f) pcx \<Rightarrow> ('c, 'f) act \<Rightarrow> nat \<Rightarrow> ('c, 'f) act \<Rightarrow> ('c, 'f) act" where
  "static_ref n C e c d s =
     (if \<not> at T_ID s then setupError C YYER_EXPECTED_ID s
      else
        (let idname = text_of s; (ok, s) = pworld take_block s
         in if \<not> ok then None
            else do {
              s \<leftarrow> lexnext s;
              if at T_LPAR s then do {
                s \<leftarrow> lexnext s;
                s \<leftarrow> arglist_call n C e (Some c) idname False False s;
                after_args C (\<lambda>s. d (pfree 1 s)) s }
              else do {
                s \<leftarrow> emit2 C OP_SDEREF MODE_CONST MODE_IM s;
                cls \<leftarrow> classes (wld (pps s)) c;
                s \<leftarrow> put_chars C (cname cls) s;
                (case jsclassFindField cls idname of
                   None \<Rightarrow> setupError C YYER_UNKNOWN_ID s
                 | Some vdp \<Rightarrow> do { s \<leftarrow> put_arg C (voffset vdp) s; d (pfree 1 s) }) } }))"

definition singletonCallHandler :: "nat \<Rightarrow> ('c, 'f) pcx \<Rightarrow> ('c, 'f) act \<Rightarrow> ('c, 'f) act" where
  "singletonCallHandler n C e s =
     (let idname = text_of s; (ok, s) = pworld take_block s
      in if \<not> ok then setupError C YYER_OUT_OF_MEM s
         else do {
           s \<leftarrow> lexnext s;
           if at T_SCOPE s then do {
             (jsp, s) \<leftarrow> find_class C idname s;
             (case jsp of
                None \<Rightarrow> setupError C YYER_UNKNOWN_CLASS (pfree 1 s)
              | Some c \<Rightarrow> do { s \<leftarrow> lexnext (pfree 1 s); static_ref n C e c (deref n C e) s }) }
           else if at T_LPAR s then do {
             s \<leftarrow> emit0 C OP_THIS s;
             s \<leftarrow> lexnext s;
             s \<leftarrow> arglist_call n C e None idname False False s;
             after_args C (\<lambda>s. deref n C e (pfree 1 s)) s }
           else setupError C YYER_UNKNOWN_ID (pfree 1 s) })"

definition singletonVarHandler :: "nat \<Rightarrow> ('c, 'f) pcx \<Rightarrow> ('c, 'f) act \<Rightarrow> vardef \<Rightarrow> ('c, 'f) act" where
  "singletonVarHandler n C e vdp s = do {
     s \<leftarrow> lexnext s;
     mp \<leftarrow> curmeth C s;
     if misstatic mp \<and> \<not> visstatic vdp \<and> \<not> isauto vdp then setupError C YYER_INST_REF_IN_STATIC s
     else do {
       s \<leftarrow> emit1 C OP_LVALUE (srcmode vdp) s;
       s \<leftarrow> put_arg C (voffset vdp) s;
       s \<leftarrow> (if at T_LBRAC s then arrayIndexCall n C e s else Some s);
       s \<leftarrow> (if at T_ASSIGN s then assign_rest C e s else Some s);
       deref n C e s } }"

subsection \<open>Literals\<close>

definition push_im :: "('c, 'f) pcx \<Rightarrow> int \<Rightarrow> ('c, 'f) act" where
  "push_im C k = emit_im C OP_PUSH k"

text \<open>Pushing a constant: the instruction is emitted before the constant is made.\<close>

definition push_const ::
  "('c, 'f) pcx \<Rightarrow> (('c, 'f) pstate \<Rightarrow> (int \<times> ('c, 'f) pstate) option) \<Rightarrow> ('c, 'f) act" where
  "push_const C f s = do {
     s \<leftarrow> emit1 C OP_PUSH MODE_CONST s;
     (k, s) \<leftarrow> onps f s;
     put_arg C k s }"

definition first_char :: "string \<Rightarrow> char" where
  "first_char s = (case s of [] \<Rightarrow> CHR 0x00 | c # _ \<Rightarrow> c)"

text \<open>A literal that is pushed where it stands; None for any other token.\<close>

definition literal :: "('c, 'f) pcx \<Rightarrow> ('c, 'f) pst \<Rightarrow> ('c, 'f) act option" where
  "literal C s =
     (if at T_INT s then Some (push_im C (sint (atoi (text_of s))))
      else if at T_REAL s then Some (push_const C (programEmitConstFloat (cext C) (cprog C) (fl_atof (cext C) (text_of s))))
      else if at T_STRING s then Some (push_const C (programEmitConstChars (cext C) (cprog C) (text_of s)))
      else if at T_CHAR s then Some (push_const C (programEmitConstChar (cext C) (cprog C) (first_char (text_of s))))
      else if at T_YYTRUE s then Some (push_im C 1)
      else if at T_YYFALSE s then Some (push_im C 0)
      else if at T_JNULL s then Some (emit0 C OP_NULL)
      else None)"

primrec array_loop :: "nat \<Rightarrow> ('c, 'f) pcx \<Rightarrow> int \<Rightarrow> ('c, 'f) pst \<Rightarrow> (bool \<times> ('c, 'f) pst) option" where
  "array_loop 0 C addidx s = None"
| "array_loop (Suc n) C addidx s =
     (if at T_RBRACE s \<or> at T_JEOF s then Some (True, s)
      else do {
        s \<leftarrow> emit0 C OP_DUP s;
        (case literal C s of
           None \<Rightarrow> map_option (Pair False) (setupError C YYER_ILLEGAL_ARRAY_INIT s)
         | Some push \<Rightarrow> do {
             s \<leftarrow> push s;
             s \<leftarrow> lexnext s;
             s \<leftarrow> (if at T_COMMA s then lexnext s else Some s);
             s \<leftarrow> emit2 C OP_CALL MODE_CONST MODE_IM s;
             s \<leftarrow> put_arg C addidx s;
             s \<leftarrow> put_arg C 1 s;
             array_loop n C addidx s }) })"

definition arraydef :: "nat \<Rightarrow> ('c, 'f) pcx \<Rightarrow> ('c, 'f) act" where
  "arraydef n C s = do {
     (jsp, s) \<leftarrow> find_class C ''Vector'' s;
     (addidx, s) \<leftarrow> const_chars C ''add:Ivvv'' s;
     (clsidx, s) \<leftarrow> const_chars C ''Vector'' s;
     if jsp = None then setupError C YYER_UNKNOWN_CLASS s
     else do {
       s \<leftarrow> emit1 C OP_NEW MODE_CONST s;
       s \<leftarrow> put_arg C clsidx s;
       s \<leftarrow> emit2 C OP_CONSTRUCT MODE_CONST MODE_IM s;
       s \<leftarrow> put_arg C clsidx s;
       s \<leftarrow> put_arg C 0 s;
       (ok, s) \<leftarrow> array_loop n C addidx s;
       if \<not> ok then Some s
       else expect C T_RBRACE YYER_EXPECTED_RBRAC Some s } }"

definition new_expr :: "nat \<Rightarrow> ('c, 'f) pcx \<Rightarrow> ('c, 'f) act \<Rightarrow> ('c, 'f) act" where
  "new_expr n C e s = do {
     s \<leftarrow> lexnext s;
     if \<not> at T_ID s then setupError C YYER_EXPECTED_ID s
     else
       (let clsname = text_of s; (ok, s) = pworld take_block s
        in if \<not> ok then setupError C YYER_OUT_OF_MEM s
           else do {
             (clsidx, s) \<leftarrow> const_chars C clsname s;
             s \<leftarrow> lexnext s;
             if \<not> at T_LPAR s then setupError C YYER_NEW_SYNTAX (pfree 1 s)
             else do {
               (jsp, s) \<leftarrow> find_class C clsname s;
               if jsp = None then setupError C YYER_UNKNOWN_CLASS (pfree 1 s)
               else do {
                 s \<leftarrow> lexnext s;
                 s \<leftarrow> emit1 C OP_NEW MODE_CONST s;
                 s \<leftarrow> put_arg C clsidx s;
                 s \<leftarrow> arglist_call n C e None clsname False True s;
                 pp \<leftarrow> pprog C s;
                 if errornum pp \<noteq> 0 then Some (pfree 1 s)
                 else if \<not> at T_RPAR s then setupError C YYER_EXPECTED_LPAR (pfree 1 s)
                 else do { s \<leftarrow> lexnext s; Some (pfree 1 s) } } } }) }"

text \<open>A call of the base class's method, at \<open>SCOPE\<close>.\<close>

definition base_call :: "nat \<Rightarrow> ('c, 'f) pcx \<Rightarrow> ('c, 'f) act \<Rightarrow> ('c, 'f) act" where
  "base_call n C e s = do {
     s \<leftarrow> lexnext s;
     if \<not> at T_ID s then setupError C YYER_EXPECTED_ID s
     else
       (let idname = text_of s; (ok, s) = pworld take_block s
        in if \<not> ok then setupError C YYER_OUT_OF_MEM s
           else do {
             s \<leftarrow> lexnext s;
             if \<not> at T_LPAR s then map_option (pfree 1) (setupError C YYER_EXPECTED_LPAR s)
             else do {
               s \<leftarrow> lexnext s;
               s \<leftarrow> emit0 C OP_THIS s;
               s \<leftarrow> arglist_call n C e None idname True False s;
               after_args C (deref n C e) (pfree 1 s) } }) }"

definition singleton :: "nat \<Rightarrow> ('c, 'f) pcx \<Rightarrow> ('c, 'f) act \<Rightarrow> ('c, 'f) act" where
  "singleton n C e s =
     (if at T_ID s then do {
        vdp \<leftarrow> symtabLookup C (text_of s) s;
        (case vdp of
           None \<Rightarrow> singletonCallHandler n C e s
         | Some vdp \<Rightarrow> singletonVarHandler n C e vdp s) }
      else if at T_LBRACE s then do { s \<leftarrow> lexnext s; arraydef n C s }
      else if at T_YYTRUE s then do { s \<leftarrow> lexnext s; push_im C 1 s }
      else if at T_YYFALSE s then do { s \<leftarrow> lexnext s; push_im C 0 s }
      else (case literal C s of
          Some push \<Rightarrow> do { s \<leftarrow> push s; lexnext s }
        | None \<Rightarrow>
            if at T_LPAR s then do {
              s \<leftarrow> lexnext s;
              s \<leftarrow> e s;
              expect C T_RPAR YYER_EXPECTED_RPAR Some s }
            else if at T_NEW s then new_expr n C e s
            else if at T_SCOPE s then base_call n C e s
            else setupError C YYERR_SYNTAX s))"

subsection \<open>Operators\<close>

text \<open>\<open>if ( ! pp->isrhs )\<close> the value of an increment is dropped.\<close>

definition pop_unless_rhs :: "('c, 'f) pcx \<Rightarrow> ('c, 'f) act" where
  "pop_unless_rhs C s = do { pp \<leftarrow> pprog C s; if isrhs pp then Some s else emit0 C OP_POP s }"

definition prefix_op :: "nat \<Rightarrow> ('c, 'f) pcx \<Rightarrow> ('c, 'f) act \<Rightarrow> opcode \<Rightarrow> bool \<Rightarrow> ('c, 'f) act" where
  "prefix_op n C e op pop s = do {
     s \<leftarrow> lexnext s;
     s \<leftarrow> singleton n C e s;
     s \<leftarrow> emit0 C op s;
     if pop then pop_unless_rhs C s else Some s }"

definition postfix_op :: "('c, 'f) pcx \<Rightarrow> token \<Rightarrow> opcode \<Rightarrow> ('c, 'f) act" where
  "postfix_op C t op s =
     (if at t s then do { s \<leftarrow> lexnext s; s \<leftarrow> emit0 C op s; pop_unless_rhs C s } else Some s)"

definition factor :: "nat \<Rightarrow> ('c, 'f) pcx \<Rightarrow> ('c, 'f) act \<Rightarrow> ('c, 'f) act" where
  "factor n C e s = do {
     s \<leftarrow> (if at T_MINUS s then prefix_op n C e OP_NEGATE False s
            else if at T_PLUS s then do { s \<leftarrow> lexnext s; singleton n C e s }
            else if at T_INC s then prefix_op n C e OP_INC True s
            else if at T_DEC s then prefix_op n C e OP_DEC True s
            else if at T_BANG s then prefix_op n C e OP_NOT False s
            else singleton n C e s);
     s \<leftarrow> postfix_op C T_INC OP_PINC s;
     postfix_op C T_DEC OP_PDEC s }"

text \<open>The operators of a level and their instructions.\<close>

definition opcode_at :: "(token \<times> opcode) list \<Rightarrow> ('c, 'f) pst \<Rightarrow> opcode option" where
  "opcode_at tab s = Option.bind (token (plex s)) (map_of tab)"

definition factor_ops :: "(token \<times> opcode) list" where
  "factor_ops = [(T_STAR, OP_MULT), (T_SLASH, OP_DIV), (T_MOD, OP_MOD), (T_LSHIFT, OP_LSHIFT), (T_RSHIFT, OP_RSHIFT)]"

text \<open>An operator, its right operand (sub), its instruction, and more of them unless there was an error.\<close>

definition infix_op :: "('c, 'f) pcx \<Rightarrow> ('c, 'f) act \<Rightarrow> opcode \<Rightarrow> ('c, 'f) act" where
  "infix_op C sub op s = do { s \<leftarrow> lexnext s; s \<leftarrow> sub s; emit0 C op s }"

primrec morefactors :: "nat \<Rightarrow> ('c, 'f) pcx \<Rightarrow> ('c, 'f) act \<Rightarrow> ('c, 'f) act" where
  "morefactors 0 C e s = None"
| "morefactors (Suc n) C e s =
     (case opcode_at factor_ops s of
        None \<Rightarrow> Some s
      | Some op \<Rightarrow> do {
          s \<leftarrow> infix_op C (factor (Suc n) C e) op s;
          if_no_error C (morefactors n C e) s })"

definition pterm :: "nat \<Rightarrow> ('c, 'f) pcx \<Rightarrow> ('c, 'f) act \<Rightarrow> ('c, 'f) act" where
  "pterm n C e s = do { s \<leftarrow> factor n C e s; if_no_error C (morefactors n C e) s }"

definition term_ops :: "(token \<times> opcode) list" where
  "term_ops = [(T_PLUS, OP_ADD), (T_MINUS, OP_SUB)]"

definition assign_ops :: "(token \<times> opcode) list" where
  "assign_ops = [(T_PLUSEQ, OP_ADD), (T_MINUSEQ, OP_SUB), (T_TIMESEQ, OP_MULT), (T_DIVEQ, OP_DIV), (T_MODEQ, OP_MOD),
     (T_XOREQ, OP_XOR), (T_OREQ, OP_BINOR), (T_ANDEQ, OP_BINAND)]"

definition assign_op :: "('c, 'f) pcx \<Rightarrow> ('c, 'f) act \<Rightarrow> opcode \<Rightarrow> ('c, 'f) act" where
  "assign_op C e op s = do {
     s \<leftarrow> lexnext s;
     s \<leftarrow> set_isrhs C True s;
     s \<leftarrow> emit0 C OP_DUP s;
     s \<leftarrow> e s;
     s \<leftarrow> emit0 C OP_RVALUE s;
     s \<leftarrow> emit0 C op s;
     s \<leftarrow> emit0 C OP_ASSIGN s;
     set_isrhs C False s }"

primrec moreterms :: "nat \<Rightarrow> ('c, 'f) pcx \<Rightarrow> ('c, 'f) act \<Rightarrow> ('c, 'f) act" where
  "moreterms 0 C e s = None"
| "moreterms (Suc n) C e s =
     (case opcode_at assign_ops s of
        Some op \<Rightarrow> do { s \<leftarrow> assign_op C e op s; if_no_error C (moreterms n C e) s }
      | None \<Rightarrow>
          (case opcode_at term_ops s of
             None \<Rightarrow> Some s
           | Some op \<Rightarrow> do {
               s \<leftarrow> infix_op C (pterm (Suc n) C e) op s;
               if_no_error C (moreterms n C e) s }))"

definition relop :: "nat \<Rightarrow> ('c, 'f) pcx \<Rightarrow> ('c, 'f) act \<Rightarrow> ('c, 'f) act" where
  "relop n C e s = do { s \<leftarrow> pterm n C e s; if_no_error C (moreterms n C e) s }"

definition rel_ops :: "(token \<times> opcode) list" where
  "rel_ops = [(T_LT, OP_LT), (T_GT, OP_GT), (T_LTEQ, OP_LTEQ), (T_GTEQ, OP_GTEQ), (T_ISEQUAL, OP_EQ), (T_ISNEQ, OP_NEQ)]"

primrec morerelops :: "nat \<Rightarrow> ('c, 'f) pcx \<Rightarrow> ('c, 'f) act \<Rightarrow> ('c, 'f) act" where
  "morerelops 0 C e s = None"
| "morerelops (Suc n) C e s =
     (case opcode_at rel_ops s of
        None \<Rightarrow> Some s
      | Some op \<Rightarrow> do {
          s \<leftarrow> infix_op C (relop (Suc n) C e) op s;
          if_no_error C (morerelops n C e) s })"

definition logop :: "nat \<Rightarrow> ('c, 'f) pcx \<Rightarrow> ('c, 'f) act \<Rightarrow> ('c, 'f) act" where
  "logop n C e s = do { s \<leftarrow> relop n C e s; if_no_error C (morerelops n C e) s }"

definition log_ops :: "(token \<times> opcode) list" where
  "log_ops = [(T_PIPE, OP_BINOR), (T_AMPR, OP_BINAND), (T_AND, OP_AND), (T_OR, OP_OR), (T_XOR, OP_XOR)]"

text \<open>The comparisons at this level emit before their right operand.\<close>

definition early_op :: "('c, 'f) pcx \<Rightarrow> ('c, 'f) act \<Rightarrow> opcode \<Rightarrow> ('c, 'f) act" where
  "early_op C sub op s = do { s \<leftarrow> lexnext s; s \<leftarrow> emit0 C op s; sub s }"

primrec morelogop :: "nat \<Rightarrow> ('c, 'f) pcx \<Rightarrow> ('c, 'f) act \<Rightarrow> ('c, 'f) act" where
  "morelogop 0 C e s = None"
| "morelogop (Suc n) C e s =
     (case opcode_at log_ops s of
        Some op \<Rightarrow> do { s \<leftarrow> infix_op C (logop (Suc n) C e) op s; if_no_error C (morelogop n C e) s }
      | None \<Rightarrow>
          if at T_ISNEQ s then do { s \<leftarrow> early_op C (logop (Suc n) C e) OP_NEQ s; if_no_error C (morelogop n C e) s }
          else if at T_ISEQUAL s then do { s \<leftarrow> early_op C (logop (Suc n) C e) OP_EQ s; if_no_error C (morelogop n C e) s }
          else if at T_ASSIGN s then do { s \<leftarrow> assign_rest C e s; if_no_error C (morelogop n C e) s }
          else Some s)"

text \<open>\<open>expr\<close>, with an expression within spending one of the fuel.\<close>

definition expr_with :: "nat \<Rightarrow> ('c, 'f) pcx \<Rightarrow> ('c, 'f) act \<Rightarrow> ('c, 'f) act" where
  "expr_with n C e s = do { s \<leftarrow> logop n C e s; if_no_error C (morelogop n C e) s }"

primrec expr :: "nat \<Rightarrow> ('c, 'f) pcx \<Rightarrow> ('c, 'f) act" where
  "expr 0 C s = None"
| "expr (Suc n) C s = expr_with (Suc n) C (expr n C) s"

end
