(* ===== verification/Parser_Stmt.thy ===== *)
theory Parser_Stmt
  imports Parser_Expr
begin

section \<open>Statements, methods and classes, jspp/src/parse.c\<close>

text \<open>
  The procedures for statements take the procedure for a list of statements as an argument;
  \<open>stmts\<close> ties the knot and spends one of the fuel for every statement and every list within a
  statement. Then come methods, members, classes and the whole file.

  A jump forward is emitted with 0 for its target and filled in later (\<open>emit_hole\<close>, \<open>arg_here\<close>).
\<close>

subsection \<open>Blocks and jumps\<close>

text \<open>The end of a block, unless a statement in it failed; the closing brace is looked at last.\<close>

definition block_end :: "('c, 'f) pcx \<Rightarrow> ('c, 'f) act" where
  "block_end C = if_no_error C (\<lambda>s. do {
     s \<leftarrow> emit0 C OP_LEAVE s;
     s \<leftarrow> symtabExit C s;
     expect C T_RBRACE YYER_EXPECTED_RBRACE Some s })"

definition enter_scope :: "('c, 'f) pcx \<Rightarrow> ('c, 'f) act" where
  "enter_scope C s = do { (pc, s) \<leftarrow> emit_hole C OP_ENTER 0 s; symtabEnter C pc s }"

definition stmtblock :: "('c, 'f) pcx \<Rightarrow> ('c, 'f) act \<Rightarrow> ('c, 'f) act" where
  "stmtblock C st = expect C T_LBRACE YYER_EXPECTED_LBRACE (\<lambda>s. do {
     s \<leftarrow> enter_scope C s;
     s \<leftarrow> st s;
     block_end C s })"

definition methodbody :: "('c, 'f) pcx \<Rightarrow> ('c, 'f) act \<Rightarrow> ('c, 'f) act" where
  "methodbody C st = expect C T_LBRACE YYER_EXPECTED_LBRACE (\<lambda>s. do { s \<leftarrow> st s; block_end C s })"

text \<open>\<open>LPAR expr RPAR\<close>: what follows, with the keyword before it read.\<close>

definition condition :: "nat \<Rightarrow> ('c, 'f) pcx \<Rightarrow> ('c, 'f) act \<Rightarrow> ('c, 'f) act" where
  "condition n C f s = do {
     s \<leftarrow> lexnext s;
     expect C T_LPAR YYER_EXPECTED_LPAR
       (\<lambda>s. do { s \<leftarrow> expr n C s; expect C T_RPAR YYER_EXPECTED_RPAR f s }) s }"

subsection \<open>if, while, for\<close>

primrec sif :: "nat \<Rightarrow> ('c, 'f) pcx \<Rightarrow> ('c, 'f) act \<Rightarrow> ('c, 'f) act" where
  "sif 0 C st s = None"
| "sif (Suc n) C st s = condition n C (\<lambda>s. do {
     (exitPc, s) \<leftarrow> emit_hole C OP_JMPZ 0 s;
     s \<leftarrow> stmtblock C st s;
     (endPc, s) \<leftarrow> emit_hole C OP_JMP 0 s;
     s \<leftarrow> arg_here C exitPc s;
     s \<leftarrow> (if at T_ELSE s then do {
              s \<leftarrow> lexnext s;
              if at T_IF s then sif n C st s else stmtblock C st s }
            else Some s);
     arg_here C endPc s }) s"

definition swhile :: "nat \<Rightarrow> ('c, 'f) pcx \<Rightarrow> ('c, 'f) act \<Rightarrow> ('c, 'f) act" where
  "swhile n C st s = do {
     s \<leftarrow> lexnext s;
     expect C T_LPAR YYER_EXPECTED_LPAR (\<lambda>s. do {
       (breakPc, s) \<leftarrow> emit_hole C OP_SETBREAK 0 s;
       s \<leftarrow> set_isrhs C True s;
       topPc \<leftarrow> cur_pc C s;
       s \<leftarrow> expr n C s;
       s \<leftarrow> set_isrhs C False s;
       expect C T_RPAR YYER_EXPECTED_RPAR (\<lambda>s. do {
         (exitPc, s) \<leftarrow> emit_hole C OP_JMPZ 0 s;
         s \<leftarrow> stmtblock C st s;
         s \<leftarrow> emit_im C OP_JMP topPc s;
         s \<leftarrow> arg_here C exitPc s;
         s \<leftarrow> arg_here C breakPc s;
         emit_im C OP_SETBREAK (-1) s }) s }) s }"

text \<open>Without a third expression \<open>postPc\<close> is emitted although it was never set.\<close>

definition postfor :: "nat \<Rightarrow> ('c, 'f) pcx \<Rightarrow> ('c, 'f) act \<Rightarrow> int \<Rightarrow> ('c, 'f) act" where
  "postfor n C st evalPc s = do {
     (postPc, s) \<leftarrow> (if \<not> at T_RPAR s then do {
         (skipPostPc, s) \<leftarrow> emit_hole C OP_JMP 0 s;
         postPc \<leftarrow> cur_pc C s;
         s \<leftarrow> expr n C s;
         s \<leftarrow> emit_im C OP_JMP evalPc s;
         s \<leftarrow> arg_here C skipPostPc s;
         Some (Some postPc, s) }
       else Some (None, s));
     expect C T_RPAR YYER_EXPECTED_RPAR (\<lambda>s. do {
       s \<leftarrow> stmtblock C st s;
       s \<leftarrow> emit1 C OP_JMP MODE_IM s;
       k \<leftarrow> postPc;
       put_arg C k s }) s }"

definition evalfor :: "nat \<Rightarrow> ('c, 'f) pcx \<Rightarrow> ('c, 'f) act \<Rightarrow> int \<Rightarrow> ('c, 'f) act" where
  "evalfor n C st breakPc s = do {
     evalPc \<leftarrow> cur_pc C s;
     s \<leftarrow> (if \<not> at T_SEMI s then expr n C s else Some s);
     expect C T_SEMI YYERR_SYNTAX (\<lambda>s. do {
       (exitPc, s) \<leftarrow> emit_hole C OP_JMPZ 0 s;
       s \<leftarrow> postfor n C st evalPc s;
       s \<leftarrow> arg_here C exitPc s;
       arg_here C breakPc s }) s }"

subsection \<open>Local variables\<close>

text \<open>One variable with its initial value: False when the declaration ends with an error.\<close>

definition local_one :: "nat \<Rightarrow> ('c, 'f) pcx \<Rightarrow> ('c, 'f) pst \<Rightarrow> (bool \<times> ('c, 'f) pst) option" where
  "local_one n C s = do {
     s \<leftarrow> lexnext s;
     if \<not> at T_ID s then map_option (Pair False) (setupError C YYER_EXPECTED_VAR_NAME s)
     else do {
       (vdp, s) \<leftarrow> symtabNote C (text_of s) False s;
       (case vdp of
          None \<Rightarrow> map_option (Pair False) (setupError C YYER_OUT_OF_MEM s)
        | Some vdp \<Rightarrow> do {
            s \<leftarrow> lexnext s;
            s \<leftarrow> (if at T_ASSIGN s then do {
                     s \<leftarrow> lexnext s;
                     s \<leftarrow> set_isrhs C True s;
                     s \<leftarrow> emit1 C OP_LVALUE (srcmode vdp) s;
                     s \<leftarrow> put_arg C (voffset vdp) s;
                     s \<leftarrow> expr n C s;
                     s \<leftarrow> emit0 C OP_ASSIGN s;
                     set_isrhs C False s }
                   else Some s);
            pp \<leftarrow> pprog C s;
            if errornum pp \<noteq> 0 then Some (False, s)
            else if at T_COMMA s then do { s \<leftarrow> lexnext s; Some (True, s) }
            else if \<not> at T_SEMI s then map_option (Pair False) (setupError C YYER_EXPECTED_SEMI s)
            else Some (True, s) }) } }"

primrec localvar :: "nat \<Rightarrow> ('c, 'f) pcx \<Rightarrow> ('c, 'f) act" where
  "localvar 0 C s = None"
| "localvar (Suc n) C s = do {
     pp \<leftarrow> pprog C s;
     if at T_SEMI s \<or> errornum pp \<noteq> 0 then Some s
     else do {
       (more, s) \<leftarrow> local_one n C s;
       if more then localvar n C s else Some s } }"

definition sfor :: "nat \<Rightarrow> ('c, 'f) pcx \<Rightarrow> ('c, 'f) act \<Rightarrow> ('c, 'f) act" where
  "sfor n C st s = do {
     s \<leftarrow> lexnext s;
     expect C T_LPAR YYER_EXPECTED_LPAR (\<lambda>s. do {
       s \<leftarrow> (if at T_SEMI s then Some s else if at T_VAR s then localvar n C s else expr n C s);
       expect C T_SEMI YYERR_SYNTAX (\<lambda>s. do {
         (breakPc, s) \<leftarrow> emit_hole C OP_SETBREAK 0 s;
         s \<leftarrow> evalfor n C st breakPc s;
         emit_im C OP_SETBREAK (-1) s }) s }) s }"

subsection \<open>switch\<close>

text \<open>The value of a case, and the code of a default in between; None is an error.\<close>

definition case_value :: "nat \<Rightarrow> ('c, 'f) pcx \<Rightarrow> ('c, 'f) pst \<Rightarrow> (bool \<times> ('c, 'f) pst) option" where
  "case_value n C s =
     (if at T_INT s \<or> at T_STRING s \<or> at T_CHAR s then
        (case literal C s of None \<Rightarrow> None | Some push \<Rightarrow> do { s \<leftarrow> push s; s \<leftarrow> lexnext s; Some (True, s) })
      else if at T_ID s then map_option (Pair True) (singleton n C (expr n C) s)
      else map_option (Pair False) (setupError C YYER_ILLEGAL_CASE_VALUE s))"

text \<open>\<open>COLON\<close>: False when it is missing.\<close>

definition colon :: "('c, 'f) pcx \<Rightarrow> ('c, 'f) pst \<Rightarrow> (bool \<times> ('c, 'f) pst) option" where
  "colon C s =
     (if \<not> at T_COLON s then map_option (Pair False) (setupError C YYER_EXPECTED_COLON s)
      else map_option (Pair True) (lexnext s))"

definition default_case ::
  "('c, 'f) pcx \<Rightarrow> ('c, 'f) act \<Rightarrow> int \<Rightarrow> ('c, 'f) pst \<Rightarrow> (int option \<times> ('c, 'f) pst) option" where
  "default_case C st defaultPc s =
     (if \<not> at T_DEFAULT s then Some (Some defaultPc, s)
      else do {
        s \<leftarrow> lexnext s;
        (ok, s) \<leftarrow> colon C s;
        if \<not> ok then Some (None, s)
        else do {
          (exitPc, s) \<leftarrow> emit_hole C OP_JMP 0 s;
          pc \<leftarrow> cur_pc C s;
          s \<leftarrow> st s;
          s \<leftarrow> arg_here C exitPc s;
          Some (Some pc, s) } })"

primrec case_loop ::
  "nat \<Rightarrow> ('c, 'f) pcx \<Rightarrow> ('c, 'f) act \<Rightarrow> int \<Rightarrow> ('c, 'f) pst \<Rightarrow> (int option \<times> ('c, 'f) pst) option" where
  "case_loop 0 C st defaultPc s = None"
| "case_loop (Suc n) C st defaultPc s =
     (if \<not> at T_CASE s then Some (Some defaultPc, s)
      else do {
        s \<leftarrow> emit0 C OP_DUP s;
        s \<leftarrow> lexnext s;
        (ok, s) \<leftarrow> case_value n C s;
        if \<not> ok then Some (None, s)
        else do {
          (ok, s) \<leftarrow> colon C s;
          if \<not> ok then Some (None, s)
          else do {
            s \<leftarrow> emit0 C OP_EQ s;
            (nextPc, s) \<leftarrow> emit_hole C OP_JMPZ 0 s;
            s \<leftarrow> st s;
            s \<leftarrow> arg_here C nextPc s;
            (d, s) \<leftarrow> default_case C st defaultPc s;
            (case d of None \<Rightarrow> Some (None, s) | Some d \<Rightarrow> case_loop n C st d s) } } })"

definition switchblock :: "nat \<Rightarrow> ('c, 'f) pcx \<Rightarrow> ('c, 'f) act \<Rightarrow> ('c, 'f) act" where
  "switchblock n C st = expect C T_LBRACE YYER_EXPECTED_LBRACE (\<lambda>s. do {
     s \<leftarrow> enter_scope C s;
     (d, s) \<leftarrow> case_loop n C st (-1) s;
     (case d of
        None \<Rightarrow> Some s
      | Some defaultPc \<Rightarrow> do {
          s \<leftarrow> emit_im C OP_JMP defaultPc s;
          s \<leftarrow> emit0 C OP_LEAVE s;
          s \<leftarrow> symtabExit C s;
          expect C T_RBRACE YYER_EXPECTED_RBRACE Some s }) })"

definition sswitch :: "nat \<Rightarrow> ('c, 'f) pcx \<Rightarrow> ('c, 'f) act \<Rightarrow> ('c, 'f) act" where
  "sswitch n C st = condition n C (\<lambda>s. do {
     (breakPc, s) \<leftarrow> emit_hole C OP_SETBREAK 0 s;
     s \<leftarrow> switchblock n C st s;
     arg_here C breakPc s })"

subsection \<open>return, try, delete\<close>

definition set_hasretval :: "('c, 'f) pcx \<Rightarrow> ('c, 'f) act" where
  "set_hasretval C s = do {
     pp \<leftarrow> pprog C s;
     m \<leftarrow> curmethod pp;
     mp \<leftarrow> methods (wld (pps s)) m;
     Some (s\<lparr>pps := set_method m (mp\<lparr>hasretval := True\<rparr>) (pps s)\<rparr>) }"

definition sreturn :: "nat \<Rightarrow> ('c, 'f) pcx \<Rightarrow> ('c, 'f) act" where
  "sreturn n C s = do {
     s \<leftarrow> lexnext s;
     if \<not> at T_SEMI s then do {
       s \<leftarrow> set_isrhs C True s;
       s \<leftarrow> set_hasretval C s;
       s \<leftarrow> expr n C s;
       s \<leftarrow> emit0 C OP_RET s;
       set_isrhs C False s }
     else do {
       mp \<leftarrow> curmeth C s;
       if hasretval mp then setupError C YYER_METH_RETURNS_VAL s
       else do { s \<leftarrow> emit0 C OP_LEAVE s; emit0 C OP_VRET s } } }"

definition delop :: "('c, 'f) pcx \<Rightarrow> ('c, 'f) act" where
  "delop C = expect C T_ID YYER_EXPECTED_ID Some"

text \<open>
  \<open>ID RPAR\<close> of a catch and what follows it. The variable goes into the scope around the try.
\<close>

definition catch_clause :: "('c, 'f) pcx \<Rightarrow> ('c, 'f) act \<Rightarrow> int \<Rightarrow> ('c, 'f) act" where
  "catch_clause C st endtrypc s = do {
     (vdp, s) \<leftarrow> symtabNote C (text_of s) False s;
     s \<leftarrow> lexnext s;
     expect C T_RPAR YYER_EXPECTED_RPAR (\<lambda>s. do {
       s \<leftarrow> emit1 C OP_LVALUE MODE_BLOCK s;
       vdp \<leftarrow> vdp;
       s \<leftarrow> put_arg C (voffset vdp) s;
       s \<leftarrow> emit0 C OP_ROT s;
       s \<leftarrow> emit0 C OP_ASSIGN s;
       s \<leftarrow> emit_im C OP_PUSH 1 s;
       (finallypc, s) \<leftarrow> emit_hole C OP_JMP 0 s;
       startcatchpc \<leftarrow> cur_pc C s;
       s \<leftarrow> stmtblock C st s;
       s \<leftarrow> arg_here C endtrypc s;
       s \<leftarrow> arg_here C finallypc s;
       s \<leftarrow> (if at T_FINALLY s then do { s \<leftarrow> lexnext s; stmtblock C st s } else Some s);
       emit_im C OP_JMPNZ startcatchpc s }) s }"

definition dotry :: "('c, 'f) pcx \<Rightarrow> ('c, 'f) act \<Rightarrow> ('c, 'f) act" where
  "dotry C st s = do {
     (trypc, s) \<leftarrow> emit_hole C OP_TRY (-1) s;
     s \<leftarrow> stmtblock C st s;
     s \<leftarrow> emit_im C OP_PUSH 0 s;
     (endtrypc, s) \<leftarrow> emit_hole C OP_JMP 0 s;
     s \<leftarrow> arg_here C trypc s;
     expect C T_CATCH YYER_EXPECTED_CATCH
       (expect C T_LPAR YYER_EXPECTED_LPAR (\<lambda>s. do {
          s \<leftarrow> (if at T_VAR s then lexnext s else Some s);
          if \<not> at T_ID s then setupError C YYER_EXPECTED_ID s
          else catch_clause C st endtrypc s })) s }"

subsection \<open>Statements\<close>

definition stmt :: "nat \<Rightarrow> ('c, 'f) pcx \<Rightarrow> ('c, 'f) act \<Rightarrow> ('c, 'f) act" where
  "stmt n C st s =
     (if at T_IF s then sif n C st s
      else if at T_WHILE s then swhile n C st s
      else if at T_FOR s then sfor n C st s
      else if at T_SWITCH s then sswitch n C st s
      else if at T_RETURN s then sreturn n C s
      else if at T_VAR s then localvar n C s
      else if at T_SEMI s then lexnext s
      else if at T_BREAK s then do { s \<leftarrow> emit0 C OP_BREAK s; lexnext s }
      else if at T_CONTINUE s then do { s \<leftarrow> emit0 C OP_CONTINUE s; lexnext s }
      else if at T_DELETE s then do { s \<leftarrow> lexnext s; delop C s }
      else if at T_TRY s then do { s \<leftarrow> lexnext s; dotry C st s }
      else if at T_THROW s then do { s \<leftarrow> lexnext s; s \<leftarrow> expr n C s; emit0 C OP_THROW s }
      else expr n C s)"

definition line_info :: "('c, 'f) pcx \<Rightarrow> ('c, 'f) act" where
  "line_info C s = do {
     pp \<leftarrow> pprog C s;
     if \<not> at T_SEMI s \<and> isdebuging pp then emit_im C OP_LINE (lineno (plex s)) s else Some s }"

primrec stmts :: "nat \<Rightarrow> ('c, 'f) pcx \<Rightarrow> ('c, 'f) act" where
  "stmts 0 C s = None"
| "stmts (Suc n) C s = do {
     pp \<leftarrow> pprog C s;
     if at T_RBRACE s \<or> at T_CASE s \<or> errornum pp \<noteq> 0 then Some s
     else do {
       s \<leftarrow> line_info C s;
       if at T_LEXERROR s then setupError C YYERR_SYNTAX s
       else if at T_DEFAULT s then Some s
       else do { s \<leftarrow> stmt n C (stmts n C) s; stmts n C s } } }"

subsection \<open>Methods and members\<close>

definition add_arg :: "('c, 'f) pcx \<Rightarrow> string \<Rightarrow> bool \<Rightarrow> ('c, 'f) act" where
  "add_arg C name ptr s = do {
     pp \<leftarrow> pprog C s;
     m \<leftarrow> curmethod pp;
     (_, w) \<leftarrow> jsmethodAddArg m name ptr (wld (pps s));
     Some (s\<lparr>pps := (pps s)\<lparr>wld := w\<rparr>\<rparr>) }"

primrec arg_decs :: "nat \<Rightarrow> ('c, 'f) pcx \<Rightarrow> ('c, 'f) act" where
  "arg_decs 0 C s = None"
| "arg_decs (Suc n) C s =
     (if at T_ID s \<or> at T_AMPR s then do {
        let ptr = at T_AMPR s;
        s \<leftarrow> (if ptr then lexnext s else Some s);
        s \<leftarrow> add_arg C (text_of s) ptr s;
        (_, s) \<leftarrow> symtabNote C (text_of s) ptr s;
        s \<leftarrow> lexnext s;
        if at T_COMMA s then do { s \<leftarrow> lexnext s; arg_decs n C s }
        else if \<not> at T_RPAR s then setupError C YYER_EXPECTED_RPAR s
        else arg_decs n C s }
      else expect C T_RPAR YYER_EXPECTED_RPAR Some s)"

definition argdec :: "nat \<Rightarrow> ('c, 'f) pcx \<Rightarrow> ('c, 'f) act" where
  "argdec n C s = do { s \<leftarrow> lexnext s; expect C T_LPAR YYER_EXPECTED_LPAR (arg_decs n C) s }"

definition define_method :: "('c, 'f) pcx \<Rightarrow> string \<Rightarrow> bool \<Rightarrow> jsaccess \<Rightarrow> ('c, 'f) pst \<Rightarrow> (nat option \<times> ('c, 'f) pst) option" where
  "define_method C name isstatic acc = onps (programDefineMethod (clib C) (cprog C) name isstatic acc)"

definition pmethod :: "nat \<Rightarrow> ('c, 'f) pcx \<Rightarrow> jsaccess \<Rightarrow> bool \<Rightarrow> ('c, 'f) act" where
  "pmethod n C acc isstatic s =
     (if \<not> at T_ID s then setupError C YYER_EXPECTED_METHOD_NAME s
      else do {
        (_, s) \<leftarrow> define_method C (text_of s) isstatic acc s;
        s \<leftarrow> enter_scope C s;
        s \<leftarrow> (if isstatic then Some s
               else do { s \<leftarrow> add_arg C ''this'' False s; (_, s) \<leftarrow> symtabNote C ''this'' False s; Some s });
        s \<leftarrow> argdec n C s;
        if_no_error C (methodbody C (stmts n C)) s })"

definition decspec :: "nat \<Rightarrow> ('c, 'f) pcx \<Rightarrow> ('c, 'f) act" where
  "decspec n C s = (if \<not> at T_ASSIGN s then Some s else do { s \<leftarrow> lexnext s; expr n C s })"

text \<open>The initial value of a field is code of an internal constructor of the class.\<close>

definition cvardef :: "nat \<Rightarrow> ('c, 'f) pcx \<Rightarrow> bool \<Rightarrow> ('c, 'f) act" where
  "cvardef n C isstatic s = do {
     pp \<leftarrow> pprog C s;
     let outer = curmethod pp;
     s \<leftarrow> lexnext s;
     if \<not> at T_ID s then setupError C YYER_EXPECTED_ID s
     else do {
       (vdp, s) \<leftarrow> onps (programDefineField (cprog C) (text_of s) isstatic) s;
       vdp \<leftarrow> vdp;
       cls \<leftarrow> curcls C s;
       s \<leftarrow> set_curmethod C (jsclassFindMethod (methods (wld (pps s))) cls
              (if visstatic vdp then ''@@constructor:Sv'' else ''@@constructor:Ivv'')) s;
       s \<leftarrow> lexnext s;
       s \<leftarrow> (if at T_ASSIGN s then do {
                s \<leftarrow> set_isrhs C True s;
                s \<leftarrow> emit1 C OP_LVALUE (srcmode vdp) s;
                s \<leftarrow> put_arg C (voffset vdp) s;
                s \<leftarrow> decspec n C s;
                s \<leftarrow> emit0 C OP_ASSIGN s;
                set_isrhs C False s }
              else Some s);
       expect C T_SEMI YYER_EXPECTED_SEMI (set_curmethod C outer) s } }"

text \<open>\<open>PUBLIC\<close>, \<open>PRIVATE\<close> or \<open>PROTECTED\<close>.\<close>

definition access_at :: "('c, 'f) pst \<Rightarrow> jsaccess option" where
  "access_at s = (if at T_PUBLIC s then Some ACC_PUBLIC else if at T_PRIVATE s then Some ACC_PRIVATE
     else if at T_PROTECTED s then Some ACC_PROTECTED else None)"

text \<open>A member after its access: True when the loop over the members goes on.\<close>

definition member :: "nat \<Rightarrow> ('c, 'f) pcx \<Rightarrow> jsaccess \<Rightarrow> ('c, 'f) pst \<Rightarrow> (bool \<times> ('c, 'f) pst) option" where
  "member n C acc s = do {
     s \<leftarrow> lexnext s;
     let isstatic = at T_STATIC s;
     s \<leftarrow> (if isstatic then lexnext s else Some s);
     s \<leftarrow> (if at T_CONST s then lexnext s else Some s);
     if at T_VAR s then map_option (Pair True) (cvardef n C isstatic s)
     else if at T_ID s then map_option (Pair True) (pmethod n C acc isstatic s)
     else if at T_LEXERROR s then map_option (Pair False) (setupError C 0 s)
     else map_option (Pair False) (setupError C YYER_EXPECTED_VAR_OR_CLASS s) }"

primrec members :: "nat \<Rightarrow> ('c, 'f) pcx \<Rightarrow> ('c, 'f) act" where
  "members 0 C s = None"
| "members (Suc n) C s = do {
     pp \<leftarrow> pprog C s;
     if errornum pp = 0 \<and> \<not> at T_RBRACE s then
       (case access_at s of
          None \<Rightarrow> setupError C YYER_EXPECTED_ACCESS s
        | Some acc \<Rightarrow> do {
            (more, s) \<leftarrow> member n C acc s;
            if more then members n C s else Some s })
     else if \<not> at T_RBRACE s \<and> errornum pp = 0 then setupError C YYER_EXPECTED_RBRACE s
     else Some s }"

definition classbody :: "nat \<Rightarrow> ('c, 'f) pcx \<Rightarrow> ('c, 'f) act" where
  "classbody n C s = do { s \<leftarrow> lexnext s; members n C s }"

subsection \<open>Declarations\<close>

text \<open>The name of a class after \<open>CLASS\<close> and its base; True when it could be read.\<close>

definition define_class :: "('c, 'f) pcx \<Rightarrow> string \<Rightarrow> string \<Rightarrow> ('c, 'f) act" where
  "define_class C name base s =
     map_option snd (onps (programDefineClass (cext C) (clib C) (cprog C) name base None) s)"

definition class_head :: "('c, 'f) pcx \<Rightarrow> string \<Rightarrow> ('c, 'f) pst \<Rightarrow> (bool \<times> ('c, 'f) pst) option" where
  "class_head C name s =
     (if at T_COLON s then do {
        s \<leftarrow> lexnext s;
        if \<not> at T_ID s then map_option (Pair False) (setupError C YYER_EXPECTED_SUPER_CLASS s)
        else
          (let base = text_of s; (ok, s) = pworld take_block s
           in if \<not> ok then map_option (Pair False) (setupError C YYER_OUT_OF_MEM s)
              else do {
                s \<leftarrow> lexnext s;
                s \<leftarrow> define_class C name base s;
                Some (True, pfree 2 s) }) }
      else do { s \<leftarrow> define_class C name ''Object'' s; Some (True, pfree 1 s) })"

definition class_rest :: "nat \<Rightarrow> ('c, 'f) pcx \<Rightarrow> ('c, 'f) act" where
  "class_rest n C s =
     (if \<not> at T_LBRACE s then setupError C YYER_EXPECTED_LBRACE s
      else do {
        (prconstructI, s) \<leftarrow> define_method C ''@@constructor'' False ACC_PRIVATE s;
        s \<leftarrow> add_arg C ''this'' False s;
        (prconstructS, s) \<leftarrow> define_method C ''@@constructor'' True ACC_PRIVATE s;
        s \<leftarrow> classbody n C s;
        if_no_error C (expect C T_RBRACE YYER_EXPECTED_RBRACE (\<lambda>s. do {
          s \<leftarrow> set_curmethod C prconstructI s;
          s \<leftarrow> emit0 C OP_VRET s;
          s \<leftarrow> set_curmethod C prconstructS s;
          emit0 C OP_VRET s })) s })"

definition class_decl :: "nat \<Rightarrow> ('c, 'f) pcx \<Rightarrow> ('c, 'f) act" where
  "class_decl n C s = do {
     s \<leftarrow> lexnext s;
     if \<not> at T_ID s then setupError C YYER_EXPECTED_CLASS_NAME s
     else
       (let name = text_of s; (ok, s) = pworld take_block s
        in if \<not> ok then setupError C YYER_OUT_OF_MEM s
           else do {
             s \<leftarrow> lexnext s;
             (ok, s) \<leftarrow> class_head C name s;
             if \<not> ok then Some s else class_rest n C s }) }"

text \<open>A method written outside its class.\<close>

definition outer_method :: "nat \<Rightarrow> ('c, 'f) pcx \<Rightarrow> jsaccess \<Rightarrow> ('c, 'f) act" where
  "outer_method n C acc s = do {
     s \<leftarrow> lexnext s;
     let isstatic = at T_STATIC s;
     s \<leftarrow> (if isstatic then lexnext s else Some s);
     if \<not> at T_ID s then setupError C YYER_EXPECTED_CLASS_NAME s
     else do {
       (c, s) \<leftarrow> find_class C (text_of s) s;
       s \<leftarrow> on_prog C (\<lambda>pp. pp\<lparr>curclass := c\<rparr>) s;
       if c = None then setupError C YYER_UNKNOWN_CLASS s
       else do {
         s \<leftarrow> lexnext s;
         expect C T_SCOPE YYER_EXPECTED_SCOPE_OP (\<lambda>s.
           if \<not> at T_ID s then setupError C YYER_EXPECTED_METHOD_NAME s
           else do {
             (_, s) \<leftarrow> define_method C (text_of s) isstatic acc s;
             s \<leftarrow> enter_scope C s;
             s \<leftarrow> argdec n C s;
             methodbody C (stmts n C) s }) s } } }"

definition pdeclaration :: "nat \<Rightarrow> ('c, 'f) pcx \<Rightarrow> ('c, 'f) act" where
  "pdeclaration n C s =
     (if at T_CLASS s then class_decl n C s
      else case access_at s of
          Some acc \<Rightarrow> outer_method n C acc s
        | None \<Rightarrow> on_prog C (\<lambda>pp. pp\<lparr>errornum := YYER_EXPECTED_CLASS_DEF, errorline := lineno (plex s)\<rparr>) s)"

primrec file_loop :: "nat \<Rightarrow> ('c, 'f) pcx \<Rightarrow> ('c, 'f) act" where
  "file_loop 0 C s = None"
| "file_loop (Suc n) C s = do {
     pp \<leftarrow> pprog C s;
     if at T_JEOF s \<or> errornum pp \<noteq> 0 then Some s
     else if at T_LEXERROR s then
       on_prog C (\<lambda>pp. pp\<lparr>errornum := sint (atoi (text_of s)), errorline := lineno (plex s)\<rparr>) s
     else do { s \<leftarrow> pdeclaration n C s; file_loop n C s } }"

definition pfile :: "nat \<Rightarrow> ('c, 'f) pcx \<Rightarrow> ('c, 'f) act" where
  "pfile n C s = do { s \<leftarrow> lexnext s; file_loop n C s }"

subsection \<open>parse\<close>

text \<open>
  The result is the program, or null when it cannot be allocated. The memory of the lexer is its own.
  A lexer without a buffer is followed, when the source is read and when the lexer is destroyed.
\<close>

definition parse ::
  "nat \<Rightarrow> 'c lib \<Rightarrow> 'f ext \<Rightarrow> nat \<Rightarrow> ((string \<rightharpoonup> vardef) \<Rightarrow> string \<Rightarrow> vardef \<Rightarrow> (string \<rightharpoonup> vardef) option) \<Rightarrow>
     jspplex \<Rightarrow> nat list option \<Rightarrow> ('c, 'f) pstate \<Rightarrow> (nat option \<times> ('c, 'f) pstate) option" where
  "parse n L E depth note lexp intr ps =
     (case programConstruct ps of
        (None, ps) \<Rightarrow> Some (None, ps)
      | (Some p, ps) \<Rightarrow> do {
          ps \<leftarrow> (case intr of None \<Rightarrow> Some ps | Some qs \<Rightarrow> programSetIntrinsics p qs ps);
          s \<leftarrow> pfile n \<lparr>clib = L, cext = E, cprog = p, cdepth = depth, note_add = note\<rparr> \<lparr>plex = lexp, pps = ps\<rparr>;
          Some (Some p, pps s) })"

definition parseChar where
  "parseChar n L E depth note mok sok buf intr ps =
     (case jspplexConstructChar mok sok buf of
        Made lexp \<Rightarrow> parse n L E depth note lexp intr ps
      | NoMemory \<Rightarrow> Some (None, ps)
      | _ \<Rightarrow> None)"

end
