(* ===== verification/Program_Spec.thy ===== *)
theory Program_Spec
  imports Program
begin

section \<open>What programs under construction promise\<close>

text \<open>
  The emitted code is a listing of instructions: emitting appends to it and a fix-up replaces
  one argument, so that what the interpreter fetches is what the parser wrote. The constant pool
  is a list that only grows. Nothing is leaked between construction and destruction.
\<close>

subsection \<open>Listings\<close>

record instr =
  iop :: opcode
  imode :: mode
  imode2 :: mode
  iargs :: "int32 list"

definition instr_ok :: "instr \<Rightarrow> bool" where
  "instr_ok i \<longleftrightarrow> iop i < 128 \<and> imode i < 8 \<and> imode2 i < 8 \<and> length (iargs i) \<le> 2"

definition width :: "instr \<Rightarrow> int" where
  "width i = 1 + 2 * int (length (iargs i))"

definition widths :: "instr list \<Rightarrow> int" where
  "widths is = (\<Sum>i\<leftarrow>is. width i)"

fun coded :: "'c i16ops \<Rightarrow> 'c \<Rightarrow> int \<Rightarrow> instr list \<Rightarrow> int \<Rightarrow> bool" where
  "coded I c pc [] pc' \<longleftrightarrow> pc = pc'"
| "coded I c pc (i # is) pc' \<longleftrightarrow> instr_ok i
     \<and> fetch I c pc = ((iop i, length (iargs i), imode i, imode2 i), iargs i, pc + width i)
     \<and> coded I c (pc + width i) is pc'"

lemma widths_simps [simp]: "widths [] = 0" "widths (i # is) = width i + widths is"
  "widths (is @ js) = widths is + widths js"
  by (simp_all add: widths_def)

lemma width_pos: "1 \<le> width i" by (simp add: width_def)

lemma widths_nonneg: "0 \<le> widths is"
  by (induction "is") (auto simp: width_def)

lemma coded_end: "coded I c pc is pc' \<Longrightarrow> pc' = pc + widths is"
  by (induction "is" arbitrary: pc) (fastforce simp: add.assoc)+

lemma coded_append:
  "coded I c pc (is @ js) pc' \<longleftrightarrow> coded I c pc is (pc + widths is) \<and> coded I c (pc + widths is) js pc'"
  by (induction "is" arbitrary: pc) (simp_all add: add.assoc)

lemma fetch_eq:
  "fetch I c pc = (let d = decodeOp (i16_get I c pc); n = fst (snd d)
     in (d, if n = 0 then [] else if n = 1 then [i16_get32 I c (pc + 1)] else [i16_get32 I c (pc + 1), i16_get32 I c (pc + 3)],
         if n = 0 then pc + 1 else if n = 1 then pc + 3 else pc + 5))"
  by (simp add: fetch_def blockDecode_def blockFetchInt32_def Let_def add.commute)

lemma fetch_cong:
  assumes "i16_get I c pc = i16_get I c' pc" and "fetch I c pc = ((oc, length as, m, m2), as, pc + 1 + 2 * int (length as))"
    and "length as \<le> 2" and "\<And>q. pc < q \<Longrightarrow> q + 1 < pc + 1 + 2 * int (length as) \<Longrightarrow> i16_get32 I c q = i16_get32 I c' q"
  shows "fetch I c' pc = fetch I c pc"
proof -
  obtain oc' n m' m2' where d: "decodeOp (i16_get I c pc) = (oc', n, m', m2')" by (metis prod_cases4)
  have n: "n = length as"
    using assms(2) d by (simp add: fetch_eq Let_def)
  have g: "1 \<le> length as \<Longrightarrow> i16_get32 I c' (pc + 1) = i16_get32 I c (pc + 1)"
    "2 \<le> length as \<Longrightarrow> i16_get32 I c' (pc + 3) = i16_get32 I c (pc + 3)"
    by (rule assms(4) [symmetric]; simp)+
  have "n = 0 \<or> n = 1 \<or> n = 2" using assms(3) n by linarith
  then show ?thesis
    using g n assms(1) d
    by (elim disjE) (simp_all add: fetch_eq Let_def)
qed

text \<open>A listing reads only the elements it covers.\<close>

lemma coded_cong:
  assumes "\<And>q. pc \<le> q \<Longrightarrow> q < pc' \<Longrightarrow> i16_get I c q = i16_get I c' q"
    and "\<And>q. pc \<le> q \<Longrightarrow> q + 1 < pc' \<Longrightarrow> i16_get32 I c q = i16_get32 I c' q"
    and "coded I c pc is pc'"
  shows "coded I c' pc is pc'"
  using assms
proof (induction "is" arbitrary: pc)
  case (Cons i "is")
  have e: "pc' = pc + width i + widths is" using coded_end [OF Cons.prems(3)] by simp
  have "fetch I c' pc = fetch I c pc"
    using Cons.prems e width_pos [of i] widths_nonneg [of "is"]
    by (intro fetch_cong [where as = "iargs i"]) (auto simp: instr_ok_def width_def algebra_simps)
  moreover have "coded I c' (pc + width i) is pc'"
    using Cons.prems width_pos [of i] by (intro Cons.IH) auto
  ultimately show ?case using Cons.prems(3) by simp
qed simp

subsection \<open>Emitting\<close>

definition building :: "('c, 'f) pstate \<Rightarrow> nat \<Rightarrow> program \<Rightarrow> nat \<Rightarrow> 'c jsmethod \<Rightarrow> bool" where
  "building s p pp m mp \<longleftrightarrow> progs s p = Some pp \<and> curclass pp \<noteq> None \<and> curmethod pp = Some m
     \<and> methods (wld s) m = Some mp"

text \<open>The array never runs out of memory.\<close>

definition stores_ok :: "'c i16ops \<Rightarrow> bool" where
  "stores_ok I \<longleftrightarrow> (\<forall>c v p. fst (i16_set I c v p)) \<and> (\<forall>c k p. fst (i16_set2 I c k p))"

text \<open>An instruction is emitted as the parser does it: the opcode with its modes, then the arguments.\<close>

definition emit_args :: "'c lib \<Rightarrow> nat \<Rightarrow> int32 list \<Rightarrow> ('c, 'f) pstate \<Rightarrow> ('c, 'f) pstate option" where
  "emit_args L p = foldM (\<lambda>a s. map_option snd (programEmitArg L p a s))"

definition emit_instr :: "'c lib \<Rightarrow> nat \<Rightarrow> instr \<Rightarrow> ('c, 'f) pstate \<Rightarrow> (int \<times> ('c, 'f) pstate) option" where
  "emit_instr L p i s = do {
     (pc, s) \<leftarrow> (case length (iargs i) of 0 \<Rightarrow> programEmit0 L p (iop i) s
                 | Suc 0 \<Rightarrow> programEmit1 L p (iop i) (imode i) s
                 | _ \<Rightarrow> programEmit2 L p (iop i) (imode i) (imode2 i) s);
     s \<leftarrow> emit_args L p (iargs i) s;
     Some (pc, s) }"

lemma building_set_method: "building s p pp m mp \<Longrightarrow> building (set_method m mp' s) p pp m mp'"
  by (simp add: building_def set_method_def)

lemma set_method_twice [simp]: "set_method m a (set_method m b s) = set_method m a s"
  by (simp add: set_method_def)

lemma emit_word:
  assumes "building s p pp m mp" and "i16_set (i16 L) (code mp) (encodeOp oc n m1 m2) (mpc mp) = (ok, c)"
  shows "emit L p oc n m1 m2 s = Some (mpc mp, set_method m (mp\<lparr>mpc := mpc mp + 1, code := c,
    hasretval := (oc = OP_RET \<or> hasretval mp)\<rparr>) s)"
  using assms by (auto simp: emit_def building_def Let_def)

lemma emit_arg:
  assumes "building s p pp m mp" and "i16_set2 (i16 L) (code mp) a (mpc mp) = (True, c)"
  shows "programEmitArg L p a s = Some (mpc mp, set_method m (mp\<lparr>code := c, mpc := mpc mp + 2\<rparr>) s)"
  using assms
  by (auto simp: programEmitArg_def programEmitArgAt_def building_def set_method_def Let_def)

lemma set_laws:
  assumes "i16_laws I" "stores_ok I" "0 \<le> p" "i16_set I c v p = (ok, c')"
  shows "ok \<and> i16_get I c' p = v \<and> (\<forall>q. q \<noteq> p \<longrightarrow> i16_get I c' q = i16_get I c q)
    \<and> (\<forall>q. q \<noteq> p \<longrightarrow> q + 1 \<noteq> p \<longrightarrow> i16_get32 I c' q = i16_get32 I c q)"
proof -
  have "fst (i16_set I c v p)" using assms(2) unfolding stores_ok_def by blast
  with assms(4) have ok: "ok" by simp
  with assms(4) have e: "i16_set I c v p = (True, c')" by simp
  from assms(1) [unfolded i16_laws_def, rule_format, OF assms(3), THEN conjunct1, THEN mp, OF e] ok
  show ?thesis by blast
qed

lemma set2_laws:
  assumes "i16_laws I" "stores_ok I" "0 \<le> p" "i16_set2 I c k p = (ok, c')"
  shows "ok \<and> i16_get32 I c' p = k \<and> (\<forall>q. q \<noteq> p \<longrightarrow> q \<noteq> p + 1 \<longrightarrow> i16_get I c' q = i16_get I c q)
    \<and> (\<forall>q. q + 1 < p \<or> p + 1 < q \<longrightarrow> i16_get32 I c' q = i16_get32 I c q)"
proof -
  have "fst (i16_set2 I c k p)" using assms(2) unfolding stores_ok_def by blast
  with assms(4) have ok: "ok" by simp
  with assms(4) have e: "i16_set2 I c k p = (True, c')" by simp
  from assms(1) [unfolded i16_laws_def, rule_format, OF assms(3), THEN conjunct2, THEN mp, OF e] ok
  show ?thesis by blast
qed

text \<open>The code after an instruction at pc has been written.\<close>

lemma fetch_written:
  assumes "instr_ok i" and "i16_get I c pc = encodeOp (iop i) (length (iargs i)) (imode i) (imode2 i)"
    and "\<And>k. k < length (iargs i) \<Longrightarrow> i16_get32 I c (pc + 1 + 2 * int k) = iargs i ! k"
  shows "fetch I c pc = ((iop i, length (iargs i), imode i, imode2 i), iargs i, pc + width i)"
proof -
  have d: "decodeOp (i16_get I c pc) = (iop i, length (iargs i), imode i, imode2 i)"
    using assms(1,2) decode_encode_ok [of "iop i" "length (iargs i)" "imode i" "imode2 i"] by (simp add: instr_ok_def)
  consider "iargs i = []" | a where "iargs i = [a]" | a b where "iargs i = [a, b]"
    using assms(1) by (cases "iargs i" rule: remdups_adj.cases) (auto simp: instr_ok_def)
  then show ?thesis
    using d assms(3) [of 0] assms(3) [of 1]
    by cases (simp_all add: fetch_eq width_def Let_def add.commute)
qed

text \<open>Writing at or after the end of a listing leaves it.\<close>

lemma coded_set:
  assumes "i16_laws I" "stores_ok I" "coded I c pc is pc'" "0 \<le> p" "pc' \<le> p"
  shows "i16_set I c v p = (ok, c') \<Longrightarrow> coded I c' pc is pc'"
    and "i16_set2 I c k p = (ok, c') \<Longrightarrow> coded I c' pc is pc'"
proof -
  show "coded I c' pc is pc'" if "i16_set I c v p = (ok, c')"
    using set_laws [OF assms(1,2,4) that] assms(3,5) by (intro coded_cong [of pc pc' I c c']) auto
  show "coded I c' pc is pc'" if "i16_set2 I c k p = (ok, c')"
    using set2_laws [OF assms(1,2,4) that] assms(3,5) by (intro coded_cong [of pc pc' I c c']) auto
qed

lemma emit_args_code:
  assumes I: "i16_laws (i16 L)" "stores_ok (i16 L)"
  shows "building s p pp m mp \<Longrightarrow> 0 \<le> mpc mp \<Longrightarrow> \<exists>c. emit_args L p as s =
      Some (set_method m (mp\<lparr>code := c, mpc := mpc mp + 2 * int (length as)\<rparr>) s)
    \<and> (\<forall>k < length as. i16_get32 (i16 L) c (mpc mp + 2 * int k) = as ! k)
    \<and> (\<forall>q < mpc mp. i16_get (i16 L) c q = i16_get (i16 L) (code mp) q)
    \<and> (\<forall>q. q + 1 < mpc mp \<longrightarrow> i16_get32 (i16 L) c q = i16_get32 (i16 L) (code mp) q)"
proof (induction as arbitrary: s mp)
  case Nil
  then have "set_method m mp s = s" by (auto simp: building_def set_method_def map_upd_triv)
  then show ?case by (intro exI [of _ "code mp"]) (auto simp: emit_args_def)
next
  case (Cons a as)
  obtain ok c where c: "i16_set2 (i16 L) (code mp) a (mpc mp) = (ok, c)" by fastforce
  note w = set2_laws [OF I Cons.prems(2) c]
  let ?mp = "mp\<lparr>code := c, mpc := mpc mp + 2\<rparr>"
  have e: "programEmitArg L p a s = Some (mpc mp, set_method m ?mp s)"
    using emit_arg [OF Cons.prems(1)] c w by simp
  from Cons.IH [OF building_set_method [OF Cons.prems(1), of ?mp]] Cons.prems(2) obtain c' where
    r: "emit_args L p as (set_method m ?mp s) = Some (set_method m (mp\<lparr>code := c', mpc := mpc mp + 2 + 2 * int (length as)\<rparr>) s)"
      "\<forall>k < length as. i16_get32 (i16 L) c' (mpc mp + 2 + 2 * int k) = as ! k"
      "\<forall>q < mpc mp + 2. i16_get (i16 L) c' q = i16_get (i16 L) c q"
      "\<forall>q. q + 1 < mpc mp + 2 \<longrightarrow> i16_get32 (i16 L) c' q = i16_get32 (i16 L) c q"
    by auto
  have "i16_get32 (i16 L) c' (mpc mp + 2 * int k) = (a # as) ! k" if "k < length (a # as)" for k
    using that r(2,4) w by (cases k) (auto simp: algebra_simps)
  moreover have "emit_args L p (a # as) s = Some (set_method m (mp\<lparr>code := c', mpc := mpc mp + 2 * int (length (a # as))\<rparr>) s)"
    using e r(1) by (simp add: emit_args_def algebra_simps)
  ultimately show ?case using r(3,4) w by (intro exI [of _ c']) auto
qed

text \<open>Emitting an instruction changes the code, the pc and, for a return, the result flag of the method.\<close>

lemma emit_instr_code:
  assumes I: "i16_laws (i16 L)" "stores_ok (i16 L)" and b: "building s p pp m mp" and i: "instr_ok i"
    "length (iargs i) = 0 \<longrightarrow> imode i = 0" "length (iargs i) < 2 \<longrightarrow> imode2 i = 0" and pc: "0 \<le> mpc mp"
  shows "\<exists>c. emit_instr L p i s = Some (mpc mp, set_method m (mp\<lparr>code := c, mpc := mpc mp + width i,
      hasretval := (iop i = OP_RET \<or> hasretval mp)\<rparr>) s)
    \<and> (\<forall>is. coded (i16 L) (code mp) 0 is (mpc mp) \<longrightarrow> coded (i16 L) c 0 (is @ [i]) (mpc mp + width i))"
proof -
  let ?w = "encodeOp (iop i) (length (iargs i)) (imode i) (imode2 i)"
  obtain ok c where c: "i16_set (i16 L) (code mp) ?w (mpc mp) = (ok, c)" by fastforce
  note w = set_laws [OF I pc c]
  let ?mp = "mp\<lparr>mpc := mpc mp + 1, code := c, hasretval := (iop i = OP_RET \<or> hasretval mp)\<rparr>"
  have e: "emit_instr L p i s = do { s \<leftarrow> emit_args L p (iargs i) (set_method m ?mp s); Some (mpc mp, s) }"
    using emit_word [OF b c] i
    by (auto simp: emit_instr_def programEmit0_def programEmit1_def programEmit2_def instr_ok_def
        numeral_2_eq_2 le_Suc_eq)
  from emit_args_code [OF I building_set_method [OF b, of ?mp], of "iargs i"] pc obtain c' where
    r: "emit_args L p (iargs i) (set_method m ?mp s) = Some (set_method m (?mp\<lparr>code := c', mpc := mpc mp + width i\<rparr>) s)"
      "\<forall>k < length (iargs i). i16_get32 (i16 L) c' (mpc mp + 1 + 2 * int k) = iargs i ! k"
      "\<forall>q < mpc mp + 1. i16_get (i16 L) c' q = i16_get (i16 L) c q"
      "\<forall>q. q + 1 < mpc mp + 1 \<longrightarrow> i16_get32 (i16 L) c' q = i16_get32 (i16 L) c q"
    by (auto simp: width_def add.assoc)
  have f: "fetch (i16 L) c' (mpc mp) = ((iop i, length (iargs i), imode i, imode2 i), iargs i, mpc mp + width i)"
    using r(2,3) w by (intro fetch_written i(1)) auto
  have "coded (i16 L) c' 0 (is @ [i]) (mpc mp + width i)" if "coded (i16 L) (code mp) 0 is (mpc mp)" for "is"
  proof -
    have "coded (i16 L) c' 0 is (mpc mp)"
      using r(3,4) w by (intro coded_cong [OF _ _ that]) auto
    moreover have "mpc mp = widths is" using coded_end [OF that] by simp
    ultimately show ?thesis using f i(1) by (simp add: coded_append)
  qed
  moreover have "?mp\<lparr>code := c', mpc := mpc mp + width i\<rparr> = mp\<lparr>code := c', mpc := mpc mp + width i,
      hasretval := (iop i = OP_RET \<or> hasretval mp)\<rparr>" by simp
  with e r(1) have "emit_instr L p i s = Some (mpc mp, set_method m (mp\<lparr>code := c', mpc := mpc mp + width i,
      hasretval := (iop i = OP_RET \<or> hasretval mp)\<rparr>) s)" by (simp only: bind.bind_lunit)
  ultimately show ?thesis by blast
qed

text \<open>Emitting refines appending to the listing: when the code of the method under construction is
  the listing \<open>is\<close> up to its pc, emitting an instruction with its arguments returns that pc,
  and the code is then \<open>is\<close> followed by the instruction up to the new pc. So the interpreter
  fetches back exactly what was emitted, and nothing emitted before changes.\<close>
lemma emit_appends:
  assumes "i16_laws (i16 L)" and "stores_ok (i16 L)" and "building s p pp m mp" and "instr_ok i"
    and "coded (i16 L) (code mp) 0 is (mpc mp)" and "length (iargs i) = 0 \<longrightarrow> imode i = 0"
    and "length (iargs i) < 2 \<longrightarrow> imode2 i = 0"
  shows "\<exists>s' mp'. emit_instr L p i s = Some (mpc mp, s') \<and> building s' p pp m mp'
    \<and> mpc mp' = mpc mp + width i \<and> coded (i16 L) (code mp') 0 (is @ [i]) (mpc mp')"
proof -
  have "0 \<le> mpc mp" using coded_end [OF assms(5)] widths_nonneg by simp
  from emit_instr_code [OF assms(1-4,6,7) this] obtain c where
    e: "emit_instr L p i s = Some (mpc mp, set_method m (mp\<lparr>code := c, mpc := mpc mp + width i,
        hasretval := (iop i = OP_RET \<or> hasretval mp)\<rparr>) s)"
      "coded (i16 L) c 0 (is @ [i]) (mpc mp + width i)"
    using assms(5) by blast
  let ?mp = "mp\<lparr>code := c, mpc := mpc mp + width i, hasretval := (iop i = OP_RET \<or> hasretval mp)\<rparr>"
  show ?thesis
    using e building_set_method [OF assms(3), of ?mp] by (intro exI [of _ "set_method m ?mp s"] exI [of _ ?mp]) simp
qed

text \<open>A program with one class and one method under construction.\<close>

definition method_a :: "(int \<Rightarrow> uint16) jsmethod" where
  "method_a = \<lparr>mname = ''f'', margs = [], misstatic = True, misnative = False, hasretval = False,
     access = ACC_PUBLIC, msig = ''f:Sv'', mclass = 0, mpc = 0, code = \<lambda>i. 0, nativemethod = None\<rparr>"

definition program_a :: program where
  "program_a = \<lparr>sourcecode = [], errornum = 0, errorline = -1, errmsg = None, isrhs = False,
     pclasses = [''A'' \<mapsto> 0], lclasses = [0], curclass = Some 0, curmethod = Some 1, ncdata = 0,
     intrinsics = None, symstack = [], isdebuging = False\<rparr>"

definition pstate_a :: "((int \<Rightarrow> uint16), int) pstate" where
  "pstate_a = \<lparr>wld = (world_a [])\<lparr>methods := [1 \<mapsto> method_a]\<rparr>, progs = [0 \<mapsto> program_a]\<rparr>"

lemma building_a: "building pstate_a 0 program_a 1 method_a"
  by (simp add: building_def pstate_a_def program_a_def)

lemma fun_i16_ok: "i16_laws (i16 fun_lib)" "stores_ok (i16 fun_lib)"
  by (simp_all add: fun_lib_def fun_i16_laws) (simp add: stores_ok_def fun_i16_def)

definition push_5 :: instr where
  "push_5 = \<lparr>iop = OP_PUSH, imode = MODE_IM, imode2 = 0, iargs = [5]\<rparr>"

lemma emit_appends_witness:
  "\<exists>s' mp'. emit_instr fun_lib 0 push_5 pstate_a = Some (0, s') \<and> methods (wld s') 1 = Some mp'
     \<and> fetch fun_i16 (code mp') 0 = ((OP_PUSH, 1, MODE_IM, 0), [5], 3)"
proof -
  have p: "instr_ok push_5" "coded (i16 fun_lib) (code method_a) 0 [] (mpc method_a)"
    "length (iargs push_5) = 0 \<longrightarrow> imode push_5 = 0" "length (iargs push_5) < 2 \<longrightarrow> imode2 push_5 = 0"
    by (simp_all add: push_5_def instr_ok_def method_a_def)
  from emit_appends [OF fun_i16_ok building_a p] show ?thesis
    by (auto simp: building_def push_5_def fun_lib_def method_a_def width_def)
qed

lemma patch_code:
  assumes I: "i16_laws I" "stores_ok I" and k: "coded I c0 0 (is @ i # js) pc" "iargs i = a # as"
    and c: "i16_set2 I c0 k (widths is + 1) = (b, c)"
  shows "b \<and> coded I c 0 (is @ i\<lparr>iargs := k # as\<rparr> # js) pc"
proof -
  let ?i = "i\<lparr>iargs := k # as\<rparr>"
  have q: "0 \<le> widths is + 1" using widths_nonneg [of "is"] by simp
  note w = set2_laws [OF I q c]
  have is1: "coded I c0 0 is (widths is)" and iok: "instr_ok i"
    and f: "fetch I c0 (widths is) = ((iop i, length (iargs i), imode i, imode2 i), iargs i, widths is + width i)"
    and js: "coded I c0 (widths is + width i) js pc"
    using k(1) by (simp_all add: coded_append)
  have "coded I c 0 is (widths is)"
    using w by (intro coded_cong [OF _ _ is1]) auto
  moreover have "instr_ok ?i" "width ?i = width i" using iok k(2) by (simp_all add: instr_ok_def width_def)
  moreover have "fetch I c (widths is) = ((iop i, length (iargs i), imode i, imode2 i), k # as, widths is + width i)"
    using f w k(2) iok
    by (cases as) (auto simp: fetch_eq Let_def instr_ok_def width_def split: if_splits)
  moreover have "coded I c (widths is + width i) js pc"
    using w k(2) by (intro coded_cong [OF _ _ js]) (auto simp: width_def)
  ultimately show ?thesis using k(2) w by (simp add: coded_append)
qed

text \<open>C25. Fixing up refines updating the listing: the argument of a jump emitted before, at the
  position after its opcode, becomes the current pc, and no other instruction changes.\<close>
theorem fixup_updates:
  assumes "i16_laws (i16 L)" and "stores_ok (i16 L)" and "building s p pp m mp"
    and "coded (i16 L) (code mp) 0 (is @ i # js) (mpc mp)" and "iargs i = a # as"
  shows "\<exists>s' mp'. programFixUpPc L p (widths is + 1) s = Some (True, s') \<and> building s' p pp m mp'
    \<and> mpc mp' = mpc mp
    \<and> coded (i16 L) (code mp') 0 (is @ i\<lparr>iargs := word_of_int (mpc mp) # as\<rparr> # js) (mpc mp)"
proof -
  obtain ok c where c: "i16_set2 (i16 L) (code mp) (word_of_int (mpc mp)) (widths is + 1) = (ok, c)" by fastforce
  note w = patch_code [OF assms(1,2,4,5) c]
  then have "programFixUpPc L p (widths is + 1) s = Some (True, set_method m (mp\<lparr>code := c\<rparr>) s)"
    using assms(3) c by (auto simp: programFixUpPc_def programEmitArgAt_def building_def)
  with w building_set_method [OF assms(3), of "mp\<lparr>code := c\<rparr>"] show ?thesis by auto
qed

definition jump_0 :: instr where
  "jump_0 = \<lparr>iop = OP_JMP, imode = MODE_IM, imode2 = 0, iargs = [0]\<rparr>"

definition method_j :: "(int \<Rightarrow> uint16) jsmethod" where
  "method_j = method_a\<lparr>mpc := 3, code := (\<lambda>i. 0)(0 := encodeOp OP_JMP 1 MODE_IM 0)\<rparr>"

theorem fixup_updates_witness:
  "\<exists>s' mp'. programFixUpPc fun_lib 0 1 (set_method 1 method_j pstate_a) = Some (True, s')
     \<and> methods (wld s') 1 = Some mp' \<and> fetch fun_i16 (code mp') 0 = ((OP_JMP, 1, MODE_IM, 0), [3], 3)"
proof -
  have "instr_ok jump_0" by (simp add: jump_0_def instr_ok_def)
  moreover from this have "fetch fun_i16 (code method_j) 0 = ((iop jump_0, length (iargs jump_0), imode jump_0, imode2 jump_0),
      iargs jump_0, 0 + width jump_0)"
    by (rule fetch_written) (auto simp: jump_0_def method_j_def method_a_def fun_i16_def)
  ultimately have "coded (i16 fun_lib) (code method_j) 0 ([] @ jump_0 # []) (mpc method_j)"
    by (simp add: fun_lib_def method_j_def jump_0_def width_def)
  from fixup_updates [OF fun_i16_ok building_set_method [OF building_a, of method_j] this, of 0 "[]"] show ?thesis
    by (auto simp: jump_0_def building_def fun_lib_def method_j_def width_def)
qed

subsection \<open>Constants\<close>

definition pool :: "('c, 'f) pstate \<Rightarrow> nat \<Rightarrow> (loc, 'f) variant option list" where
  "pool s p = (case progs s p of None \<Rightarrow> [] | Some pp \<Rightarrow> map (\<lambda>k. vars (store (wld s)) (Const p k)) [0..<ncdata pp])"

text \<open>The pool grows by v, at its old length, and only the pool changes.\<close>

definition pool_add :: "nat \<Rightarrow> (loc, 'f) variant \<Rightarrow> ('c, 'f) pstate \<Rightarrow> (int \<times> ('c, 'f) pstate) option \<Rightarrow> bool" where
  "pool_add p v s r \<longleftrightarrow> (\<exists>s'. r = Some (int (length (pool s p)), s') \<and> pool s' p = pool s p @ [Some v]
     \<and> classes (wld s') = classes (wld s) \<and> methods (wld s') = methods (wld s)
     \<and> (\<forall>l. (\<nexists>k. l = Const p k) \<longrightarrow> vars (store (wld s')) l = vars (store (wld s)) l))"

text \<open>The pool cannot grow: nothing changes but for a string of v that no one owns any more.\<close>

definition pool_leak :: "nat \<Rightarrow> (loc, 'f) variant \<Rightarrow> ('c, 'f) pstate \<Rightarrow> (int \<times> ('c, 'f) pstate) option \<Rightarrow> bool" where
  "pool_leak p v s r \<longleftrightarrow> (\<exists>s'. r = Some (-1, s') \<and> pool s' p = pool s p
     \<and> live (wld s') = live (wld s) + int (owns_string v))"

lemma add_const_grows:
  "progs s p = Some pp \<Longrightarrow> mallocs (wld s) = [] \<Longrightarrow> pool_add p v s (add_const p (Some (True, v)) s)"
  by (auto simp: add_const_def pool_add_def pool_def set_prog_def no_failure next_malloc_def)

lemma add_const_fails:
  "progs s p = Some pp \<Longrightarrow> mallocs (wld s) = False # ms \<Longrightarrow> pool_leak p v s (add_const p (Some (True, v)) s)"
  by (auto simp: add_const_def pool_leak_def pool_def next_malloc_def)

lemma VARCLEAR_void: "vars st l = Some void_variant \<Longrightarrow> VARCLEAR E l st = Some st"
  by (simp add: VARCLEAR_def void_variant_def)

lemma on_local_values:
  "on_local (\<lambda>l. varAssignInt E l i) = Some (True, mk TYPE_INT (DI i))"
  "on_local (\<lambda>l. varAssignFloat E l f) = Some (True, mk TYPE_FLOAT (DF f))"
  "on_local (\<lambda>l. varAssignCh E l i) = Some (True, mk TYPE_CHAR (DI i))"
  "s_make E cs = Some t \<Longrightarrow> on_local (\<lambda>l. varAssignChar E l cs) = Some (True, mk TYPE_STRING (DS t))"
  by (simp_all add: on_local_def varAssignInt_def varAssignFloat_def varAssignCh_def varAssignChar_def
      VARCLEAR_void put_def wr_def)

text \<open>C26. The constant pool. A constant is stored with its type after those before it, and the index
  returned is where it is found; when the pool cannot grow the result is -1 and the pool as it
  was, and then the string of a string constant, and only that, is leaked.\<close>
theorem const_pool:
  assumes "progs s p = Some pp" and "s_make E cs = Some t" and "mallocs (wld s) = [] \<or> mallocs (wld s) = False # ms"
  shows "(let ok = (if mallocs (wld s) = [] then pool_add else pool_leak) in
      ok p (mk TYPE_INT (DI i)) s (programEmitConstInt E p i s)
    \<and> ok p (mk TYPE_FLOAT (DF f)) s (programEmitConstFloat E p f s)
    \<and> ok p (mk TYPE_CHAR (DI (word_of_int (schar c)))) s (programEmitConstChar E p c s)
    \<and> ok p (mk TYPE_STRING (DS t)) s (programEmitConstChars E p cs s))"
  using assms
  by (auto simp: programEmitConstInt_def programEmitConstFloat_def programEmitConstChar_def
      programEmitConstChars_def on_local_values Let_def intro: add_const_grows add_const_fails)

theorem const_pool_witness:
  "\<exists>s'. programEmitConstInt int_ext 0 7 pstate_a = Some (0, s') \<and> pool s' 0 = [Some (mk TYPE_INT (DI 7))]"
proof -
  have "progs pstate_a 0 = Some program_a" "s_make int_ext ''s'' = Some ''s''" "mallocs (wld pstate_a) = []"
    by (simp_all add: pstate_a_def int_ext_def world_a_def)
  moreover have "pool pstate_a 0 = []" by (simp add: pool_def pstate_a_def program_a_def)
  ultimately show ?thesis
    using const_pool [of pstate_a 0 program_a int_ext "''s''" "''s''" "[]" 7 0 "CHR ''c''"]
    by (auto simp: pool_add_def)
qed

subsection \<open>Classes\<close>

text \<open>Defining a class. When no allocation fails and the table of classes takes the name, the class
  becomes the current one and the last of the list, and looking its name up finds it, whatever
  its programs' intrinsics; any other name is looked up as before, in the program itself.\<close>
lemma define_then_find:
  assumes "lib_laws L" and "progs s p = Some pp" and "mallocs (wld s) = []"
    and "ht_add L (pclasses pp) name (fresh (wld s)) \<noteq> None"
  shows "\<exists>c s' pp'. programDefineClass E L p name base priv s = Some (Some c, s')
    \<and> progs s' p = Some pp' \<and> curclass pp' = Some c \<and> lclasses pp' = lclasses pp @ [c]
    \<and> (\<exists>jsp. classes (wld s') c = Some jsp \<and> cname jsp = name \<and> basename jsp = base)
    \<and> live (wld s') = live (wld s) + 7
    \<and> programFindClass (Suc n) name p s' = Some (Some c, s')
    \<and> (\<forall>other d. other \<noteq> name \<longrightarrow> pclasses pp other = Some d \<longrightarrow>
          programFindClass (Suc n) other p s' = Some (Some d, s'))"
proof -
  let ?w = "wld s" and ?c = "fresh (wld s)"
  obtain t where t: "ht_add L (pclasses pp) name ?c = Some t" using assms(4) by blast
  with assms(1) have t': "t = (pclasses pp)(name \<mapsto> ?c)" by (simp add: lib_laws_def)
  obtain jsp w' where j: "jsclassConstruct name base priv ?w = (Some ?c, w')" "classes w' ?c = Some jsp"
    "cname jsp = name" "basename jsp = base" "mallocs w' = []" "live w' = live ?w + 7"
    using assms(3) by (auto simp: jsclassConstruct_def no_failure new_address_def)
  let ?pp = "pp\<lparr>pclasses := t, lclasses := lclasses pp @ [?c], curclass := Some ?c\<rparr>"
  let ?s = "set_prog p ?pp (s\<lparr>wld := w'\<rparr>)"
  have "programDefineClass E L p name base priv s = Some (Some ?c, ?s)"
    using assms(2) j t by (simp add: programDefineClass_def no_failure)
  moreover have "programFindClass (Suc n) other p ?s = Some (Some d, ?s)" if "t other = Some d" for other d
    using that j(5) by (cases "intrinsics pp") (auto simp: set_prog_def no_failure free_blocks_def Let_def)
  ultimately show ?thesis using j t' by (auto simp: set_prog_def)
qed

lemma define_then_find_witness:
  "\<exists>c s'. programDefineClass int_ext fun_lib 0 ''B'' ''A'' None pstate_a = Some (Some c, s')
     \<and> programFindClass 1 ''B'' 0 s' = Some (Some c, s') \<and> programFindClass 1 ''A'' 0 s' = Some (Some 0, s')"
proof -
  have "progs pstate_a 0 = Some program_a" "mallocs (wld pstate_a) = []"
    "ht_add fun_lib (pclasses program_a) ''B'' (fresh (wld pstate_a)) \<noteq> None"
    by (simp_all add: pstate_a_def world_a_def fun_lib_def)
  from define_then_find [OF fun_lib_laws this, of int_ext "''A''" None 0] obtain c s' where
    c: "programDefineClass int_ext fun_lib 0 ''B'' ''A'' None pstate_a = Some (Some c, s')"
      "programFindClass 1 ''B'' 0 s' = Some (Some c, s')"
      "\<forall>other d. other \<noteq> ''B'' \<longrightarrow> pclasses program_a other = Some d \<longrightarrow> programFindClass 1 other 0 s' = Some (Some d, s')"
    by auto
  have "pclasses program_a ''A'' = Some 0" by (simp add: program_a_def)
  with c(3) have "programFindClass 1 ''A'' 0 s' = Some (Some 0, s')" by simp
  with c show ?thesis by blast
qed

end
