(* ===== verification/Parser_Spec.thy ===== *)
theory Parser_Spec
  imports Parser_Stmt Program_Spec
begin

section \<open>What the parser emits for an expression\<close>

text \<open>
  An expression tree, its tokens with the parentheses that the levels of precedence ask for, and
  its listing in postfix order: the recursive descent through the levels emits that listing.
\<close>

subsection \<open>Emitting from the parser\<close>

text \<open>Code is under construction: a class, a method, no error so far, a library that stores.\<close>

definition emitting :: "('c, 'f) pcx \<Rightarrow> nat \<Rightarrow> ('c, 'f) pst \<Rightarrow> bool" where
  "emitting C m s \<longleftrightarrow> i16_laws (i16 (clib C)) \<and> stores_ok (i16 (clib C))
     \<and> (\<exists>pp mp. building (pps s) (cprog C) pp m mp \<and> errornum pp = 0 \<and> 0 \<le> mpc mp)"

text \<open>From s to s' the listing \<open>is\<close> was emitted and nothing else changed but the lexer.\<close>

definition emitted :: "('c, 'f) pcx \<Rightarrow> nat \<Rightarrow> ('c, 'f) pst \<Rightarrow> instr list \<Rightarrow> ('c, 'f) pst \<Rightarrow> bool" where
  "emitted C m s is s' \<longleftrightarrow> (\<exists>mp c. methods (wld (pps s)) m = Some mp
     \<and> pps s' = set_method m (mp\<lparr>code := c, mpc := mpc mp + widths is,
          hasretval := (OP_RET \<in> iop ` set is \<or> hasretval mp)\<rparr>) (pps s)
     \<and> (\<forall>js. coded (i16 (clib C)) (code mp) 0 js (mpc mp)
           \<longrightarrow> coded (i16 (clib C)) c 0 (js @ is) (mpc mp + widths is)))"

lemma set_method_simps [simp]:
  "progs (set_method m mp s) = progs s" "methods (wld (set_method m mp s)) m = Some mp"
  "classes (wld (set_method m mp s)) = classes (wld s)" "mallocs (wld (set_method m mp s)) = mallocs (wld s)"
  by (simp_all add: set_method_def)

lemma set_method_self: "methods (wld s) m = Some mp \<Longrightarrow> set_method m mp s = s"
  by (simp add: set_method_def map_upd_triv)

lemma emitted_progs: "emitted C m s is s' \<Longrightarrow> progs (pps s') = progs (pps s)"
  by (auto simp: emitted_def)

lemma emitted_emitting: "emitted C m s is s' \<Longrightarrow> emitting C m s \<Longrightarrow> emitting C m s'"
  by (auto simp: emitted_def emitting_def building_def widths_nonneg)

lemma emitted_Nil: "emitting C m s \<Longrightarrow> pps s' = pps s \<Longrightarrow> emitted C m s [] s'"
proof -
  assume "emitting C m s" and p: "pps s' = pps s"
  then obtain mp where m: "methods (wld (pps s)) m = Some mp" by (auto simp: emitting_def building_def)
  then show ?thesis
    using p set_method_self [OF m] unfolding emitted_def by (intro exI [of _ mp] exI [of _ "code mp"]) simp
qed

lemma emitted_trans [trans]:
  assumes "emitted C m s is s'" "emitted C m s' js s''"
  shows "emitted C m s (is @ js) s''"
proof -
  from assms(1) obtain mp c where a: "methods (wld (pps s)) m = Some mp"
    "pps s' = set_method m (mp\<lparr>code := c, mpc := mpc mp + widths is, hasretval := (OP_RET \<in> iop ` set is \<or> hasretval mp)\<rparr>) (pps s)"
    "\<And>ks. coded (i16 (clib C)) (code mp) 0 ks (mpc mp) \<Longrightarrow> coded (i16 (clib C)) c 0 (ks @ is) (mpc mp + widths is)"
    by (auto simp: emitted_def)
  from assms(2) a(2) obtain d where b:
    "pps s'' = set_method m (mp\<lparr>code := d, mpc := mpc mp + widths (is @ js),
        hasretval := (OP_RET \<in> iop ` set (is @ js) \<or> hasretval mp)\<rparr>) (pps s)"
    "\<And>ks. coded (i16 (clib C)) c 0 ks (mpc mp + widths is) \<Longrightarrow>
       coded (i16 (clib C)) d 0 (ks @ js) (mpc mp + widths is + widths js)"
    by (auto simp: emitted_def add.assoc disj_commute disj_left_commute image_Un)
  have "coded (i16 (clib C)) d 0 (ks @ is @ js) (mpc mp + widths (is @ js))"
    if "coded (i16 (clib C)) (code mp) 0 ks (mpc mp)" for ks
    using b(2) [OF a(3) [OF that]] by (simp add: add.assoc)
  then show ?thesis using a(1) b(1) unfolding emitted_def by blast
qed

lemma emitted_lex: "emitted C m s is s' \<Longrightarrow> pps t = pps s \<Longrightarrow> pps t' = pps s' \<Longrightarrow> emitted C m t is t'"
  by (simp add: emitted_def)

text \<open>One instruction.\<close>

abbreviation instr0 :: "opcode \<Rightarrow> instr" where
  "instr0 op \<equiv> \<lparr>iop = op, imode = 0, imode2 = 0, iargs = []\<rparr>"

abbreviation instr1 :: "opcode \<Rightarrow> mode \<Rightarrow> int32 \<Rightarrow> instr" where
  "instr1 op m k \<equiv> \<lparr>iop = op, imode = m, imode2 = 0, iargs = [k]\<rparr>"

lemma emit_instr_emitted:
  assumes "emitting C m s" and i: "instr_ok i" "length (iargs i) = 0 \<longrightarrow> imode i = 0" "length (iargs i) < 2 \<longrightarrow> imode2 i = 0"
  shows "\<exists>pc ps. emit_instr (clib C) (cprog C) i (pps s) = Some (pc, ps) \<and> emitted C m s [i] (s\<lparr>pps := ps\<rparr>)"
proof -
  from assms(1) obtain pp mp where b: "building (pps s) (cprog C) pp m mp" "0 \<le> mpc mp"
    and I: "i16_laws (i16 (clib C))" "stores_ok (i16 (clib C))" by (auto simp: emitting_def)
  from emit_instr_code [OF I b(1) i b(2)] obtain c where
    "emit_instr (clib C) (cprog C) i (pps s) = Some (mpc mp, set_method m (mp\<lparr>code := c, mpc := mpc mp + width i,
        hasretval := (iop i = OP_RET \<or> hasretval mp)\<rparr>) (pps s))"
    "\<And>is. coded (i16 (clib C)) (code mp) 0 is (mpc mp) \<Longrightarrow> coded (i16 (clib C)) c 0 (is @ [i]) (mpc mp + width i)"
    by blast
  with b(1) show ?thesis by (fastforce simp: emitted_def building_def)
qed

lemma emit0_emitted:
  assumes "emitting C m s" "op < 128"
  shows "\<exists>s'. emit0 C op s = Some s' \<and> emitted C m s [instr0 op] s' \<and> plex s' = plex s"
proof -
  have "instr_ok (instr0 op)" using assms(2) by (simp add: instr_ok_def)
  from emit_instr_emitted [OF assms(1) this] obtain pc ps where
    e: "emit_instr (clib C) (cprog C) (instr0 op) (pps s) = Some (pc, ps)" "emitted C m s [instr0 op] (s\<lparr>pps := ps\<rparr>)" by auto
  from e(1) have "programEmit0 (clib C) (cprog C) op (pps s) = Some (pc, ps)"
    by (auto simp: emit_instr_def emit_args_def bind_eq_Some_conv)
  with e(2) show ?thesis by (intro exI [of _ "s\<lparr>pps := ps\<rparr>"]) (simp add: emit0_def onps_def)
qed

text \<open>An opcode with a mode and its argument, as two steps.\<close>

lemma emit1_emitted:
  assumes "emitting C m s" "op < 128" "md < 8"
  shows "\<exists>s'. do { s \<leftarrow> emit1 C op md s; put_arg C k s } = Some s' \<and> emitted C m s [instr1 op md (word_of_int k)] s'
    \<and> plex s' = plex s"
proof -
  have "instr_ok (instr1 op md (word_of_int k))" using assms(2,3) by (simp add: instr_ok_def)
  from emit_instr_emitted [OF assms(1) this] obtain pc ps where
    e: "emit_instr (clib C) (cprog C) (instr1 op md (word_of_int k)) (pps s) = Some (pc, ps)"
      "emitted C m s [instr1 op md (word_of_int k)] (s\<lparr>pps := ps\<rparr>)" by auto
  from e(1) obtain ps1 pc2 where "programEmit1 (clib C) (cprog C) op md (pps s) = Some (pc, ps1)"
    "programEmitArg (clib C) (cprog C) (word_of_int k) ps1 = Some (pc2, ps)"
    by (auto simp: emit_instr_def emit_args_def bind_eq_Some_conv)
  with e(2) show ?thesis
    by (intro exI [of _ "s\<lparr>pps := ps\<rparr>"]) (simp add: emit1_def put_arg_def emitArg_def onps_def)
qed

lemma push_im_emitted:
  assumes "emitting C m s"
  shows "\<exists>s'. push_im C k s = Some s' \<and> emitted C m s [instr1 OP_PUSH MODE_IM (word_of_int k)] s' \<and> plex s' = plex s"
  using emit1_emitted [OF assms, of OP_PUSH MODE_IM k] by (simp add: push_im_def emit_im_def)

lemma if_no_error_emitting: "emitting C m s \<Longrightarrow> if_no_error C f s = f s"
  by (auto simp: emitting_def if_no_error_def pprog_def building_def)

subsection \<open>Expressions, their tokens and their code\<close>

text \<open>Binary operators are named by their tokens.\<close>

datatype exp = Lit string | Tru | Fals | Neg exp | LogNot exp | Op token exp exp

text \<open>The levels of the grammar, from \<open>expr\<close> (0) to \<open>singleton\<close> (5), and their binary operators.\<close>

definition level :: "nat \<Rightarrow> (token \<times> opcode) list" where
  "level k = (if k = 0 then log_ops else if k = 1 then rel_ops else if k = 2 then term_ops
     else if k = 3 then factor_ops else [])"

definition prec :: "token \<Rightarrow> nat" where
  "prec t = (if t \<in> fst ` set log_ops then 0 else if t \<in> fst ` set rel_ops then 1
     else if t \<in> fst ` set term_ops then 2 else 3)"

definition opcode_of :: "token \<Rightarrow> opcode option" where
  "opcode_of t = map_of (log_ops @ rel_ops @ term_ops @ factor_ops) t"

primrec exp_ok :: "exp \<Rightarrow> bool" where
  "exp_ok (Lit x) = True"
| "exp_ok Tru = True"
| "exp_ok Fals = True"
| "exp_ok (Neg a) = exp_ok a"
| "exp_ok (LogNot a) = exp_ok a"
| "exp_ok (Op t a b) = (opcode_of t \<noteq> None \<and> exp_ok a \<and> exp_ok b)"

definition parens :: "bool \<Rightarrow> (token \<times> string) list \<Rightarrow> (token \<times> string) list" where
  "parens b ts = (if b then (T_LPAR, []) # ts @ [(T_RPAR, [])] else ts)"

primrec toks :: "nat \<Rightarrow> exp \<Rightarrow> (token \<times> string) list" where
  "toks k (Lit x) = [(T_INT, x)]"
| "toks k Tru = [(T_YYTRUE, [])]"
| "toks k Fals = [(T_YYFALSE, [])]"
| "toks k (Neg a) = parens (4 < k) ((T_MINUS, []) # toks 5 a)"
| "toks k (LogNot a) = parens (4 < k) ((T_BANG, []) # toks 5 a)"
| "toks k (Op t a b) = parens (prec t < k) (toks (prec t) a @ (t, []) # toks (Suc (prec t)) b)"

primrec code_of :: "exp \<Rightarrow> instr list" where
  "code_of (Lit x) = [instr1 OP_PUSH MODE_IM (atoi x)]"
| "code_of Tru = [instr1 OP_PUSH MODE_IM 1]"
| "code_of Fals = [instr1 OP_PUSH MODE_IM 0]"
| "code_of (Neg a) = code_of a @ [instr0 OP_NEGATE]"
| "code_of (LogNot a) = code_of a @ [instr0 OP_NOT]"
| "code_of (Op t a b) = code_of a @ code_of b @ [instr0 (the (opcode_of t))]"

text \<open>How much fuel is enough.\<close>

primrec fuel :: "exp \<Rightarrow> nat" where
  "fuel (Lit x) = 1"
| "fuel Tru = 1"
| "fuel Fals = 1"
| "fuel (Neg a) = Suc (fuel a)"
| "fuel (LogNot a) = Suc (fuel a)"
| "fuel (Op t a b) = fuel a + fuel b + 3"

subsection \<open>Reading tokens\<close>

text \<open>The lexer is at the first of these tokens and goes on to return the others.\<close>

definition tok_is :: "jspplex \<Rightarrow> token \<times> string \<Rightarrow> bool" where
  "tok_is l x \<longleftrightarrow> token l = Some (fst x) \<and> (fst x \<in> {T_INT, T_ID} \<longrightarrow> lex l = snd x)"

fun reads :: "jspplex \<Rightarrow> (token \<times> string) list \<Rightarrow> bool" where
  "reads l [] = True"
| "reads l [x] = tok_is l x"
| "reads l (x # y # ts) = (tok_is l x \<and> \<not> overrun (snd (jsppLex l)) \<and> reads (snd (jsppLex l)) (y # ts))"

lemma reads_at: "reads (plex s) (x # ts) \<Longrightarrow> at t s \<longleftrightarrow> t = fst x"
  by (cases ts) (auto simp: at_def tok_is_def)

lemma reads_text: "reads (plex s) ((T_INT, x) # ts) \<Longrightarrow> text_of s = x"
  by (cases ts) (auto simp: text_of_def tok_is_def)

lemma reads_next:
  assumes "reads (plex s) (x # y # ts)"
  shows "\<exists>s'. lexnext s = Some s' \<and> pps s' = pps s \<and> reads (plex s') (y # ts)"
  using assms by (auto simp: lexnext_def Let_def)

lemma reads_append: "reads l (ts @ us) \<Longrightarrow> ts \<noteq> [] \<Longrightarrow> reads l ts"
  by (induction l ts rule: reads.induct; cases us) auto

declare reads.simps [simp del]

lemma lex_emitting: "emitting C m s \<Longrightarrow> pps s' = pps s \<Longrightarrow> emitting C m s'"
  by (simp add: emitting_def)

subsection \<open>The levels as one family\<close>

definition P :: "nat \<Rightarrow> nat \<Rightarrow> ('c, 'f) pcx \<Rightarrow> ('c, 'f) act \<Rightarrow> ('c, 'f) act" where
  "P k = (if k = 0 then expr_with else if k = 1 then logop else if k = 2 then relop else if k = 3 then pterm
     else if k = 4 then factor else singleton)"

definition M :: "nat \<Rightarrow> nat \<Rightarrow> ('c, 'f) pcx \<Rightarrow> ('c, 'f) act \<Rightarrow> ('c, 'f) act" where
  "M k = (if k = 0 then morelogop else if k = 1 then morerelops else if k = 2 then moreterms else morefactors)"

text \<open>A token that does not continue an expression at level k.\<close>

definition stops :: "nat \<Rightarrow> token \<Rightarrow> bool" where
  "stops k t \<longleftrightarrow> t \<notin> {T_INC, T_DEC, T_ASSIGN} \<union> fst ` set assign_ops \<and> (\<forall>j \<ge> k. t \<notin> fst ` set (level j))"

lemmas op_tables = log_ops_def rel_ops_def term_ops_def factor_ops_def assign_ops_def

lemma P_step: "k < 4 \<Longrightarrow> P k n C e s = do { s \<leftarrow> P (Suc k) n C e s; if_no_error C (M k n C e) s }"
  by (auto simp: P_def M_def expr_with_def logop_def relop_def pterm_def less_Suc_eq numeral_eq_Suc)

lemma below_4: "(k::nat) < 4 \<Longrightarrow> k = 0 \<or> k = 1 \<or> k = 2 \<or> k = 3"
  by linarith

lemma opcode_at_token: "token (plex s) = Some t \<Longrightarrow> opcode_at tab s = map_of tab t"
  by (simp add: opcode_at_def)

lemma term_not_assign: "map_of term_ops t = Some op \<Longrightarrow> map_of assign_ops t = None"
  by (auto simp: op_tables split: if_splits)

lemma M_op:
  assumes "k < 4" "token (plex s) = Some t" "map_of (level k) t = Some op"
  shows "M k (Suc n) C e s = do { s \<leftarrow> infix_op C (P (Suc k) (Suc n) C e) op s; if_no_error C (M k n C e) s }"
  using below_4 [OF assms(1)]
proof (elim disjE)
  assume "k = 2"
  then show ?thesis
    using assms(3) term_not_assign [of t op] by (simp add: M_def P_def level_def opcode_at_token [OF assms(2)])
qed (use assms(3) in \<open>simp_all add: M_def P_def level_def opcode_at_token [OF assms(2)]\<close>)

lemma M_stop:
  assumes "k < 4" "token (plex s) = Some t" "stops k t"
  shows "M k (Suc n) C e s = Some s"
proof -
  have "map_of (level k) t = None" "map_of (level 1) t = None \<or> k \<noteq> 0"
    using assms(3) by (auto simp: stops_def map_of_eq_None_iff)
  moreover have "map_of assign_ops t = None" "t \<noteq> T_ASSIGN" using assms(3) by (auto simp: stops_def map_of_eq_None_iff)
  moreover have "k = 0 \<Longrightarrow> t \<noteq> T_ISNEQ \<and> t \<noteq> T_ISEQUAL"
  proof -
    assume "k = 0"
    with assms(3) have "t \<notin> fst ` set (level 1)" unfolding stops_def by blast
    then show ?thesis by (simp add: level_def rel_ops_def)
  qed
  ultimately show ?thesis
    using below_4 [OF assms(1)] by (elim disjE) (simp_all add: M_def level_def opcode_at_token [OF assms(2)] at_def assms(2))
qed

lemma stops_mono: "stops k t \<Longrightarrow> k \<le> j \<Longrightarrow> stops j t"
  by (auto simp: stops_def)

lemma prec_level:
  assumes "opcode_of t = Some op"
  shows "prec t < 4 \<and> map_of (level (prec t)) t = Some op \<and> op < 128 \<and> stops (Suc (prec t)) t"
  using assms by (auto simp: opcode_of_def prec_def level_def stops_def op_tables split: if_splits)

subsection \<open>The levels parse what is printed for them\<close>

text \<open>
  \<open>parses\<close>: with fuel f the procedure of level k reads the tokens of e and emits its code.
  \<open>continues\<close>: it does, and is then in its loop, which goes on with what follows.
\<close>

definition parses :: "('c, 'f) pcx \<Rightarrow> nat \<Rightarrow> nat \<Rightarrow> exp \<Rightarrow> nat \<Rightarrow> bool" where
  "parses C m k e f \<longleftrightarrow> (\<forall>n N s ts. f \<le> n \<longrightarrow> f \<le> N \<longrightarrow> emitting C m s \<longrightarrow> ts \<noteq> [] \<longrightarrow> reads (plex s) (toks k e @ ts)
     \<longrightarrow> stops k (fst (hd ts)) \<longrightarrow> (\<exists>s'. P k n C (expr N C) s = Some s' \<and> emitted C m s (code_of e) s' \<and> reads (plex s') ts))"

definition continues :: "('c, 'f) pcx \<Rightarrow> nat \<Rightarrow> nat \<Rightarrow> exp \<Rightarrow> nat \<Rightarrow> bool" where
  "continues C m k e f \<longleftrightarrow> (\<forall>n N s ts. f \<le> n \<longrightarrow> f \<le> N \<longrightarrow> emitting C m s \<longrightarrow> ts \<noteq> [] \<longrightarrow> reads (plex s) (toks k e @ ts)
     \<longrightarrow> stops (Suc k) (fst (hd ts)) \<longrightarrow> (\<exists>s' n'. n < n' + f \<and> P k n C (expr N C) s = M k n' C (expr N C) s'
          \<and> emitted C m s (code_of e) s' \<and> reads (plex s') ts))"

lemma parsesD:
  assumes "parses C m k e f" "f \<le> n" "f \<le> N" "emitting C m s" "reads (plex s) (toks k e @ x # ts)" "stops k (fst x)"
  obtains s' where "P k n C (expr N C) s = Some s'" "emitted C m s (code_of e) s'" "reads (plex s') (x # ts)" "emitting C m s'"
  using assms emitted_emitting unfolding parses_def by (metis list.discI list.sel(1))

lemma continuesD:
  assumes "continues C m k e f" "f \<le> n" "f \<le> N" "emitting C m s" "reads (plex s) (toks k e @ x # ts)" "stops (Suc k) (fst x)"
  obtains s' n' where "n < n' + f" "P k n C (expr N C) s = M k n' C (expr N C) s'" "emitted C m s (code_of e) s'"
    "reads (plex s') (x # ts)" "emitting C m s'"
  using assms emitted_emitting unfolding continues_def by (metis list.discI list.sel(1))

lemma parsesI:
  assumes "\<And>n N s x ts. f \<le> n \<Longrightarrow> f \<le> N \<Longrightarrow> emitting C m s \<Longrightarrow> reads (plex s) (toks k e @ x # ts) \<Longrightarrow> stops k (fst x)
    \<Longrightarrow> \<exists>s'. P k n C (expr N C) s = Some s' \<and> emitted C m s (code_of e) s' \<and> reads (plex s') (x # ts)"
  shows "parses C m k e f"
  unfolding parses_def
proof (intro allI impI)
  fix n N s and ts :: "(token \<times> string) list"
  assume "ts \<noteq> []" "f \<le> n" "f \<le> N" "emitting C m s" "reads (plex s) (toks k e @ ts)" "stops k (fst (hd ts))"
  then show "\<exists>s'. P k n C (expr N C) s = Some s' \<and> emitted C m s (code_of e) s' \<and> reads (plex s') ts"
    using assms by (cases ts) auto
qed

lemma continuesI:
  assumes "\<And>n N s x ts. f \<le> n \<Longrightarrow> f \<le> N \<Longrightarrow> emitting C m s \<Longrightarrow> reads (plex s) (toks k e @ x # ts) \<Longrightarrow> stops (Suc k) (fst x)
    \<Longrightarrow> \<exists>s' n'. n < n' + f \<and> P k n C (expr N C) s = M k n' C (expr N C) s' \<and> emitted C m s (code_of e) s'
         \<and> reads (plex s') (x # ts)"
  shows "continues C m k e f"
  unfolding continues_def
proof (intro allI impI)
  fix n N s and ts :: "(token \<times> string) list"
  assume "ts \<noteq> []" "f \<le> n" "f \<le> N" "emitting C m s" "reads (plex s) (toks k e @ ts)" "stops (Suc k) (fst (hd ts))"
  then show "\<exists>s' n'. n < n' + f \<and> P k n C (expr N C) s = M k n' C (expr N C) s' \<and> emitted C m s (code_of e) s'
         \<and> reads (plex s') ts"
    using assms by (cases ts) auto
qed

lemma parses_mono: "parses C m k e f \<Longrightarrow> f \<le> g \<Longrightarrow> parses C m k e g"
  unfolding parses_def by (meson order_trans)

lemma continues_mono:
  assumes "continues C m k e f" "f \<le> g"
  shows "continues C m k e g"
proof (rule continuesI)
  fix n N s x and ts :: "(token \<times> string) list"
  assume a: "g \<le> n" "g \<le> N" "emitting C m s" "reads (plex s) (toks k e @ x # ts)" "stops (Suc k) (fst x)"
  then have "f \<le> n" "f \<le> N" using assms(2) by auto
  from continuesD [OF assms(1) this a(3-5)] obtain s' n' where "n < n' + f"
    "P k n C (expr N C) s = M k n' C (expr N C) s'" "emitted C m s (code_of e) s'" "reads (plex s') (x # ts)" .
  then show "\<exists>s' n'. n < n' + g \<and> P k n C (expr N C) s = M k n' C (expr N C) s' \<and> emitted C m s (code_of e) s'
         \<and> reads (plex s') (x # ts)" using assms(2) by (intro exI [of _ s'] exI [of _ n']) simp
qed

lemma parses_continues:
  assumes "parses C m (Suc k) e f" "toks k e = toks (Suc k) e" "k < 4" "0 < f"
  shows "continues C m k e f"
proof (rule continuesI)
  fix n N s x and ts :: "(token \<times> string) list"
  assume a: "f \<le> n" "f \<le> N" "emitting C m s" "reads (plex s) (toks k e @ x # ts)" "stops (Suc k) (fst x)"
  from parsesD [OF assms(1) a(1-3) _ a(5)] a(4) assms(2) obtain s' where
    s': "P (Suc k) n C (expr N C) s = Some s'" "emitted C m s (code_of e) s'" "reads (plex s') (x # ts)" "emitting C m s'"
    by auto
  have "P k n C (expr N C) s = M k n C (expr N C) s'"
    using s'(1) if_no_error_emitting [OF s'(4)] by (simp add: P_step [OF assms(3)])
  then show "\<exists>s' n'. n < n' + f \<and> P k n C (expr N C) s = M k n' C (expr N C) s' \<and> emitted C m s (code_of e) s'
         \<and> reads (plex s') (x # ts)"
    using s'(2,3) assms(4) by (intro exI [of _ s'] exI [of _ n]) simp
qed

lemma reads_token: "reads l (x # ts) \<Longrightarrow> token l = Some (fst x)"
  by (cases ts) (auto simp: tok_is_def reads.simps)

lemma continues_parses:
  assumes "continues C m k e f" "k < 4"
  shows "parses C m k e f"
proof (rule parsesI)
  fix n N s x and ts :: "(token \<times> string) list"
  assume a: "f \<le> n" "f \<le> N" "emitting C m s" "reads (plex s) (toks k e @ x # ts)" "stops k (fst x)"
  have "stops (Suc k) (fst x)" using a(5) stops_mono by fastforce
  from continuesD [OF assms(1) a(1-4) this] obtain s' n' where s': "n < n' + f"
    "P k n C (expr N C) s = M k n' C (expr N C) s'" "emitted C m s (code_of e) s'" "reads (plex s') (x # ts)" .
  then obtain j where "n' = Suc j" using a(1) by (cases n') auto
  then show "\<exists>s'. P k n C (expr N C) s = Some s' \<and> emitted C m s (code_of e) s' \<and> reads (plex s') (x # ts)"
    using s' M_stop [OF assms(2) reads_token [OF s'(4)] a(5)] by auto
qed

lemma op_continues:
  assumes o: "opcode_of t = Some op" and a: "continues C m (prec t) a fa" and b: "parses C m (Suc (prec t)) b fb"
  shows "continues C m (prec t) (Op t a b) (Suc (Suc (fa + fb)))"
proof (rule continuesI)
  let ?k = "prec t"
  fix n N s x and ts :: "(token \<times> string) list"
  assume h: "Suc (Suc (fa + fb)) \<le> n" "Suc (Suc (fa + fb)) \<le> N" "emitting C m s"
    "reads (plex s) (toks ?k (Op t a b) @ x # ts)" "stops (Suc ?k) (fst x)"
  note p = prec_level [OF o]
  have fa: "fa \<le> n" "fa \<le> N" using h(1,2) by auto
  have r: "reads (plex s) (toks ?k a @ (t, []) # toks (Suc ?k) b @ x # ts)" using h(4) by (simp add: parens_def)
  have "stops (Suc ?k) (fst (t, []))" using p by simp
  from continuesD [OF a fa h(3) r this] obtain s1 n1 where s1: "n < n1 + fa"
    "P ?k n C (expr N C) s = M ?k n1 C (expr N C) s1" "emitted C m s (code_of a) s1"
    "reads (plex s1) ((t, []) # toks (Suc ?k) b @ x # ts)" "emitting C m s1" .
  then obtain j where j: "n1 = Suc j" using h(1) by (cases n1) auto
  obtain y ys where y: "toks (Suc ?k) b @ x # ts = y # ys" by (cases "toks (Suc ?k) b") auto
  from reads_next [OF s1(4) [unfolded y]] obtain s2 where
    s2: "lexnext s1 = Some s2" "pps s2 = pps s1" "reads (plex s2) (toks (Suc ?k) b @ x # ts)" using y by auto
  have fb: "fb \<le> Suc j" "fb \<le> N" using h(1,2) s1(1) j by auto
  from parsesD [OF b fb lex_emitting [OF s1(5) s2(2)] s2(3) h(5)] obtain s3 where
    s3: "P (Suc ?k) (Suc j) C (expr N C) s2 = Some s3" "emitted C m s2 (code_of b) s3" "reads (plex s3) (x # ts)" "emitting C m s3" .
  from emit0_emitted [OF s3(4)] p obtain s4 where
    s4: "emit0 C op s3 = Some s4" "emitted C m s3 [instr0 op] s4" "plex s4 = plex s3" by blast
  have e: "emitting C m s4" using emitted_emitting [OF s4(2) s3(4)] .
  have "P ?k n C (expr N C) s = M ?k j C (expr N C) s4"
    using s1(2) j M_op [OF _ reads_token [OF s1(4)]] p s2(1) s3(1) s4(1) if_no_error_emitting [OF e]
    by (simp add: infix_op_def)
  moreover have "emitted C m s1 (code_of b) s3" using emitted_lex [OF s3(2)] s2(2) by simp
  then have "emitted C m s (code_of (Op t a b)) s4"
    using emitted_trans [OF s1(3) emitted_trans [OF _ s4(2)]] o by simp
  moreover have "n < j + Suc (Suc (fa + fb))" using s1(1) j by simp
  ultimately show "\<exists>s' n'. n < n' + Suc (Suc (fa + fb)) \<and> P ?k n C (expr N C) s = M ?k n' C (expr N C) s'
      \<and> emitted C m s (code_of (Op t a b)) s' \<and> reads (plex s') (x # ts)" using s3(3) s4(3) by metis
qed

text \<open>In parentheses, at the innermost level.\<close>

lemma toks_cons: "\<exists>x xs. toks k e = x # xs"
proof (induction e arbitrary: k)
  case (Op t a b)
  obtain x xs where "toks (prec t) a = x # xs" using Op.IH(1) by blast
  then show ?case by (simp add: parens_def)
qed (simp_all add: parens_def)

lemma singleton_other: "reads (plex s) (x # ts) \<Longrightarrow> fst x \<notin> {T_ID, T_LBRACE, T_YYTRUE, T_YYFALSE} \<Longrightarrow>
    singleton n C e s = (case literal C s of Some push \<Rightarrow> do { s \<leftarrow> push s; lexnext s }
      | None \<Rightarrow> if at T_LPAR s then do { s \<leftarrow> lexnext s; s \<leftarrow> e s; expect C T_RPAR YYER_EXPECTED_RPAR Some s }
            else if at T_NEW s then new_expr n C e s else if at T_SCOPE s then base_call n C e s
            else setupError C YYERR_SYNTAX s)"
  by (simp add: singleton_def reads_at [of s x ts])

lemma paren_parses:
  assumes a: "parses C m 0 e f" and t: "toks 5 e = parens True (toks 0 e)"
  shows "parses C m 5 e (Suc f)"
proof (rule parsesI)
  fix n N s x and ts :: "(token \<times> string) list"
  assume h: "Suc f \<le> n" "Suc f \<le> N" "emitting C m s" "reads (plex s) (toks 5 e @ x # ts)" "stops 5 (fst x)"
  obtain y ys where y: "toks 0 e = y # ys" using toks_cons by blast
  have r: "reads (plex s) ((T_LPAR, []) # y # ys @ (T_RPAR, []) # x # ts)" using h(4) t y by (simp add: parens_def)
  from reads_next [OF this] obtain s1 where
    s1: "lexnext s = Some s1" "pps s1 = pps s" "reads (plex s1) (toks 0 e @ (T_RPAR, []) # x # ts)" using y by auto
  obtain N' where N: "N = Suc N'" using h(2) by (cases N) auto
  have "stops 0 (fst (T_RPAR, [] :: string))" by (auto simp: stops_def level_def op_tables)
  moreover have "f \<le> Suc N'" "f \<le> N'" using h(2) N by auto
  ultimately obtain s2 where s2: "P 0 (Suc N') C (expr N' C) s1 = Some s2" "emitted C m s1 (code_of e) s2"
    "reads (plex s2) ((T_RPAR, []) # x # ts)"
    using parsesD [OF a _ _ lex_emitting [OF h(3) s1(2)] s1(3)] by metis
  from reads_next [OF s2(3)] obtain s3 where s3: "lexnext s2 = Some s3" "pps s3 = pps s2" "reads (plex s3) (x # ts)" by auto
  have "expr N C s1 = Some s2" using s2(1) N by (simp add: P_def)
  moreover have "literal C s = None" "at T_LPAR s" "at T_RPAR s2" by (simp_all add: literal_def reads_at [OF r] reads_at [OF s2(3)])
  ultimately have "P 5 n C (expr N C) s = Some s3"
    using s1(1) s3(1) singleton_other [OF r] by (simp add: P_def expect_def)
  moreover have "emitted C m s (code_of e) s3" using emitted_lex [OF s2(2)] s1(2) s3(2) by simp
  ultimately show "\<exists>s'. P 5 n C (expr N C) s = Some s' \<and> emitted C m s (code_of e) s' \<and> reads (plex s') (x # ts)"
    using s3(3) by blast
qed

text \<open>Literals.\<close>

lemma lit_parses: "parses C m 5 (Lit x) (Suc 0)"
proof (rule parsesI)
  fix n N s y and ts :: "(token \<times> string) list"
  assume h: "emitting C m s" "reads (plex s) (toks 5 (Lit x) @ y # ts)"
  then have r: "reads (plex s) ((T_INT, x) # y # ts)" by simp
  from push_im_emitted [OF h(1)] obtain s1 where
    s1: "push_im C (sint (atoi x)) s = Some s1" "emitted C m s [instr1 OP_PUSH MODE_IM (word_of_int (sint (atoi x)))] s1" "plex s1 = plex s" by blast
  from reads_next [of s1] r s1(3) obtain s2 where s2: "lexnext s1 = Some s2" "pps s2 = pps s1" "reads (plex s2) (y # ts)" by metis
  have "literal C s = Some (push_im C (sint (atoi x)))" by (simp add: literal_def reads_at [OF r] reads_text [OF r])
  then have "P 5 n C (expr N C) s = Some s2" using singleton_other [OF r] s1(1) s2(1) by (simp add: P_def)
  moreover have "emitted C m s (code_of (Lit x)) s2" using emitted_lex [OF s1(2), of s s2] s2(2) by simp
  ultimately show "\<exists>s'. P 5 n C (expr N C) s = Some s' \<and> emitted C m s (code_of (Lit x)) s' \<and> reads (plex s') (y # ts)"
    using s2(3) by blast
qed

lemma bool_parses:
  assumes e: "toks 5 e = [(t, [])]" "code_of e = [instr1 OP_PUSH MODE_IM (word_of_int k)]"
    and t: "t = T_YYTRUE \<and> k = 1 \<or> t = T_YYFALSE \<and> k = 0"
  shows "parses C m 5 e (Suc 0)"
proof (rule parsesI)
  fix n N s y and ts :: "(token \<times> string) list"
  assume h: "emitting C m s" "reads (plex s) (toks 5 e @ y # ts)"
  then have r: "reads (plex s) ((t, []) # y # ts)" using e(1) by simp
  from reads_next [OF r] obtain s1 where s1: "lexnext s = Some s1" "pps s1 = pps s" "reads (plex s1) (y # ts)" by blast
  from push_im_emitted [OF lex_emitting [OF h(1) s1(2)], of k] obtain s2 where
    s2: "push_im C k s1 = Some s2" "emitted C m s1 [instr1 OP_PUSH MODE_IM (word_of_int k)] s2" "plex s2 = plex s1" by blast
  have "P 5 n C (expr N C) s = Some s2" using t s1(1) s2(1) by (auto simp: P_def singleton_def reads_at [OF r])
  moreover have "emitted C m s (code_of e) s2" using emitted_lex [OF s2(2), of s s2] s1(2) e(2) by simp
  ultimately show "\<exists>s'. P 5 n C (expr N C) s = Some s' \<and> emitted C m s (code_of e) s' \<and> reads (plex s') (y # ts)"
    using s1(3) s2(3) by metis
qed

text \<open>Factors.\<close>

lemma no_postfix: "reads (plex s) (x # ts) \<Longrightarrow> stops k (fst x) \<Longrightarrow>
    do { s \<leftarrow> postfix_op C T_INC OP_PINC s; postfix_op C T_DEC OP_PDEC s } = Some s"
  by (auto simp: postfix_op_def reads_at [of s x ts] stops_def)

lemma singleton_factor:
  assumes a: "parses C m 5 e f" and t: "toks 4 e = toks 5 e" and h: "fst (hd (toks 5 e)) \<notin> {T_MINUS, T_PLUS, T_INC, T_DEC, T_BANG}"
  shows "parses C m 4 e f"
proof (rule parsesI)
  fix n N s x and ts :: "(token \<times> string) list"
  assume g: "f \<le> n" "f \<le> N" "emitting C m s" "reads (plex s) (toks 4 e @ x # ts)" "stops 4 (fst x)"
  have r: "reads (plex s) (toks 5 e @ x # ts)" using g(4) t by simp
  have "stops 5 (fst x)" using g(5) stops_mono by fastforce
  from parsesD [OF a g(1-3) r this] obtain s1 where
    s1: "P 5 n C (expr N C) s = Some s1" "emitted C m s (code_of e) s1" "reads (plex s1) (x # ts)" .
  obtain y ys where y: "toks 5 e = y # ys" using toks_cons by blast
  have "P 4 n C (expr N C) s = Some s1"
    using s1(1) no_postfix [OF s1(3) g(5)] h y reads_at [of s y "ys @ x # ts"] r by (simp add: P_def factor_def)
  then show "\<exists>s'. P 4 n C (expr N C) s = Some s' \<and> emitted C m s (code_of e) s' \<and> reads (plex s') (x # ts)"
    using s1 by blast
qed

lemma prefix_parses:
  assumes a: "parses C m 5 a f" and e: "toks 4 e = (t, []) # toks 5 a" "code_of e = code_of a @ [instr0 op]"
    and t: "t = T_MINUS \<and> op = OP_NEGATE \<or> t = T_BANG \<and> op = OP_NOT"
  shows "parses C m 4 e f"
proof (rule parsesI)
  fix n N s x and ts :: "(token \<times> string) list"
  assume g: "f \<le> n" "f \<le> N" "emitting C m s" "reads (plex s) (toks 4 e @ x # ts)" "stops 4 (fst x)"
  obtain y ys where y: "toks 5 a = y # ys" using toks_cons by blast
  have r: "reads (plex s) ((t, []) # y # ys @ x # ts)" using g(4) e(1) y by simp
  from reads_next [OF r] obtain s1 where s1: "lexnext s = Some s1" "pps s1 = pps s" "reads (plex s1) (toks 5 a @ x # ts)"
    using y by auto
  have "stops 5 (fst x)" using g(5) stops_mono by fastforce
  from parsesD [OF a g(1,2) lex_emitting [OF g(3) s1(2)] s1(3) this] obtain s2 where
    s2: "P 5 n C (expr N C) s1 = Some s2" "emitted C m s1 (code_of a) s2" "reads (plex s2) (x # ts)" "emitting C m s2" .
  from emit0_emitted [OF s2(4), of op] t obtain s3 where
    s3: "emit0 C op s2 = Some s3" "emitted C m s2 [instr0 op] s3" "plex s3 = plex s2" by auto
  have "reads (plex s3) (x # ts)" using s2(3) s3(3) by simp
  with no_postfix [OF this g(5)] have "P 4 n C (expr N C) s = Some s3"
    using t s1(1) s2(1) s3(1) by (auto simp: P_def factor_def reads_at [OF r] prefix_op_def)
  moreover have "emitted C m s (code_of a) s2" using emitted_lex [OF s2(2)] s1(2) by simp
  with s3(2) have "emitted C m s (code_of e) s3" using e(2) emitted_trans by metis
  ultimately show "\<exists>s'. P 4 n C (expr N C) s = Some s' \<and> emitted C m s (code_of e) s' \<and> reads (plex s') (x # ts)"
    using \<open>reads (plex s3) (x # ts)\<close> by blast
qed

subsection \<open>All levels\<close>

lemma lower_levels:
  assumes "parses C m j e f" "j \<le> 4" "0 < f" "\<And>k. k < j \<Longrightarrow> toks k e = toks (Suc k) e"
  shows "k \<le> j \<Longrightarrow> parses C m k e f \<and> (k < j \<longrightarrow> continues C m k e f)"
proof (induction rule: inc_induct)
  case (step n)
  have "continues C m n e f"
    using step assms by (intro parses_continues) auto
  then show ?case using continues_parses [of C m n e f] step assms(2) by simp
qed (use assms(1) in simp)

lemma levels_from_singleton:
  assumes a: "parses C m 5 e f" and f: "0 < f" and t: "\<And>k. toks k e = toks 5 e"
    and h: "fst (hd (toks 5 e)) \<notin> {T_MINUS, T_PLUS, T_INC, T_DEC, T_BANG}"
  shows "(\<forall>k \<le> 5. parses C m k e f) \<and> (\<forall>k < 4. continues C m k e f)"
proof -
  have "parses C m 4 e f" using singleton_factor [OF a t h] .
  moreover have "toks k e = toks (Suc k) e" for k using t [of k] t [of "Suc k"] by (rule trans [OF _ sym])
  ultimately have l: "k \<le> 4 \<Longrightarrow> parses C m k e f \<and> (k < 4 \<longrightarrow> continues C m k e f)" for k
    using lower_levels [OF _ order_refl f] by blast
  have "k \<le> 5 \<Longrightarrow> k \<le> 4 \<or> k = 5" for k :: nat by linarith
  with l a show ?thesis by (metis less_imp_le)
qed

lemma levels_from_factor:
  assumes a: "parses C m 4 e f" and f: "0 < f" and t: "\<And>k. k \<le> 4 \<Longrightarrow> toks k e = toks 4 e" "toks 5 e = parens True (toks 0 e)"
  shows "(\<forall>k \<le> 5. parses C m k e (Suc f)) \<and> (\<forall>k < 4. continues C m k e (Suc f))"
proof -
  have l: "k \<le> 4 \<Longrightarrow> parses C m k e f \<and> (k < 4 \<longrightarrow> continues C m k e f)" for k
  proof (rule lower_levels [OF a order_refl f])
    fix k :: nat
    assume "k < 4"
    then have "k \<le> 4" "Suc k \<le> 4" by auto
    then show "toks k e = toks (Suc k) e" using t(1) [of k] t(1) [of "Suc k"] by (metis trans sym)
  qed
  have "parses C m 5 e (Suc f)" using paren_parses [OF conjunct1 [OF l [of 0]] t(2)] by simp
  moreover have "parses C m k e (Suc f)" if "k \<le> 4" for k using l [OF that] parses_mono [of C m k e f "Suc f"] by simp
  ultimately have "parses C m k e (Suc f)" if "k \<le> 5" for k using that by (cases "k = 5") auto
  moreover have "continues C m k e (Suc f)" if "k < 4" for k using l [of k] that continues_mono [of C m k e f "Suc f"] by simp
  ultimately show ?thesis by blast
qed

lemma op_levels:
  assumes o: "opcode_of t = Some op" and a: "continues C m (prec t) a fa" and b: "parses C m (Suc (prec t)) b fb"
  shows "(\<forall>k \<le> 5. parses C m k (Op t a b) (fa + fb + 3)) \<and> (\<forall>k < 4. continues C m k (Op t a b) (fa + fb + 3))"
proof -
  let ?e = "Op t a b" and ?j = "prec t" and ?f = "Suc (Suc (fa + fb))"
  have j: "?j < 4" using prec_level [OF o] by simp
  have c: "continues C m ?j ?e ?f" using op_continues [OF o a b] .
  have l: "parses C m k ?e ?f \<and> (k < ?j \<longrightarrow> continues C m k ?e ?f)" if "k \<le> ?j" for k
    by (rule lower_levels [OF continues_parses [OF c j] _ _ _ that]) (use j in \<open>auto simp: parens_def\<close>)
  have t: "toks k ?e = toks 5 ?e" if "?j < k" for k using that j by (simp add: parens_def)
  have p5: "parses C m 5 ?e (fa + fb + 3)"
    using paren_parses [of C m ?e ?f] l [of 0] j by (simp add: parens_def eval_nat_numeral)
  have "fst (hd (toks 5 ?e)) \<notin> {T_MINUS, T_PLUS, T_INC, T_DEC, T_BANG}" using j by (simp add: parens_def)
  from singleton_factor [OF p5 t this] j have p4: "parses C m 4 ?e (fa + fb + 3)" by simp
  have "parses C m k ?e (fa + fb + 3) \<and> (k < 4 \<longrightarrow> continues C m k ?e (fa + fb + 3))" if "?j < k" "k \<le> 4" for k
    using that(2,1)
  proof (induction rule: inc_induct)
    case (step n)
    have "continues C m n ?e (fa + fb + 3)"
      using step t [of n] t [of "Suc n"] by (intro parses_continues) auto
    then show ?case using continues_parses step by blast
  qed (use p4 in simp)
  moreover have "parses C m k ?e (fa + fb + 3) \<and> continues C m k ?e (fa + fb + 3)" if "k \<le> ?j" for k
    using l [OF that] c parses_mono [of C m k ?e ?f "fa + fb + 3"] continues_mono [of C m k ?e ?f "fa + fb + 3"] that
    by (cases "k = ?j") auto
  ultimately have "parses C m k ?e (fa + fb + 3) \<and> (k < 4 \<longrightarrow> continues C m k ?e (fa + fb + 3))" if "k \<le> 4" for k
    using that by (cases "k \<le> ?j") auto
  moreover have "k \<le> 5 \<Longrightarrow> k \<le> 4 \<or> k = 5" for k :: nat by linarith
  ultimately show ?thesis using p5 by (metis less_imp_le)
qed

lemma all_levels:
  "exp_ok e \<Longrightarrow> (\<forall>k \<le> 5. parses C m k e (fuel e)) \<and> (\<forall>k < 4. continues C m k e (fuel e))"
proof (induction e)
  case (Lit x)
  show ?case using levels_from_singleton [OF lit_parses [of C m x]] by simp
next
  case Tru
  show ?case using levels_from_singleton [OF bool_parses [of Tru T_YYTRUE 1]] by simp
next
  case Fals
  show ?case using levels_from_singleton [OF bool_parses [of Fals T_YYFALSE 0]] by simp
next
  case (Neg a)
  then have "parses C m 4 (Neg a) (fuel a)" by (intro prefix_parses [of C m a _ _ T_MINUS OP_NEGATE]) (auto simp: parens_def)
  moreover have "0 < fuel a" by (cases a) auto
  ultimately show ?case using levels_from_factor [of C m "Neg a" "fuel a"] by (simp add: parens_def)
next
  case (LogNot a)
  then have "parses C m 4 (LogNot a) (fuel a)" by (intro prefix_parses [of C m a _ _ T_BANG OP_NOT]) (auto simp: parens_def)
  moreover have "0 < fuel a" by (cases a) auto
  ultimately show ?case using levels_from_factor [of C m "LogNot a" "fuel a"] by (simp add: parens_def)
next
  case (Op t a b)
  then obtain op where o: "opcode_of t = Some op" and ab: "exp_ok a" "exp_ok b" by auto
  have "prec t < 4" using prec_level [OF o] by simp
  then have "continues C m (prec t) a (fuel a)" "parses C m (Suc (prec t)) b (fuel b)"
    using Op.IH ab by auto
  from op_levels [OF o this] show ?case by simp
qed

end
