(* ===== verification/Parser_Text.thy ===== *)
theory Parser_Text
  imports Parser_Spec Lexer_Spec
begin

section \<open>From text to tokens\<close>

text \<open>
  Tokens are printed with a blank after each of them. The lexer reads the text back, so that the
  theorems on the parser, whose hypothesis is what the lexer returns, hold for source text.
\<close>

subsection \<open>Spelling\<close>

definition spellings :: "(token \<times> string) list" where
  "spellings = map (\<lambda>(w, t). (t, w)) (keyword_table @ operators)"

definition spell :: "token \<times> string \<Rightarrow> string" where
  "spell x = (if fst x \<in> {T_INT, T_ID} then snd x else the (map_of spellings (fst x)))"

definition print :: "(token \<times> string) list \<Rightarrow> string" where
  "print ts = concat (map (\<lambda>x. spell x @ '' '') ts)"

text \<open>A name, and a token that is read back from its spelling.\<close>

definition is_name :: "string \<Rightarrow> bool" where
  "is_name w \<longleftrightarrow> w \<noteq> [] \<and> (isalpha (schar (hd w)) \<or> hd w = CHR ''_'') \<and> (\<forall>c\<in>set w. isident (schar c))
     \<and> length w < LEX_TOKE_BUF"

definition token_ok :: "token \<times> string \<Rightarrow> bool" where
  "token_ok x \<longleftrightarrow>
     (if fst x = T_INT then snd x \<noteq> [] \<and> (\<forall>c\<in>set (snd x). isdigit (schar c)) \<and> length (snd x) < LEX_TOKE_BUF
      else if fst x = T_ID then is_name (snd x) \<and> keyword (snd x) = T_ID
      else fst x \<in> set (map snd (keyword_table @ operators)))"

definition char_ok :: "char \<Rightarrow> bool" where
  "char_ok c \<longleftrightarrow> schar c \<noteq> -1"

lemma spellings_known:
  "t \<in> set (map snd (keyword_table @ operators)) \<Longrightarrow> t \<noteq> T_INT \<and> t \<noteq> T_ID
     \<and> (\<exists>w. map_of spellings t = Some w \<and> ((w, t) \<in> set keyword_table \<or> (w, t) \<in> set operators))"
  by (auto simp: spellings_def keyword_table_def operators_def)

lemma keyword_names: "(w, t) \<in> set keyword_table \<Longrightarrow> is_name w"
  unfolding keyword_table_def
  apply (simp only: list.set insert_iff empty_iff prod.inject)
  by (elim disjE conjE; simp add: is_name_def isident_def ctype_defs schar_def LEX_TOKE_BUF_def)

lemma keyword_spelling: "(w, t) \<in> set keyword_table \<Longrightarrow> is_name w \<and> keyword w = t"
proof -
  assume k: "(w, t) \<in> set keyword_table"
  moreover have "distinct (map fst keyword_table)" by (simp add: keyword_table_def)
  ultimately show ?thesis using keyword_names by (simp add: keyword_def)
qed

lemma blank_ends: "ends isident (CHR '' '' # s)" "ends isnumcont (CHR '' '' # s)"
  by (simp_all add: ends_def isident_def isnumcont_def ctype_defs schar_def)

lemma operator_spelling:
  "(w, t) \<in> set operators \<Longrightarrow> longest_operator (w @ CHR '' '' # s) = Some (t, CHR '' '' # s)
     \<and> take 2 (w @ CHR '' '' # s) \<noteq> ''//'' \<and> take 2 (w @ CHR '' '' # s) \<noteq> ''/*'' \<and> list_all char_ok w"
  unfolding operators_def
  apply (simp only: list.set insert_iff empty_iff prod.inject)
  by (elim disjE conjE; simp add: longest_operator_def operators_def char_ok_def schar_def)

subsection \<open>One token\<close>

lemma lexes_token:
  assumes x: "token_ok x" and b: "blank_then (rest l) (spell x @ CHR '' '' # s)" and s: "list_all char_ok s"
  shows "\<exists>l'. jsppLex l = (fst x, l') \<and> rest l' = CHR '' '' # s \<and> overrun l' = overrun l \<and> tok_is l' x"
proof -
  let ?s = "CHR '' '' # s"
  have word: "\<exists>l'. jsppLex l = (fst x, l') \<and> rest l' = ?s \<and> overrun l' = overrun l \<and> tok_is l' x"
    if w: "is_name w" "spell x = w" "keyword w = fst x" "fst x = T_ID \<longrightarrow> snd x = w" "fst x \<noteq> T_INT" for w
  proof -
    from w(1) have n: "w \<noteq> []" "isalpha (schar (hd w)) \<or> hd w = CHR ''_''" "\<forall>c\<in>set w. isident (schar c)"
      "length w < LEX_TOKE_BUF" by (simp_all add: is_name_def)
    from word_token [OF _ n(1-3) blank_ends(1), of l s] b w(2) obtain l' where
      "jsppLex l = (keyword w, l')" "lex l' = w" "rest l' = ?s"
      "overrun l' \<longleftrightarrow> overrun l \<or> LEX_TOKE_BUF \<le> length w" "token l' = Some (keyword w)" by auto
    with n(4) w show ?thesis by (auto simp: tok_is_def)
  qed
  consider "fst x = T_INT" | "fst x = T_ID" | w where "map_of spellings (fst x) = Some w" "(w, fst x) \<in> set keyword_table"
      "fst x \<noteq> T_INT" "fst x \<noteq> T_ID"
    | w where "map_of spellings (fst x) = Some w" "(w, fst x) \<in> set operators" "fst x \<noteq> T_INT" "fst x \<noteq> T_ID"
    using x spellings_known [of "fst x"] by (auto simp: token_ok_def split: if_splits)
  then show ?thesis
  proof cases
    case 1
    with x have n: "snd x \<noteq> []" "\<forall>c\<in>set (snd x). isdigit (schar c)" "length (snd x) < LEX_TOKE_BUF"
      by (simp_all add: token_ok_def)
    from int_token [OF _ n(1,2) blank_ends(2), of l s] b 1 obtain l' where
      "jsppLex l = (T_INT, l')" "lex l' = snd x" "rest l' = ?s"
      "overrun l' \<longleftrightarrow> overrun l \<or> LEX_TOKE_BUF \<le> length (snd x)" "token l' = Some T_INT" by (auto simp: spell_def)
    with n(3) 1 show ?thesis by (auto simp: tok_is_def)
  next
    case 2
    with x show ?thesis by (intro word [of "snd x"]) (simp_all add: token_ok_def spell_def)
  next
    case 3
    with keyword_spelling [OF 3(2)] show ?thesis by (intro word [of w]) (simp_all add: spell_def)
  next
    case 4
    note o = operator_spelling [OF 4(2), of s]
    have "spell x = w" using 4 by (simp add: spell_def)
    moreover have "\<forall>c\<in>set (w @ ?s). schar c \<noteq> -1"
      using o s by (auto simp: list_all_iff char_ok_def schar_def)
    ultimately have "\<exists>l'. jsppLex l = (fst x, l') \<and> rest l' = ?s \<and> overrun l' = overrun l \<and> token l' = Some (fst x)"
      using b o by (intro operator_token [of l "w @ ?s"]) auto
    with 4 show ?thesis by (auto simp: tok_is_def)
  qed
qed

lemma space: "isws (schar CHR '' '')"
  by (simp add: isws_def ctype_defs schar_def)

lemma reads_end:
  assumes "rest l = '' ''"
  shows "\<exists>l'. jsppLex l = (T_JEOF, l') \<and> overrun l' = overrun l \<and> tok_is l' (T_JEOF, [])"
proof -
  have "rest l = '' '' @ []" "\<forall>x\<in>set '' ''. isws (schar x)" "ends isws []"
    using assms space by (auto simp: ends_def isws_def ctype_defs)
  then have r: "rest (stripWS l) = []" "overrun (stripWS l) = overrun l"
    using stripWS_rest [of l _ "[]"] by (auto simp: lex_same_def)
  from getch_end [OF this(1)] show ?thesis
    using r(2) by (subst jsppLex.simps) (simp add: settoken_def tok_is_def)
qed

lemma blank_then_init: "blank_then (rest (lex_init s 0)) s" "\<not> overrun (lex_init s 0)"
  unfolding blank_then_def by (rule exI [of _ "[]"]) (simp_all add: lex_init_def rest_def)

subsection \<open>The text of a list of tokens\<close>

lemma print_simps [simp]: "print [] = []" "print (x # ts) = spell x @ CHR '' '' # print ts"
  by (simp_all add: print_def)

lemma token_chars: "token_ok x \<Longrightarrow> list_all char_ok (spell x)"
proof -
  have names: "list_all char_ok w" if "is_name w" for w
    using that by (auto simp: is_name_def list_all_iff char_ok_def isident_def ctype_defs)
  have digits: "list_all char_ok w" if "\<forall>c\<in>set w. isdigit (schar c)" for w
    using that by (auto simp: list_all_iff char_ok_def isdigit_def)
  assume "token_ok x"
  then consider "fst x = T_INT" "\<forall>c\<in>set (snd x). isdigit (schar c)" | "fst x = T_ID" "is_name (snd x)"
    | w where "spell x = w" "(w, fst x) \<in> set keyword_table \<or> (w, fst x) \<in> set operators"
    using spellings_known [of "fst x"] by (fastforce simp: token_ok_def spell_def split: if_splits)
  then show ?thesis
    using keyword_names operator_spelling [THEN conjunct2, THEN conjunct2, THEN conjunct2] names digits
    by cases (auto simp: spell_def)
qed

lemma print_chars: "list_all token_ok ts \<Longrightarrow> list_all char_ok (print ts)"
  using token_chars by (induction ts) (auto simp: char_ok_def schar_def)

lemma reads_print:
  assumes "list_all token_ok ts" "ts \<noteq> []" "blank_then (rest l) (print ts)" "\<not> overrun l"
  shows "reads (snd (jsppLex l)) (ts @ [(T_JEOF, [])]) \<and> \<not> overrun (snd (jsppLex l))"
  using assms
proof (induction ts arbitrary: l)
  case (Cons x ts)
  from Cons.prems have x: "token_ok x" "list_all token_ok ts" by simp_all
  obtain l' where l': "jsppLex l = (fst x, l')" "rest l' = CHR '' '' # print ts" "\<not> overrun l'" "tok_is l' x"
    using lexes_token [OF x(1), of l "print ts"] print_chars [OF x(2)] Cons.prems by auto
  show ?case
  proof (cases ts)
    case Nil
    with l' reads_end [of l'] show ?thesis by (auto simp: reads.simps)
  next
    case (Cons y ys)
    have "blank_then (rest l') (print ts)"
      unfolding blank_then_def l'(2) by (rule exI [of _ "'' ''"]) (simp add: space)
    with Cons.IH [OF x(2)] Cons l' show ?thesis by (auto simp: reads.simps)
  qed
qed simp

text \<open>C8. Printing and lexing. A list of int literals, names, keywords and operators, printed with a
  blank after each token, is read back by the lexer: successive calls of \<open>jsppLex\<close> return the
  tokens in order with the texts of the names and literals, without writing past the token
  buffer, and then the end of the input.\<close>
theorem text_reads:
  assumes "list_all token_ok ts" and "ts \<noteq> []"
  shows "reads (snd (jsppLex (lex_init (print ts) 0))) (ts @ [(T_JEOF, [])])
    \<and> \<not> overrun (snd (jsppLex (lex_init (print ts) 0)))"
  by (rule reads_print [OF assms blank_then_init])

theorem text_reads_witness:
  "reads (snd (jsppLex (lex_init ''7 - x ; '' 0))) [(T_INT, ''7''), (T_MINUS, []), (T_ID, ''x''), (T_SEMI, []), (T_JEOF, [])]"
proof -
  let ?ts = "[(T_INT, ''7''), (T_MINUS, []), (T_ID, ''x''), (T_SEMI, [])]"
  have "list_all token_ok ?ts"
    by (simp add: token_ok_def is_name_def keyword_def keyword_table_def operators_def isdigit_def isident_def ctype_defs
        schar_def LEX_TOKE_BUF_def)
  moreover have "print ?ts = ''7 - x ; ''"
    by (simp add: spell_def spellings_def keyword_table_def operators_def)
  ultimately show ?thesis using text_reads [of ?ts] by (simp del: print_simps)
qed

subsection \<open>Expressions\<close>

lemma expr_emits:
  assumes "exp_ok e" and "emitting C m s" and "reads (plex s) (toks 0 e @ x # ts)" and "stops 0 (fst x)"
  shows "\<exists>s'. expr (fuel e + 1 + n) C s = Some s' \<and> emitted C m s (code_of e) s' \<and> reads (plex s') (x # ts)"
proof -
  from all_levels [OF assms(1)] have p: "parses C m 0 e (fuel e)" by blast
  have "fuel e \<le> fuel e + 1 + n" "fuel e \<le> fuel e + n" by simp_all
  from parsesD [OF p this assms(2-4)] obtain s' where
    "P 0 (fuel e + 1 + n) C (expr (fuel e + n) C) s = Some s'" "emitted C m s (code_of e) s'" "reads (plex s') (x # ts)" .
  then show ?thesis by (intro exI [of _ s']) (simp add: P_def)
qed

text \<open>C7. Expressions compile to their postfix listing. While code is emitted for a method, let the
  lexer return the tokens of an expression of literals and operators, with parentheses where
  the precedence of the operators asks for them, up to a token that does not continue it. Then
  \<open>expr\<close> reads exactly these tokens without an error, and emits for the method exactly the
  expression's listing in postfix order: left associative, the levels in the order of the grammar.\<close>
theorem expr_compiles:
  assumes "exp_ok e" and "emitting C m s" and "reads (plex s) (toks 0 e @ x # ts)" and "stops 0 (fst x)"
  shows "\<exists>s'. expr (fuel e + 1 + n) C s = Some s' \<and> emitted C m s (code_of e) s' \<and> reads (plex s') (x # ts)"
  by (rule expr_emits [OF assms])

lemma stops_semi: "stops k T_SEMI"
  by (auto simp: stops_def level_def op_tables split: if_splits)

definition cx_a :: "((int \<Rightarrow> uint16), int) pcx" where
  "cx_a = \<lparr>clib = fun_lib, cext = int_ext, cprog = 0, cdepth = 1, note_add = (\<lambda>m k v. Some (m(k \<mapsto> v)))\<rparr>"

theorem expr_compiles_witness:
  "\<exists>s'. expr 7 cx_a \<lparr>plex = snd (jsppLex (lex_init ''7 - 9 ; '' 0)), pps = pstate_a\<rparr> = Some s' \<and> at T_SEMI s'"
proof -
  let ?e = "Op T_MINUS (Lit ''7'') (Lit ''9'')" and ?ts = "[(T_INT, ''7''), (T_MINUS, []), (T_INT, ''9''), (T_SEMI, [])]"
  let ?s = "\<lparr>plex = snd (jsppLex (lex_init ''7 - 9 ; '' 0)), pps = pstate_a\<rparr>"
  have "list_all token_ok ?ts"
    by (simp add: token_ok_def keyword_table_def operators_def isdigit_def schar_def LEX_TOKE_BUF_def)
  moreover have "print ?ts = ''7 - 9 ; ''"
    by (simp add: spell_def spellings_def keyword_table_def operators_def)
  moreover have "toks 0 ?e = [(T_INT, ''7''), (T_MINUS, []), (T_INT, ''9'')]"
    by (simp add: parens_def prec_def op_tables)
  ultimately have r: "reads (plex ?s) (toks 0 ?e @ (T_SEMI, []) # [(T_JEOF, [])])"
    using reads_print [of ?ts "lex_init ''7 - 9 ; '' 0"] blank_then_init [of "''7 - 9 ; ''"] by (simp del: print_simps)
  have "errornum program_a = 0" "0 \<le> mpc method_a" by (simp_all add: program_a_def method_a_def)
  then have "emitting cx_a 1 ?s" unfolding emitting_def cx_a_def using building_a fun_i16_ok by auto
  moreover have "exp_ok ?e" by (simp add: opcode_of_def op_tables)
  ultimately show ?thesis using expr_compiles [of ?e cx_a 1 ?s, OF _ _ r, of 1] by (auto simp: eval_nat_numeral stops_semi dest: reads_at)
qed

end
