(* ===== verification/Frames.thy ===== *)
theory Frames
  imports Program
begin

section \<open>The interpreter's stack, frames and blocks, jspp/src/interpinner.c\<close>

text \<open>
  A \<open>qinterp\<close> holds the programs and classes, the evaluation stack and the frames of the calls
  in progress, the current one first. The variants are in the store of the world: those of the
  stack at \<open>Stk 0\<close>, \<open>Stk 1\<close>, up to \<open>nstack\<close>, the locals of the frame with address f at
  \<open>Local f 0\<close>, \<open>Local f 1\<close>, up to \<open>nlocals\<close>, its result at \<open>Retval f\<close>. A vector of C structs
  owns its elements, so an element taken off it is no longer in the store. Blocks are listed
  innermost first. That a vector moves when it grows, which leaves pointers into it dangling, is
  not modelled.

  A step is None where the C code reads or pops an element that is not there, follows a null
  pointer or reads freed memory.
\<close>

datatype InterpErrors = IERR_NONE | IERR_OUT_OF_MEM | IERR_MAIN_CLASS_NOT_FOUND | IERR_CLASS_NOT_FOUND
  | IERR_UNKNOWN_METHOD | IERR_UNKNOWN_OPCODE | IERR_FIELD_NOT_FOUND | IERR_TYPE_MISMATCH
  | IERR_INTERNAL_ERROR1 | IERR_INTERNAL_ERROR2 | IERR_BAD_BREAK | IERR_BAD_CONTINUE | IERR_EXCEPTION
  | IERR_CALL_REQUIRES_THIS | IERR_INDEX_OUT_OF_BOUNDS | IERR_WRONG_ARRAY_INDEXS | IERR_RETURN

record blockframe =
  localcount :: int
  breakpc :: int
  blockcount :: int
  catchpc :: int

record stackframe =
  fid :: nat
  ctx :: nat
  fmethod :: "nat option"
  nlocals :: nat
  blockframes :: "blockframe list"
  ferr :: InterpErrors
  stackcount :: int
  fpc :: int

record ('c, 'f) qinterp =
  ps :: "('c, 'f) pstate"
  programs :: "nat list"
  qclasses :: "string \<rightharpoonup> nat"
  nstack :: nat
  frames :: "stackframe list"
  stkframecache :: "nat list"
  linenum :: int32

text \<open>
  What is not under src/: floats and strings as before, the string functions calls use, and the
  native methods and fields, which get the place of their result.
\<close>

record ('c, 'f) env =
  ex :: "'f ext"
  lb :: "'c lib"
  st_index :: "string \<Rightarrow> string \<Rightarrow> int"
  st_left :: "string \<Rightarrow> int \<Rightarrow> string"
  st_subend :: "string \<Rightarrow> int \<Rightarrow> string"
  st_replace :: "string \<Rightarrow> char \<Rightarrow> char \<Rightarrow> string"
  call_native :: "nat \<Rightarrow> nat \<Rightarrow> loc \<Rightarrow> ('c, 'f) qinterp \<Rightarrow> (InterpErrors \<times> ('c, 'f) qinterp) option"
  call_field :: "nat \<Rightarrow> vardef \<Rightarrow> loc \<Rightarrow> ('c, 'f) qinterp \<Rightarrow> (InterpErrors \<times> ('c, 'f) qinterp) option"

subsection \<open>Access to the parts\<close>

definition qworld :: "('c, 'f) qinterp \<Rightarrow> ('c, 'f) world" where
  "qworld q = wld (ps q)"

definition set_world :: "('c, 'f) world \<Rightarrow> ('c, 'f) qinterp \<Rightarrow> ('c, 'f) qinterp" where
  "set_world w q = q\<lparr>ps := (ps q)\<lparr>wld := w\<rparr>\<rparr>"

definition qmem :: "('c, 'f) qinterp \<Rightarrow> (loc, 'f) mem" where
  "qmem q = store (qworld q)"

definition set_mem :: "(loc, 'f) mem \<Rightarrow> ('c, 'f) qinterp \<Rightarrow> ('c, 'f) qinterp" where
  "set_mem st q = set_world ((qworld q)\<lparr>store := st\<rparr>) q"

text \<open>Operations on variants and allocation, in the state of the interpreter.\<close>

definition onmem :: "((loc, 'f) mem \<Rightarrow> ('a \<times> (loc, 'f) mem) option) \<Rightarrow> ('c, 'f) qinterp \<Rightarrow> ('a \<times> ('c, 'f) qinterp) option" where
  "onmem f q = do { (a, st) \<leftarrow> f (qmem q); Some (a, set_mem st q) }"

definition domem :: "((loc, 'f) mem \<Rightarrow> (loc, 'f) mem option) \<Rightarrow> ('c, 'f) qinterp \<Rightarrow> ('c, 'f) qinterp option" where
  "domem f q = do { st \<leftarrow> f (qmem q); Some (set_mem st q) }"

definition onworld :: "(('c, 'f) world \<Rightarrow> 'a \<times> ('c, 'f) world) \<Rightarrow> ('c, 'f) qinterp \<Rightarrow> 'a \<times> ('c, 'f) qinterp" where
  "onworld f q = (let (a, w) = f (qworld q) in (a, set_world w q))"

definition qfree :: "nat \<Rightarrow> ('c, 'f) qinterp \<Rightarrow> ('c, 'f) qinterp" where
  "qfree n q = set_world (free_blocks n (qworld q)) q"

definition var_at :: "('c, 'f) qinterp \<Rightarrow> loc \<Rightarrow> (loc, 'f) variant option" where
  "var_at q l = vars (qmem q) l"

definition set_var :: "loc \<Rightarrow> (loc, 'f) variant \<Rightarrow> ('c, 'f) qinterp \<Rightarrow> ('c, 'f) qinterp" where
  "set_var l v q = set_mem ((qmem q)\<lparr>vars := (vars (qmem q))(l \<mapsto> v)\<rparr>) q"

definition del_var :: "loc \<Rightarrow> ('c, 'f) qinterp \<Rightarrow> ('c, 'f) qinterp" where
  "del_var l q = set_mem ((qmem q)\<lparr>vars := (vars (qmem q))(l := None)\<rparr>) q"

definition cur :: "('c, 'f) qinterp \<Rightarrow> stackframe option" where
  "cur q = (case frames q of [] \<Rightarrow> None | sf # _ \<Rightarrow> Some sf)"

definition set_cur :: "stackframe \<Rightarrow> ('c, 'f) qinterp \<Rightarrow> ('c, 'f) qinterp" where
  "set_cur sf q = q\<lparr>frames := sf # tl (frames q)\<rparr>"

definition set_err :: "InterpErrors \<Rightarrow> ('c, 'f) qinterp \<Rightarrow> ('c, 'f) qinterp option" where
  "set_err e q = map_option (\<lambda>sf. set_cur (sf\<lparr>ferr := e\<rparr>) q) (cur q)"

definition set_pc :: "int \<Rightarrow> ('c, 'f) qinterp \<Rightarrow> ('c, 'f) qinterp option" where
  "set_pc pc q = map_option (\<lambda>sf. set_cur (sf\<lparr>fpc := pc\<rparr>) q) (cur q)"

subsection \<open>The evaluation stack\<close>

definition stackPeekN :: "('c, 'f) qinterp \<Rightarrow> int \<Rightarrow> loc option" where
  "stackPeekN q n = (if 0 \<le> n \<and> n < int (nstack q) then Some (Stk (nstack q - 1 - nat n)) else None)"

definition stackPeek0 :: "('c, 'f) qinterp \<Rightarrow> loc option" where
  "stackPeek0 q = stackPeekN q 0"

definition stackPeek1 :: "('c, 'f) qinterp \<Rightarrow> loc option" where
  "stackPeek1 q = stackPeekN q 1"

definition push_raw :: "(loc, 'f) variant \<Rightarrow> ('c, 'f) qinterp \<Rightarrow> ('c, 'f) qinterp" where
  "push_raw v q = (set_var (Stk (nstack q)) v q)\<lparr>nstack := nstack q + 1\<rparr>"

text \<open>Taking the top off: as it is (\<open>vectorPop\<close>), or after a function has released it.\<close>

definition drop_top :: "('c, 'f) qinterp \<Rightarrow> ('c, 'f) qinterp" where
  "drop_top q = (if nstack q = 0 then q else (del_var (Stk (nstack q - 1)) q)\<lparr>nstack := nstack q - 1\<rparr>)"

definition pop_with ::
  "(loc \<Rightarrow> (loc, 'f) mem \<Rightarrow> (loc, 'f) mem option) \<Rightarrow> ('c, 'f) qinterp \<Rightarrow> ('c, 'f) qinterp option" where
  "pop_with release q = do {
     l \<leftarrow> stackPeek0 q;
     q \<leftarrow> domem (release l) q;
     Some (drop_top q) }"

definition stackPop :: "('c, 'f) env \<Rightarrow> ('c, 'f) qinterp \<Rightarrow> ('c, 'f) qinterp option" where
  "stackPop E = pop_with (varClear (ex E))"

text \<open>A plain value is copied, anything else assigned to a new element.\<close>

definition stackPush :: "('c, 'f) env \<Rightarrow> loc \<Rightarrow> ('c, 'f) qinterp \<Rightarrow> (bool \<times> ('c, 'f) qinterp) option" where
  "stackPush E l q = do {
     v \<leftarrow> var_at q l;
     let (ok, q) = onworld grow q;
     if \<not> ok then Some (False, q)
     else if jstype_code TYPE_INST > jstype_code (vtype v) then Some (True, push_raw v q)
     else do {
       let q = push_raw void_variant q;
       top \<leftarrow> stackPeek0 q;
       onmem (varAssign (ex E) top l) q } }"

text \<open>\<open>while ( vectorCount(stack) > count )\<close>, popping; k is the height of the stack.\<close>

primrec trim_with ::
  "(loc \<Rightarrow> (loc, 'f) mem \<Rightarrow> (loc, 'f) mem option) \<Rightarrow> int \<Rightarrow> nat \<Rightarrow> ('c, 'f) qinterp \<Rightarrow> ('c, 'f) qinterp option" where
  "trim_with release count 0 q = (if 0 > count then None else Some q)"
| "trim_with release count (Suc k) q =
     (if int (Suc k) > count then do { q \<leftarrow> pop_with release q; trim_with release count k q } else Some q)"

text \<open>
  The instance a method was called on; the inner option is null, the pointer that a variant without
  a value holds, as it is in the first local of a static method.
\<close>

definition stackGetThis :: "('c, 'f) qinterp \<Rightarrow> nat option option" where
  "stackGetThis q = do {
     sf \<leftarrow> cur q;
     v \<leftarrow> var_at q (Local (fid sf) 0);
     v \<leftarrow> (if vtype v = TYPE_PTR then do { vp \<leftarrow> as_ptr (data v); var_at q vp } else Some v);
     (case data v of
        DInst i \<Rightarrow> Some (Some i)
      | DNull \<Rightarrow> Some None
      | DI k \<Rightarrow> if k = 0 then Some None else None
      | _ \<Rightarrow> None) }"

subsection \<open>Blocks\<close>

definition setBreak :: "stackframe \<Rightarrow> int \<Rightarrow> stackframe option" where
  "setBreak sf pc =
     (case blockframes sf of [] \<Rightarrow> None | b # bs \<Rightarrow>
        Some (sf\<lparr>blockframes := b\<lparr>blockcount := int (length (b # bs)), breakpc := pc\<rparr> # bs\<rparr>))"

definition getBreak :: "stackframe \<Rightarrow> int" where
  "getBreak sf = (case blockframes sf of [] \<Rightarrow> -1 | b # _ \<Rightarrow> breakpc b)"

definition getBreakBlockCount :: "stackframe \<Rightarrow> int" where
  "getBreakBlockCount sf = (case blockframes sf of [] \<Rightarrow> 0 | b # _ \<Rightarrow> blockcount b)"

definition localCount :: "stackframe \<Rightarrow> int" where
  "localCount sf = (case blockframes sf of [] \<Rightarrow> 0 | b # _ \<Rightarrow> localcount b)"

primrec add_locals :: "nat \<Rightarrow> ('c, 'f) qinterp \<Rightarrow> (bool \<times> ('c, 'f) qinterp) option" where
  "add_locals 0 q = Some (True, q)"
| "add_locals (Suc k) q = do {
     sf \<leftarrow> cur q;
     let (ok, q) = onworld grow q;
     if \<not> ok then Some (False, q)
     else add_locals k (set_cur (sf\<lparr>nlocals := nlocals sf + 1\<rparr>) (set_var (Local (fid sf) (nlocals sf)) void_variant q)) }"

definition enterBlock :: "int \<Rightarrow> ('c, 'f) qinterp \<Rightarrow> (bool \<times> ('c, 'f) qinterp) option" where
  "enterBlock count q = do {
     (ok, q) \<leftarrow> add_locals (nat count) q;
     if \<not> ok then Some (False, q)
     else do {
       sf \<leftarrow> cur q;
       let bf = \<lparr>localcount = count, breakpc = getBreak sf, blockcount = getBreakBlockCount sf, catchpc = -1\<rparr>;
       let (ok, q) = onworld grow q;
       Some (True, if ok then set_cur (sf\<lparr>blockframes := bf # blockframes sf\<rparr>) q else q) } }"

primrec pop_locals ::
  "(loc \<Rightarrow> (loc, 'f) mem \<Rightarrow> (loc, 'f) mem option) \<Rightarrow> nat \<Rightarrow> ('c, 'f) qinterp \<Rightarrow> ('c, 'f) qinterp option" where
  "pop_locals release 0 q = Some q"
| "pop_locals release (Suc k) q = do {
     sf \<leftarrow> cur q;
     if nlocals sf = 0 then None
     else do {
       let l = Local (fid sf) (nlocals sf - 1);
       q \<leftarrow> domem (release l) q;
       pop_locals release k (set_cur (sf\<lparr>nlocals := nlocals sf - 1\<rparr>) (del_var l q)) } }"

definition leaveBlock :: "('c, 'f) env \<Rightarrow> ('c, 'f) qinterp \<Rightarrow> ('c, 'f) qinterp option" where
  "leaveBlock E q = do {
     sf \<leftarrow> cur q;
     q \<leftarrow> pop_locals (varClear (ex E)) (nat (localCount sf)) q;
     sf \<leftarrow> cur q;
     Some (set_cur (sf\<lparr>blockframes := tl (blockframes sf)\<rparr>) q) }"

definition setTry :: "stackframe \<Rightarrow> int \<Rightarrow> stackframe option" where
  "setTry sf pc =
     (case blockframes sf of [] \<Rightarrow> None | b # bs \<Rightarrow> Some (sf\<lparr>blockframes := b\<lparr>catchpc := pc\<rparr> # bs\<rparr>))"

text \<open>Blocks are left until one has a catch: the list is what is left to look at.\<close>

fun catch_loop :: "('c, 'f) env \<Rightarrow> blockframe list \<Rightarrow> ('c, 'f) qinterp \<Rightarrow> (int \<times> ('c, 'f) qinterp) option" where
  "catch_loop E [] q = Some (-1, q)"
| "catch_loop E (b # bs) q =
     (if catchpc b \<noteq> -1 then Some (catchpc b, q)
      else do { q \<leftarrow> leaveBlock E q; catch_loop E bs q })"

definition getCatch :: "('c, 'f) env \<Rightarrow> ('c, 'f) qinterp \<Rightarrow> (int \<times> ('c, 'f) qinterp) option" where
  "getCatch E q = do { sf \<leftarrow> cur q; catch_loop E (blockframes sf) q }"

text \<open>The loop of \<open>breakBlock\<close> goes on while there are too few blocks; None when it does not end.\<close>

partial_function (option) break_loop ::
  "('c, 'f) env \<Rightarrow> int \<Rightarrow> ('c, 'f) qinterp \<Rightarrow> ('c, 'f) qinterp option" where
  "break_loop E n q = do {
     sf \<leftarrow> cur q;
     if n > int (length (blockframes sf)) then do { q \<leftarrow> leaveBlock E q; break_loop E n q }
     else Some q }"

definition breakBlock :: "('c, 'f) env \<Rightarrow> ('c, 'f) qinterp \<Rightarrow> (int \<times> ('c, 'f) qinterp) option" where
  "breakBlock E q = do {
     sf \<leftarrow> cur q;
     (case blockframes sf of
        [] \<Rightarrow> Some (-1, q)
      | b # _ \<Rightarrow> do { q \<leftarrow> break_loop E (blockcount b) q; Some (breakpc b, q) }) }"

subsection \<open>Frames\<close>

text \<open>
  A frame comes from the cache or is allocated, and a new one gets vectors of its own; the memory
  of a failed allocation is written before it is tested. \<open>memset\<close> leaves the result void.
\<close>

definition enterFrame :: "nat \<Rightarrow> ('c, 'f) qinterp \<Rightarrow> (bool \<times> ('c, 'f) qinterp) option" where
  "enterFrame jsp q =
     (let enter = (\<lambda>f v q. Some (True, (set_var (Retval f) (v\<lparr>vtype := TYPE_VOID\<rparr>) q)\<lparr>frames :=
            \<lparr>fid = f, ctx = jsp, fmethod = None, nlocals = 0, blockframes = [], ferr = IERR_NONE,
             stackcount = int (nstack q), fpc = 0\<rparr> # frames q\<rparr>))
      in case stkframecache q of
           f # fs \<Rightarrow> do {
             let q = q\<lparr>stkframecache := fs\<rparr>;
             let (ok, q) = onworld grow q;
             if \<not> ok then Some (False, qfree 1 (del_var (Retval f) q))
             else do { v \<leftarrow> var_at q (Retval f); enter f v q } }
         | [] \<Rightarrow>
             (let (ok, q) = onworld take_block q in if \<not> ok then None else
              let (f, q) = onworld new_address q;
                  (ok, q) = onworld grow q
              in if \<not> ok then Some (False, qfree 1 q) else
              let (ok, q) = onworld take_block q in if \<not> ok then Some (False, qfree 1 q) else
              let (ok, q) = onworld take_block q in if \<not> ok then Some (False, qfree 2 q) else
              enter f void_variant q))"

definition getArgumentCount :: "('c, 'f) qinterp \<Rightarrow> nat option" where
  "getArgumentCount q = do {
     sf \<leftarrow> cur q;
     m \<leftarrow> fmethod sf;
     mp \<leftarrow> methods (qworld q) m;
     Some (length (margs mp)) }"

definition clear_locals :: "stackframe \<Rightarrow> ('c, 'f) qinterp \<Rightarrow> ('c, 'f) qinterp" where
  "clear_locals sf q =
     set_mem ((qmem q)\<lparr>vars := vars (qmem q) |` (- Local (fid sf) ` {..<nlocals sf})\<rparr>) (set_cur (sf\<lparr>nlocals := 0\<rparr>) q)"

definition leave_result :: "('c, 'f) env \<Rightarrow> ('c, 'f) qinterp \<Rightarrow> ('c, 'f) qinterp option" where
  "leave_result E q = do {
     sf \<leftarrow> cur q;
     hasret \<leftarrow> (case fmethod sf of None \<Rightarrow> Some False | Some m \<Rightarrow> map_option hasretval (methods (qworld q) m));
     if (hasret \<or> ferr sf = IERR_EXCEPTION) \<and> (ferr sf = IERR_NONE \<or> ferr sf = IERR_EXCEPTION)
     then do {
       (_, q) \<leftarrow> stackPush E (Retval (fid sf)) q;
       domem (VARCLEAR (ex E) (Retval (fid sf))) q }
     else Some q }"

definition leaveFrame :: "('c, 'f) env \<Rightarrow> bool \<Rightarrow> ('c, 'f) qinterp \<Rightarrow> ('c, 'f) qinterp option" where
  "leaveFrame E nopop q = do {
     sf \<leftarrow> cur q;
     q \<leftarrow> (if nopop then Some (clear_locals sf q) else pop_locals (VARCLEAR (ex E)) (nlocals sf) q);
     sf \<leftarrow> cur q;
     let q = set_cur (sf\<lparr>blockframes := []\<rparr>) q;
     q \<leftarrow> (if fmethod sf \<noteq> None \<and> \<not> nopop then do {
             n \<leftarrow> getArgumentCount q;
             trim_with (VARCLEAR (ex E)) (stackcount sf - int n) (nstack q) q }
           else Some q);
     q \<leftarrow> leave_result E q;
     let (ok, q) = onworld grow q;
     Some (q\<lparr>stkframecache := (if ok then fid sf # stkframecache q else stkframecache q),
             frames := tl (frames q)\<rparr>) }"

end
