(* ===== verification/Calls.thy ===== *)
theory Calls
  imports Frames
begin

section \<open>Calling methods, jspp/src/interpinner.c\<close>

text \<open>
  The calls enter a frame and a block, move the arguments from the stack into the locals, run the
  method and leave. A method runs natively or by \<open>run\<close>, the byte-code interpreter, which calls
  back here (theory Interp). The recursion over base classes is bounded by the depth of the C
  stack.

  A jsinst whose address is not in the store was freed, and reading it is None.
\<close>

type_synonym ('c, 'f) run = "('c, 'f) qinterp \<Rightarrow> (InterpErrors \<times> ('c, 'f) qinterp) option"

subsection \<open>Lookup\<close>

definition qinterpFindClass :: "('c, 'f) qinterp \<Rightarrow> string \<Rightarrow> nat option" where
  "qinterpFindClass q name = qclasses q name"

definition find_method :: "('c, 'f) qinterp \<Rightarrow> nat \<Rightarrow> string \<Rightarrow> nat option option" where
  "find_method q cl sig = map_option (\<lambda>jsp. jsclassFindMethod (methods (qworld q)) jsp sig) (classes (qworld q) cl)"

definition inst_class :: "('c, 'f) qinterp \<Rightarrow> nat \<Rightarrow> nat option" where
  "inst_class q i = map_option myclass (insts (qmem q) i)"

definition base_of :: "('c, 'f) qinterp \<Rightarrow> nat \<Rightarrow> nat option option" where
  "base_of q cl = map_option baseclass (classes (qworld q) cl)"

definition set_method_of_frame :: "nat option \<Rightarrow> ('c, 'f) qinterp \<Rightarrow> ('c, 'f) qinterp option" where
  "set_method_of_frame m q = map_option (\<lambda>sf. set_cur (sf\<lparr>fmethod := m\<rparr>) q) (cur q)"

definition elem :: "'a list \<Rightarrow> int \<Rightarrow> 'a option" where
  "elem xs k = (if 0 \<le> k \<and> k < int (length xs) then Some (xs ! nat k) else None)"

text \<open>The place an operand names; \<open>im\<close> is where an immediate goes, or null.\<close>

definition qinterpResolve ::
  "('c, 'f) env \<Rightarrow> mode \<Rightarrow> int32 \<Rightarrow> loc option \<Rightarrow> ('c, 'f) qinterp \<Rightarrow> (loc \<times> ('c, 'f) qinterp) option" where
  "qinterpResolve E am arg im q = do {
     sf \<leftarrow> cur q;
     if am = MODE_IM then do {
       l \<leftarrow> im;
       q \<leftarrow> domem (VARCLEAR (ex E) l) q;
       q \<leftarrow> domem (wr l (mk TYPE_INT (DI arg))) q;
       Some (l, q) }
     else if am = MODE_CONST then do {
       jsp \<leftarrow> classes (qworld q) (ctx sf);
       p \<leftarrow> constdata jsp;
       pp \<leftarrow> progs (ps q) p;
       l \<leftarrow> elem (map (Const p) [0..<ncdata pp]) (sint arg);
       Some (l, q) }
     else if am = MODE_CLASS then do {
       jsp \<leftarrow> classes (qworld q) (ctx sf);
       l \<leftarrow> elem (staticlocations jsp) (sint arg);
       Some (l, q) }
     else if am = MODE_INST then do {
       v \<leftarrow> var_at q (Local (fid sf) 0);
       i \<leftarrow> as_inst (data v);
       x \<leftarrow> insts (qmem q) i;
       l \<leftarrow> elem (ifields x) (sint arg);
       Some (l, q) }
     else if am = MODE_BLOCK then do {
       l \<leftarrow> elem (map (Local (fid sf)) [0..<nlocals sf]) (sint arg);
       Some (l, q) }
     else None }"

subsection \<open>The body of a call\<close>

text \<open>
  The arguments are taken from the last to the first; with \<open>nopop\<close> they are copied and stay on
  the stack, \<open>stkpos\<close> below the top. One that the method does not take by reference is
  dereferenced on the stack first.
\<close>

primrec push_args ::
  "('c, 'f) env \<Rightarrow> bool \<Rightarrow> vardef list \<Rightarrow> nat \<Rightarrow> int \<Rightarrow> nat \<Rightarrow> ('c, 'f) qinterp \<Rightarrow> ('c, 'f) qinterp option" where
  "push_args E nopop args start stkpos 0 q = Some q"
| "push_args E nopop args start stkpos (Suc x) q = do {
     sf \<leftarrow> cur q;
     vdp \<leftarrow> elem args (int x);
     l \<leftarrow> stackPeekN q (if nopop then stkpos else 0);
     q \<leftarrow> (if isptr vdp then Some q else domem (varDeref (ex E) l) q);
     v \<leftarrow> var_at q l;
     let q = (if nopop then q else drop_top q);
     let q = set_var (Local (fid sf) (start + x)) v q;
     push_args E nopop args start (stkpos + 1) x
       (set_cur (sf\<lparr>nlocals := max (nlocals sf) (start + x + 1)\<rparr>) q) }"

text \<open>\<open>exec byte code\<close>: the result of a native method goes to ret.\<close>

definition exec_method ::
  "('c, 'f) env \<Rightarrow> ('c, 'f) run \<Rightarrow> nat \<Rightarrow> loc \<Rightarrow> ('c, 'f) qinterp \<Rightarrow> (InterpErrors \<times> ('c, 'f) qinterp) option" where
  "exec_method E run m ret q = do {
     mp \<leftarrow> methods (qworld q) m;
     if misnative mp then do {
       f \<leftarrow> nativemethod mp;
       call_native E f m ret q }
     else run q }"

definition enter_method ::
  "('c, 'f) env \<Rightarrow> ('c, 'f) run \<Rightarrow> bool \<Rightarrow> nat \<Rightarrow> ('c, 'f) qinterp \<Rightarrow> (InterpErrors \<times> ('c, 'f) qinterp) option" where
  "enter_method E run nopop m q = do {
     mp \<leftarrow> methods (qworld q) m;
     (ok, q) \<leftarrow> enterBlock 0 q;
     if \<not> ok then do { q \<leftarrow> leaveFrame E nopop q; Some (IERR_OUT_OF_MEM, q) }
     else do {
       sf \<leftarrow> cur q;
       q \<leftarrow> push_args E nopop (margs mp) (nlocals sf) 0 (length (margs mp)) q;
       q \<leftarrow> (if misnative mp then domem (varClear (ex E) (Retval (fid sf))) q else Some q);
       (err, q) \<leftarrow> exec_method E run m (Retval (fid sf)) q;
       q \<leftarrow> leaveBlock E q;
       q \<leftarrow> leaveFrame E nopop q;
       Some (err, q) } }"

definition callStaticMethod ::
  "('c, 'f) env \<Rightarrow> ('c, 'f) run \<Rightarrow> string \<Rightarrow> ('c, 'f) qinterp \<Rightarrow> (InterpErrors \<times> ('c, 'f) qinterp) option" where
  "callStaticMethod E run fqname q =
     (let dotpos = st_index E fqname ''.'';
          (ok, q) = onworld take_block q
      in if \<not> ok then Some (IERR_OUT_OF_MEM, q)
         else
           let clsname = st_left E fqname dotpos;
               jsp = qclasses q clsname;
               q = qfree 1 q
           in case jsp of
                None \<Rightarrow> Some (IERR_MAIN_CLASS_NOT_FOUND, q)
              | Some jsp \<Rightarrow> do {
                  (ok, q) \<leftarrow> enterFrame jsp q;
                  if \<not> ok then Some (IERR_OUT_OF_MEM, q)
                  else do {
                    let (ok, q) = onworld take_block q;
                    if \<not> ok then None
                    else do {
                      m \<leftarrow> find_method q jsp (st_subend E fqname (dotpos + 1));
                      q \<leftarrow> set_method_of_frame m q;
                      let q = qfree 1 q;
                      (case m of
                         None \<Rightarrow> do { q \<leftarrow> leaveFrame E False q; Some (IERR_UNKNOWN_METHOD, q) }
                       | Some m \<Rightarrow> enter_method E run False m q) } } })"

text \<open>A frame for a method of a class, shared by the calls of instance methods.\<close>

definition call_in_class ::
  "('c, 'f) env \<Rightarrow> ('c, 'f) run \<Rightarrow> nat \<Rightarrow> string \<Rightarrow> bool \<Rightarrow> ('c, 'f) qinterp \<Rightarrow> (InterpErrors \<times> ('c, 'f) qinterp) option" where
  "call_in_class E run jsp sig nopop q = do {
     (ok, q) \<leftarrow> enterFrame jsp q;
     if \<not> ok then Some (IERR_OUT_OF_MEM, drop_top q)
     else do {
       m \<leftarrow> find_method q jsp sig;
       q \<leftarrow> set_method_of_frame m q;
       (case m of
          None \<Rightarrow> do {
            q \<leftarrow> leaveFrame E nopop (if nopop then q else drop_top q);
            Some (IERR_UNKNOWN_METHOD, q) }
        | Some m \<Rightarrow> enter_method E run nopop m q) } }"

definition callInstMethod ::
  "('c, 'f) env \<Rightarrow> ('c, 'f) run \<Rightarrow> nat \<Rightarrow> string \<Rightarrow> bool \<Rightarrow> ('c, 'f) qinterp \<Rightarrow> (InterpErrors \<times> ('c, 'f) qinterp) option" where
  "callInstMethod E run inst sig nopop q = do {
     jsp \<leftarrow> inst_class q inst;
     call_in_class E run jsp sig nopop q }"

definition callBaseMethod ::
  "('c, 'f) env \<Rightarrow> ('c, 'f) run \<Rightarrow> nat \<Rightarrow> string \<Rightarrow> ('c, 'f) qinterp \<Rightarrow> (InterpErrors \<times> ('c, 'f) qinterp) option" where
  "callBaseMethod E run inst sig q = do {
     jsp \<leftarrow> inst_class q inst;
     base \<leftarrow> base_of q jsp;
     (case base of
        None \<Rightarrow> callInstMethod E run inst sig False q
      | Some b \<Rightarrow> call_in_class E run b sig False q) }"

subsection \<open>Constructors\<close>

text \<open>
  The internal constructors initialise the fields, the base class's first. The result is C's
  bool: when the frame cannot be had the error code that is returned is true.
\<close>

primrec callInternalConstructors ::
  "nat \<Rightarrow> ('c, 'f) env \<Rightarrow> ('c, 'f) run \<Rightarrow> nat \<Rightarrow> nat \<Rightarrow> ('c, 'f) qinterp \<Rightarrow> (bool \<times> ('c, 'f) qinterp) option" where
  "callInternalConstructors 0 E run jsp inst q = None"
| "callInternalConstructors (Suc d) E run jsp inst q = do {
     base \<leftarrow> base_of q jsp;
     (ok, q) \<leftarrow> (case base of None \<Rightarrow> Some (True, q) | Some b \<Rightarrow> callInternalConstructors d E run b inst q);
     if \<not> ok then Some (False, q)
     else do {
       (_, q) \<leftarrow> onmem (varAssignInst (ex E) Tempdata1 (Some inst)) q;
       (_, q) \<leftarrow> stackPush E Tempdata1 q;
       q \<leftarrow> domem (varClear (ex E) Tempdata1) q;
       q \<leftarrow> (if base = None then domem (jsinstRef inst) q else Some q);
       (ok, q) \<leftarrow> enterFrame jsp q;
       if \<not> ok then Some (True, drop_top q)
       else do {
         m \<leftarrow> find_method q jsp ''@@constructor:Ivv'';
         q \<leftarrow> set_method_of_frame m q;
         (case m of
            None \<Rightarrow> do { q \<leftarrow> leaveFrame E False (drop_top q); Some (False, q) }
          | Some m \<Rightarrow> do {
              (ok, q) \<leftarrow> enterBlock 0 q;
              if \<not> ok then do { q \<leftarrow> leaveFrame E False (drop_top q); Some (False, q) }
              else do {
                top \<leftarrow> stackPeek0 q;
                q \<leftarrow> domem (varDeref (ex E) top) q;
                v \<leftarrow> var_at q top;
                sf \<leftarrow> cur q;
                let (ok, q) = onworld grow (drop_top q);
                let q = (if ok then set_cur (sf\<lparr>nlocals := nlocals sf + 1\<rparr>) (set_var (Local (fid sf) (nlocals sf)) v q)
                         else q);
                (err, q) \<leftarrow> exec_method E run m Tempdata1 q;
                q \<leftarrow> leaveBlock E q;
                q \<leftarrow> leaveFrame E False q;
                Some (err = IERR_NONE, q) } }) } } }"

primrec pop_n :: "('c, 'f) env \<Rightarrow> nat \<Rightarrow> ('c, 'f) qinterp \<Rightarrow> ('c, 'f) qinterp option" where
  "pop_n E 0 q = Some q"
| "pop_n E (Suc k) q = do { q \<leftarrow> stackPop E q; pop_n E k q }"

text \<open>
  The class constructors, the base class's first. A class whose constructor fails on the
  arguments has its default one called; the arguments are popped when the class is the
  instance's own. A failed append leaves the signature behind.
\<close>

primrec callConstructors ::
  "nat \<Rightarrow> ('c, 'f) env \<Rightarrow> ('c, 'f) run \<Rightarrow> nat \<Rightarrow> nat \<Rightarrow> nat \<Rightarrow> ('c, 'f) qinterp
     \<Rightarrow> (InterpErrors \<times> ('c, 'f) qinterp) option" where
  "callConstructors 0 E run jsp inst argcount q = None"
| "callConstructors (Suc d) E run jsp inst argcount q = do {
     cls \<leftarrow> classes (qworld q) jsp;
     (err, q) \<leftarrow> (case baseclass cls of
                    None \<Rightarrow> Some (IERR_NONE, q)
                  | Some b \<Rightarrow> callConstructors d E run b inst argcount q);
     if err \<noteq> IERR_NONE then Some (err, q)
     else do {
       let (ok, q) = onworld take_block q;
       if \<not> ok then Some (IERR_OUT_OF_MEM, q)
       else do {
         let (ok, q) = onworld grow q;
         if \<not> ok then Some (IERR_OUT_OF_MEM, q)
         else do {
           let (ok, q) = onworld grow q;
           if \<not> ok then Some (IERR_OUT_OF_MEM, q)
           else do {
             let sig = cname cls @ '':Ivv'' @ replicate argcount (CHR ''v'');
             q \<leftarrow> domem (jsinstRef inst) q;
             (err, q) \<leftarrow> callInstMethod E run inst sig True q;
             q \<leftarrow> domem (jsinstDeref (cstack (ex E)) inst) (qfree 1 q);
             own \<leftarrow> inst_class q inst;
             if \<not> (err = IERR_NONE \<or> argcount = 0 \<and> err = IERR_UNKNOWN_METHOD)
             then (if jsp \<noteq> own \<and> argcount \<noteq> 0 then callConstructors d E run jsp inst 0 q
                   else Some (err, q))
             else do {
               q \<leftarrow> (if jsp = own then pop_n E argcount q else Some q);
               Some (IERR_NONE, q) } } } } } }"

subsection \<open>Fields and instances\<close>

definition qinterpFindField ::
  "('c, 'f) env \<Rightarrow> loc \<Rightarrow> string \<Rightarrow> ('c, 'f) qinterp \<Rightarrow> (loc option \<times> ('c, 'f) qinterp) option" where
  "qinterpFindField E pthis fname q = do {
     v \<leftarrow> var_at q pthis;
     v \<leftarrow> (if vtype v = TYPE_PTR then do { vp \<leftarrow> as_ptr (data v); var_at q vp } else Some v);
     i \<leftarrow> as_inst (data v);
     x \<leftarrow> insts (qmem q) i;
     jsp \<leftarrow> classes (qworld q) (myclass x);
     (case jsclassFindField jsp fname of
        None \<Rightarrow> Some (None, q)
      | Some vdp \<Rightarrow>
          if visnative vdp then do {
            f \<leftarrow> nativefield vdp;
            (err, q) \<leftarrow> call_field E f vdp Tempdata1 q;
            Some (if err \<noteq> IERR_NONE then None else Some Tempdata1, q) }
          else do {
            l \<leftarrow> elem (if visstatic vdp then staticlocations jsp else ifields x) (voffset vdp);
            Some (Some l, q) }) }"

definition qinterpCreateJSClassInstance ::
  "('c, 'f) env \<Rightarrow> ('c, 'f) run \<Rightarrow> string \<Rightarrow> ('c, 'f) qinterp \<Rightarrow> (InterpErrors \<times> nat option \<times> ('c, 'f) qinterp) option" where
  "qinterpCreateJSClassInstance E run classname q =
     (case qinterpFindClass q classname of
        None \<Rightarrow> Some (IERR_CLASS_NOT_FOUND, None, q)
      | Some jsp \<Rightarrow> do {
          (inst, w) \<leftarrow> jsinstConstruct (cstack (ex E)) jsp (qworld q);
          let q = set_world w q;
          (case inst of
             None \<Rightarrow> Some (IERR_OUT_OF_MEM, None, q)
           | Some i \<Rightarrow> do {
               (ok, q) \<leftarrow> callInternalConstructors (cstack (ex E)) E run jsp i q;
               Some (if ok then IERR_NONE else IERR_INTERNAL_ERROR2, Some i, q) }) })"

end
