(* ===== verification/Interp.thy ===== *)
theory Interp
  imports Calls
begin

section \<open>The byte-code interpreter, _interp of jspp/src/interpinner.c\<close>

text \<open>
  One definition per group of instructions, in the order of the machine's parts: operators, the
  stack, memory, control, calls. An instruction leaves an error in the frame (\<open>fail\<close>), or
  returns from the interpreter at once (\<open>Some e\<close>). The loop runs by fuel, which bounds the
  instructions still executed and the calls within calls. An argument the instruction does not
  have is None.
\<close>

type_synonym ('c, 'f) outcome = "(InterpErrors option \<times> ('c, 'f) qinterp) option"

definition ok :: "('c, 'f) qinterp \<Rightarrow> ('c, 'f) outcome" where
  "ok q = Some (None, q)"

definition fail :: "InterpErrors \<Rightarrow> ('c, 'f) qinterp \<Rightarrow> ('c, 'f) outcome" where
  "fail e q = map_option (Pair None) (set_err e q)"

abbreviation arg :: "nat \<Rightarrow> int32 list \<Rightarrow> int32 option" where
  "arg k args \<equiv> elem args (int k)"

subsection \<open>Operators\<close>

text \<open>A binary operator computes into \<open>tempdata1\<close> and replaces the two operands by it.\<close>

definition replace2 ::
  "('c, 'f) env \<Rightarrow> (loc \<Rightarrow> (loc, 'f) mem \<Rightarrow> (loc, 'f) mem option) \<Rightarrow> ('c, 'f) qinterp \<Rightarrow> ('c, 'f) outcome" where
  "replace2 E clear q = do {
     q \<leftarrow> stackPop E q;
     q \<leftarrow> stackPop E q;
     (_, q) \<leftarrow> stackPush E Tempdata1 q;
     q \<leftarrow> domem (clear Tempdata1) q;
     ok q }"

definition binary_op ::
  "('c, 'f) env \<Rightarrow> (loc \<Rightarrow> (loc, 'f) mem \<Rightarrow> (loc, 'f) mem option)
     \<Rightarrow> (loc \<Rightarrow> loc \<Rightarrow> loc \<Rightarrow> (loc, 'f) mem \<Rightarrow> (bool \<times> (loc, 'f) mem) option)
     \<Rightarrow> ('c, 'f) qinterp \<Rightarrow> ('c, 'f) outcome" where
  "binary_op E clear f q = do {
     lval1 \<leftarrow> stackPeek0 q;
     lval2 \<leftarrow> stackPeek1 q;
     (b, q) \<leftarrow> onmem (f Tempdata1 lval2 lval1) q;
     if \<not> b then fail IERR_TYPE_MISMATCH q else replace2 E clear q }"

definition unary_op ::
  "(loc \<Rightarrow> (loc, 'f) mem \<Rightarrow> (bool \<times> (loc, 'f) mem) option) \<Rightarrow> ('c, 'f) qinterp \<Rightarrow> ('c, 'f) outcome" where
  "unary_op f q = do {
     lval1 \<leftarrow> stackPeek0 q;
     (b, q) \<leftarrow> onmem (f lval1) q;
     if \<not> b then fail IERR_TYPE_MISMATCH q else ok q }"

definition truth :: "('c, 'f) env \<Rightarrow> ('c, 'f) qinterp \<Rightarrow> loc \<Rightarrow> int32 option" where
  "truth E q l = do {
     n \<leftarrow> varIsNumeric (ex E) (qmem q) l;
     if n then do { i \<leftarrow> varGetInt (ex E) (qmem q) l; i } else Some 1 }"

definition logic_op :: "('c, 'f) env \<Rightarrow> (bool \<Rightarrow> bool \<Rightarrow> bool) \<Rightarrow> ('c, 'f) qinterp \<Rightarrow> ('c, 'f) outcome" where
  "logic_op E f q = do {
     lval1 \<leftarrow> stackPeek0 q;
     lval2 \<leftarrow> stackPeek1 q;
     lval1 \<leftarrow> normalize1 (qmem q) lval1;
     lval2 \<leftarrow> normalize1 (qmem q) lval2;
     arg1 \<leftarrow> truth E q lval1;
     arg2 \<leftarrow> truth E q lval2;
     (_, q) \<leftarrow> onmem (varAssignBool (ex E) Tempdata1 (f (arg1 \<noteq> 0) (arg2 \<noteq> 0))) q;
     replace2 E (VARCLEAR (ex E)) q }"

text \<open>
  Increment and decrement work through the pointer on the stack, which becomes the value before
  (\<open>post\<close>) or after.
\<close>

definition bump :: "('c, 'f) env \<Rightarrow> loc \<Rightarrow> int32 \<Rightarrow> ('c, 'f) qinterp \<Rightarrow> (bool \<times> ('c, 'f) qinterp) option" where
  "bump E l d q = do {
     v \<leftarrow> var_at q l;
     if vtype v = TYPE_INT \<or> vtype v = TYPE_CHAR then do {
       i \<leftarrow> as_int (ex E) (data v);
       Some (True, set_var l (v\<lparr>data := DI (i + d)\<rparr>) q) }
     else Some (False, q) }"

definition step_op :: "('c, 'f) env \<Rightarrow> bool \<Rightarrow> int32 \<Rightarrow> ('c, 'f) qinterp \<Rightarrow> ('c, 'f) outcome" where
  "step_op E post d q = do {
     lval1 \<leftarrow> stackPeek0 q;
     v \<leftarrow> var_at q lval1;
     lval2 \<leftarrow> as_ptr (data v);
     q \<leftarrow> (if post then domem (varDeref (ex E) lval1) q else Some q);
     (b, q) \<leftarrow> bump E lval2 d q;
     if \<not> b then fail IERR_TYPE_MISMATCH q
     else do {
       q \<leftarrow> (if post then Some q else domem (varDeref (ex E) lval1) q);
       ok q } }"

definition exec_arith :: "('c, 'f) env \<Rightarrow> opcode \<Rightarrow> ('c, 'f) qinterp \<Rightarrow> ('c, 'f) outcome" where
  "exec_arith E op =
     (let X = ex E; binary = binary_op E in
      if op = OP_RSHIFT then binary (varClear X) (varAssignOpRightShift X)
      else if op = OP_LSHIFT then binary (varClear X) (varAssignOpRightShift X)
      else if op = OP_MULT then binary (varClear X) (varAssignOpMul X)
      else if op = OP_DIV then binary (varClear X) (varAssignOpDiv X)
      else if op = OP_ADD then binary (varClear X) (varAssignOpPlus X)
      else if op = OP_SUB then binary (varClear X) (varAssignOpSub X)
      else unary_op (varNegate X))"

definition exec_compare :: "('c, 'f) env \<Rightarrow> opcode \<Rightarrow> ('c, 'f) qinterp \<Rightarrow> ('c, 'f) outcome" where
  "exec_compare E op =
     (let X = ex E; binary = binary_op E in
      if op = OP_LT then binary (VARCLEAR X) (varAssignOpLT X)
      else if op = OP_LTEQ then binary (VARCLEAR X) (varAssignOpLE X)
      else if op = OP_EQ then binary (VARCLEAR X) (varAssignOpEQ X)
      else if op = OP_GT then binary (VARCLEAR X) (varAssignOpGT X)
      else if op = OP_GTEQ then binary (VARCLEAR X) (varAssignOpGE X)
      else binary (VARCLEAR X) (varAssignOpNEQ X))"

definition exec_logic :: "('c, 'f) env \<Rightarrow> opcode \<Rightarrow> ('c, 'f) qinterp \<Rightarrow> ('c, 'f) outcome" where
  "exec_logic E op =
     (if op = OP_MOD then binary_op E (VARCLEAR (ex E)) (varAssignOpMod (ex E))
      else if op = OP_OR then logic_op E (\<or>)
      else logic_op E (\<and>))"

definition exec_bits :: "('c, 'f) env \<Rightarrow> opcode \<Rightarrow> ('c, 'f) qinterp \<Rightarrow> ('c, 'f) outcome" where
  "exec_bits E op =
     (let X = ex E; binary = binary_op E in
      if op = OP_BINOR then binary (VARCLEAR X) (varAssignOpBinOr X)
      else if op = OP_BINAND then binary (VARCLEAR X) (varAssignOpBinAnd X)
      else if op = OP_XOR then binary (VARCLEAR X) (varAssignOpBinXOr X)
      else if op = OP_COMPL then unary_op (varComp X)
      else unary_op (varLogNot X))"

definition exec_step :: "('c, 'f) env \<Rightarrow> opcode \<Rightarrow> ('c, 'f) qinterp \<Rightarrow> ('c, 'f) outcome" where
  "exec_step E op =
     (if op = OP_PINC then step_op E True 1
      else if op = OP_PDEC then step_op E True (-1)
      else if op = OP_INC then step_op E False 1
      else step_op E False (-1))"

definition exec_operator :: "('c, 'f) env \<Rightarrow> opcode \<Rightarrow> ('c, 'f) qinterp \<Rightarrow> ('c, 'f) outcome" where
  "exec_operator E op =
     (if op \<in> set [OP_RSHIFT, OP_LSHIFT, OP_MULT, OP_DIV, OP_ADD, OP_SUB, OP_NEGATE] then exec_arith E op
      else if op \<in> set [OP_LT, OP_LTEQ, OP_EQ, OP_GT, OP_GTEQ, OP_NEQ] then exec_compare E op
      else if op \<in> set [OP_MOD, OP_OR, OP_AND] then exec_logic E op
      else if op \<in> set [OP_BINOR, OP_BINAND, OP_XOR, OP_COMPL, OP_NOT] then exec_bits E op
      else exec_step E op)"

lemmas operator_defs = exec_operator_def exec_arith_def exec_compare_def exec_logic_def exec_bits_def exec_step_def

definition operators :: "opcode list" where
  "operators = [OP_RSHIFT, OP_LSHIFT, OP_MULT, OP_DIV, OP_ADD, OP_SUB, OP_LT, OP_LTEQ, OP_EQ, OP_GT, OP_GTEQ,
     OP_NEQ, OP_MOD, OP_BINOR, OP_BINAND, OP_XOR, OP_OR, OP_AND, OP_NEGATE, OP_COMPL, OP_NOT, OP_PINC, OP_PDEC,
     OP_INC, OP_DEC]"

subsection \<open>The stack\<close>

definition push_or_fail :: "('c, 'f) env \<Rightarrow> loc \<Rightarrow> ('c, 'f) qinterp \<Rightarrow> ('c, 'f) outcome" where
  "push_or_fail E l q = do {
     (b, q) \<leftarrow> stackPush E l q;
     if \<not> b then fail IERR_OUT_OF_MEM q else ok q }"

definition rotate_with :: "('c, 'f) env \<Rightarrow> int \<Rightarrow> ('c, 'f) qinterp \<Rightarrow> ('c, 'f) outcome" where
  "rotate_with E n q = do {
     lval1 \<leftarrow> stackPeek0 q;
     lval2 \<leftarrow> stackPeekN q n;
     (_, q) \<leftarrow> onmem (varAssign (ex E) Tempdata1 lval1) q;
     (_, q) \<leftarrow> onmem (varAssign (ex E) lval1 lval2) q;
     (_, q) \<leftarrow> onmem (varAssign (ex E) lval2 Tempdata1) q;
     q \<leftarrow> domem (VARCLEAR (ex E) Tempdata1) q;
     ok q }"

definition exec_dup :: "('c, 'f) env \<Rightarrow> ('c, 'f) qinterp \<Rightarrow> ('c, 'f) outcome" where
  "exec_dup E q = do {
     q \<leftarrow> domem (VARCLEAR (ex E) Tempdata1) q;
     (b, q) \<leftarrow> stackPush E Tempdata1 q;
     if \<not> b then fail IERR_OUT_OF_MEM q
     else do {
       top \<leftarrow> stackPeek0 q;
       below \<leftarrow> stackPeek1 q;
       (b, q) \<leftarrow> onmem (varAssign (ex E) top below) q;
       if \<not> b then fail IERR_OUT_OF_MEM q else ok q } }"

definition exec_stack :: "('c, 'f) env \<Rightarrow> opcode \<Rightarrow> mode \<Rightarrow> int32 list \<Rightarrow> ('c, 'f) qinterp \<Rightarrow> ('c, 'f) outcome" where
  "exec_stack E op mode args q =
     (if op = OP_NOP then ok q
      else if op = OP_NULL then push_or_fail E Null q
      else if op = OP_PUSH then do {
        a \<leftarrow> arg 0 args;
        (lval1, q) \<leftarrow> qinterpResolve E mode a (Some Tempdata1) q;
        push_or_fail E lval1 q }
      else if op = OP_POP then do { q \<leftarrow> stackPop E q; ok q }
      else if op = OP_DUP then exec_dup E q
      else if op = OP_ROT then rotate_with E 1 q
      else rotate_with E 2 q)"

subsection \<open>Memory\<close>

definition push_ref :: "('c, 'f) env \<Rightarrow> loc \<Rightarrow> ('c, 'f) qinterp \<Rightarrow> ('c, 'f) outcome" where
  "push_ref E to q = do {
     q \<leftarrow> domem (VARCLEAR (ex E) Tempdata1) q;
     (_, q) \<leftarrow> stackPush E Tempdata1 q;
     top \<leftarrow> stackPeek0 q;
     (_, q) \<leftarrow> onmem (varRef (ex E) top to) q;
     ok q }"

definition exec_assign :: "('c, 'f) env \<Rightarrow> ('c, 'f) qinterp \<Rightarrow> ('c, 'f) outcome" where
  "exec_assign E q = do {
     lval1 \<leftarrow> stackPeek0 q;
     lval2 \<leftarrow> stackPeek1 q;
     lval1 \<leftarrow> normalize1 (qmem q) lval1;
     v \<leftarrow> var_at q lval2;
     vp \<leftarrow> as_ptr (data v);
     (b, q) \<leftarrow> onmem (varAssign (ex E) vp lval1) q;
     if \<not> b then fail IERR_OUT_OF_MEM q
     else do { q \<leftarrow> stackPop E q; q \<leftarrow> stackPop E q; ok q } }"

definition exec_this :: "('c, 'f) env \<Rightarrow> ('c, 'f) qinterp \<Rightarrow> ('c, 'f) outcome" where
  "exec_this E q = do {
     inst \<leftarrow> stackGetThis q;
     (b, q) \<leftarrow> onmem (varAssignInst (ex E) Tempdata1 inst) q;
     if \<not> b then fail IERR_CALL_REQUIRES_THIS q
     else do {
       (b, q) \<leftarrow> stackPush E Tempdata1 q;
       if \<not> b then fail IERR_OUT_OF_MEM q
       else do { q \<leftarrow> domem (VARCLEAR (ex E) Tempdata1) q; ok q } } }"

definition exec_sderef :: "('c, 'f) env \<Rightarrow> mode \<Rightarrow> mode \<Rightarrow> int32 list \<Rightarrow> ('c, 'f) qinterp \<Rightarrow> ('c, 'f) outcome" where
  "exec_sderef E mode mode2 args q = do {
     arg1 \<leftarrow> arg 0 args;
     arg2 \<leftarrow> arg 1 args;
     (lval1, q) \<leftarrow> qinterpResolve E mode arg1 None q;
     (lval2, q) \<leftarrow> qinterpResolve E mode2 arg2 (Some Tempdata1) q;
     off \<leftarrow> varGetInt (ex E) (qmem q) lval2;
     let arg2 = (case off of None \<Rightarrow> arg2 | Some i \<Rightarrow> i);
     v \<leftarrow> var_at q lval1;
     name \<leftarrow> as_str (data v);
     (case qinterpFindClass q name of
        None \<Rightarrow> fail IERR_CLASS_NOT_FOUND q
      | Some c \<Rightarrow> do {
          jsp \<leftarrow> classes (qworld q) c;
          to \<leftarrow> jsclassGetStaticField jsp (sint arg2);
          push_ref E to q }) }"

definition exec_deref :: "('c, 'f) env \<Rightarrow> mode \<Rightarrow> int32 list \<Rightarrow> ('c, 'f) qinterp \<Rightarrow> ('c, 'f) outcome" where
  "exec_deref E mode args q = do {
     arg1 \<leftarrow> arg 0 args;
     (lval1, q) \<leftarrow> qinterpResolve E mode arg1 None q;
     v \<leftarrow> var_at q lval1;
     name \<leftarrow> as_str (data v);
     lval2 \<leftarrow> stackPeek0 q;
     (fld, q) \<leftarrow> qinterpFindField E lval2 name q;
     (case fld of
        None \<Rightarrow> fail IERR_FIELD_NOT_FOUND q
      | Some to \<Rightarrow> do { q \<leftarrow> stackPop E q; push_ref E to q }) }"

definition exec_memory :: "('c, 'f) env \<Rightarrow> opcode \<Rightarrow> mode \<Rightarrow> mode \<Rightarrow> int32 list \<Rightarrow> ('c, 'f) qinterp \<Rightarrow> ('c, 'f) outcome" where
  "exec_memory E op mode mode2 args q =
     (if op = OP_ASSIGN then exec_assign E q
      else if op = OP_THIS then exec_this E q
      else if op = OP_LVALUE then do {
        arg1 \<leftarrow> arg 0 args;
        (lval1, q) \<leftarrow> qinterpResolve E mode arg1 None q;
        push_ref E lval1 q }
      else if op = OP_RVALUE then do {
        lval1 \<leftarrow> stackPeek0 q;
        q \<leftarrow> domem (varDeref (ex E) lval1) q;
        ok q }
      else if op = OP_SDEREF then exec_sderef E mode mode2 args q
      else exec_deref E mode args q)"

subsection \<open>Control\<close>

text \<open>An int operand, and a frame operation on it.\<close>

definition operand_int :: "('c, 'f) env \<Rightarrow> mode \<Rightarrow> int32 list \<Rightarrow> ('c, 'f) qinterp \<Rightarrow> (int \<times> ('c, 'f) qinterp) option" where
  "operand_int E mode args q = do {
     a \<leftarrow> arg 0 args;
     (lval1, q) \<leftarrow> qinterpResolve E mode a (Some Tempdata1) q;
     v \<leftarrow> var_at q lval1;
     i \<leftarrow> as_int (ex E) (data v);
     Some (sint i, q) }"

definition on_frame :: "(stackframe \<Rightarrow> stackframe option) \<Rightarrow> ('c, 'f) qinterp \<Rightarrow> ('c, 'f) outcome" where
  "on_frame f q = do { sf \<leftarrow> cur q; sf \<leftarrow> f sf; ok (set_cur sf q) }"

text \<open>A value as the condition of a jump: a pointer to a variant is not 0.\<close>

definition is_true :: "'f ext \<Rightarrow> (loc, 'f) vdata \<Rightarrow> bool option" where
  "is_true E d =
     (case d of DP _ \<Rightarrow> Some True | DNull \<Rightarrow> Some False | _ \<Rightarrow> map_option (\<lambda>i. i \<noteq> 0) (as_int E d))"

definition jump_if :: "('c, 'f) env \<Rightarrow> bool \<Rightarrow> mode \<Rightarrow> int32 list \<Rightarrow> ('c, 'f) qinterp \<Rightarrow> ('c, 'f) outcome" where
  "jump_if E sense mode args q = do {
     lval1 \<leftarrow> stackPeek0 q;
     (b, q) \<leftarrow> onmem (VARBOOL (ex E) lval1) q;
     if \<not> b then fail IERR_TYPE_MISMATCH q
     else do {
       v \<leftarrow> var_at q lval1;
       holds \<leftarrow> is_true (ex E) (data v);
       q \<leftarrow> (if holds = sense then do { (pc, q) \<leftarrow> operand_int E mode args q; set_pc pc q } else Some q);
       q \<leftarrow> stackPop E q;
       ok q } }"

text \<open>The value on the stack becomes the frame's result.\<close>

definition take_result :: "('c, 'f) env \<Rightarrow> bool \<Rightarrow> ('c, 'f) qinterp \<Rightarrow> ('c, 'f) qinterp option" where
  "take_result E deref q = do {
     sf \<leftarrow> cur q;
     top \<leftarrow> stackPeek0 q;
     q \<leftarrow> (if deref then domem (varDeref (ex E) top) q else Some q);
     (_, q) \<leftarrow> onmem (varAssign (ex E) (Retval (fid sf)) top) q;
     Some q }"

text \<open>An exception in this frame: to its catch, or out of the frame.\<close>

definition throw_here :: "('c, 'f) env \<Rightarrow> ('c, 'f) qinterp \<Rightarrow> ('c, 'f) outcome" where
  "throw_here E q = do {
     (pc, q) \<leftarrow> getCatch E q;
     q \<leftarrow> set_pc pc q;
     if pc = -1 then do {
       q \<leftarrow> take_result E True q;
       q \<leftarrow> leaveBlock E q;
       fail IERR_EXCEPTION q }
     else fail IERR_NONE q }"

definition exec_break :: "('c, 'f) env \<Rightarrow> InterpErrors \<Rightarrow> int \<Rightarrow> ('c, 'f) qinterp \<Rightarrow> ('c, 'f) outcome" where
  "exec_break E e back q = do {
     (pc, q) \<leftarrow> breakBlock E q;
     if pc = -1 then do { q \<leftarrow> (if e = IERR_BAD_BREAK then set_pc pc q else Some q); fail e q }
     else do { q \<leftarrow> set_pc (pc - back) q; ok q } }"

definition exec_jump :: "('c, 'f) env \<Rightarrow> opcode \<Rightarrow> mode \<Rightarrow> int32 list \<Rightarrow> ('c, 'f) qinterp \<Rightarrow> ('c, 'f) outcome" where
  "exec_jump E op mode args q =
     (if op = OP_JMPZ then jump_if E False mode args q
      else if op = OP_JMPNZ then jump_if E True mode args q
      else do { (pc, q) \<leftarrow> operand_int E mode args q; q \<leftarrow> set_pc pc q; ok q })"

definition exec_blocks :: "('c, 'f) env \<Rightarrow> opcode \<Rightarrow> mode \<Rightarrow> int32 list \<Rightarrow> ('c, 'f) qinterp \<Rightarrow> ('c, 'f) outcome" where
  "exec_blocks E op mode args q =
     (if op = OP_VRET then fail IERR_RETURN q
      else if op = OP_RET then do {
        q \<leftarrow> take_result E True q;
        q \<leftarrow> stackPop E q;
        q \<leftarrow> leaveBlock E q;
        fail IERR_RETURN q }
      else if op = OP_TRY then do { (pc, q) \<leftarrow> operand_int E mode args q; on_frame (\<lambda>sf. setTry sf pc) q }
      else if op = OP_THROW then throw_here E q
      else if op = OP_ENTER then do {
        a \<leftarrow> arg 0 args;
        (b, q) \<leftarrow> enterBlock (sint a) q;
        if \<not> b then fail IERR_OUT_OF_MEM q else ok q }
      else if op = OP_LEAVE then do { q \<leftarrow> leaveBlock E q; ok q }
      else if op = OP_SETBREAK then do { (pc, q) \<leftarrow> operand_int E mode args q; on_frame (\<lambda>sf. setBreak sf pc) q }
      else if op = OP_BREAK then exec_break E IERR_BAD_BREAK 0 q
      else exec_break E IERR_BAD_CONTINUE 3 q)"

definition exec_control :: "('c, 'f) env \<Rightarrow> opcode \<Rightarrow> mode \<Rightarrow> int32 list \<Rightarrow> ('c, 'f) qinterp \<Rightarrow> ('c, 'f) outcome" where
  "exec_control E op mode args q =
     (if op = OP_LINE then do { a \<leftarrow> arg 0 args; ok (q\<lparr>linenum := a\<rparr>) }
      else if op \<in> set [OP_JMPZ, OP_JMPNZ, OP_JMP] then exec_jump E op mode args q
      else exec_blocks E op mode args q)"

lemmas control_defs = exec_control_def exec_blocks_def exec_jump_def

definition controls :: "opcode list" where
  "controls = [OP_VRET, OP_RET, OP_TRY, OP_THROW, OP_ENTER, OP_LEAVE, OP_SETBREAK, OP_BREAK, OP_CONTINUE,
     OP_JMPZ, OP_JMPNZ, OP_JMP, OP_LINE]"

subsection \<open>Calls\<close>

definition exec_new ::
  "('c, 'f) env \<Rightarrow> ('c, 'f) run \<Rightarrow> mode \<Rightarrow> int32 list \<Rightarrow> ('c, 'f) qinterp \<Rightarrow> ('c, 'f) outcome" where
  "exec_new E run mode args q = do {
     a \<leftarrow> arg 0 args;
     (lval1, q) \<leftarrow> qinterpResolve E mode a (Some Tempdata1) q;
     v \<leftarrow> var_at q lval1;
     name \<leftarrow> as_str (data v);
     (err, inst, q) \<leftarrow> qinterpCreateJSClassInstance E run name q;
     q \<leftarrow> set_err err q;
     if err = IERR_EXCEPTION then throw_here E q
     else if err \<noteq> IERR_NONE then ok q
     else do {
       i \<leftarrow> inst;
       (_, q) \<leftarrow> onmem (varAssignInst (ex E) Tempdata1 (Some i)) q;
       (b, q) \<leftarrow> stackPush E Tempdata1 q;
       if \<not> b then fail IERR_OUT_OF_MEM q
       else do {
         q \<leftarrow> domem (varClear (ex E) Tempdata1) q;
         q \<leftarrow> domem (jsinstDeref (cstack (ex E)) i) q;
         ok q } } }"

text \<open>After a call: an exception goes to a catch of this frame, or becomes the frame's result.\<close>

definition after_call :: "('c, 'f) env \<Rightarrow> InterpErrors \<Rightarrow> ('c, 'f) qinterp \<Rightarrow> ('c, 'f) outcome" where
  "after_call E err q = do {
     q \<leftarrow> set_err err q;
     if err = IERR_EXCEPTION then do {
       (pc, q) \<leftarrow> getCatch E q;
       q \<leftarrow> set_pc pc q;
       if pc \<noteq> -1 then fail IERR_NONE q
       else do {
         q \<leftarrow> take_result E False q;
         q \<leftarrow> stackPop E q;
         ok q } }
     else ok q }"

definition const_string :: "('c, 'f) qinterp \<Rightarrow> int32 \<Rightarrow> string option" where
  "const_string q a = do {
     sf \<leftarrow> cur q;
     jsp \<leftarrow> classes (qworld q) (ctx sf);
     p \<leftarrow> constdata jsp;
     pp \<leftarrow> progs (ps q) p;
     l \<leftarrow> elem (map (Const p) [0..<ncdata pp]) (sint a);
     v \<leftarrow> var_at q l;
     as_str (data v) }"

text \<open>
  A method called on a value that is no instance is looked for in the class Object, as a static
  method; a failed allocation of its name returns from the interpreter.
\<close>

definition exec_call ::
  "('c, 'f) env \<Rightarrow> ('c, 'f) run \<Rightarrow> opcode \<Rightarrow> int32 list \<Rightarrow> ('c, 'f) qinterp \<Rightarrow> ('c, 'f) outcome" where
  "exec_call E run op args q = do {
     arg1 \<leftarrow> arg 0 args;
     arg2 \<leftarrow> arg 1 args;
     sig \<leftarrow> const_string q arg1;
     vthis \<leftarrow> stackPeekN q (sint arg2);
     vthis \<leftarrow> normalize1 (qmem q) vthis;
     v \<leftarrow> var_at q vthis;
     if vtype v \<noteq> TYPE_INST then
       (let (b, q) = onworld take_block q in
        if \<not> b then Some (Some IERR_OUT_OF_MEM, q) else
        let (b, q) = onworld grow q in
        if \<not> b then Some (Some IERR_OUT_OF_MEM, qfree 1 q)
        else do {
          (err, q) \<leftarrow> callStaticMethod E run (st_replace E (''Object.'' @ sig) (CHR ''I'') (CHR ''S'')) q;
          after_call E err (qfree 1 q) })
     else do {
       i \<leftarrow> as_inst (data v);
       (err, q) \<leftarrow>
         (if op = OP_CALL then callInstMethod E run i sig False q
          else if op = OP_CONSTRUCT then do {
            jsp \<leftarrow> inst_class q i;
            callConstructors (cstack (ex E)) E run jsp i (nat (sint arg2)) q }
          else callBaseMethod E run i sig q);
       after_call E err q } }"

definition exec_scall :: "('c, 'f) env \<Rightarrow> ('c, 'f) run \<Rightarrow> int32 list \<Rightarrow> ('c, 'f) qinterp \<Rightarrow> ('c, 'f) outcome" where
  "exec_scall E run args q = do {
     arg1 \<leftarrow> arg 0 args;
     name \<leftarrow> const_string q arg1;
     (err, q) \<leftarrow> callStaticMethod E run name q;
     after_call E err q }"

subsection \<open>The loop\<close>

definition exec_op ::
  "('c, 'f) env \<Rightarrow> ('c, 'f) run \<Rightarrow> opcode \<Rightarrow> mode \<Rightarrow> mode \<Rightarrow> int32 list \<Rightarrow> ('c, 'f) qinterp \<Rightarrow> ('c, 'f) outcome" where
  "exec_op E run op mode mode2 args q =
     (if op \<in> set [OP_NOP, OP_NULL, OP_PUSH, OP_POP, OP_DUP, OP_ROT, OP_ROT3] then exec_stack E op mode args q
      else if op \<in> set operators then exec_operator E op q
      else if op \<in> set [OP_ASSIGN, OP_THIS, OP_LVALUE, OP_RVALUE, OP_SDEREF, OP_DEREF] then
        exec_memory E op mode mode2 args q
      else if op \<in> set controls then exec_control E op mode args q
      else if op = OP_NEW then exec_new E run mode args q
      else if op \<in> set [OP_BASECALL, OP_CALL, OP_CONSTRUCT] then exec_call E run op args q
      else if op = OP_SCALL then exec_scall E run args q
      else fail IERR_UNKNOWN_OPCODE q)"

text \<open>
  The body of \<open>_interp\<close> around its loop: the loop starts at 0, what it leaves on the stack above
  the height it began at, with a place for the result, is popped, and the frame's error is the
  result.
\<close>

definition interp_with ::
  "('c, 'f) env \<Rightarrow> (nat \<Rightarrow> ('c, 'f) qinterp \<Rightarrow> ('c, 'f) outcome) \<Rightarrow> ('c, 'f) run" where
  "interp_with E loop q = do {
     sf \<leftarrow> cur q;
     m \<leftarrow> fmethod sf;
     mp \<leftarrow> methods (qworld q) m;
     let stackpos = int (nstack q) + of_bool (hasretval mp);
     q \<leftarrow> set_pc 0 q;
     (r, q) \<leftarrow> loop m q;
     (case r of
        Some e \<Rightarrow> Some (e, q)
      | None \<Rightarrow> do {
          sf \<leftarrow> cur q;
          q \<leftarrow> (if ferr sf = IERR_RETURN then set_err IERR_NONE q else Some q);
          q \<leftarrow> trim_with (varClear (ex E)) stackpos (nstack q) q;
          sf \<leftarrow> cur q;
          Some (ferr sf, q) }) }"

primrec interp_loop :: "nat \<Rightarrow> ('c, 'f) env \<Rightarrow> nat \<Rightarrow> ('c, 'f) qinterp \<Rightarrow> ('c, 'f) outcome" where
  "interp_loop 0 E m q = None"
| "interp_loop (Suc n) E m q = do {
     sf \<leftarrow> cur q;
     mp \<leftarrow> methods (qworld q) m;
     if fpc sf < jsmethodCodeLen mp \<and> ferr sf = IERR_NONE then do {
       let ((op, argcount, mode, mode2), args, pc) = fetch (i16 (lb E)) (code mp) (fpc sf);
       q \<leftarrow> set_pc pc q;
       (r, q) \<leftarrow> exec_op E (interp_with E (interp_loop n E)) op mode mode2 args q;
       if r \<noteq> None then Some (r, q) else interp_loop n E m q }
     else ok q }"

definition interp :: "nat \<Rightarrow> ('c, 'f) env \<Rightarrow> ('c, 'f) run" where
  "interp n E = interp_with E (interp_loop n E)"

end
