(* ===== verification/Blocks_Spec.thy ===== *)
theory Blocks_Spec
  imports Frames Program_Spec
begin

section \<open>What blocks promise\<close>

text \<open>
  The locals of a frame are its arguments and the locals of its open blocks, one variant each;
  entering and leaving a block match; an exception is caught by the innermost block with a catch;
  and \<open>breakBlock\<close> leaves no block.
\<close>

subsection \<open>Access\<close>

lemma mem_simps [simp]:
  "qmem (set_mem st q) = st" "set_mem st (set_mem st' q) = set_mem st q" "set_mem (qmem q) q = q"
  "frames (set_mem st q) = frames q" "nstack (set_mem st q) = nstack q"
  "stkframecache (set_mem st q) = stkframecache q" "qclasses (set_mem st q) = qclasses q"
  "programs (set_mem st q) = programs q" "linenum (set_mem st q) = linenum q"
  "progs (ps (set_mem st q)) = progs (ps q)" "methods (qworld (set_mem st q)) = methods (qworld q)"
  "classes (qworld (set_mem st q)) = classes (qworld q)" "mallocs (qworld (set_mem st q)) = mallocs (qworld q)"
  "cur (set_mem st q) = cur q"
  by (simp_all add: qmem_def set_mem_def set_world_def qworld_def cur_def)

lemma world_simps [simp]:
  "qworld (set_world w q) = w" "set_world w (set_world w' q) = set_world w q"
  "frames (set_world w q) = frames q" "nstack (set_world w q) = nstack q"
  "stkframecache (set_world w q) = stkframecache q" "qclasses (set_world w q) = qclasses q"
  "programs (set_world w q) = programs q" "linenum (set_world w q) = linenum q"
  "progs (ps (set_world w q)) = progs (ps q)" "cur (set_world w q) = cur q" "qmem (set_world w q) = store w"
  by (simp_all add: set_world_def qworld_def cur_def qmem_def)

lemma cur_simps [simp]:
  "cur (set_cur sf q) = Some sf" "set_cur sf (set_cur sf' q) = set_cur sf q"
  "qmem (set_cur sf q) = qmem q" "qworld (set_cur sf q) = qworld q" "nstack (set_cur sf q) = nstack q"
  "ps (set_cur sf q) = ps q" "frames (set_cur sf q) = sf # tl (frames q)"
  "stkframecache (set_cur sf q) = stkframecache q" "qclasses (set_cur sf q) = qclasses q"
  "set_mem st (set_cur sf q) = set_cur sf (set_mem st q)"
  by (simp_all add: set_cur_def cur_def qmem_def qworld_def set_mem_def set_world_def)

lemma set_cur_same: "cur q = Some sf \<Longrightarrow> set_cur sf q = q"
  by (auto simp: cur_def set_cur_def split: list.splits)

lemma var_simps [simp]:
  "var_at (set_var l v q) l' = (if l' = l then Some v else var_at q l')"
  "var_at (del_var l q) l' = (if l' = l then None else var_at q l')"
  "var_at (set_mem st q) l = vars st l" "var_at (set_cur sf q) l = var_at q l" "var_at (set_world w q) l = vars (store w) l"
  "cur (set_var l v q) = cur q" "cur (del_var l q) = cur q" "nstack (set_var l v q) = nstack q" "nstack (del_var l q) = nstack q"
  "frames (set_var l v q) = frames q" "frames (del_var l q) = frames q"
  "insts (qmem (set_var l v q)) = insts (qmem q)" "insts (qmem (del_var l q)) = insts (qmem q)"
  "vars (qmem (set_var l v q)) = (vars (qmem q))(l \<mapsto> v)" "vars (qmem (del_var l q)) = (vars (qmem q))(l := None)"
  "mallocs (qworld (set_var l v q)) = mallocs (qworld q)" "mallocs (qworld (del_var l q)) = mallocs (qworld q)"
  by (auto simp: set_var_def del_var_def var_at_def)

lemma set_var_cur [simp]: "set_var l v (set_cur sf q) = set_cur sf (set_var l v q)"
  "del_var l (set_cur sf q) = set_cur sf (del_var l q)"
  by (simp_all add: set_var_def del_var_def)

lemma onworld_grow: "mallocs (qworld q) = [] \<Longrightarrow> onworld grow q = (True, q)"
  by (simp add: onworld_def no_failure set_world_def qworld_def)

subsection \<open>Entering and leaving\<close>

lemma add_locals_ok:
  assumes "mallocs (qworld q) = []" and "cur q = Some sf"
  shows "add_locals k q = Some (True, set_cur (sf\<lparr>nlocals := nlocals sf + k\<rparr>)
    (set_mem ((qmem q)\<lparr>vars := (\<lambda>l. if l \<in> Local (fid sf) ` {nlocals sf..<nlocals sf + k} then Some void_variant
                                 else vars (qmem q) l)\<rparr>) q))"
  using assms
proof (induction k arbitrary: q sf)
  case 0
  then show ?case by (simp add: set_cur_same)
next
  case (Suc k)
  let ?q = "set_cur (sf\<lparr>nlocals := nlocals sf + 1\<rparr>) (set_var (Local (fid sf) (nlocals sf)) void_variant q)"
  have e: "(\<lambda>l. if l \<in> Local (fid sf) ` {nlocals sf + 1..<nlocals sf + 1 + k} then Some void_variant
        else ((vars (qmem q))(Local (fid sf) (nlocals sf) \<mapsto> void_variant)) l)
      = (\<lambda>l. if l \<in> Local (fid sf) ` {nlocals sf..<nlocals sf + Suc k} then Some void_variant else vars (qmem q) l)"
    by (auto simp: fun_eq_iff image_iff)
  have "add_locals (Suc k) q = add_locals k ?q"
    using Suc.prems by (simp add: onworld_grow)
  also have "\<dots> = Some (True, set_cur (sf\<lparr>nlocals := nlocals sf + Suc k\<rparr>)
      (set_mem ((qmem ?q)\<lparr>vars := (\<lambda>l. if l \<in> Local (fid sf) ` {nlocals sf + 1..<nlocals sf + 1 + k} then Some void_variant
                                 else vars (qmem ?q) l)\<rparr>) ?q))"
    using Suc.prems Suc.IH [of ?q "sf\<lparr>nlocals := nlocals sf + 1\<rparr>"] by simp
  also have "\<dots> = Some (True, set_cur (sf\<lparr>nlocals := nlocals sf + Suc k\<rparr>)
      (set_mem ((qmem q)\<lparr>vars := (\<lambda>l. if l \<in> Local (fid sf) ` {nlocals sf + 1..<nlocals sf + 1 + k} then Some void_variant
          else ((vars (qmem q))(Local (fid sf) (nlocals sf) \<mapsto> void_variant)) l)\<rparr>) q))"
    by (simp add: set_var_def cong: if_cong)
  finally show ?case unfolding e .
qed

text \<open>
  What releasing a variant can touch: itself, the fields of instances and the variants of their
  native data, which are at places of their own (\<open>fld\<close>).
\<close>

definition fld :: "loc set" where
  "fld = {l. (\<exists>i k. l = Fld i k) \<or> (\<exists>a. l = Elem a)}"

definition apart :: "(loc, 'f) mem \<Rightarrow> bool" where
  "apart st \<longleftrightarrow> (\<forall>i x. insts st i = Some x \<longrightarrow> set (owned x) \<subseteq> fld)"

definition only :: "loc set \<Rightarrow> (loc, 'f) mem \<Rightarrow> (loc, 'f) mem \<Rightarrow> bool" where
  "only F st st' \<longleftrightarrow> (\<forall>l. l \<notin> F \<longrightarrow> vars st' l = vars st l)
     \<and> (\<forall>i x. insts st' i = Some x \<longrightarrow> (\<exists>y. insts st i = Some y \<and> owned y = owned x))"

lemma only_refl [simp, intro!]: "only F st st" by (simp add: only_def)

lemma only_trans: "only F st st' \<Longrightarrow> only F st' st'' \<Longrightarrow> only F st st''"
  unfolding only_def by metis

lemma only_mono: "only F st st' \<Longrightarrow> F \<subseteq> G \<Longrightarrow> only G st st'"
  unfolding only_def by blast

lemma only_apart: "only F st st' \<Longrightarrow> apart st \<Longrightarrow> apart st'"
  unfolding only_def apart_def by metis

lemma only_upd: "l \<in> F \<Longrightarrow> only F st (st\<lparr>vars := (vars st)(l := v)\<rparr>)"
  by (auto simp: only_def)

lemma only_wr: "l \<in> F \<Longrightarrow> wr l v st = Some st' \<Longrightarrow> only F st st'"
  by (auto simp: wr_def only_upd split: if_splits)

lemma clear_with_only:
  assumes "\<And>i st st'. apart st \<Longrightarrow> rel i st = Some st' \<Longrightarrow> only fld st st'"
    and "apart st" "clear_with rel l st = Some st'"
  shows "only (insert l fld) st st'"
proof -
  obtain v where v: "vars st l = Some v" using assms(3) by (auto simp: clear_with_def bind_eq_Some_conv)
  show ?thesis
  proof (cases "vtype v = TYPE_INST")
    case True
    with assms(3) v obtain i st1 where "rel i st = Some st1" "wr l void_variant st1 = Some st'"
      by (auto simp: clear_with_def bind_eq_Some_conv)
    with assms(1) [OF assms(2)] show ?thesis
      by (meson only_mono only_trans only_wr insertI1 subset_insertI)
  next
    case False
    then have "st' = st \<or> wr l void_variant st = Some st'"
      using assms(3) v by (cases "vtype v") (auto simp: clear_with_def bind_eq_Some_conv)
    then show ?thesis by (auto intro: only_wr)
  qed
qed

lemma foldM_only:
  assumes "\<And>i st st'. apart st \<Longrightarrow> rel i st = Some st' \<Longrightarrow> only fld st st'"
  shows "set ls \<subseteq> fld \<Longrightarrow> apart st \<Longrightarrow> foldM (clear_with rel) ls st = Some st' \<Longrightarrow> only fld st st'"
proof (induction ls arbitrary: st)
  case (Cons l ls)
  then obtain st1 where st1: "clear_with rel l st = Some st1" "foldM (clear_with rel) ls st1 = Some st'"
    by (auto simp: bind_eq_Some_conv)
  have "only fld st st1"
    using clear_with_only [OF assms Cons.prems(2) st1(1)] Cons.prems(1) by (simp add: insert_absorb)
  with Cons.IH [of st1] st1(2) Cons.prems show ?case by (auto dest: only_apart intro: only_trans)
qed simp

lemma jsinstDeref_only: "apart st \<Longrightarrow> jsinstDeref n i st = Some st' \<Longrightarrow> only fld st st'"
proof (induction n arbitrary: i st st')
  case (Suc n)
  then obtain x where x: "insts st i = Some x" by (auto simp: bind_eq_Some_conv)
  let ?s = "st\<lparr>insts := (insts st)(i \<mapsto> x\<lparr>refcount := refcount x - 1\<rparr>)\<rparr>"
  have s: "only fld st ?s" using x by (auto simp: only_def)
  then have a: "apart ?s" using Suc.prems(1) by (rule only_apart)
  show ?case
  proof (cases "refcount x - 1 \<le> 0")
    case True
    with Suc.prems(2) x obtain st1 where
      st1: "foldM (clear_with (jsinstDeref n)) (owned x) ?s = Some st1" "st' = free_inst i (owned x) st1"
      by (auto simp: bind_eq_Some_conv)
    have f: "set (owned x) \<subseteq> fld" using Suc.prems(1) x by (auto simp: apart_def)
    have "only fld ?s st1" by (rule foldM_only [OF Suc.IH f a st1(1)])
    moreover have "only fld st1 st'" using f unfolding st1(2) free_inst_def only_def
      by (auto simp: restrict_map_def)
    ultimately show ?thesis using s only_trans by blast
  next
    case False
    with Suc.prems(2) x s show ?thesis by simp
  qed
qed simp

text \<open>The two ways of releasing a variant.\<close>

definition release_ok :: "(loc \<Rightarrow> (loc, 'f) mem \<Rightarrow> (loc, 'f) mem option) \<Rightarrow> bool" where
  "release_ok release \<longleftrightarrow>
     (\<forall>l st st'. apart st \<longrightarrow> release l st = Some st' \<longrightarrow> only (insert l fld) st st')"

lemma varClear_release: "release_ok (varClear X)"
  unfolding release_ok_def varClear_def by (blast intro: clear_with_only jsinstDeref_only)

lemma VARCLEAR_release: "release_ok (VARCLEAR X)"
  using varClear_release [of X] unfolding release_ok_def VARCLEAR_def
  by (auto simp: bind_eq_Some_conv split: if_splits)

lemma pop_locals_ok:
  assumes r: "release_ok release"
  shows "cur q = Some sf \<Longrightarrow> apart (qmem q) \<Longrightarrow> pop_locals release k q = Some q' \<Longrightarrow>
    k \<le> nlocals sf \<and> cur q' = Some (sf\<lparr>nlocals := nlocals sf - k\<rparr>) \<and> tl (frames q') = tl (frames q)
    \<and> nstack q' = nstack q \<and> apart (qmem q') \<and> mallocs (qworld q') = mallocs (qworld q)
    \<and> (\<forall>l. l \<notin> fld \<longrightarrow> var_at q' l =
         (if l \<in> Local (fid sf) ` {nlocals sf - k..<nlocals sf} then None else var_at q l))"
proof (induction k arbitrary: q sf)
  case (Suc k)
  let ?l = "Local (fid sf) (nlocals sf - 1)"
  from Suc.prems obtain st where st: "0 < nlocals sf" "release ?l (qmem q) = Some st"
    "pop_locals release k (set_cur (sf\<lparr>nlocals := nlocals sf - 1\<rparr>) (del_var ?l (set_mem st q))) = Some q'"
    by (auto simp: domem_def bind_eq_Some_conv Let_def split: if_splits)
  let ?q = "set_cur (sf\<lparr>nlocals := nlocals sf - 1\<rparr>) (del_var ?l (set_mem st q))"
  have o: "only (insert ?l fld) (qmem q) st" using r Suc.prems(2) st(2) unfolding release_ok_def by blast
  have "apart (qmem ?q)" using only_apart [OF o Suc.prems(2)] by (simp add: apart_def)
  from Suc.IH [OF _ this st(3)] have IH: "k \<le> nlocals sf - 1"
    "cur q' = Some (sf\<lparr>nlocals := nlocals sf - 1 - k\<rparr>)" "tl (frames q') = tl (frames q)" "nstack q' = nstack q"
    "apart (qmem q')" "mallocs (qworld q') = mallocs (qworld q)"
    "\<forall>l. l \<notin> fld \<longrightarrow> var_at q' l =
         (if l \<in> Local (fid sf) ` {nlocals sf - 1 - k..<nlocals sf - 1} then None else var_at ?q l)"
    by auto
  have "var_at q' l = (if l \<in> Local (fid sf) ` {nlocals sf - Suc k..<nlocals sf} then None else var_at q l)"
    if "l \<notin> fld" for l
  proof -
    have "{nlocals sf - Suc k..<nlocals sf} = insert (nlocals sf - 1) {nlocals sf - 1 - k..<nlocals sf - 1}"
      using st(1) by auto
    then show ?thesis using IH(7) that o by (auto simp: only_def var_at_def)
  qed
  with IH st(1) show ?case by auto
qed (auto simp: set_cur_same)

subsection \<open>The invariant\<close>

fun breaks_ok :: "blockframe list \<Rightarrow> bool" where
  "breaks_ok [] \<longleftrightarrow> True"
| "breaks_ok (b # bs) \<longleftrightarrow> blockcount b \<le> int (length (b # bs)) \<and> breaks_ok bs"

definition blocks_sum :: "blockframe list \<Rightarrow> int" where
  "blocks_sum bs = (\<Sum>b\<leftarrow>bs. localcount b)"

lemma blocks_sum_simps [simp]: "blocks_sum [] = 0" "blocks_sum (b # bs) = localcount b + blocks_sum bs"
  by (simp_all add: blocks_sum_def)

lemma blocks_sum_nonneg: "\<forall>b \<in> set bs. 0 \<le> localcount b \<Longrightarrow> 0 \<le> blocks_sum bs"
  by (induction bs) auto

text \<open>
  The frame has the variants of its \<open>base\<close> arguments and of the locals of its blocks, and no
  others; no block remembers more blocks than there are.
\<close>

definition frame_ok :: "int \<Rightarrow> ('c, 'f) qinterp \<Rightarrow> bool" where
  "frame_ok base q \<longleftrightarrow> (\<exists>sf. cur q = Some sf \<and> apart (qmem q) \<and> mallocs (qworld q) = []
     \<and> (\<forall>k. var_at q (Local (fid sf) k) \<noteq> None \<longleftrightarrow> k < nlocals sf)
     \<and> 0 \<le> base \<and> int (nlocals sf) = base + blocks_sum (blockframes sf)
     \<and> (\<forall>b \<in> set (blockframes sf). 0 \<le> localcount b) \<and> breaks_ok (blockframes sf))"

lemma enterBlock_ok:
  assumes "mallocs (qworld q) = []" "cur q = Some sf"
  shows "enterBlock n q = Some (True, set_cur (sf\<lparr>nlocals := nlocals sf + nat n,
      blockframes := \<lparr>localcount = n, breakpc = getBreak sf, blockcount = getBreakBlockCount sf, catchpc = -1\<rparr>
        # blockframes sf\<rparr>)
    (set_mem ((qmem q)\<lparr>vars := (\<lambda>l. if l \<in> Local (fid sf) ` {nlocals sf..<nlocals sf + nat n} then Some void_variant
                                 else vars (qmem q) l)\<rparr>) q))"
  using assms
  by (simp add: enterBlock_def add_locals_ok onworld_grow getBreak_def getBreakBlockCount_def)

lemma leaveBlock_ok:
  assumes q: "cur q = Some sf" "apart (qmem q)" and l: "leaveBlock E q = Some q'"
  shows "nat (localCount sf) \<le> nlocals sf
    \<and> cur q' = Some (sf\<lparr>nlocals := nlocals sf - nat (localCount sf), blockframes := tl (blockframes sf)\<rparr>)
    \<and> tl (frames q') = tl (frames q) \<and> nstack q' = nstack q \<and> apart (qmem q')
    \<and> mallocs (qworld q') = mallocs (qworld q)
    \<and> (\<forall>l. l \<notin> fld \<longrightarrow> var_at q' l =
         (if l \<in> Local (fid sf) ` {nlocals sf - nat (localCount sf)..<nlocals sf} then None else var_at q l))"
proof -
  from l q obtain q1 sf1 where "pop_locals (varClear (ex E)) (nat (localCount sf)) q = Some q1" "cur q1 = Some sf1"
    "q' = set_cur (sf1\<lparr>blockframes := tl (blockframes sf1)\<rparr>) q1"
    by (auto simp: leaveBlock_def bind_eq_Some_conv)
  with pop_locals_ok [OF varClear_release q this(1)] show ?thesis by auto
qed

lemma not_fld [simp]: "Local f k \<notin> fld" by (simp add: fld_def)

lemma frame_ok_leave:
  assumes "frame_ok base q" "leaveBlock E q = Some q'" "cur q = Some sf"
  shows "frame_ok base q' \<and> cur q' = Some (sf\<lparr>nlocals := nat (base + blocks_sum (tl (blockframes sf))),
    blockframes := tl (blockframes sf)\<rparr>) \<and> nstack q' = nstack q \<and> tl (frames q') = tl (frames q)"
proof -
  from assms(1,3) have f: "apart (qmem q)" "mallocs (qworld q) = []"
    "\<forall>k. var_at q (Local (fid sf) k) \<noteq> None \<longleftrightarrow> k < nlocals sf"
    "0 \<le> base" "int (nlocals sf) = base + blocks_sum (blockframes sf)"
    "\<forall>b \<in> set (blockframes sf). 0 \<le> localcount b" "breaks_ok (blockframes sf)"
    by (auto simp: frame_ok_def)
  note l = leaveBlock_ok [OF assms(3) f(1) assms(2)]
  have n: "nlocals sf - nat (localCount sf) = nat (base + blocks_sum (tl (blockframes sf)))"
    using f(4-6) l by (cases "blockframes sf") (auto simp: localCount_def)
  have s: "0 \<le> blocks_sum (tl (blockframes sf))"
    using f(6) by (cases "blockframes sf") (auto intro: blocks_sum_nonneg)
  have t: "breaks_ok (tl (blockframes sf))" "\<forall>b \<in> set (tl (blockframes sf)). 0 \<le> localcount b"
    using f(6,7) by (cases "blockframes sf"; simp)+
  show ?thesis using l f t s n by (auto simp: frame_ok_def split: if_splits)
qed

lemma frame_ok_cur:
  "frame_ok base q \<Longrightarrow> cur q = Some sf \<Longrightarrow> breaks_ok bs \<Longrightarrow> map localcount bs = map localcount (blockframes sf)
     \<Longrightarrow> frame_ok base (set_cur (sf\<lparr>blockframes := bs\<rparr>) q)"
proof -
  assume a: "frame_ok base q" "cur q = Some sf" "breaks_ok bs" "map localcount bs = map localcount (blockframes sf)"
  have "blocks_sum bs = blocks_sum (blockframes sf)" using a(4) by (simp add: blocks_sum_def)
  moreover have "(\<forall>b \<in> set bs. 0 \<le> localcount b) \<longleftrightarrow> (\<forall>b \<in> set (blockframes sf). 0 \<le> localcount b)"
    using arg_cong [OF a(4), of set] by (auto simp flip: set_map) (metis imageE imageI set_map)+
  ultimately show ?thesis using a(1-3) by (auto simp: frame_ok_def)
qed

lemma frame_ok_enter:
  assumes f: "frame_ok base q" and n: "0 \<le> n"
  obtains sf q' where "cur q = Some sf" "enterBlock n q = Some (True, q')" "frame_ok base q'"
    "cur q' = Some (sf\<lparr>nlocals := nlocals sf + nat n,
      blockframes := \<lparr>localcount = n, breakpc = getBreak sf, blockcount = getBreakBlockCount sf, catchpc = -1\<rparr>
        # blockframes sf\<rparr>)"
proof -
  from f obtain sf where sf: "cur q = Some sf" "mallocs (qworld q) = []" by (auto simp: frame_ok_def)
  note e = enterBlock_ok [OF sf(2,1), of n]
  have "blockcount (hd (blockframes sf)) \<le> int (length (blockframes sf))" if "blockframes sf \<noteq> []"
    using f sf(1) that by (cases "blockframes sf") (auto simp: frame_ok_def)
  then have b: "getBreakBlockCount sf \<le> int (Suc (length (blockframes sf)))"
    by (cases "blockframes sf") (auto simp: getBreakBlockCount_def)
  show thesis
  proof (rule that [OF sf(1) e])
    show "frame_ok base (set_cur (sf\<lparr>nlocals := nlocals sf + nat n,
        blockframes := \<lparr>localcount = n, breakpc = getBreak sf, blockcount = getBreakBlockCount sf, catchpc = -1\<rparr>
          # blockframes sf\<rparr>)
      (set_mem ((qmem q)\<lparr>vars := (\<lambda>l. if l \<in> Local (fid sf) ` {nlocals sf..<nlocals sf + nat n} then Some void_variant
                                   else vars (qmem q) l)\<rparr>) q))"
      using f sf n b unfolding frame_ok_def
      by (auto simp: var_at_def apart_def image_iff)
  qed simp
qed

lemma catch_loop_ok:
  "frame_ok base q \<Longrightarrow> cur q = Some sf \<Longrightarrow> blockframes sf = bs \<Longrightarrow> catch_loop E bs q = Some (pc, q') \<Longrightarrow>
     bs' = dropWhile (\<lambda>b. catchpc b = -1) bs \<Longrightarrow>
     pc = (case bs' of [] \<Rightarrow> -1 | b # _ \<Rightarrow> catchpc b)
       \<and> cur q' = Some (sf\<lparr>nlocals := nat (base + blocks_sum bs'), blockframes := bs'\<rparr>)
       \<and> frame_ok base q' \<and> nstack q' = nstack q \<and> tl (frames q') = tl (frames q)"
proof (induction bs arbitrary: q sf)
  case Nil
  then have "nat base = nlocals sf" by (auto simp: frame_ok_def)
  then have "sf\<lparr>nlocals := nat base, blockframes := []\<rparr> = sf" using Nil.prems(3) by (cases sf) simp
  with Nil show ?case by simp
next
  case (Cons b bs)
  show ?case
  proof (cases "catchpc b = -1")
    case True
    with Cons.prems(4) obtain q1 where
      q1: "leaveBlock E q = Some q1" "catch_loop E bs q1 = Some (pc, q')"
      by (auto simp: bind_eq_Some_conv)
    note l = frame_ok_leave [OF Cons.prems(1) q1(1) Cons.prems(2), unfolded Cons.prems(3) list.sel]
    from Cons.IH [OF conjunct1 [OF l] _ _ q1(2)] l True Cons.prems(5) show ?thesis by simp
  next
    case False
    have "nlocals sf = nat (base + blocks_sum (b # bs))"
      using Cons.prems(1-3) by (auto simp: frame_ok_def)
    then have "sf\<lparr>nlocals := nat (base + blocks_sum (b # bs)), blockframes := b # bs\<rparr> = sf"
      using Cons.prems(3) by (cases sf) simp
    with False Cons.prems show ?thesis by simp
  qed
qed

text \<open>The block operations of a frame, as the instructions use them.\<close>

inductive block_step :: "('c, 'f) env \<Rightarrow> ('c, 'f) qinterp \<Rightarrow> ('c, 'f) qinterp \<Rightarrow> bool" for E where
  enter: "0 \<le> n \<Longrightarrow> enterBlock n q = Some (b, q') \<Longrightarrow> block_step E q q'"
| leave: "leaveBlock E q = Some q' \<Longrightarrow> block_step E q q'"
| settry: "cur q = Some sf \<Longrightarrow> setTry sf pc = Some sf' \<Longrightarrow> block_step E q (set_cur sf' q)"
| setbreak: "cur q = Some sf \<Longrightarrow> setBreak sf pc = Some sf' \<Longrightarrow> block_step E q (set_cur sf' q)"
| catch: "getCatch E q = Some (pc, q') \<Longrightarrow> block_step E q q'"
| break: "breakBlock E q = Some (pc, q') \<Longrightarrow> block_step E q q'"

lemma breakBlock_stays:
  assumes "frame_ok base q" "cur q = Some sf"
  shows "breakBlock E q = Some (getBreak sf, q)"
  using assms
  by (cases "blockframes sf") (auto simp: breakBlock_def frame_ok_def getBreak_def break_loop.simps)

lemma block_step_ok: "block_step E q q' \<Longrightarrow> frame_ok base q \<Longrightarrow> frame_ok base q'"
proof (induction rule: block_step.induct)
  case (enter n q b q')
  from enter.prems enter.hyps(1) show ?case by (rule frame_ok_enter) (use enter.hyps(2) in simp)
next
  case (leave q q')
  then obtain sf where "cur q = Some sf" by (auto simp: frame_ok_def)
  from frame_ok_leave [OF leave.prems leave.hyps this] show ?case by blast
next
  case (settry q sf pc sf')
  then obtain b bs where "blockframes sf = b # bs" "sf' = sf\<lparr>blockframes := b\<lparr>catchpc := pc\<rparr> # bs\<rparr>"
    by (auto simp: setTry_def split: list.splits)
  with settry show ?case by (auto simp: frame_ok_def intro!: frame_ok_cur)
next
  case (setbreak q sf pc sf')
  then obtain b bs where
    "blockframes sf = b # bs" "sf' = sf\<lparr>blockframes := b\<lparr>blockcount := int (length (b # bs)), breakpc := pc\<rparr> # bs\<rparr>"
    by (auto simp: setBreak_def split: list.splits)
  with setbreak show ?case by (auto simp: frame_ok_def intro!: frame_ok_cur)
next
  case (catch q pc q')
  then obtain sf where "cur q = Some sf" "catch_loop E (blockframes sf) q = Some (pc, q')"
    by (auto simp: getCatch_def bind_eq_Some_conv)
  with catch_loop_ok catch.prems show ?case by blast
next
  case (break q pc q')
  then obtain sf where "cur q = Some sf" by (auto simp: frame_ok_def)
  with breakBlock_stays [OF break.prems this] break.hyps show ?case using break.prems by simp
qed

text \<open>C36. The block discipline. However the blocks of a frame are entered, left, given a break or a
  catch, unwound by an exception or broken out of, the frame's locals are its arguments and the
  locals of its open blocks: each of them is a live variant, and no other is.\<close>
theorem block_discipline:
  assumes "frame_ok base q" and "(block_step E)\<^sup>*\<^sup>* q q'"
  shows "frame_ok base q'"
  using assms(2,1) by (induction rule: rtranclp_induct) (auto intro: block_step_ok)

text \<open>A frame with one argument, in an interpreter with nothing else.\<close>

definition frame_a :: stackframe where
  "frame_a = \<lparr>fid = 9, ctx = 0, fmethod = None, nlocals = 1, blockframes = [], ferr = IERR_NONE,
     stackcount = 0, fpc = 0\<rparr>"

definition qinterp_a :: "((int \<Rightarrow> uint16), int) qinterp" where
  "qinterp_a = \<lparr>ps = pstate_a\<lparr>wld := (wld pstate_a)\<lparr>store := \<lparr>vars = [Local 9 0 \<mapsto> mk TYPE_INT (DI 3),
       Tempdata1 \<mapsto> void_variant, Null \<mapsto> mk TYPE_NULL (DI 0), Retval 9 \<mapsto> void_variant], insts = Map.empty\<rparr>\<rparr>\<rparr>,
     programs = [0], qclasses = [''A'' \<mapsto> 0], nstack = 0, frames = [frame_a], stkframecache = [], linenum = 0\<rparr>"

definition env_a :: "((int \<Rightarrow> uint16), int) env" where
  "env_a = \<lparr>ex = int_ext, lb = fun_lib, st_index = (\<lambda>s t. int (length (takeWhile (\<lambda>c. [c] \<noteq> t) s))),
     st_left = (\<lambda>s n. take (nat n) s), st_subend = (\<lambda>s n. drop (nat n) s),
     st_replace = (\<lambda>s a b. map (\<lambda>c. if c = a then b else c) s),
     call_native = (\<lambda>f m r q. Some (IERR_NONE, q)), call_field = (\<lambda>f v r q. Some (IERR_NONE, q))\<rparr>"

lemma frame_ok_a: "frame_ok 1 qinterp_a"
  by (auto simp: frame_ok_def qinterp_a_def frame_a_def cur_def apart_def qmem_def qworld_def var_at_def
      pstate_a_def world_a_def)

theorem block_discipline_witness:
  "\<exists>q'. enterBlock 2 qinterp_a = Some (True, q') \<and> frame_ok 1 q'"
proof -
  obtain q' where q': "enterBlock 2 qinterp_a = Some (True, q')"
    using frame_ok_enter [OF frame_ok_a, of 2] by auto
  then have "block_step env_a qinterp_a q'" by (intro block_step.enter) auto
  with q' block_discipline [OF frame_ok_a, of env_a q'] show ?thesis by blast
qed

subsection \<open>Exceptions and breaks\<close>

text \<open>Clearing a variant that is no instance returns, if a string has its characters.\<close>

definition clearable :: "('l, 'f) variant \<Rightarrow> bool" where
  "clearable v \<longleftrightarrow> vtype v \<noteq> TYPE_INST \<and> (vtype v = TYPE_STRING \<longrightarrow> as_str (data v) \<noteq> None)"

definition plain_locals :: "('c, 'f) qinterp \<Rightarrow> bool" where
  "plain_locals q \<longleftrightarrow> (\<forall>f k v. var_at q (Local f k) = Some v \<longrightarrow> clearable v)"

lemma varClear_plain:
  "vars st l = Some v \<Longrightarrow> clearable v \<Longrightarrow> varClear X l st \<noteq> None"
  by (cases "vtype v") (auto simp: clearable_def varClear_def clear_with_def wr_def)

lemma pop_locals_returns:
  "cur q = Some sf \<Longrightarrow> apart (qmem q) \<Longrightarrow> plain_locals q \<Longrightarrow> k \<le> nlocals sf \<Longrightarrow>
     \<forall>i < nlocals sf. var_at q (Local (fid sf) i) \<noteq> None \<Longrightarrow> pop_locals (varClear X) k q \<noteq> None"
proof (induction k arbitrary: q sf)
  case (Suc k)
  let ?l = "Local (fid sf) (nlocals sf - 1)"
  have "nlocals sf - 1 < nlocals sf" using Suc.prems(4) by simp
  with Suc.prems(5) obtain v where v: "var_at q ?l = Some v" by blast
  then obtain st where st: "varClear X ?l (qmem q) = Some st"
    using varClear_plain [of "qmem q" ?l v X] Suc.prems(3) by (auto simp: plain_locals_def var_at_def)
  let ?q = "set_cur (sf\<lparr>nlocals := nlocals sf - 1\<rparr>) (del_var ?l (set_mem st q))"
  have o: "only (insert ?l fld) (qmem q) st"
    using varClear_release [of X] Suc.prems(2) st unfolding release_ok_def by blast
  have same: "var_at ?q (Local f i) = (if Local f i = ?l then None else var_at q (Local f i))" for f i
    using o by (auto simp: only_def var_at_def)
  have "pop_locals (varClear X) k ?q \<noteq> None"
  proof (rule Suc.IH)
    show "cur ?q = Some (sf\<lparr>nlocals := nlocals sf - 1\<rparr>)" by simp
    show "apart (qmem ?q)" using only_apart [OF o Suc.prems(2)] by (simp add: apart_def)
    show "plain_locals ?q" using Suc.prems(3) unfolding plain_locals_def same by auto
    show "k \<le> nlocals (sf\<lparr>nlocals := nlocals sf - 1\<rparr>)" using Suc.prems(4) by simp
    show "\<forall>i < nlocals (sf\<lparr>nlocals := nlocals sf - 1\<rparr>). var_at ?q (Local (fid (sf\<lparr>nlocals := nlocals sf - 1\<rparr>)) i) \<noteq> None"
      using Suc.prems(5) unfolding same by auto
  qed
  with Suc.prems(1,4) st show ?case by (auto simp: domem_def Let_def)
qed simp

lemma leaveBlock_returns:
  assumes "frame_ok base q" "plain_locals q"
  shows "\<exists>q'. leaveBlock E q = Some q' \<and> plain_locals q'"
proof -
  from assms(1) obtain sf where sf: "cur q = Some sf" "apart (qmem q)"
    "\<forall>k. var_at q (Local (fid sf) k) \<noteq> None \<longleftrightarrow> k < nlocals sf" "0 \<le> base"
    "int (nlocals sf) = base + blocks_sum (blockframes sf)" "\<forall>b \<in> set (blockframes sf). 0 \<le> localcount b"
    unfolding frame_ok_def by blast
  have n: "nat (localCount sf) \<le> nlocals sf"
  proof (cases "blockframes sf")
    case (Cons b bs)
    then have "0 \<le> blocks_sum bs" using sf(6) by (simp add: blocks_sum_nonneg)
    with Cons sf(4,5) show ?thesis by (simp add: localCount_def)
  qed (simp add: localCount_def)
  have "pop_locals (varClear (ex E)) (nat (localCount sf)) q \<noteq> None"
    by (rule pop_locals_returns [OF sf(1,2) assms(2) n]) (use sf(3) in blast)
  then obtain q1 where q1: "pop_locals (varClear (ex E)) (nat (localCount sf)) q = Some q1" by blast
  with pop_locals_ok [OF varClear_release sf(1,2) q1] sf(1) have l: "leaveBlock E q \<noteq> None"
    by (auto simp: leaveBlock_def)
  then obtain q' where q': "leaveBlock E q = Some q'" by blast
  have "plain_locals q'"
    using leaveBlock_ok [OF sf(1,2) q'] assms(2) unfolding plain_locals_def by (auto split: if_splits)
  with q' show ?thesis by blast
qed

lemma catch_loop_returns:
  "frame_ok base q \<Longrightarrow> plain_locals q \<Longrightarrow> catch_loop E bs q \<noteq> None"
proof (induction bs arbitrary: q)
  case (Cons b bs)
  obtain q' where q': "leaveBlock E q = Some q'" "plain_locals q'"
    using leaveBlock_returns [OF Cons.prems] by blast
  have "frame_ok base q'" using Cons.prems(1) q'(1) by (auto intro: block_step_ok block_step.leave)
  from Cons.IH [OF this q'(2)] q'(1) show ?case by auto
qed simp

text \<open>C37. Catching an exception. \<open>getCatch\<close> leaves exactly the blocks inside the innermost one with a
  catch, with their locals, and returns its catch; it leaves them all and returns -1 when no
  block has one. It returns whenever the locals hold no instances and no string without its characters, and the
  frame's locals still match its blocks.\<close>
theorem getCatch_unwinds:
  assumes "frame_ok base q" and "cur q = Some sf" and "plain_locals q"
  shows "\<exists>pc q'. getCatch E q = Some (pc, q') \<and> frame_ok base q' \<and> nstack q' = nstack q
    \<and> tl (frames q') = tl (frames q)
    \<and> (let bs = dropWhile (\<lambda>b. catchpc b = -1) (blockframes sf)
       in pc = (case bs of [] \<Rightarrow> -1 | b # _ \<Rightarrow> catchpc b)
          \<and> cur q' = Some (sf\<lparr>nlocals := nat (base + blocks_sum bs), blockframes := bs\<rparr>))"
proof -
  obtain pc q' where c: "catch_loop E (blockframes sf) q = Some (pc, q')"
    using catch_loop_returns [OF assms(1,3), of E "blockframes sf"] by auto
  with catch_loop_ok [OF assms(1,2) refl c refl] assms(2) show ?thesis
    by (auto simp: getCatch_def Let_def)
qed

theorem getCatch_unwinds_witness:
  "\<exists>q'. getCatch env_a qinterp_a = Some (-1, q') \<and> cur q' = Some frame_a"
proof -
  have "cur qinterp_a = Some frame_a" "plain_locals qinterp_a"
    by (auto simp: qinterp_a_def frame_a_def cur_def plain_locals_def clearable_def var_at_def qmem_def qworld_def
        void_variant_def split: if_splits)
  from getCatch_unwinds [OF frame_ok_a this, of env_a] show ?thesis
    by (auto simp: frame_a_def)
qed

text \<open>C38. A break leaves no block. In every state the block operations can reach, \<open>breakBlock\<close> returns
  the target at once with all blocks and locals as they are: its loop asks whether there are
  fewer blocks than the target remembers, and there never are, so the blocks entered since
  \<open>setBreak\<close> stay open after a break out of them.\<close>
theorem breakBlock_leaves_no_block:
  assumes "frame_ok base q" and "(block_step E)\<^sup>*\<^sup>* q q'" and "cur q' = Some sf"
  shows "breakBlock E q' = Some (getBreak sf, q')"
proof -
  from assms(2,1) have "frame_ok base q'"
    by (induction rule: rtranclp_induct) (auto intro: block_step_ok)
  then show ?thesis using assms(3) by (rule breakBlock_stays)
qed

theorem breakBlock_leaves_no_block_witness:
  "\<exists>q1 q2 sf. enterBlock 0 qinterp_a = Some (True, q1) \<and> cur q1 = Some sf
     \<and> enterBlock 2 (set_cur (the (setBreak sf 40)) q1) = Some (True, q2)
     \<and> length (blockframes (the (cur q2))) = 2 \<and> breakBlock env_a q2 = Some (40, q2)"
proof -
  have c: "cur qinterp_a = Some frame_a" by (simp add: qinterp_a_def cur_def)
  obtain sf q1 where e: "cur qinterp_a = Some sf" and q1: "enterBlock 0 qinterp_a = Some (True, q1)" "frame_ok 1 q1"
    and c1: "cur q1 = Some (sf\<lparr>nlocals := nlocals sf + nat 0,
      blockframes := \<lparr>localcount = 0, breakpc = getBreak sf, blockcount = getBreakBlockCount sf, catchpc = -1\<rparr>
        # blockframes sf\<rparr>)"
    by (rule frame_ok_enter [OF frame_ok_a, of 0]) auto
  let ?sf = "frame_a\<lparr>blockframes := [\<lparr>localcount = 0, breakpc = -1, blockcount = 0, catchpc = -1\<rparr>]\<rparr>"
  let ?sf' = "frame_a\<lparr>blockframes := [\<lparr>localcount = 0, breakpc = 40, blockcount = 1, catchpc = -1\<rparr>]\<rparr>"
  have c1: "cur q1 = Some ?sf"
  proof -
    have "sf = frame_a" using e c by simp
    then show ?thesis using c1 by (simp add: frame_a_def getBreak_def getBreakBlockCount_def)
  qed
  have b: "setBreak ?sf 40 = Some ?sf'" by (simp add: setBreak_def)
  let ?q = "set_cur ?sf' q1"
  have s: "block_step env_a q1 ?q" by (rule block_step.setbreak [OF c1 b])
  have f: "frame_ok 1 ?q" by (rule block_step_ok [OF s q1(2)])
  obtain sf' q2 where e': "cur ?q = Some sf'" and q2: "enterBlock 2 ?q = Some (True, q2)"
    and c2: "cur q2 = Some (sf'\<lparr>nlocals := nlocals sf' + nat 2,
      blockframes := \<lparr>localcount = 2, breakpc = getBreak sf', blockcount = getBreakBlockCount sf', catchpc = -1\<rparr>
        # blockframes sf'\<rparr>)"
    by (rule frame_ok_enter [OF f, of 2]) auto
  have sf': "sf' = ?sf'" using e' by simp
  have "(block_step env_a)\<^sup>*\<^sup>* ?q q2" using q2 by (intro r_into_rtranclp block_step.enter) auto
  from breakBlock_leaves_no_block [OF f this c2] have "breakBlock env_a q2 = Some (40, q2)"
    by (simp add: getBreak_def sf')
  moreover have "length (blockframes (the (cur q2))) = 2" using c2 sf' by simp
  ultimately show ?thesis using q1 q2 b c1 by (metis option.sel)
qed

end
