(* ===== verification/Interp_Frames.thy ===== *)
theory Interp_Frames
  imports Interp Blocks_Spec
begin

section \<open>Calls and returns are balanced\<close>

text \<open>
  The contract of a runner, the interpreter or a native method: the frame it runs in stays the
  current one, for the same class, method and height of the stack, over the same callers. The
  calls keep it when the runner they are given does, and so, by induction on the fuel, does the
  interpreter, whatever its program does.
\<close>

definition strip :: "stackframe \<Rightarrow> stackframe" where
  "strip sf = sf\<lparr>nlocals := 0, blockframes := [], ferr := IERR_NONE, fpc := 0\<rparr>"

fun skel :: "stackframe list \<Rightarrow> stackframe list" where
  "skel [] = []"
| "skel (sf # rest) = strip sf # rest"

definition run_kept :: "('c, 'f) run \<Rightarrow> bool" where
  "run_kept run \<longleftrightarrow> (\<forall>q e q'. run q = Some (e, q') \<longrightarrow> skel (frames q') = skel (frames q))"

definition natives_kept :: "('c, 'f) env \<Rightarrow> bool" where
  "natives_kept E \<longleftrightarrow> (\<forall>f m r. run_kept (call_native E f m r)) \<and> (\<forall>f v r. run_kept (call_field E f v r))"

named_theorems kept "operations that keep the frames"

lemma strip_simps [simp]:
  "strip (sf\<lparr>nlocals := n\<rparr>) = strip sf" "strip (sf\<lparr>blockframes := bs\<rparr>) = strip sf"
  "strip (sf\<lparr>ferr := e\<rparr>) = strip sf" "strip (sf\<lparr>fpc := pc\<rparr>) = strip sf"
  by (simp_all add: strip_def)

lemma cur_frames: "cur q = Some sf \<longleftrightarrow> (\<exists>rest. frames q = sf # rest)"
  by (auto simp: cur_def split: list.splits)

lemma skel_Nil [simp]: "skel fs = [] \<longleftrightarrow> fs = []" by (cases fs) auto

lemma skel_ConsE: "skel fs = strip sf # rest \<Longrightarrow> \<exists>sf'. fs = sf' # rest \<and> strip sf' = strip sf" by (cases fs) auto

lemma strip_fields: "strip sf' = strip sf \<Longrightarrow> fid sf' = fid sf \<and> ctx sf' = ctx sf \<and> fmethod sf' = fmethod sf \<and> stackcount sf' = stackcount sf"
  by (cases sf; cases sf') (simp add: strip_def)

lemma tl_skel: "skel fs' = skel fs \<Longrightarrow> tl fs' = tl fs \<and> (fs' = [] \<longleftrightarrow> fs = [])"
  by (cases fs; cases fs') auto

lemma frames_simps [simp]:
  "frames (push_raw v q) = frames q" "frames (drop_top q) = frames q" "frames (qfree n q) = frames q"
  "cur (drop_top q) = cur q" "cur (qfree n q) = cur q"
  by (simp_all add: push_raw_def drop_top_def qfree_def cur_def)

text \<open>Opening a computation that has returned, branch by branch.\<close>

lemma case_prod_conv: "(case p of (a, b) \<Rightarrow> f a b) = Some r \<longleftrightarrow> (\<exists>a b. p = (a, b) \<and> f a b = Some r)"
  by (cases p) simp

lemma if_conv: "(if c then x else y) = Some r \<longleftrightarrow> c \<and> x = Some r \<or> \<not> c \<and> y = Some r"
  by simp

lemma case_option_conv:
  "(case p of None \<Rightarrow> x | Some a \<Rightarrow> f a) = Some r \<longleftrightarrow> p = None \<and> x = Some r \<or> (\<exists>a. p = Some a \<and> f a = Some r)"
  by (cases p) simp_all

lemma case_list_conv:
  "(case p of [] \<Rightarrow> x | a # as \<Rightarrow> f a as) = Some r \<longleftrightarrow> p = [] \<and> x = Some r \<or> (\<exists>a as. p = a # as \<and> f a as = Some r)"
  by (cases p) simp_all

lemmas opened = bind_eq_Some_conv Let_def cur_frames case_prod_conv if_conv case_option_conv case_list_conv

lemma onmem_kept [kept]: "onmem f q = Some (a, q') \<Longrightarrow> frames q' = frames q"
  by (auto simp: onmem_def bind_eq_Some_conv)

lemma domem_kept [kept]: "domem f q = Some q' \<Longrightarrow> frames q' = frames q"
  by (auto simp: domem_def bind_eq_Some_conv)

lemma onworld_kept [kept]: "onworld f q = (a, q') \<Longrightarrow> frames q' = frames q"
  by (auto simp: onworld_def split: prod.split_asm)

lemma set_err_kept [kept]: "set_err e q = Some q' \<Longrightarrow> skel (frames q') = skel (frames q)"
  by (auto simp: set_err_def cur_frames)

lemma set_pc_kept [kept]: "set_pc e q = Some q' \<Longrightarrow> skel (frames q') = skel (frames q)"
  by (auto simp: set_pc_def cur_frames)

subsection \<open>The stack and the blocks\<close>

lemma pop_with_kept [kept]: "pop_with release q = Some q' \<Longrightarrow> frames q' = frames q"
  by (auto simp: pop_with_def bind_eq_Some_conv dest!: kept)

lemma stackPop_kept [kept]: "stackPop E q = Some q' \<Longrightarrow> frames q' = frames q"
  by (simp add: stackPop_def pop_with_kept)

lemma stackPush_kept [kept]: "stackPush E l q = Some (b, q') \<Longrightarrow> frames q' = frames q"
  by (auto simp: stackPush_def opened dest!: kept)

lemma trim_kept [kept]: "trim_with release c k q = Some q' \<Longrightarrow> frames q' = frames q"
  by (induction k arbitrary: q) (auto simp: opened dest!: kept)

lemma pop_n_kept [kept]: "pop_n E k q = Some q' \<Longrightarrow> frames q' = frames q"
  by (induction k arbitrary: q) (auto simp: bind_eq_Some_conv dest!: kept)

lemma add_locals_kept [kept]: "add_locals k q = Some (b, q') \<Longrightarrow> skel (frames q') = skel (frames q)"
proof (induction k arbitrary: q)
  case (Suc k)
  then show ?case
    by (auto simp: opened dest!: onworld_kept Suc.IH)
qed simp

lemma enterBlock_kept [kept]: "enterBlock n q = Some (b, q') \<Longrightarrow> skel (frames q') = skel (frames q)"
  by (auto simp: enterBlock_def opened dest!: kept)

lemma pop_locals_kept [kept]: "pop_locals release k q = Some q' \<Longrightarrow> skel (frames q') = skel (frames q)"
proof (induction k arbitrary: q)
  case (Suc k)
  then show ?case by (auto simp: opened dest!: domem_kept Suc.IH)
qed simp

lemma leaveBlock_kept [kept]: "leaveBlock E q = Some q' \<Longrightarrow> skel (frames q') = skel (frames q)"
  by (auto simp: leaveBlock_def opened dest!: kept)

lemma catch_loop_kept: "catch_loop E bs q = Some (pc, q') \<Longrightarrow> skel (frames q') = skel (frames q)"
  by (induction bs arbitrary: q) (auto simp: opened dest!: leaveBlock_kept)

lemma getCatch_kept [kept]: "getCatch E q = Some (pc, q') \<Longrightarrow> skel (frames q') = skel (frames q)"
  by (auto simp: getCatch_def bind_eq_Some_conv dest!: catch_loop_kept)

lemma break_loop_kept:
  assumes "break_loop E n q = Some q'" shows "skel (frames q') = skel (frames q)"
proof (rule break_loop.raw_induct [OF _ assms])
  fix loop and E :: "('a, 'b) env" and n and q q' :: "('a, 'b) qinterp"
  assume IH: "\<And>E n q q'. loop E n q = Some q' \<Longrightarrow> skel (frames q') = skel (frames q)"
    and r: "cur q \<bind> (\<lambda>sf. if n > int (length (blockframes sf)) then leaveBlock E q \<bind> loop E n else Some q) = Some q'"
  from r show "skel (frames q') = skel (frames q)"
    by (auto simp: opened dest!: leaveBlock_kept IH)
qed

lemma breakBlock_kept [kept]: "breakBlock E q = Some (pc, q') \<Longrightarrow> skel (frames q') = skel (frames q)"
  by (auto simp: breakBlock_def opened dest!: break_loop_kept)

subsection \<open>Frames\<close>

lemma enterFrame_frames:
  "enterFrame jsp q = Some (b, q') \<Longrightarrow> if b then \<exists>sf. frames q' = sf # frames q else frames q' = frames q"
  by (auto simp: enterFrame_def opened dest!: onworld_kept)

lemma leave_result_kept [kept]: "leave_result E q = Some q' \<Longrightarrow> frames q' = frames q"
  by (auto simp: leave_result_def opened dest!: kept)

lemma leaveFrame_frames: "leaveFrame E nopop q = Some q' \<Longrightarrow> frames q' = tl (frames q)"
  by (auto simp: leaveFrame_def opened clear_locals_def dest!: kept dest: tl_skel)

subsection \<open>Calls\<close>

text \<open>A call that has returned leaves the frames exactly as they were.\<close>

definition calls_kept :: "('c, 'f) run \<Rightarrow> bool" where
  "calls_kept call \<longleftrightarrow> (\<forall>q e q'. call q = Some (e, q') \<longrightarrow> frames q' = frames q)"

lemma find_method_frames: "set_method_of_frame m q = Some q' \<Longrightarrow> tl (frames q') = tl (frames q)"
  by (auto simp: set_method_of_frame_def cur_frames)

lemma qinterpResolve_kept [kept]: "qinterpResolve E am a im q = Some (l, q') \<Longrightarrow> frames q' = frames q"
  unfolding qinterpResolve_def by (auto simp: bind_eq_Some_conv if_conv dest!: kept)

lemma push_args_kept [kept]:
  "push_args E nopop args start stkpos k q = Some q' \<Longrightarrow> skel (frames q') = skel (frames q)"
proof (induction k arbitrary: stkpos q)
  case (Suc k)
  then show ?case by (auto simp: opened dest!: domem_kept Suc.IH split: if_splits)
qed simp

lemma exec_method_kept:
  "run_kept run \<Longrightarrow> natives_kept E \<Longrightarrow> exec_method E run m ret q = Some (e, q') \<Longrightarrow> skel (frames q') = skel (frames q)"
  by (auto simp: exec_method_def opened natives_kept_def run_kept_def)

lemma enter_method_frames:
  assumes "run_kept run" "natives_kept E" "enter_method E run nopop m q = Some (e, q')"
  shows "frames q' = tl (frames q)"
  using assms(3)
  by (auto simp: enter_method_def opened
      dest!: kept leaveFrame_frames tl_skel exec_method_kept [OF assms(1,2)])

lemma callStaticMethod_frames:
  assumes "run_kept run" "natives_kept E" "callStaticMethod E run name q = Some (e, q')"
  shows "frames q' = frames q"
  using assms(3)
  by (auto simp: callStaticMethod_def opened
      dest!: onworld_kept enterFrame_frames find_method_frames leaveFrame_frames enter_method_frames [OF assms(1,2)])

lemma call_in_class_frames:
  assumes "run_kept run" "natives_kept E" "call_in_class E run jsp sig nopop q = Some (e, q')"
  shows "frames q' = frames q"
  using assms(3)
  by (auto simp: call_in_class_def opened
      dest!: enterFrame_frames find_method_frames leaveFrame_frames enter_method_frames [OF assms(1,2)])

lemma callInstMethod_frames:
  "run_kept run \<Longrightarrow> natives_kept E \<Longrightarrow> callInstMethod E run i sig nopop q = Some (e, q') \<Longrightarrow> frames q' = frames q"
  by (auto simp: callInstMethod_def opened dest!: call_in_class_frames)

lemma callBaseMethod_frames:
  assumes "run_kept run" "natives_kept E" "callBaseMethod E run i sig q = Some (e, q')"
  shows "frames q' = frames q"
  using assms(3)
  by (auto simp: callBaseMethod_def opened
      dest: call_in_class_frames [OF assms(1,2)] callInstMethod_frames [OF assms(1,2)])

lemma callInternalConstructors_frames:
  assumes "run_kept run" "natives_kept E"
  shows "callInternalConstructors d E run jsp i q = Some (b, q') \<Longrightarrow> frames q' = frames q"
proof (induction d arbitrary: jsp q b q')
  case (Suc d)
  then show ?case
    by (auto simp: opened split: if_splits
        dest!: Suc.IH domem_kept onmem_kept onworld_kept stackPush_kept enterBlock_kept leaveBlock_kept
          enterFrame_frames find_method_frames leaveFrame_frames tl_skel exec_method_kept [OF assms])
qed simp

lemma callConstructors_frames:
  assumes "run_kept run" "natives_kept E"
  shows "callConstructors d E run jsp i n q = Some (e, q') \<Longrightarrow> frames q' = frames q"
proof (induction d arbitrary: jsp n q e q')
  case (Suc d)
  then show ?case
    by (auto simp: opened split: if_splits
        dest!: Suc.IH domem_kept onworld_kept pop_n_kept callInstMethod_frames [OF assms])
qed simp

lemma qinterpFindField_kept:
  "natives_kept E \<Longrightarrow> qinterpFindField E l name q = Some (r, q') \<Longrightarrow> skel (frames q') = skel (frames q)"
  by (auto simp: qinterpFindField_def opened natives_kept_def run_kept_def)

lemma create_frames:
  assumes "run_kept run" "natives_kept E" "qinterpCreateJSClassInstance E run name q = Some (e, i, q')"
  shows "frames q' = frames q"
  using assms(3)
  by (auto simp: qinterpCreateJSClassInstance_def opened dest!: callInternalConstructors_frames [OF assms(1,2)])

subsection \<open>Instructions\<close>

lemma ok_kept [kept]: "ok q = Some (r, q') \<Longrightarrow> q' = q \<and> r = None" by (auto simp: ok_def)

lemma fail_kept [kept]: "fail e q = Some (r, q') \<Longrightarrow> skel (frames q') = skel (frames q) \<and> r = None"
  by (auto simp: fail_def dest!: kept)

lemma replace2_kept [kept]: "replace2 E clear q = Some (r, q') \<Longrightarrow> frames q' = frames q \<and> r = None"
  by (auto simp: replace2_def opened dest!: kept)

lemma binary_op_kept [kept]: "binary_op E clear f q = Some (r, q') \<Longrightarrow> skel (frames q') = skel (frames q) \<and> r = None"
  by (auto simp: binary_op_def opened dest!: kept)

lemma unary_op_kept [kept]: "unary_op f q = Some (r, q') \<Longrightarrow> skel (frames q') = skel (frames q) \<and> r = None"
  by (auto simp: unary_op_def opened dest!: kept)

lemma logic_op_kept [kept]: "logic_op E f q = Some (r, q') \<Longrightarrow> frames q' = frames q \<and> r = None"
  by (auto simp: logic_op_def opened dest!: kept)

lemma bump_kept [kept]: "bump E l d q = Some (b, q') \<Longrightarrow> frames q' = frames q"
  by (auto simp: bump_def opened)

lemma step_op_kept [kept]: "step_op E post d q = Some (r, q') \<Longrightarrow> skel (frames q') = skel (frames q) \<and> r = None"
  by (auto simp: step_op_def opened dest!: kept)

lemma exec_operator_kept [kept]:
  "exec_operator E op q = Some (r, q') \<Longrightarrow> skel (frames q') = skel (frames q) \<and> r = None"
  unfolding operator_defs Let_def
  by (simp split: if_split_asm add: binary_op_kept unary_op_kept step_op_kept)
     (auto dest!: binary_op_kept unary_op_kept step_op_kept logic_op_kept)

lemma push_or_fail_kept [kept]: "push_or_fail E l q = Some (r, q') \<Longrightarrow> skel (frames q') = skel (frames q) \<and> r = None"
  by (auto simp: push_or_fail_def opened dest!: kept)

lemma rotate_kept [kept]: "rotate_with E n q = Some (r, q') \<Longrightarrow> frames q' = frames q \<and> r = None"
  by (auto simp: rotate_with_def opened dest!: kept)

lemma exec_dup_kept [kept]: "exec_dup E q = Some (r, q') \<Longrightarrow> skel (frames q') = skel (frames q) \<and> r = None"
  by (auto simp: exec_dup_def opened dest!: kept)

lemma exec_stack_kept [kept]:
  "exec_stack E op mode args q = Some (r, q') \<Longrightarrow> skel (frames q') = skel (frames q) \<and> r = None"
  by (auto simp: exec_stack_def bind_eq_Some_conv case_prod_conv if_conv dest!: kept)

lemma push_ref_kept [kept]: "push_ref E l q = Some (r, q') \<Longrightarrow> frames q' = frames q \<and> r = None"
  by (auto simp: push_ref_def opened dest!: kept)

lemma exec_assign_kept [kept]: "exec_assign E q = Some (r, q') \<Longrightarrow> skel (frames q') = skel (frames q) \<and> r = None"
  by (auto simp: exec_assign_def opened dest!: kept)

lemma exec_this_kept [kept]: "exec_this E q = Some (r, q') \<Longrightarrow> skel (frames q') = skel (frames q) \<and> r = None"
  by (auto simp: exec_this_def opened dest!: kept)

lemma exec_sderef_kept [kept]:
  "exec_sderef E mode mode2 args q = Some (r, q') \<Longrightarrow> skel (frames q') = skel (frames q) \<and> r = None"
  by (auto simp: exec_sderef_def opened dest!: kept)

lemma exec_memory_kept:
  assumes "natives_kept E" "exec_memory E op mode mode2 args q = Some (r, q')"
  shows "skel (frames q') = skel (frames q) \<and> r = None"
  using assms(2)
  by (auto simp: exec_memory_def exec_deref_def bind_eq_Some_conv case_prod_conv case_option_conv if_conv
      dest!: kept qinterpFindField_kept [OF assms(1)])

lemma operand_int_kept [kept]: "operand_int E mode args q = Some (i, q') \<Longrightarrow> frames q' = frames q"
  by (auto simp: operand_int_def bind_eq_Some_conv case_prod_conv dest!: kept)

lemma jump_if_kept [kept]: "jump_if E sense mode args q = Some (r, q') \<Longrightarrow> skel (frames q') = skel (frames q) \<and> r = None"
  by (auto simp: jump_if_def bind_eq_Some_conv case_prod_conv if_conv dest!: kept)

lemma take_result_kept [kept]: "take_result E deref q = Some q' \<Longrightarrow> frames q' = frames q"
  by (auto simp: take_result_def opened dest!: kept)

lemma throw_here_kept [kept]: "throw_here E q = Some (r, q') \<Longrightarrow> skel (frames q') = skel (frames q) \<and> r = None"
  by (auto simp: throw_here_def opened dest!: kept)

lemma exec_break_kept [kept]: "exec_break E e back q = Some (r, q') \<Longrightarrow> skel (frames q') = skel (frames q) \<and> r = None"
  by (auto simp: exec_break_def opened dest!: kept)

lemma set_try_kept: "on_frame (\<lambda>sf. setTry sf pc) q = Some (r, q') \<Longrightarrow> skel (frames q') = skel (frames q) \<and> r = None"
  "on_frame (\<lambda>sf. setBreak sf pc) q = Some (r, q') \<Longrightarrow> skel (frames q') = skel (frames q) \<and> r = None"
  by (auto simp: on_frame_def opened setTry_def setBreak_def ok_def)

lemma exec_control_kept:
  assumes "exec_control E op mode args q = Some (r, q')"
  shows "skel (frames q') = skel (frames q) \<and> r = None"
  using assms unfolding control_defs
  by (auto simp: bind_eq_Some_conv case_prod_conv if_conv dest!: kept set_try_kept)

lemma after_call_kept [kept]: "after_call E e q = Some (r, q') \<Longrightarrow> skel (frames q') = skel (frames q) \<and> r = None"
  by (auto simp: after_call_def opened dest!: kept)

text \<open>What an instruction promises: an early return only for want of memory.\<close>

definition instr_kept :: "stackframe list \<Rightarrow> InterpErrors option \<times> ('c, 'f) qinterp \<Rightarrow> bool" where
  "instr_kept fs x \<longleftrightarrow> skel (frames (snd x)) = skel fs \<and> fst x \<in> {None, Some IERR_OUT_OF_MEM}"

lemma exec_new_kept:
  assumes "run_kept run" "natives_kept E" "exec_new E run mode args q = Some x"
  shows "instr_kept (frames q) x"
  using assms(3) unfolding instr_kept_def
  by (cases x) (auto simp: exec_new_def opened dest!: create_frames [OF assms(1,2)] kept)

lemma exec_call_kept:
  assumes "run_kept run" "natives_kept E" "exec_call E run op args q = Some x"
  shows "instr_kept (frames q) x"
  using assms(3) unfolding instr_kept_def
  by (cases x) (auto simp: exec_call_def bind_eq_Some_conv case_prod_conv if_conv Let_def
      dest!: callStaticMethod_frames [OF assms(1,2)] callInstMethod_frames [OF assms(1,2)]
        callBaseMethod_frames [OF assms(1,2)] callConstructors_frames [OF assms(1,2)] onworld_kept after_call_kept)

lemma exec_scall_kept:
  assumes "run_kept run" "natives_kept E" "exec_scall E run args q = Some x"
  shows "instr_kept (frames q) x"
  using assms(3) unfolding instr_kept_def
  by (cases x) (auto simp: exec_scall_def bind_eq_Some_conv case_prod_conv
      dest!: callStaticMethod_frames [OF assms(1,2)] after_call_kept)

lemma exec_op_kept:
  assumes "run_kept run" "natives_kept E" "exec_op E run op mode mode2 args q = Some x"
  shows "instr_kept (frames q) x"
proof -
  obtain r q' where x: "x = (r, q')" by (cases x)
  have i: "instr_kept (frames q) x" if "skel (frames q') = skel (frames q) \<and> r = None"
    using that by (simp add: instr_kept_def x)
  consider "exec_stack E op mode args q = Some x" | "exec_operator E op q = Some x"
    | "exec_memory E op mode mode2 args q = Some x" | "exec_control E op mode args q = Some x"
    | "exec_new E run mode args q = Some x" | "exec_call E run op args q = Some x"
    | "exec_scall E run args q = Some x" | "fail IERR_UNKNOWN_OPCODE q = Some x"
    using assms(3) unfolding exec_op_def if_conv by blast
  then show ?thesis
  proof cases
    case 1 then show ?thesis using i exec_stack_kept unfolding x by blast
  next
    case 2 then show ?thesis using i exec_operator_kept unfolding x by blast
  next
    case 3 then show ?thesis using i exec_memory_kept [OF assms(2)] unfolding x by blast
  next
    case 4 then show ?thesis using i exec_control_kept unfolding x by blast
  next
    case 8 then show ?thesis using i fail_kept unfolding x by blast
  qed (auto intro: exec_new_kept [OF assms(1,2)] exec_call_kept [OF assms(1,2)] exec_scall_kept [OF assms(1,2)])
qed

subsection \<open>The interpreter\<close>

lemma pop_with_stack: "pop_with release q = Some q' \<Longrightarrow> Suc (nstack q') = nstack q"
  by (auto simp: pop_with_def bind_eq_Some_conv stackPeek0_def stackPeekN_def drop_top_def domem_def split: if_splits)

lemma trim_stack: "trim_with release c k q = Some q' \<Longrightarrow> nstack q = k \<Longrightarrow> int (nstack q') \<le> c"
  by (induction k arbitrary: q) (auto simp: opened dest!: pop_with_stack)

lemma trim_both: "trim_with release c (nstack q) q = Some q' \<Longrightarrow> frames q' = frames q \<and> int (nstack q') \<le> c"
  using trim_kept trim_stack by blast

definition loop_kept :: "(nat \<Rightarrow> ('c, 'f) qinterp \<Rightarrow> ('c, 'f) outcome) \<Rightarrow> bool" where
  "loop_kept loop \<longleftrightarrow> (\<forall>m q x. loop m q = Some x \<longrightarrow> instr_kept (frames q) x)"

lemma set_err_stack: "set_err e q = Some q' \<Longrightarrow> nstack q' = nstack q"
  by (auto simp: set_err_def)

lemma interp_with_kept:
  assumes "loop_kept loop" and r: "interp_with E loop q = Some (e, q')"
    and m: "cur q = Some sf" "fmethod sf = Some m" "methods (qworld q) m = Some mp"
  shows "skel (frames q') = skel (frames q)
    \<and> (e = IERR_OUT_OF_MEM \<or> int (nstack q') \<le> int (nstack q) + of_bool (hasretval mp))"
proof -
  from r m obtain q1 x where q1: "set_pc 0 q = Some q1" "loop m q1 = Some x"
    "(case x of (r, b) \<Rightarrow> case r of Some e \<Rightarrow> Some (e, b) | None \<Rightarrow> do {
          sf \<leftarrow> cur b;
          b \<leftarrow> (if ferr sf = IERR_RETURN then set_err IERR_NONE b else Some b);
          b \<leftarrow> trim_with (varClear (ex E)) (int (nstack q) + of_bool (hasretval mp)) (nstack b) b;
          sf \<leftarrow> cur b;
          Some (ferr sf, b) }) = Some (e, q')" "nstack q1 = nstack q"
    by (auto simp: interp_with_def bind_eq_Some_conv Let_def set_pc_def)
  have k: "skel (frames (snd x)) = skel (frames q)" "fst x \<in> {None, Some IERR_OUT_OF_MEM}"
    using assms(1) q1(2) set_pc_kept [OF q1(1)] unfolding loop_kept_def instr_kept_def by metis+
  obtain q2 where x: "x = (None, q2) \<or> x = (Some IERR_OUT_OF_MEM, q2)" using k(2) by (cases x) auto
  show ?thesis
    using q1(3,4) k x
    by (auto simp: opened dest!: trim_both dest: set_err_kept set_err_stack)
qed

lemma interp_run_kept: "loop_kept loop \<Longrightarrow> run_kept (interp_with E loop)"
  unfolding run_kept_def
proof (intro allI impI)
  fix q e q'
  assume l: "loop_kept loop" and r: "interp_with E loop q = Some (e, q')"
  then obtain sf m mp where "cur q = Some sf" "fmethod sf = Some m" "methods (qworld q) m = Some mp"
    by (auto simp: interp_with_def bind_eq_Some_conv)
  from interp_with_kept [OF l r this] show "skel (frames q') = skel (frames q)" by blast
qed

lemma interp_loop_kept: "natives_kept E \<Longrightarrow> loop_kept (interp_loop n E)"
proof (induction n)
  case 0
  then show ?case by (simp add: loop_kept_def)
next
  case (Suc n)
  then have IH: "loop_kept (interp_loop n E)" by blast
  note run = interp_run_kept [OF IH, of E]
  have "instr_kept (frames q) x" if "interp_loop (Suc n) E m q = Some x" for m q x
  proof -
    from that consider "ok q = Some x"
      | op mode mode2 args pc q1 r q2 where "set_pc pc q = Some q1"
        "exec_op E (interp_with E (interp_loop n E)) op mode mode2 args q1 = Some (r, q2)"
        "(if r \<noteq> None then Some (r, q2) else interp_loop n E m q2) = Some x"
      by (auto simp: bind_eq_Some_conv if_conv Let_def case_prod_conv)
    then show ?thesis
    proof cases
      case 1
      then show ?thesis by (auto simp: ok_def instr_kept_def)
    next
      case 2
      from exec_op_kept [OF run Suc.prems 2(2)] set_pc_kept [OF 2(1)] IH 2(3) show ?thesis
        by (cases x) (auto simp: instr_kept_def loop_kept_def split: if_splits)
    qed
  qed
  then show ?case by (simp add: loop_kept_def)
qed

text \<open>
  Calls are balanced. Whatever the byte code does, when \<open>_interp\<close> returns, the frame it was
  called in is the current one, with the same class, method and base of the stack, and the
  frames of its callers are untouched; unless it ran out of memory it leaves at most one
  value, the result, on the stack. And a call of a method, static, of an instance or of a base
  class, leaves the frames exactly as they were. These are the assertions at the end of those
  functions. The native methods and fields are required to do the same.
\<close>

definition balanced :: "('c, 'f) env \<Rightarrow> ('c, 'f) run \<Rightarrow> bool" where
  "balanced E run \<longleftrightarrow>
     (\<forall>q e q' sf m mp. run q = Some (e, q') \<and> cur q = Some sf \<and> fmethod sf = Some m \<and> methods (qworld q) m = Some mp \<longrightarrow>
        tl (frames q') = tl (frames q)
        \<and> (\<exists>sf'. cur q' = Some sf' \<and> fid sf' = fid sf \<and> ctx sf' = ctx sf \<and> fmethod sf' = fmethod sf
              \<and> stackcount sf' = stackcount sf)
        \<and> (e = IERR_OUT_OF_MEM \<or> int (nstack q') \<le> int (nstack q) + of_bool (hasretval mp)))
     \<and> (\<forall>name q e q'. callStaticMethod E run name q = Some (e, q') \<longrightarrow> frames q' = frames q)
     \<and> (\<forall>i sig nopop q e q'. callInstMethod E run i sig nopop q = Some (e, q') \<longrightarrow> frames q' = frames q)
     \<and> (\<forall>i sig q e q'. callBaseMethod E run i sig q = Some (e, q') \<longrightarrow> frames q' = frames q)
     \<and> (\<forall>d jsp i k q e q'. callConstructors d E run jsp i k q = Some (e, q') \<longrightarrow> frames q' = frames q)"

lemma frames_balanced:
  assumes "natives_kept E"
  shows "balanced E (interp n E)"
proof -
  note loop = interp_loop_kept [OF assms, of n]
  have run: "run_kept (interp n E)" unfolding interp_def by (rule interp_run_kept [OF loop])
  have "tl (frames q') = tl (frames q)
        \<and> (\<exists>sf'. cur q' = Some sf' \<and> fid sf' = fid sf \<and> ctx sf' = ctx sf \<and> fmethod sf' = fmethod sf
              \<and> stackcount sf' = stackcount sf)
        \<and> (e = IERR_OUT_OF_MEM \<or> int (nstack q') \<le> int (nstack q) + of_bool (hasretval mp))"
    if a: "interp n E q = Some (e, q') \<and> cur q = Some sf \<and> fmethod sf = Some m \<and> methods (qworld q) m = Some mp"
    for q e q' sf m mp
  proof -
    from a have k: "skel (frames q') = skel (frames q)"
      "e = IERR_OUT_OF_MEM \<or> int (nstack q') \<le> int (nstack q) + of_bool (hasretval mp)"
      using interp_with_kept [OF loop, of E q e q' sf m mp] by (auto simp: interp_def)
    from a obtain rest where "frames q = sf # rest" by (auto simp: cur_frames)
    with k(1) obtain sf' where "frames q' = sf' # rest" "strip sf' = strip sf" using skel_ConsE by fastforce
    with strip_fields [OF this(2)] k(2) tl_skel [OF k(1)] show ?thesis by (auto simp: cur_frames)
  qed
  then show ?thesis
    using callStaticMethod_frames [OF run assms] callInstMethod_frames [OF run assms]
      callBaseMethod_frames [OF run assms] callConstructors_frames [OF run assms]
    unfolding balanced_def by blast
qed

lemma natives_kept_a: "natives_kept env_a"
  by (simp add: natives_kept_def run_kept_def env_a_def)

end
