(* ===== verification/Variant_Ops.thy ===== *)
theory Variant_Ops
  imports Variant_Heap
begin

section \<open>The operators and casts of variants\<close>

text \<open>
  The contract the binary operators share is the locale \<open>binop\<close>: on two operands that count as
  ints the operator writes the result of its int operation to the destination and changes
  nothing else, or traps. Each operator of variant.c is an interpretation; the comparisons
  extend the contract. Then the decimal round trip of \<open>itoa\<close> and \<open>atoi\<close>, and the casts.
\<close>

subsection \<open>Operands\<close>

text \<open>The int a variant counts as, where it is numeric and no float.\<close>

definition number :: "('l, 'f) variant \<Rightarrow> int32 option" where
  "number v =
     (if vtype v \<in> {TYPE_VOID, TYPE_NULL} then Some 0
      else if vtype v \<in> {TYPE_INT, TYPE_CHAR, TYPE_BOOL} then (case data v of DI i \<Rightarrow> Some i | _ \<Rightarrow> None)
      else None)"

text \<open>An operand: a variant that counts as the int i, or a pointer to one.\<close>

definition operand :: "('l, 'f) mem \<Rightarrow> 'l \<Rightarrow> int32 \<Rightarrow> bool" where
  "operand st arg i \<longleftrightarrow> (\<exists>a v. normalize1 st arg = Some a \<and> vars st a = Some v \<and> number v = Some i)"

lemma number_scalar:
  "number v = Some i \<Longrightarrow> vtype v \<in> {TYPE_VOID, TYPE_NULL, TYPE_INT, TYPE_CHAR, TYPE_BOOL}"
  by (auto simp: number_def split: if_splits)

lemma target_here: "vars st a = Some v \<Longrightarrow> vtype v \<noteq> TYPE_PTR \<Longrightarrow> 0 < cstack E \<Longrightarrow> target E st a = Some v"
  by (cases "cstack E") (simp_all add: target_def)

lemma number_reads:
  assumes "vars st a = Some v" "number v = Some i" "0 < cstack E"
  shows "varIsFloat E st a = Some False" "varIsNumeric E st a = Some True" "varGetInt E st a = Some (Some i)"
proof -
  have t: "target E st a = Some v"
    by (rule target_here [OF assms(1) _ assms(3)]) (use number_scalar [OF assms(2)] in auto)
  show "varIsFloat E st a = Some False" "varIsNumeric E st a = Some True"
    using t number_scalar [OF assms(2)] by (auto simp: varIsFloat_def varIsNumeric_def)
  show "varGetInt E st a = Some (Some i)"
    using t assms(2) by (auto simp: varGetInt_def number_def split: if_splits vdata.splits)
qed

lemma bind_map:
  "Option.bind m (\<lambda>x. Some (f x)) = map_option f m"
  "Option.bind p (\<lambda>(t, x). Some (g t x)) = map_option (\<lambda>(t, x). g t x) p"
  by (cases m; simp) (cases p; simp add: split_beta)

lemma put_there: "vars st l \<noteq> None \<Longrightarrow> put l t d st = Some (True, st\<lparr>vars := (vars st)(l \<mapsto> mk t d)\<rparr>)"
  by (simp add: put_def wr_def)

text \<open>Clearing the destination leaves it allocated.\<close>

lemma VARCLEAR_there: "VARCLEAR E l st = Some st' \<Longrightarrow> vars st' l \<noteq> None"
  by (auto simp: VARCLEAR_def varClear_def clear_with_def wr_def bind_eq_Some_conv
      split: if_splits jstype.splits)

lemma VARCLEAR_scalar:
  "vars st l = Some v \<Longrightarrow> number v = Some i \<Longrightarrow> VARCLEAR E l st = Some st"
  using number_scalar [of v i] by (auto simp: VARCLEAR_def)

subsection \<open>The contract of the binary operators\<close>

locale binop =
  fixes E :: "'f ext"
    and oper :: "'l \<Rightarrow> 'l \<Rightarrow> 'l \<Rightarrow> ('l, 'f) mem \<Rightarrow> (bool \<times> ('l, 'f) mem) option"
    and iop :: "int32 \<Rightarrow> int32 \<Rightarrow> ('l, 'f) result option"
  assumes oper_int:
    "0 < cstack E \<Longrightarrow> VARCLEAR E d st = Some st1 \<Longrightarrow> operand st1 a i \<Longrightarrow> operand st1 b j \<Longrightarrow>
       oper d a b st =
         map_option (\<lambda>(t, x). (True, st1\<lparr>vars := (vars st1)(d \<mapsto> mk t x)\<rparr>)) (iop i j)"
    and typed: "iop i j = Some (t, x) \<Longrightarrow> t \<in> {TYPE_INT, TYPE_BOOL} \<and> (\<exists>k. x = DI k)"
begin

text \<open>In place: the destination is one of the operands.\<close>

lemma in_place:
  assumes "0 < cstack E" "vars st a = Some v" "number v = Some i" "operand st b j"
  shows "oper a a b st = map_option (\<lambda>(t, x). (True, st\<lparr>vars := (vars st)(a \<mapsto> mk t x)\<rparr>)) (iop i j)"
proof -
  have "operand st a i"
    using assms(2,3) number_scalar [OF assms(3)] by (auto simp: operand_def normalize1_def)
  with assms show ?thesis by (auto intro: oper_int VARCLEAR_scalar)
qed

text \<open>The result is a well-formed int or bool, and the only thing that changes.\<close>

lemma heap_kept:
  assumes e: "0 < cstack E" and "VARCLEAR E d st = Some st1" "operand st1 a i" "operand st1 b j"
    and "heap r st1" "counted {} st1 None" "inst_at st1 d = None" "oper d a b st = Some (ok, st')"
  shows "ok \<and> heap r st' \<and> counted {} st' None \<and> insts st' = insts st1
    \<and> (\<forall>l. l \<noteq> d \<longrightarrow> vars st' l = vars st1 l)"
proof -
  from assms(8) oper_int [OF assms(1-4)] obtain t x where
    r: "iop i j = Some (t, x)" "ok" "st' = st1\<lparr>vars := (vars st1)(d \<mapsto> mk t x)\<rparr>" by auto
  have "wf_variant (mk t x)" "vtype (mk t x) \<noteq> TYPE_INST"
    using typed [OF r(1)] by (auto simp: wf_variant_def)
  then show ?thesis
    using r heap_upd [OF assms(5) VARCLEAR_there [OF assms(2)]]
      counted_upd [of st1 d "{}" "mk t x"] assms(5-7)
    by (auto simp: heap_def)
qed

end

text \<open>The comparisons: a bool that is the relation on the signed values.\<close>

locale comparison = binop E oper iop
  for E :: "'f ext" and oper :: "'l \<Rightarrow> 'l \<Rightarrow> 'l \<Rightarrow> ('l, 'f) mem \<Rightarrow> (bool \<times> ('l, 'f) mem) option" and iop +
  fixes rel :: "int \<Rightarrow> int \<Rightarrow> bool"
  assumes iop_rel: "iop i j = Some (rbool (rel (sint i) (sint j)))"
begin

lemma compares:
  assumes "0 < cstack E" "VARCLEAR E d st = Some st1" "operand st1 a i" "operand st1 b j"
  shows "oper d a b st =
    Some (True, st1\<lparr>vars := (vars st1)(d \<mapsto> mk TYPE_BOOL (DI (of_bool (rel (sint i) (sint j)))))\<rparr>)"
  using oper_int [OF assms] by (simp add: iop_rel rbool_def)

end

subsection \<open>The operators of variant.c keep the contract\<close>

lemma arith_at_int:
  assumes "vars st1 a = Some v" "number v = Some i" "vars st1 b = Some w" "number w = Some j"
    and "0 < cstack E" "vars st1 d \<noteq> None"
  shows "arith_at E fop iop d a b st1 =
    map_option (\<lambda>(t, x). (True, st1\<lparr>vars := (vars st1)(d \<mapsto> mk t x)\<rparr>)) (iop i j)"
  using number_reads [OF assms(1,2,5)] number_reads [OF assms(3,4,5)] assms(6)
  by (simp add: arith_at_def either_float_def both_numeric_def put_there bind_map)

lemma arith_int:
  assumes "VARCLEAR E d st = Some st1" "operand st1 a i" "operand st1 b j" "0 < cstack E"
  shows "arith E fop iop d a b st =
    map_option (\<lambda>(t, x). (True, st1\<lparr>vars := (vars st1)(d \<mapsto> mk t x)\<rparr>)) (iop i j)"
  using assms VARCLEAR_there [OF assms(1)]
  by (auto simp: arith_def operand_def intro!: arith_at_int)

lemma int_op_int:
  assumes "VARCLEAR E d st = Some st1" "operand st1 a i" "operand st1 b j" "0 < cstack E"
  shows "int_op E iop (\<lambda>a b. b) d a b st =
      map_option (\<lambda>k. (True, st1\<lparr>vars := (vars st1)(d \<mapsto> mk TYPE_INT (DI k))\<rparr>)) (iop i j)"
    and "int_op E iop (\<lambda>a b. a) d a b st =
      map_option (\<lambda>k. (True, st1\<lparr>vars := (vars st1)(d \<mapsto> mk TYPE_INT (DI k))\<rparr>)) (iop i i)"
  using assms VARCLEAR_there [OF assms(1)]
  by (auto simp: int_op_def operand_def number_reads put_there bind_map)

lemma equality_int:
  assumes "VARCLEAR E d st = Some st1" "operand st1 a i" "operand st1 b j" "0 < cstack E"
  shows "equality E sense d a b st =
    Some (True, st1\<lparr>vars := (vars st1)(d \<mapsto> mk TYPE_BOOL (DI (of_bool ((i = j) = sense))))\<rparr>)"
  using assms VARCLEAR_there [OF assms(1)]
  by (auto simp: equality_def operand_def number_reads either_numeric_def either_float_def put_there)

lemma plus_int:
  assumes "VARCLEAR E d st = Some st1" "operand st1 a i" "operand st1 b j" "0 < cstack E"
  shows "varAssignOpPlus E d a b st =
    Some (True, st1\<lparr>vars := (vars st1)(d \<mapsto> mk TYPE_INT (DI (i + j)))\<rparr>)"
proof -
  from assms(2,3) obtain x v y w where
    x: "normalize1 st1 a = Some x" "vars st1 x = Some v" "number v = Some i"
    and y: "normalize1 st1 b = Some y" "vars st1 y = Some w" "number w = Some j"
    by (auto simp: operand_def)
  show ?thesis
    using assms(1) x y number_scalar [OF x(3)] number_scalar [OF y(3)]
      arith_at_int [OF x(2,3) y(2,3) assms(4) VARCLEAR_there [OF assms(1)],
        of "\<lambda>x y. rfloat (fl_add E x y)" "\<lambda>i j. Some (rint (i + j))"]
    by (auto simp: varAssignOpPlus_def rint_def)
qed

lemmas result_defs = rbool_def rint_def

interpretation lt: comparison E "varAssignOpLT E" "\<lambda>i j. Some (rbool (i <s j))" "(<)" for E
  by unfold_locales (auto simp: varAssignOpLT_def arith_int word_sless_alt result_defs)

interpretation le: comparison E "varAssignOpLE E" "\<lambda>i j. Some (rbool (i \<le>s j))" "(\<le>)" for E
  by unfold_locales (auto simp: varAssignOpLE_def arith_int word_sle_eq result_defs)

interpretation gt: comparison E "varAssignOpGT E" "\<lambda>i j. Some (rbool (j <s i))" "\<lambda>i j. j < i" for E
  by unfold_locales (auto simp: varAssignOpGT_def arith_int word_sless_alt result_defs)

interpretation ge: comparison E "varAssignOpGE E" "\<lambda>i j. Some (rbool (j \<le>s i))" "\<lambda>i j. j \<le> i" for E
  by unfold_locales (auto simp: varAssignOpGE_def arith_int word_sle_eq result_defs)

interpretation eq: comparison E "varAssignOpEQ E" "\<lambda>i j. Some (rbool (i = j))" "(=)" for E
  by unfold_locales (auto simp: varAssignOpEQ_def equality_int rbool_def dest: signed_word_eqI)

interpretation neq: comparison E "varAssignOpNEQ E" "\<lambda>i j. Some (rbool (i \<noteq> j))" "(\<noteq>)" for E
  by unfold_locales (auto simp: varAssignOpNEQ_def equality_int rbool_def dest: signed_word_eqI)

interpretation plus: binop E "varAssignOpPlus E" "\<lambda>i j. Some (rint (i + j))" for E
  by unfold_locales (auto simp: plus_int rint_def)

interpretation minus: binop E "varAssignOpSub E" "\<lambda>i j. Some (rint (i - j))" for E
  by unfold_locales (auto simp: varAssignOpSub_def arith_int result_defs)

interpretation mul: binop E "varAssignOpMul E" "\<lambda>i j. Some (rint (i * j))" for E
  by unfold_locales (auto simp: varAssignOpMul_def arith_int result_defs)

interpretation quot: binop E "varAssignOpDiv E" "\<lambda>i j. map_option rint (int_div i j)" for E
  by unfold_locales (auto simp: varAssignOpDiv_def arith_int result_defs)

lemma map_rint: "map_option (\<lambda>(t, x). F t x) (map_option rint m) = map_option (\<lambda>k. F TYPE_INT (DI k)) m"
  by (cases m) (simp_all add: rint_def)

interpretation remainder: binop E "varAssignOpMod E" "\<lambda>i j. map_option rint (int_mod i j)" for E
  by unfold_locales (auto simp: varAssignOpMod_def int_op_int(1) map_rint result_defs)

interpretation bor: binop E "varAssignOpBinOr E" "\<lambda>i j. Some (rint (i OR j))" for E
  by unfold_locales (auto simp: varAssignOpBinOr_def int_op_int(1) rint_def)

interpretation band: binop E "varAssignOpBinAnd E" "\<lambda>i j. Some (rint (i AND j))" for E
  by unfold_locales (auto simp: varAssignOpBinAnd_def int_op_int(1) rint_def)

interpretation bxor: binop E "varAssignOpBinXOr E" "\<lambda>i j. Some (rint (i XOR j))" for E
  by unfold_locales (auto simp: varAssignOpBinXOr_def int_op_int(1) rint_def)

text \<open>The shifts keep it only for an operation that ignores the second operand.\<close>

interpretation rshift: binop E "varAssignOpRightShift E" "\<lambda>i j. map_option rint (shift_right i i)" for E
  by unfold_locales (auto simp: varAssignOpRightShift_def int_op_int(2) map_rint result_defs)

interpretation lshift: binop E "varAssignOpLeftShift E" "\<lambda>i j. map_option rint (shift_left i i)" for E
  by unfold_locales (auto simp: varAssignOpLeftShift_def int_op_int(2) map_rint result_defs)

subsection \<open>Operators on ints\<close>

definition bool_in :: "('l, 'f) mem \<Rightarrow> 'l \<Rightarrow> bool \<Rightarrow> ('l, 'f) mem" where
  "bool_in st d p = st\<lparr>vars := (vars st)(d \<mapsto> mk TYPE_BOOL (DI (of_bool p)))\<rparr>"

definition int_in :: "('l, 'f) mem \<Rightarrow> 'l \<Rightarrow> int32 \<Rightarrow> ('l, 'f) mem" where
  "int_in st d k = st\<lparr>vars := (vars st)(d \<mapsto> mk TYPE_INT (DI k))\<rparr>"

text \<open>The six comparisons agree with the order of the signed values, hence with one another:
  exactly one of \<open>LT\<close>, \<open>EQ\<close> and \<open>GT\<close> stores true, and \<open>LE\<close>, \<open>GE\<close> and \<open>NEQ\<close> their unions.\<close>
lemma compare_consistent:
  assumes "0 < cstack E" and "VARCLEAR E d st = Some st1" and "operand st1 a i" and "operand st1 b j"
  shows "varAssignOpLT E d a b st = Some (True, bool_in st1 d (sint i < sint j))
    \<and> varAssignOpEQ E d a b st = Some (True, bool_in st1 d (sint i = sint j))
    \<and> varAssignOpGT E d a b st = Some (True, bool_in st1 d (sint j < sint i))
    \<and> varAssignOpLE E d a b st = Some (True, bool_in st1 d (sint i < sint j \<or> sint i = sint j))
    \<and> varAssignOpGE E d a b st = Some (True, bool_in st1 d (sint j < sint i \<or> sint i = sint j))
    \<and> varAssignOpNEQ E d a b st = Some (True, bool_in st1 d (sint i < sint j \<or> sint j < sint i))"
  unfolding lt.compares [OF assms] le.compares [OF assms] gt.compares [OF assms]
    ge.compares [OF assms] eq.compares [OF assms] neq.compares [OF assms] bool_in_def
  by (auto simp: order_le_less linorder_neq_iff)

text \<open>A store of two ints, for the witnesses.\<close>

definition two_ints :: "int32 \<Rightarrow> int32 \<Rightarrow> (nat, int) mem" where
  "two_ints i j = \<lparr>vars = [0 \<mapsto> void_variant, 1 \<mapsto> mk TYPE_INT (DI i), 2 \<mapsto> mk TYPE_INT (DI j)],
     insts = Map.empty\<rparr>"

lemma two_ints_ok:
  "0 < cstack int_ext" "VARCLEAR int_ext 0 (two_ints i j) = Some (two_ints i j)"
  "operand (two_ints i j) 1 i" "operand (two_ints i j) 2 j"
  by (simp_all add: int_ext_def VARCLEAR_def operand_def normalize1_def number_def two_ints_def
      void_variant_def)

lemma compare_consistent_witness:
  "\<exists>st'. varAssignOpLT int_ext 0 1 2 (two_ints (-1) 5) = Some (True, st')
     \<and> vars st' 0 = Some (mk TYPE_BOOL (DI 1))"
  using compare_consistent [OF two_ints_ok(1) two_ints_ok(2-4) [of "-1" 5]] by (simp add: bool_in_def)

text \<open>C18. Addition, subtraction and multiplication of ints store the exact result reduced to 32
  signed bits, so they are exact where it fits.\<close>
theorem int_arithmetic:
  assumes "0 < cstack E" and "VARCLEAR E d st = Some st1" and "operand st1 a i" and "operand st1 b j"
  shows "varAssignOpPlus E d a b st = Some (True, int_in st1 d (i + j))
      \<and> sint (i + j) = signed_take_bit 31 (sint i + sint j)
    \<and> varAssignOpSub E d a b st = Some (True, int_in st1 d (i - j))
      \<and> sint (i - j) = signed_take_bit 31 (sint i - sint j)
    \<and> varAssignOpMul E d a b st = Some (True, int_in st1 d (i * j))
      \<and> sint (i * j) = signed_take_bit 31 (sint i * sint j)"
  unfolding plus.oper_int [OF assms] minus.oper_int [OF assms] mul.oper_int [OF assms]
  by (simp add: rint_def int_in_def sint_word_ariths)

theorem int_arithmetic_witness:
  "\<exists>k. varAssignOpPlus int_ext 0 1 2 (two_ints 2147483647 1) = Some (True, int_in (two_ints 2147483647 1) 0 k)
     \<and> sint k = - 2147483648"
  using int_arithmetic [OF two_ints_ok(1) two_ints_ok(2-4) [of 2147483647 1]] by (auto simp: signed_take_bit_eq_if_negative)

lemma sdiv_fits:
  fixes a b :: int
  assumes "- (2 ^ 31) \<le> a" "a < 2 ^ 31" "b \<noteq> 0" "\<not> (a = - (2 ^ 31) \<and> b = -1)"
  shows "- (2 ^ 31) \<le> a sdiv b \<and> a sdiv b < 2 ^ 31"
proof -
  have le: "\<bar>a sdiv b\<bar> \<le> \<bar>a\<bar>" using sdiv_int_range [of a b] by auto
  show ?thesis
  proof (cases "a = - (2 ^ 31)")
    case False
    with assms(1,2) le show ?thesis by linarith
  next
    case True
    with assms(3,4) have "b \<ge> 1 \<or> b \<le> -2" by linarith
    moreover have "a sdiv b \<le> 0" if "b \<ge> 1"
      using that True by (simp add: signed_divide_int_def sgn_if pos_imp_zdiv_nonneg_iff)
    moreover have "a sdiv b \<le> 2 ^ 30" if "b \<le> -2"
    proof -
      have "(2::int) ^ 31 div (- b) \<le> 2 ^ 31 div 2" using that by (intro zdiv_mono2) auto
      then show ?thesis using that True by (simp add: signed_divide_int_def sgn_if)
    qed
    ultimately have "a sdiv b < 2 ^ 31" by auto
    moreover have "- (2 ^ 31) \<le> a sdiv b" using True le by auto
    ultimately show ?thesis by blast
  qed
qed

lemma smod_bounds:
  fixes a b :: int
  assumes "b \<noteq> 0"
  shows "\<bar>a smod b\<bar> < \<bar>b\<bar>" "a smod b = 0 \<or> sgn (a smod b) = sgn a"
proof -
  show "\<bar>a smod b\<bar> < \<bar>b\<bar>" using smod_int_range [OF assms, of a] by auto
  have "0 \<le> \<bar>a\<bar> mod \<bar>b\<bar>" using assms by simp
  then show "a smod b = 0 \<or> sgn (a smod b) = sgn a"
    by (auto simp: signed_modulo_int_def sgn_mult)
qed

lemma sint_of: "- (2 ^ 31) \<le> k \<Longrightarrow> k < 2 ^ 31 \<Longrightarrow> sint (word_of_int k :: int32) = k"
  by (simp add: sint_sbintrunc' signed_take_bit_int_eq_self)

lemma sint_bounds: "- (2 ^ 31) \<le> sint (i :: int32)" "sint (i :: int32) < 2 ^ 31"
  using sint_ge [of i] sint_lt [of i] by simp_all

lemma int_div_mod:
  assumes "\<not> (j = 0 \<or> sint i = - (2 ^ 31) \<and> j = -1)"
  shows "\<exists>q r. int_div i j = Some q \<and> int_mod i j = Some r \<and> sint q = sint i sdiv sint j
    \<and> sint r = sint i smod sint j"
proof -
  have j: "sint j \<noteq> 0" "\<not> (sint i = - (2 ^ 31) \<and> sint j = -1)"
    using assms signed_word_eqI [of j 0] signed_word_eqI [of j "-1"] by auto
  have q: "sint (word_of_int (sint i sdiv sint j) :: int32) = sint i sdiv sint j"
    using sdiv_fits [OF sint_bounds j] by (intro sint_of) auto
  have "\<bar>sint i smod sint j\<bar> < 2 ^ 31"
    using smod_bounds(1) [OF j(1), of "sint i"] sint_bounds [of j] by linarith
  then have "sint (word_of_int (sint i smod sint j) :: int32) = sint i smod sint j"
    by (intro sint_of) auto
  with q assms show ?thesis by (simp add: int_div_def int_mod_def)
qed

text \<open>C19. Division and remainder. They trap, both of them, exactly for a zero divisor and for the
  least int by -1, which nothing in the code checks; otherwise the quotient and remainder they
  store are those of truncated division.\<close>
theorem int_division:
  assumes "0 < cstack E" and "VARCLEAR E d st = Some st1" and "operand st1 a i" and "operand st1 b j"
  shows "if j = 0 \<or> sint i = - (2 ^ 31) \<and> j = -1
    then varAssignOpDiv E d a b st = None \<and> varAssignOpMod E d a b st = None
    else \<exists>q r. varAssignOpDiv E d a b st = Some (True, int_in st1 d q)
      \<and> varAssignOpMod E d a b st = Some (True, int_in st1 d r)
      \<and> sint i = sint q * sint j + sint r \<and> \<bar>sint r\<bar> < \<bar>sint j\<bar> \<and> (sint r = 0 \<or> sgn (sint r) = sgn (sint i))"
proof (cases "j = 0 \<or> sint i = - (2 ^ 31) \<and> j = -1")
  case True
  then show ?thesis unfolding quot.oper_int [OF assms] remainder.oper_int [OF assms]
    by (simp add: int_div_def int_mod_def)
next
  case False
  have j: "sint j \<noteq> 0" using False signed_word_eqI [of j 0] by auto
  from int_div_mod [OF False] obtain q r where
    qr: "int_div i j = Some q" "int_mod i j = Some r" "sint q = sint i sdiv sint j" "sint r = sint i smod sint j"
    by blast
  have "sint i = sint q * sint j + sint r" "\<bar>sint r\<bar> < \<bar>sint j\<bar>" "sint r = 0 \<or> sgn (sint r) = sgn (sint i)"
    unfolding qr(3,4) using smod_bounds [OF j] by (simp_all add: sdiv_mult_smod_eq)
  moreover have "varAssignOpDiv E d a b st = Some (True, int_in st1 d q)"
    "varAssignOpMod E d a b st = Some (True, int_in st1 d r)"
    unfolding quot.oper_int [OF assms] remainder.oper_int [OF assms]
    by (simp_all add: qr rint_def int_in_def)
  ultimately show ?thesis unfolding if_not_P [OF False] by blast
qed

theorem int_division_witness:
  "varAssignOpDiv int_ext 0 1 2 (two_ints 7 0) = None
   \<and> (\<exists>q r. varAssignOpDiv int_ext 0 1 2 (two_ints (-7) 2) = Some (True, int_in (two_ints (-7) 2) 0 q)
       \<and> varAssignOpMod int_ext 0 1 2 (two_ints (-7) 2) = Some (True, int_in (two_ints (-7) 2) 0 r)
       \<and> -7 = sint q * 2 + sint r \<and> \<bar>sint r\<bar> < 2)"
proof -
  have "(2::int32) \<noteq> 0 \<and> (2::int32) \<noteq> -1" by simp
  with int_division [OF two_ints_ok(1) two_ints_ok(2-4) [of "-7" 2]] show ?thesis
    using int_division [OF two_ints_ok(1) two_ints_ok(2-4) [of 7 0]] by simp blast
qed

text \<open>The shifts take their count from the value they shift: the second operand is checked to
  be an int and then ignored, so shifting x by y computes x shifted by x, which is undefined
  unless x is between 0 and 31.\<close>
lemma shift_ignores_count:
  assumes "0 < cstack E" and "VARCLEAR E d st = Some st1" and "operand st1 a i" and "operand st1 b j"
  shows "varAssignOpLeftShift E d a b st =
      (if 0 \<le> sint i \<and> sint i < 32 then Some (True, int_in st1 d (push_bit (nat (sint i)) i)) else None)
    \<and> varAssignOpRightShift E d a b st =
      (if 0 \<le> sint i \<and> sint i < 32 then Some (True, int_in st1 d (signed_drop_bit (nat (sint i)) i)) else None)"
  unfolding lshift.oper_int [OF assms] rshift.oper_int [OF assms]
  by (auto simp: shift_left_def shift_right_def rint_def int_in_def)

lemma shift_ignores_count_witness:
  "varAssignOpLeftShift int_ext 0 1 2 (two_ints 3 1) = Some (True, int_in (two_ints 3 1) 0 24)"
  using shift_ignores_count [OF two_ints_ok(1) two_ints_ok(2-4) [of 3 1]] by (simp add: push_bit_eq_mult)

subsection \<open>Decimal text\<close>

lemma isdigit_code: "d < 10 \<Longrightarrow> isdigit (schar (char_of (48 + d :: nat))) \<and> schar (char_of (48 + d)) - 48 = int d"
  by (auto simp: isdigit_def schar_def Let_def of_char_nat_int)

lemma digits_value_append:
  "list_all (\<lambda>c. isdigit (schar c)) xs \<Longrightarrow> digits_value n (xs @ ys) = digits_value (digits_value n xs) ys"
  by (induction xs arbitrary: n) auto

lemma itoa_digits_ok:
  "list_all (\<lambda>c. isdigit (schar c)) (itoa_digits v) \<and> itoa_digits v \<noteq> []
   \<and> digits_value 0 (itoa_digits v) = int v"
proof (induction v rule: less_induct)
  case (less v)
  show ?case
  proof (cases "v < 10")
    case True
    then show ?thesis using isdigit_code [of v] by (simp add: itoa_digits.simps [of v])
  next
    case False
    then have "v div 10 < v" by simp
    from less.IH [OF this] isdigit_code [of "v mod 10"] False show ?thesis
      by (simp add: itoa_digits.simps [of v] digits_value_append)
         (metis mult_div_mod_eq of_nat_add of_nat_mult of_nat_numeral)
  qed
qed

text \<open>Decimal conversion round trips: \<open>atoi\<close> reads back what \<open>itoa\<close> wrote, for every int, the
  least one included.\<close>
lemma atoi_itoa: "atoi (itoa i) = i"
proof -
  let ?ds = "itoa_digits (unat (if sint i < 0 then - i else i))"
  note ds = itoa_digits_ok [of "unat (if sint i < 0 then - i else i)"]
  obtain c cs where c: "?ds = c # cs" using ds by (cases ?ds) auto
  then have d: "isdigit (schar c)" using ds by auto
  then have "\<not> isspace (schar c)" "c \<noteq> CHR ''-''" "c \<noteq> CHR ''+''"
    by (auto simp: isdigit_def isspace_def schar_def)
  moreover have "\<not> isspace (schar (CHR ''-''))" by (simp add: isspace_def schar_def)
  ultimately show ?thesis using c d ds
    by (cases "sint i < 0") (simp_all add: itoa_def atoi_def Let_def)
qed

subsection \<open>Casts\<close>

text \<open>An int survives a cast to string and back, whatever the int, when the string functions
  copy what they are given and \<open>stringIsint\<close> accepts decimal texts.\<close>
lemma cast_int_string_int:
  assumes "vars st l = Some (mk TYPE_INT (DI i))" and "0 < cstack E"
    and "s_make E (itoa i) = Some (itoa i)" and "s_isint E (itoa i)"
  shows "\<exists>st1. varCast E l TYPE_STRING st = Some (True, st1)
    \<and> vars st1 l = Some (mk TYPE_STRING (DS (itoa i)))
    \<and> varCast E l TYPE_INT st1 = Some (True, st)"
proof -
  let ?s1 = "st\<lparr>vars := (vars st)(l \<mapsto> mk TYPE_STRING (DS (itoa i)))\<rparr>"
  have "target E st l = Some (mk TYPE_INT (DI i))" using assms(1,2) by (auto intro: target_here)
  then have "varToString E st l = Some (Some (itoa i))" by (simp add: varToString_def assms(3))
  then have "varCast E l TYPE_STRING st = Some (True, ?s1)"
    using assms(1) by (simp add: varCast_def cast_at_def cast_string_def VARCLEAR_def put_there)
  moreover have "(vars st)(l \<mapsto> mk TYPE_INT (DI i)) = vars st" using assms(1) by auto
  then have "varCast E l TYPE_INT ?s1 = Some (True, st)"
    using assms(4) by (simp add: varCast_def cast_at_def cast_int_def put_there atoi_itoa)
  ultimately show ?thesis by auto
qed

lemma itoa_isint: "s_isint int_ext (itoa i)"
proof -
  let ?ds = "itoa_digits (unat (if sint i < 0 then - i else i))"
  note ds = itoa_digits_ok [of "unat (if sint i < 0 then - i else i)"]
  obtain c cs where c: "?ds = c # cs" using ds by (cases ?ds) auto
  then have "isdigit (schar c)" using ds by auto
  then have "c \<noteq> CHR ''-''" by (auto simp: isdigit_def schar_def)
  then show ?thesis using c ds
    by (cases "sint i < 0") (simp_all add: itoa_def int_ext_def Let_def)
qed

lemma cast_int_string_int_witness:
  "\<exists>st1. varCast int_ext 1 TYPE_STRING (two_ints (-12) 0) = Some (True, st1)
     \<and> varCast int_ext 1 TYPE_INT st1 = Some (True, two_ints (-12) 0)"
proof -
  have "vars (two_ints (-12) 0) 1 = Some (mk TYPE_INT (DI (-12)))" "0 < cstack int_ext"
    "s_make int_ext (itoa (-12)) = Some (itoa (-12))"
    by (simp_all add: two_ints_def int_ext_def)
  from cast_int_string_int [OF this itoa_isint] show ?thesis by blast
qed

text \<open>The types a cast leaves behind when it returns true: the target type, with the exceptions the
  code makes. A cast to void leaves the scalars as they are, casts of null to an instance or a
  delegate leave null, and a string cast to bool stays a string.\<close>

definition cast_type :: "jstype \<Rightarrow> jstype \<Rightarrow> jstype" where
  "cast_type from ty =
     (if ty = TYPE_VOID then (if jstype_code from > jstype_code TYPE_BOOL then TYPE_VOID else from)
      else if ty \<in> {TYPE_INST, TYPE_DELEGATE} then from
      else if ty = TYPE_BOOL \<and> from = TYPE_STRING then TYPE_STRING
      else ty)"

lemma put_type: "put l t d st = Some (True, st') \<Longrightarrow> \<exists>v. vars st' l = Some v \<and> vtype v = t"
  by (auto simp: put_def wr_def split: if_splits)

lemma put_typeE:
  assumes "put l t d st = Some (ok, st')" obtains v where "vars st' l = Some v" "vtype v = t" "ok"
  using assms by (auto simp: put_def wr_def split: if_splits)

lemma VARCLEAR_type:
  assumes "VARCLEAR E l st = Some st'" "vars st l = Some v"
  shows "\<exists>w. vars st' l = Some w \<and>
    vtype w = (if jstype_code (vtype v) > jstype_code TYPE_BOOL then TYPE_VOID else vtype v)"
  using assms
  by (auto simp: VARCLEAR_def varClear_def clear_with_def wr_def bind_eq_Some_conv void_variant_def
      split: if_splits jstype.splits)

text \<open>C20. Casts. When \<open>varCast\<close> of a variant that is no pointer returns true, the variant has the
  type asked for, except for the cases listed in \<open>cast_type\<close>; when it returns false the store
  is unchanged.\<close>
theorem varCast_type:
  assumes "vars st l = Some v" and "vtype v \<noteq> TYPE_PTR" and "varCast E l ty st = Some (ok, st')"
  shows "if ok then \<exists>w. vars st' l = Some w \<and> vtype w = cast_type (vtype v) ty else st' = st"
proof -
  have at: "cast_at E l ty st = Some (ok, st')" using assms by (simp add: varCast_def)
  show ?thesis
  proof (cases ty)
    case TYPE_VOID
    then show ?thesis using at assms(1) VARCLEAR_type [of E l st st' v]
      by (auto simp: cast_at_def cast_type_def bind_eq_Some_conv)
  next
    case TYPE_NULL
    then show ?thesis using at assms(1)
      by (auto simp: cast_at_def cast_type_def cast_null_def bind_eq_Some_conv elim: put_typeE)
  next
    case TYPE_CHAR
    then show ?thesis using at assms(1)
      by (auto simp: cast_at_def cast_type_def cast_char_def bind_eq_Some_conv fails_def
          split: jstype.splits if_splits elim: put_typeE)
  next
    case TYPE_INT
    then show ?thesis using at assms(1)
      by (auto simp: cast_at_def cast_type_def cast_int_def bind_eq_Some_conv fails_def
          split: jstype.splits if_splits elim: put_typeE)
  next
    case TYPE_FLOAT
    then show ?thesis using at assms(1)
      by (auto simp: cast_at_def cast_type_def cast_float_def bind_eq_Some_conv fails_def
          split: jstype.splits if_splits elim: put_typeE)
  next
    case TYPE_BOOL
    then show ?thesis using at assms(1)
      by (auto simp: cast_at_def cast_type_def cast_bool_def bind_eq_Some_conv fails_def
          split: jstype.splits if_splits elim: put_typeE)
  next
    case TYPE_STRING
    then show ?thesis using at assms(1)
      by (auto simp: cast_at_def cast_type_def cast_string_def bind_eq_Some_conv elim: put_typeE)
  qed (use at assms(1) in \<open>auto simp: cast_at_def cast_type_def cast_null_def bind_eq_Some_conv fails_def
        split: jstype.splits elim: put_typeE\<close>)
qed

theorem varCast_type_witness:
  "\<exists>ok st'. varCast int_ext 1 TYPE_BOOL (two_ints 5 0) = Some (ok, st') \<and>
     (if ok then \<exists>w. vars st' 1 = Some w \<and> vtype w = TYPE_BOOL else st' = two_ints 5 0)"
proof -
  have c: "varCast int_ext 1 TYPE_BOOL (two_ints 5 0)
      = Some (True, (two_ints 5 0)\<lparr>vars := (vars (two_ints 5 0))(1 \<mapsto> mk TYPE_BOOL (DI 1))\<rparr>)"
    by (simp add: varCast_def cast_at_def cast_bool_def two_ints_def put_def wr_def)
  have v: "vars (two_ints 5 0) 1 = Some (mk TYPE_INT (DI 5))" by (simp add: two_ints_def)
  from varCast_type [OF v _ c] c show ?thesis by (auto simp: cast_type_def)
qed

text \<open>C21. Casting the string true to a bool stores the truth value but leaves the string tag on it,
  so the variant is ill-formed afterwards: its tag promises a string and its union holds an int.\<close>
theorem cast_string_bool_ill_formed:
  assumes "vars st l = Some (mk TYPE_STRING (DS s))" and "s_cmp E s ''true'' = 0"
  shows "\<exists>st'. varCast E l TYPE_BOOL st = Some (True, st')
    \<and> vars st' l = Some (mk TYPE_STRING (DI 1)) \<and> \<not> wf_mem st'"
  using assms
  by (auto simp: varCast_def cast_at_def cast_bool_def put_there wf_mem_def wf_variant_def)

lemma int_ext_strings:
  "s_make int_ext = Some" "s_dup int_ext = Some" "s_append int_ext x y = Some (x @ y)"
  "s_cmp int_ext x x = 0" "0 < cstack int_ext"
  by (simp_all add: int_ext_def)

theorem cast_string_bool_ill_formed_witness:
  "\<exists>st'. varCast int_ext 3 TYPE_BOOL (two_level\<lparr>vars := [3 \<mapsto> mk TYPE_STRING (DS ''true'')]\<rparr>) = Some (True, st')
     \<and> \<not> wf_mem st'"
  using cast_string_bool_ill_formed [of "two_level\<lparr>vars := [3 \<mapsto> mk TYPE_STRING (DS ''true'')]\<rparr>" 3 "''true''" int_ext]
  by (auto simp: int_ext_strings)

text \<open>A cast of a char to float falls through into the case for ints: what is stored is the
  conversion of the bit pattern of the float it has just computed, not of the char. The casts
  of an int and of a bool convert the value.\<close>
lemma cast_char_float:
  assumes "vars st l = Some (mk t (DI i))" and "t \<in> {TYPE_CHAR, TYPE_INT, TYPE_BOOL}"
  shows "\<exists>st'. varCast E l TYPE_FLOAT st = Some (True, st') \<and> vars st' l =
    Some (mk TYPE_FLOAT (DF (fl_of_int E (if t = TYPE_CHAR then fl_bits E (fl_of_int E i) else i))))"
  using assms by (auto simp: varCast_def cast_at_def cast_float_def put_there)

lemma cast_char_float_witness:
  "\<exists>st'. varCast (int_ext\<lparr>fl_bits := \<lambda>f. word_of_int (f + 1)\<rparr>) 1 TYPE_FLOAT
       ((two_ints 5 0)\<lparr>vars := [1 \<mapsto> mk TYPE_CHAR (DI 97)]\<rparr>) = Some (True, st')
     \<and> vars st' 1 = Some (mk TYPE_FLOAT (DF 98))"
  using cast_char_float [of "(two_ints 5 0)\<lparr>vars := [1 \<mapsto> mk TYPE_CHAR (DI 97)]\<rparr>" 1 TYPE_CHAR 97
      "int_ext\<lparr>fl_bits := \<lambda>f. word_of_int (f + 1)\<rparr>"]
  by (simp add: int_ext_def)

subsection \<open>The unary operators and concatenation\<close>

text \<open>The unary operators work in place, through one pointer: negation and complement store the
  two's complement results, logical negation a bool, and complementing twice restores the int.\<close>
lemma unary_ops:
  assumes "normalize1 st arg = Some a" and "vars st a = Some v" and "number v = Some i" and "0 < cstack E"
  shows "varNegate E arg st = Some (True, int_in st a (- i))
    \<and> varComp E arg st = Some (True, int_in st a (NOT i)) \<and> sint (NOT i) = - sint i - 1
    \<and> varLogNot E arg st = Some (True, bool_in st a (i = 0))
    \<and> varComp E arg (int_in st a (NOT i)) = Some (True, int_in st a i)"
proof -
  have g: "varGetInt E st a = Some (Some i)" using assms(2-4) by (rule number_reads)
  have "vtype v \<noteq> TYPE_PTR" using number_scalar [OF assms(3)] by auto
  then have n: "normalize1 (int_in st a (NOT i)) arg = Some a"
    using assms(1,2) by (auto simp: normalize1_def int_in_def bind_eq_Some_conv split: if_splits)
  have "varGetInt E (int_in st a (NOT i)) a = Some (Some (NOT i))"
    by (rule number_reads [OF _ _ assms(4)]) (auto simp: int_in_def number_def)
  then have "varComp E arg (int_in st a (NOT i)) = Some (True, int_in st a i)"
    using n by (simp add: varComp_def unary_def rint_def put_there int_in_def)
  moreover have "sint (NOT i) = - sint i - 1"
    using sint_bounds [of i] by (simp add: signed_not_eq not_int_def signed_take_bit_int_eq_self)
  ultimately show ?thesis using assms(1,2) g
    by (simp add: varNegate_def varComp_def varLogNot_def unary_def rint_def rbool_def put_there
        int_in_def bool_in_def)
qed

lemma unary_ops_witness:
  "varComp int_ext 1 (two_ints 5 0) = Some (True, int_in (two_ints 5 0) 1 (-6))"
proof -
  have "normalize1 (two_ints 5 0) 1 = Some 1" "vars (two_ints 5 0) 1 = Some (mk TYPE_INT (DI 5))"
    by (simp_all add: normalize1_def two_ints_def)
  from unary_ops [OF this, of 5 int_ext] show ?thesis
    by (simp add: number_def two_ints_ok(1) not_int_def)
qed

text \<open>Addition with a string on either side stores the concatenation of the two operands'
  texts, whatever the type of the other.\<close>
lemma plus_concat:
  assumes "VARCLEAR E d st = Some st1" and "vars st1 d = Some void_variant"
    and "normalize1 st1 arg1 = Some a" and "normalize1 st1 arg2 = Some b" and "a \<noteq> d" and "b \<noteq> d"
    and "vars st1 a = Some va" and "vars st1 b = Some vb" and "vtype va \<noteq> TYPE_PTR" and "vtype vb \<noteq> TYPE_PTR"
    and "vtype va = TYPE_STRING \<or> vtype vb = TYPE_STRING" and "0 < cstack E"
    and "varToString E st1 a = Some (Some x)" and "varToString E st1 b = Some (Some y)"
    and "s_append E x y = Some xy"
  shows "varAssignOpPlus E d arg1 arg2 st
    = Some (True, st1\<lparr>vars := (vars st1)(d \<mapsto> mk TYPE_STRING (DS xy))\<rparr>)"
proof -
  let ?s2 = "st1\<lparr>vars := (vars st1)(d \<mapsto> mk TYPE_STRING (DS x))\<rparr>"
  have "varAssignString E d x st1 = Some (True, ?s2)"
    using assms(2) by (simp add: varAssignString_def VARCLEAR_def void_variant_def put_there)
  moreover have "target E ?s2 b = target E st1 b"
    using assms(6,8,10,12) target_here [of ?s2 b vb] target_here [of st1 b vb] by simp
  then have "varToString E ?s2 b = Some (Some y)" using assms(14) by (simp add: varToString_def)
  ultimately show ?thesis using assms by (simp add: varAssignOpPlus_def put_there)
qed

lemma plus_concat_witness:
  "\<exists>st'. varAssignOpPlus int_ext (0 :: nat) 1 2
       \<lparr>vars = [0 \<mapsto> void_variant, 1 \<mapsto> mk TYPE_STRING (DS ''n''), 2 \<mapsto> mk TYPE_BOOL (DI 1)], insts = Map.empty\<rparr>
     = Some (True, st') \<and> vars st' 0 = Some (mk TYPE_STRING (DS ''ntrue''))"
proof -
  let ?st = "\<lparr>vars = [0 \<mapsto> void_variant, 1 \<mapsto> mk TYPE_STRING (DS ''n''), 2 \<mapsto> mk TYPE_BOOL (DI 1)], insts = Map.empty\<rparr>
    :: (nat, int) mem"
  have t: "target int_ext ?st 1 = Some (mk TYPE_STRING (DS ''n''))" "target int_ext ?st 2 = Some (mk TYPE_BOOL (DI 1))"
    by (auto intro: target_here simp: int_ext_strings)
  have c: "VARCLEAR int_ext 0 ?st = Some ?st" by (simp add: VARCLEAR_def void_variant_def)
  have x: "varToString int_ext ?st 1 = Some (Some ''n'')" "varToString int_ext ?st 2 = Some (Some ''true'')"
    unfolding varToString_def t by (simp_all add: int_ext_strings)
  have "varAssignOpPlus int_ext 0 1 2 ?st
      = Some (True, ?st\<lparr>vars := (vars ?st)(0 \<mapsto> mk TYPE_STRING (DS (''n'' @ ''true'')))\<rparr>)"
    by (rule plus_concat [where va = "mk TYPE_STRING (DS ''n'')" and vb = "mk TYPE_BOOL (DI 1)", OF c _ _ _ _ _ _ _ _ _ _ _ x])
       (simp_all add: normalize1_def int_ext_strings)
  then show ?thesis by simp
qed

end
