(* ===== verification/Interp_Ops.thy ===== *)
theory Interp_Ops
  imports Interp_Frames Variant_Ops
begin

section \<open>Expressions on the stack machine\<close>

text \<open>
  The operators of the machine on operands that count as ints refine the int operations of the
  variants (the contract \<open>binop\<close>), an abstract machine on a list of variants. A listing of
  pushes and operators computes what the abstract machine does, and a method that returns such
  a value delivers it to its caller.
\<close>

subsection \<open>The abstract stack\<close>

definition stk :: "('c, 'f) qinterp \<Rightarrow> (loc, 'f) variant option list" where
  "stk q = map (\<lambda>k. var_at q (Stk k)) (rev [0..<nstack q])"

definition scalar :: "('l, 'f) variant \<Rightarrow> bool" where
  "scalar v \<longleftrightarrow> jstype_code (vtype v) \<le> jstype_code TYPE_BOOL"

text \<open>No allocation fails and \<open>tempdata1\<close> holds nothing that has to be released.\<close>

definition ready :: "('c, 'f) env \<Rightarrow> ('c, 'f) qinterp \<Rightarrow> bool" where
  "ready E q \<longleftrightarrow> 0 < cstack (ex E) \<and> mallocs (qworld q) = [] \<and> (\<exists>v. var_at q Tempdata1 = Some v \<and> scalar v)"

text \<open>Nothing changed but the stack and \<open>tempdata1\<close>.\<close>

definition stack_only :: "('c, 'f) qinterp \<Rightarrow> ('c, 'f) qinterp \<Rightarrow> bool" where
  "stack_only q q' \<longleftrightarrow> frames q' = frames q \<and> methods (qworld q') = methods (qworld q)
     \<and> classes (qworld q') = classes (qworld q) \<and> progs (ps q') = progs (ps q) \<and> qclasses q' = qclasses q
     \<and> stkframecache q' = stkframecache q \<and> fresh (qworld q') = fresh (qworld q)
     \<and> insts (qmem q') = insts (qmem q)
     \<and> (\<forall>l. l \<noteq> Tempdata1 \<longrightarrow> (\<forall>k. l \<noteq> Stk k) \<longrightarrow> var_at q' l = var_at q l)"

lemma stack_only_refl [simp, intro!]: "stack_only q q" by (simp add: stack_only_def)

lemma stack_only_trans [trans]: "stack_only q q' \<Longrightarrow> stack_only q' q'' \<Longrightarrow> stack_only q q''"
  by (simp add: stack_only_def)

lemma stk_Cons: "stk q = x # xs \<longleftrightarrow>
    (\<exists>n. nstack q = Suc n \<and> var_at q (Stk n) = x \<and> map (\<lambda>k. var_at q (Stk k)) (rev [0..<n]) = xs)"
  by (cases "nstack q") (auto simp: stk_def)

lemma stk_two:
  assumes "stk q = x # y # xs"
  shows "\<exists>n. nstack q = Suc (Suc n) \<and> var_at q (Stk (Suc n)) = x \<and> var_at q (Stk n) = y"
proof (cases "nstack q")
  case 0
  then show ?thesis using assms by (simp add: stk_def)
next
  case (Suc n)
  then show ?thesis using assms by (cases n) (simp_all add: stk_def)
qed

lemma world_of_mem [simp]:
  "fresh (qworld (set_mem st q)) = fresh (qworld q)" "fresh (qworld (set_world w q)) = fresh w"
  by (simp_all add: set_mem_def set_world_def qworld_def)

lemma push_drop_simps [simp]:
  "nstack (push_raw v q) = Suc (nstack q)" "qworld (q\<lparr>nstack := n\<rparr>) = qworld q" "ps (q\<lparr>nstack := n\<rparr>) = ps q"
  "qmem (q\<lparr>nstack := n\<rparr>) = qmem q" "var_at (q\<lparr>nstack := n\<rparr>) l = var_at q l"
  by (simp_all add: push_raw_def qworld_def qmem_def var_at_def)

lemma set_var_world [simp]:
  "methods (qworld (set_var l v q)) = methods (qworld q)" "classes (qworld (set_var l v q)) = classes (qworld q)"
  "fresh (qworld (set_var l v q)) = fresh (qworld q)" "progs (ps (set_var l v q)) = progs (ps q)"
  "qclasses (set_var l v q) = qclasses q" "stkframecache (set_var l v q) = stkframecache q"
  "methods (qworld (del_var l q)) = methods (qworld q)" "classes (qworld (del_var l q)) = classes (qworld q)"
  "fresh (qworld (del_var l q)) = fresh (qworld q)" "progs (ps (del_var l q)) = progs (ps q)"
  "qclasses (del_var l q) = qclasses q" "stkframecache (del_var l q) = stkframecache q"
  by (simp_all add: set_var_def del_var_def)

text \<open>Pushing a plain value, and popping one.\<close>

lemma stackPush_plain:
  assumes "mallocs (qworld q) = []" "var_at q l = Some v" "scalar v"
  shows "stackPush E l q = Some (True, push_raw v q)"
  using assms by (simp add: stackPush_def onworld_grow scalar_def)

lemma push_raw_stk: "stk (push_raw v q) = Some v # stk q"
  by (auto simp: stk_def push_raw_def)

lemma stk_tempdata: "stk (set_var Tempdata1 x q) = stk q"
  by (simp add: stk_def)

lemma push_raw_only: "stack_only q (push_raw v q)"
  by (auto simp: stack_only_def push_raw_def)

lemma push_raw_ready: "ready E q \<Longrightarrow> ready E (push_raw v q)"
  by (auto simp: ready_def push_raw_def)

lemma scalar_clearable: "scalar v \<Longrightarrow> clearable v"
  by (auto simp: scalar_def clearable_def)

lemma number_clearable: "number v = Some i \<Longrightarrow> clearable v"
  using number_scalar [of v i] by (auto simp: clearable_def)

lemma varClear_at:
  assumes "vars st l = Some v" "clearable v"
  shows "\<exists>w. varClear X l st = Some (st\<lparr>vars := (vars st)(l \<mapsto> w)\<rparr>) \<and> (w = v \<or> w = void_variant)"
proof -
  have "st\<lparr>vars := (vars st)(l \<mapsto> v)\<rparr> = st" using assms(1) by (cases st) auto
  then have "st = st\<lparr>vars := (vars st)(l \<mapsto> v)\<rparr>" by simp
  then show ?thesis using assms by (cases "vtype v") (auto simp: clearable_def varClear_def clear_with_def wr_def)
qed

lemma stackPop_plain:
  assumes "stk q = Some v # rest" "clearable v"
  shows "\<exists>q'. stackPop E q = Some q' \<and> stk q' = rest \<and> stack_only q q'
    \<and> (\<forall>E. ready E q \<longrightarrow> ready E q') \<and> var_at q' Tempdata1 = var_at q Tempdata1"
proof -
  from assms(1) obtain n where n: "nstack q = Suc n" "var_at q (Stk n) = Some v"
    "map (\<lambda>k. var_at q (Stk k)) (rev [0..<n]) = rest" by (auto simp: stk_Cons)
  obtain w where w: "varClear (ex E) (Stk n) (qmem q) = Some ((qmem q)\<lparr>vars := (vars (qmem q))(Stk n \<mapsto> w)\<rparr>)"
    using varClear_at [of "qmem q" "Stk n" v "ex E"] n(2) assms(2) by (auto simp: var_at_def)
  let ?q = "drop_top (set_mem ((qmem q)\<lparr>vars := (vars (qmem q))(Stk n \<mapsto> w)\<rparr>) q)"
  have "stackPop E q = Some ?q"
    using n w by (simp add: stackPop_def pop_with_def stackPeek0_def stackPeekN_def domem_def)
  moreover have "stk ?q = rest" using n by (auto simp: stk_def drop_top_def simp flip: n(3)) (simp add: var_at_def)
  moreover have "stack_only q ?q" using n by (auto simp: stack_only_def drop_top_def var_at_def)
  moreover have "ready E q \<Longrightarrow> ready E ?q" for E using n by (auto simp: ready_def drop_top_def var_at_def)
  moreover have "var_at ?q Tempdata1 = var_at q Tempdata1" using n by (simp add: drop_top_def var_at_def)
  ultimately show ?thesis by blast
qed

lemma clear_tempdata:
  assumes "clear = varClear (ex E) \<or> clear = VARCLEAR (ex E)" "vars st Tempdata1 = Some v" "scalar v"
  shows "\<exists>w. clear Tempdata1 st = Some (st\<lparr>vars := (vars st)(Tempdata1 \<mapsto> w)\<rparr>) \<and> scalar w"
proof -
  have "clearable v" using assms(3) by (rule scalar_clearable)
  from varClear_at [OF assms(2) this, of "ex E"] obtain w where
    w: "varClear (ex E) Tempdata1 st = Some (st\<lparr>vars := (vars st)(Tempdata1 \<mapsto> w)\<rparr>)" "w = v \<or> w = void_variant" by blast
  have "st\<lparr>vars := (vars st)(Tempdata1 \<mapsto> v)\<rparr> = st" using assms(2) by (cases st) auto
  then have "VARCLEAR (ex E) Tempdata1 st = Some (st\<lparr>vars := (vars st)(Tempdata1 \<mapsto> v)\<rparr>)"
    using assms(2,3) by (simp add: VARCLEAR_def scalar_def)
  then show ?thesis using assms(1,3) w by (auto simp: scalar_def void_variant_def)
qed

subsection \<open>Operators\<close>

lemma replace2_effect:
  assumes r: "ready E q" and x: "var_at q Tempdata1 = Some x" "scalar x" and s: "stk q = Some v # Some w # rest"
    and nv: "clearable v" "clearable w" and clear: "clear = varClear (ex E) \<or> clear = VARCLEAR (ex E)"
  shows "\<exists>q'. replace2 E clear q = ok q' \<and> stk q' = Some x # rest \<and> stack_only q q' \<and> ready E q'"
proof -
  from stackPop_plain [OF s nv(1), of E] r x(1) obtain q1 where
    q1: "stackPop E q = Some q1" "stk q1 = Some w # rest" "stack_only q q1" "ready E q1" "var_at q1 Tempdata1 = Some x"
    by auto
  from stackPop_plain [OF q1(2) nv(2), of E] q1(4,5) obtain q2 where
    q2: "stackPop E q1 = Some q2" "stk q2 = rest" "stack_only q1 q2" "ready E q2" "var_at q2 Tempdata1 = Some x"
    by auto
  let ?q3 = "push_raw x q2"
  have p: "stackPush E Tempdata1 q2 = Some (True, ?q3)"
    using q2(4,5) x(2) by (auto simp: ready_def intro: stackPush_plain)
  have "vars (qmem ?q3) Tempdata1 = Some x" using q2(5) by (simp add: push_raw_def var_at_def)
  from clear_tempdata [OF clear this x(2)] obtain y where
    y: "domem (clear Tempdata1) ?q3 = Some (set_var Tempdata1 y ?q3)" "scalar y"
    by (auto simp: domem_def set_var_def)
  have "replace2 E clear q = ok (set_var Tempdata1 y ?q3)"
    using q1(1) q2(1) p y(1) by (simp add: replace2_def)
  moreover have "stk (set_var Tempdata1 y ?q3) = Some x # rest"
    using push_raw_stk [of x q2] q2(2) by (simp add: stk_tempdata)
  moreover have "stack_only ?q3 (set_var Tempdata1 y ?q3)" by (auto simp: stack_only_def)
  then have "stack_only q (set_var Tempdata1 y ?q3)" using q1(3) q2(3) push_raw_only stack_only_trans by metis
  moreover have "ready E (set_var Tempdata1 y ?q3)" using push_raw_ready [OF q2(4), of x] y(2) by (auto simp: ready_def)
  ultimately show ?thesis by blast
qed

text \<open>A scalar stored in \<open>tempdata1\<close>.\<close>

lemma tempdata_stored:
  "ready E q \<Longrightarrow> scalar x \<Longrightarrow> ready E (set_var Tempdata1 x q) \<and> stack_only q (set_var Tempdata1 x q)"
  by (auto simp: ready_def stack_only_def)

lemma binary_effect:
  assumes bin: "binop (ex E) f g" and r: "ready E q" and s: "stk q = Some v # Some w # rest"
    and v: "number v = Some j" and w: "number w = Some i"
    and clear: "clear = varClear (ex E) \<or> clear = VARCLEAR (ex E)"
  shows "case g i j of None \<Rightarrow> binary_op E clear f q = None
    | Some (t, d) \<Rightarrow> \<exists>q'. binary_op E clear f q = ok q' \<and> stk q' = Some (mk t d) # rest \<and> stack_only q q' \<and> ready E q'"
proof -
  obtain n where n: "nstack q = Suc (Suc n)" "var_at q (Stk (Suc n)) = Some v" "var_at q (Stk n) = Some w"
    using stk_two [OF s] by blast
  from r obtain u where u: "var_at q Tempdata1 = Some u" "scalar u" by (auto simp: ready_def)
  have c: "VARCLEAR (ex E) Tempdata1 (qmem q) = Some (qmem q)"
    using u by (simp add: VARCLEAR_def var_at_def scalar_def)
  have "operand (qmem q) (Stk n) i" "operand (qmem q) (Stk (Suc n)) j"
    using n(2,3) v w number_scalar [OF v] number_scalar [OF w]
    by (auto simp: operand_def normalize1_def var_at_def)
  with binop.oper_int [OF bin _ c] r have f: "f Tempdata1 (Stk n) (Stk (Suc n)) (qmem q) =
      map_option (\<lambda>(t, x). (True, (qmem q)\<lparr>vars := (vars (qmem q))(Tempdata1 \<mapsto> mk t x)\<rparr>)) (g i j)"
    by (simp add: ready_def)
  have peek: "stackPeek0 q = Some (Stk (Suc n))" "stackPeek1 q = Some (Stk n)"
    using n(1) by (simp_all add: stackPeek0_def stackPeek1_def stackPeekN_def)
  show ?thesis
  proof (cases "g i j")
    case None
    then show ?thesis using peek f by (simp add: binary_op_def onmem_def)
  next
    case (Some td)
    obtain t d where td: "td = (t, d)" by (cases td)
    let ?q = "set_var Tempdata1 (mk t d) q"
    have t: "t \<in> {TYPE_INT, TYPE_BOOL}" using binop.typed [OF bin] Some td by blast
    have b: "binary_op E clear f q = replace2 E clear ?q"
      using peek f Some td by (simp add: binary_op_def onmem_def set_var_def)
    have sc: "scalar (mk t d)" using t by (auto simp: scalar_def)
    have nv: "clearable v" "clearable w" using v w by (simp_all add: number_clearable)
    note q = tempdata_stored [OF r sc]
    have "stk ?q = Some v # Some w # rest" "var_at ?q Tempdata1 = Some (mk t d)" using s by (simp_all add: stk_tempdata)
    from replace2_effect [OF conjunct1 [OF q] this(2) sc this(1) nv clear] q
    have "\<exists>q'. replace2 E clear ?q = ok q' \<and> stk q' = Some (mk t d) # rest \<and> stack_only q q' \<and> ready E q'"
      using stack_only_trans by blast
    then show ?thesis using b Some td by auto
  qed
qed

text \<open>
  The operators on ints and what they compute: two of a shift's operands are the first one, and
  the left shift shifts to the right.
\<close>

definition int_result :: "opcode \<Rightarrow> int32 \<Rightarrow> int32 \<Rightarrow> (loc, 'f) result option" where
  "int_result op i j =
     (if op = OP_ADD then Some (rint (i + j))
      else if op = OP_SUB then Some (rint (i - j))
      else if op = OP_MULT then Some (rint (i * j))
      else if op = OP_DIV then map_option rint (int_div i j)
      else if op = OP_MOD then map_option rint (int_mod i j)
      else if op = OP_BINOR then Some (rint (i OR j))
      else if op = OP_BINAND then Some (rint (i AND j))
      else if op = OP_XOR then Some (rint (i XOR j))
      else if op = OP_RSHIFT \<or> op = OP_LSHIFT then map_option rint (shift_right i i)
      else if op = OP_LT then Some (rbool (i <s j))
      else if op = OP_LTEQ then Some (rbool (i \<le>s j))
      else if op = OP_GT then Some (rbool (j <s i))
      else if op = OP_GTEQ then Some (rbool (j \<le>s i))
      else if op = OP_EQ then Some (rbool (i = j))
      else Some (rbool (i \<noteq> j)))"

definition int_operators :: "opcode list" where
  "int_operators = [OP_ADD, OP_SUB, OP_MULT, OP_DIV, OP_MOD, OP_BINOR, OP_BINAND, OP_XOR, OP_RSHIFT, OP_LSHIFT,
     OP_LT, OP_LTEQ, OP_GT, OP_GTEQ, OP_EQ, OP_NEQ]"

lemmas binops = plus.binop_axioms minus.binop_axioms mul.binop_axioms quot.binop_axioms remainder.binop_axioms
  bor.binop_axioms band.binop_axioms bxor.binop_axioms rshift.binop_axioms
  lt.binop_axioms le.binop_axioms gt.binop_axioms ge.binop_axioms eq.binop_axioms neq.binop_axioms

text \<open>Each instruction is a binary operator that keeps the contract with its int operation.\<close>

lemma operator_is_binop:
  assumes "op \<in> set int_operators"
  shows "\<exists>f clear. exec_operator E op = binary_op E clear f \<and> binop (ex E) f (int_result op)
    \<and> (clear = varClear (ex E) \<or> clear = VARCLEAR (ex E))"
  using assms unfolding int_operators_def
  apply (simp only: list.set insert_iff empty_iff)
  apply (elim disjE)
  apply (simp_all add: operator_defs int_result_def [abs_def] Let_def)
  by (intro exI conjI, rule refl, rule binops, simp)+

lemma operator_effect:
  assumes "op \<in> set int_operators" and "ready E q" and "stk q = Some v # Some w # rest"
    and "number v = Some j" and "number w = Some i"
  shows "case int_result op i j of None \<Rightarrow> exec_op E run op m m2 as q = None
    | Some (t, d) \<Rightarrow> \<exists>q'. exec_op E run op m m2 as q = Some (None, q') \<and> stk q' = Some (mk t d) # rest
        \<and> stack_only q q' \<and> ready E q'"
proof -
  have "op \<in> set operators" "op \<notin> set [OP_NOP, OP_NULL, OP_PUSH, OP_POP, OP_DUP, OP_ROT, OP_ROT3]"
    using assms(1) by (auto simp: operators_def int_operators_def)
  then have "exec_op E run op m m2 as q = exec_operator E op q" by (simp add: exec_op_def)
  moreover obtain f clear where f: "exec_operator E op = binary_op E clear f" "binop (ex E) f (int_result op)"
    "clear = varClear (ex E) \<or> clear = VARCLEAR (ex E)"
    using operator_is_binop [OF assms(1)] by blast
  ultimately show ?thesis using binary_effect [OF f(2) assms(2-5) f(3)] unfolding ok_def by (simp only: f(1))
qed

text \<open>C40. The operators of the machine. On two operands that count as ints every binary operator of
  the machine takes them off the stack and pushes its int result, or traps where the int
  operation does, and changes nothing else; both shift instructions shift the first operand
  right by itself.\<close>
theorem operator_on_stack:
  assumes "op \<in> set int_operators" and "ready E q" and "stk q = Some v # Some w # rest"
    and "number v = Some j" and "number w = Some i"
  shows "case int_result op i j of None \<Rightarrow> exec_op E run op m m2 as q = None
    | Some (t, d) \<Rightarrow> \<exists>q'. exec_op E run op m m2 as q = Some (None, q') \<and> stk q' = Some (mk t d) # rest
        \<and> stack_only q q' \<and> ready E q'"
  by (rule operator_effect [OF assms])

text \<open>The unary operators work on the top of the stack, the logical ones replace two operands.\<close>

definition unary_result :: "opcode \<Rightarrow> int32 \<Rightarrow> (loc, 'f) result" where
  "unary_result op i = (if op = OP_NEGATE then rint (- i) else if op = OP_COMPL then rint (NOT i) else rbool (i = 0))"

definition unary_operators :: "opcode list" where
  "unary_operators = [OP_NEGATE, OP_COMPL, OP_NOT]"

lemma unary_on_stack:
  assumes o: "op \<in> set unary_operators" and r: "ready E q" and s: "stk q = Some v # rest" and v: "number v = Some i"
  shows "\<exists>q'. exec_op E run op m m2 as q = Some (None, q')
    \<and> stk q' = Some (case_prod mk (unary_result op i)) # rest \<and> stack_only q q' \<and> ready E q'"
proof -
  obtain n where n: "nstack q = Suc n" "var_at q (Stk n) = Some v" "map (\<lambda>k. var_at q (Stk k)) (rev [0..<n]) = rest"
    using s by (auto simp: stk_Cons)
  let ?x = "case_prod mk (unary_result op i)" and ?st = "qmem q"
  have "normalize1 ?st (Stk n) = Some (Stk n)" "vars ?st (Stk n) = Some v" "0 < cstack (ex E)"
    using n(2) number_scalar [OF v] r by (auto simp: normalize1_def var_at_def ready_def)
  note u = unary_ops [OF this(1,2) v this(3)]
  have "exec_operator E op = unary_op (if op = OP_NEGATE then varNegate (ex E) else if op = OP_COMPL then varComp (ex E)
      else varLogNot (ex E))"
    using o by (auto simp: unary_operators_def operator_defs Let_def)
  moreover have "(if op = OP_NEGATE then varNegate (ex E) else if op = OP_COMPL then varComp (ex E) else varLogNot (ex E)) (Stk n) ?st
      = Some (True, ?st\<lparr>vars := (vars ?st)(Stk n \<mapsto> ?x)\<rparr>)"
    using u o by (auto simp: unary_operators_def unary_result_def rint_def rbool_def int_in_def bool_in_def)
  moreover have "op \<in> set operators" "op \<notin> set [OP_NOP, OP_NULL, OP_PUSH, OP_POP, OP_DUP, OP_ROT, OP_ROT3]"
    using o by (auto simp: operators_def unary_operators_def)
  ultimately have "exec_op E run op m m2 as q = Some (None, set_var (Stk n) ?x q)"
    using n(1) by (simp add: exec_op_def unary_op_def stackPeek0_def stackPeekN_def onmem_def ok_def set_var_def)
  moreover have "stk (set_var (Stk n) ?x q) = Some ?x # rest"
    using n by (auto simp: stk_Cons)
  moreover have "stack_only q (set_var (Stk n) ?x q)" "ready E (set_var (Stk n) ?x q)"
    using r by (auto simp: stack_only_def ready_def)
  ultimately show ?thesis by blast
qed

definition logic_result :: "opcode \<Rightarrow> int32 \<Rightarrow> int32 \<Rightarrow> bool" where
  "logic_result op i j = (if op = OP_OR then j \<noteq> 0 \<or> i \<noteq> 0 else j \<noteq> 0 \<and> i \<noteq> 0)"

lemma logic_on_stack:
  assumes o: "op \<in> {OP_OR, OP_AND}" and r: "ready E q" and s: "stk q = Some v # Some w # rest"
    and v: "number v = Some j" and w: "number w = Some i"
  shows "\<exists>q'. exec_op E run op m m2 as q = Some (None, q')
    \<and> stk q' = Some (mk TYPE_BOOL (DI (of_bool (logic_result op i j)))) # rest \<and> stack_only q q' \<and> ready E q'"
proof -
  obtain n where n: "nstack q = Suc (Suc n)" "var_at q (Stk (Suc n)) = Some v" "var_at q (Stk n) = Some w"
    using stk_two [OF s] by blast
  from r obtain u where u: "var_at q Tempdata1 = Some u" "scalar u" by (auto simp: ready_def)
  have nv: "clearable v" "clearable w" "vtype v \<noteq> TYPE_PTR" "vtype w \<noteq> TYPE_PTR"
    using number_clearable [OF v] number_clearable [OF w] number_scalar [OF v] number_scalar [OF w] by auto
  let ?x = "mk TYPE_BOOL (DI (of_bool (logic_result op i j)))" and ?f = "if op = OP_OR then (\<or>) else (\<and>)"
  have "stackPeek0 q = Some (Stk (Suc n))" "stackPeek1 q = Some (Stk n)"
    using n(1) by (simp_all add: stackPeek0_def stackPeek1_def stackPeekN_def)
  moreover have "normalize1 (qmem q) (Stk (Suc n)) = Some (Stk (Suc n))" "normalize1 (qmem q) (Stk n) = Some (Stk n)"
    using n(2,3) nv by (auto simp: normalize1_def var_at_def)
  moreover have "truth E q (Stk (Suc n)) = Some j" "truth E q (Stk n) = Some i"
    using number_reads [of "qmem q" _ v j "ex E"] number_reads [of "qmem q" _ w i "ex E"] n(2,3) v w r
    by (simp_all add: truth_def var_at_def ready_def)
  moreover have "onmem (varAssignBool (ex E) Tempdata1 (?f (j \<noteq> 0) (i \<noteq> 0))) q = Some (True, set_var Tempdata1 ?x q)"
    using u o by (auto simp: varAssignBool_def VARCLEAR_def scalar_def put_there onmem_def set_var_def var_at_def logic_result_def)
  ultimately have "logic_op E ?f q = replace2 E (VARCLEAR (ex E)) (set_var Tempdata1 ?x q)" by (simp add: logic_op_def)
  moreover have "scalar ?x" by (simp add: scalar_def)
  note q = tempdata_stored [OF r this]
  have t: "var_at (set_var Tempdata1 ?x q) Tempdata1 = Some ?x" by simp
  moreover obtain q' where q': "replace2 E (VARCLEAR (ex E)) (set_var Tempdata1 ?x q) = ok q'" "stk q' = Some ?x # rest"
    "stack_only (set_var Tempdata1 ?x q) q'" "ready E q'"
    using replace2_effect [OF conjunct1 [OF q] t \<open>scalar ?x\<close> _ nv(1,2), of rest "VARCLEAR (ex E)"] s
    by (auto simp: stk_tempdata)
  moreover have "exec_op E run op m m2 as q = logic_op E ?f q"
    using o by (auto simp: exec_op_def operators_def operator_defs)
  ultimately show ?thesis using stack_only_trans [OF conjunct2 [OF q]] q' by (intro exI [of _ q']) (simp add: ok_def)
qed

lemma stk_empty_top: "stk q = [] \<longleftrightarrow> nstack q = 0" by (simp add: stk_def)

text \<open>Two ints on the stack.\<close>

definition two_on_stack :: "int32 \<Rightarrow> int32 \<Rightarrow> ((int \<Rightarrow> uint16), int) qinterp" where
  "two_on_stack i j = push_raw (mk TYPE_INT (DI j)) (push_raw (mk TYPE_INT (DI i)) qinterp_a)"

lemma ready_a: "ready env_a qinterp_a"
  by (simp add: ready_def env_a_def int_ext_def qinterp_a_def qworld_def var_at_def qmem_def pstate_a_def
      world_a_def scalar_def void_variant_def)

theorem operator_on_stack_witness:
  "\<exists>q'. exec_op env_a (\<lambda>q. None) OP_SUB 0 0 [] (two_on_stack 7 9) = Some (None, q')
     \<and> stk q' = [Some (mk TYPE_INT (DI (-2)))]"
proof -
  have "OP_SUB \<in> set int_operators" by (simp add: int_operators_def)
  moreover have "ready env_a (two_on_stack 7 9)" unfolding two_on_stack_def by (intro push_raw_ready ready_a)
  moreover have "stk (two_on_stack 7 9) = Some (mk TYPE_INT (DI 9)) # Some (mk TYPE_INT (DI 7)) # []"
    by (simp add: two_on_stack_def push_raw_stk stk_empty_top) (simp add: qinterp_a_def)
  moreover have "number (mk TYPE_INT (DI 9) :: (loc, int) variant) = Some 9" "number (mk TYPE_INT (DI 7) :: (loc, int) variant) = Some 7"
    by (simp_all add: number_def)
  ultimately show ?thesis
    using operator_on_stack [of OP_SUB env_a "two_on_stack 7 9" "mk TYPE_INT (DI 9)" "mk TYPE_INT (DI 7)" "[]" 9 7 "\<lambda>q. None" 0 0 "[]"]
    by (auto simp: int_result_def rint_def)
qed

end
