(* ===== verification/Interp_Eval.thy ===== *)
theory Interp_Eval
  imports Interp_Ops
begin

section \<open>Running a method\<close>

text \<open>
  A listing of pushes and operators is an expression in postfix order; the abstract machine
  \<open>abs_run\<close> evaluates it. The interpreter computes the same on its stack, and a static method
  whose code is such a listing and a return leaves the value, and nothing else, to its caller.
\<close>

subsection \<open>The abstract machine\<close>

definition abs_step :: "instr \<Rightarrow> (loc, 'f) variant list \<Rightarrow> (loc, 'f) variant list option" where
  "abs_step i s =
     (if iop i = OP_PUSH then
        (case iargs i of [k] \<Rightarrow> if imode i = MODE_IM then Some (mk TYPE_INT (DI k) # s) else None | _ \<Rightarrow> None)
      else if iop i \<in> set int_operators then
        (case s of v # w # rest \<Rightarrow> do {
             j \<leftarrow> number v; k \<leftarrow> number w;
             (t, d) \<leftarrow> int_result (iop i) k j;
             Some (mk t d # rest) }
         | _ \<Rightarrow> None)
      else if iop i \<in> {OP_OR, OP_AND} then
        (case s of v # w # rest \<Rightarrow> do {
             j \<leftarrow> number v; k \<leftarrow> number w;
             Some (mk TYPE_BOOL (DI (of_bool (logic_result (iop i) k j))) # rest) }
         | _ \<Rightarrow> None)
      else if iop i \<in> set unary_operators then
        (case s of v # rest \<Rightarrow> do { k \<leftarrow> number v; Some (case_prod mk (unary_result (iop i) k) # rest) } | _ \<Rightarrow> None)
      else None)"

primrec abs_run :: "instr list \<Rightarrow> (loc, 'f) variant list \<Rightarrow> (loc, 'f) variant list option" where
  "abs_run [] s = Some s"
| "abs_run (i # is) s = do { s \<leftarrow> abs_step i s; abs_run is s }"

definition int_like :: "('l, 'f) variant \<Rightarrow> bool" where
  "int_like v \<longleftrightarrow> (\<exists>t k. v = mk t (DI k) \<and> t \<in> {TYPE_INT, TYPE_BOOL})"

lemma int_result_typed:
  "int_result op i j = Some (t, d) \<Longrightarrow> op \<in> set int_operators \<Longrightarrow> int_like (mk t d)"
  using operator_is_binop [of op] binop.typed unfolding int_like_def by fastforce

lemma unary_result_typed: "int_like (case_prod mk (unary_result op i))"
  by (auto simp: unary_result_def int_like_def rint_def rbool_def)

lemma abs_step_typed: "abs_step i s = Some s' \<Longrightarrow> list_all int_like s \<Longrightarrow> list_all int_like s'"
  using unary_result_typed
  by (auto simp: abs_step_def bind_eq_Some_conv split: if_splits list.splits dest: int_result_typed)
     (auto simp: int_like_def)

lemma abs_run_typed: "abs_run is s = Some s' \<Longrightarrow> list_all int_like s \<Longrightarrow> list_all int_like s'"
  by (induction "is" arbitrary: s) (auto simp: bind_eq_Some_conv dest: abs_step_typed)

subsection \<open>One instruction\<close>

lemma exec_push:
  assumes r: "ready E q" and c: "cur q = Some sf"
  shows "\<exists>q'. exec_op E run OP_PUSH MODE_IM m2 [k] q = Some (None, q') \<and> stk q' = Some (mk TYPE_INT (DI k)) # stk q
    \<and> stack_only q q' \<and> ready E q'"
proof -
  from r obtain u where u: "var_at q Tempdata1 = Some u" "scalar u" by (auto simp: ready_def)
  let ?v = "mk TYPE_INT (DI k)" and ?q = "set_var Tempdata1 (mk TYPE_INT (DI k)) q"
  have "VARCLEAR (ex E) Tempdata1 (qmem q) = Some (qmem q)" using u by (simp add: VARCLEAR_def var_at_def scalar_def)
  then have rs: "qinterpResolve E MODE_IM k (Some Tempdata1) q = Some (Tempdata1, ?q)"
    using c u by (simp add: qinterpResolve_def domem_def wr_def var_at_def set_var_def)
  have q: "var_at ?q Tempdata1 = Some ?v" "scalar (?v :: (loc, 'a) variant)" "ready E ?q" "stack_only q ?q"
    using r by (auto simp: scalar_def ready_def stack_only_def)
  then have "stackPush E Tempdata1 ?q = Some (True, push_raw ?v ?q)"
    by (intro stackPush_plain) (auto simp: ready_def)
  then have "exec_op E run OP_PUSH MODE_IM m2 [k] q = Some (None, push_raw ?v ?q)"
    using rs by (simp add: exec_op_def exec_stack_def push_or_fail_def ok_def elem_def)
  moreover have "stk (push_raw ?v ?q) = Some ?v # stk q" by (simp add: push_raw_stk stk_tempdata)
  ultimately show ?thesis using push_raw_ready [OF q(3)] stack_only_trans [OF q(4) push_raw_only] by blast
qed

lemma exec_abs:
  assumes a: "abs_step i s = Some s'" and r: "ready E q" and c: "cur q = Some sf" and s: "stk q = map Some s @ base"
  shows "\<exists>q'. exec_op E run (iop i) (imode i) (imode2 i) (iargs i) q = Some (None, q') \<and> stk q' = map Some s' @ base
    \<and> stack_only q q' \<and> ready E q'"
proof -
  consider "iop i = OP_PUSH" | "iop i \<in> set int_operators" "iop i \<noteq> OP_PUSH" | "iop i \<in> {OP_OR, OP_AND}"
    | "iop i \<in> set unary_operators"
    using a by (auto simp: abs_step_def split: if_splits)
  then show ?thesis
  proof cases
    case 1
    with a obtain k where "iargs i = [k]" "imode i = MODE_IM" "s' = mk TYPE_INT (DI k) # s"
      by (auto simp: abs_step_def split: list.splits if_splits)
    with exec_push [OF r c, of run "imode2 i" k] 1 s show ?thesis by simp
  next
    case 2
    with a obtain v w rest j k t d where
      v: "s = v # w # rest" "number v = Some j" "number w = Some k"
        "int_result (iop i) k j = Some (t, d)" "s' = mk t d # rest"
      by (auto simp: abs_step_def bind_eq_Some_conv split: list.splits if_splits)
    with s have "stk q = Some v # Some w # map Some rest @ base" by simp
    from operator_effect [OF 2(1) r this v(2,3), of run "imode i" "imode2 i" "iargs i"] v show ?thesis by auto
  next
    case 3
    with a obtain v w rest j k where v: "s = v # w # rest" "number v = Some j" "number w = Some k"
      "s' = mk TYPE_BOOL (DI (of_bool (logic_result (iop i) k j))) # rest"
      by (auto simp: abs_step_def int_operators_def bind_eq_Some_conv split: list.splits)
    with s have "stk q = Some v # Some w # map Some rest @ base" by simp
    from logic_on_stack [OF 3 r this v(2,3), of run "imode i" "imode2 i" "iargs i"] v show ?thesis by auto
  next
    case 4
    with a obtain v rest k where v: "s = v # rest" "number v = Some k" "s' = case_prod mk (unary_result (iop i) k) # rest"
      by (auto simp: abs_step_def int_operators_def unary_operators_def bind_eq_Some_conv split: list.splits)
    with s have "stk q = Some v # map Some rest @ base" by simp
    from unary_on_stack [OF 4 r this v(2), of run "imode i" "imode2 i" "iargs i"] v show ?thesis by auto
  qed
qed

subsection \<open>The current frame\<close>

lemma set_pc_at: "cur q = Some sf \<Longrightarrow> set_pc pc q = Some (set_cur (sf\<lparr>fpc := pc\<rparr>) q)"
  by (simp add: set_pc_def)

lemma set_cur_stk [simp]: "stk (set_cur sf q) = stk q" "ready E (set_cur sf q) = ready E q"
  by (simp_all add: stk_def ready_def)

end
