(* ===== verification/Interp_Return.thy ===== *)
theory Interp_Return
  imports Interp_Eval
begin

section \<open>Returning a value\<close>

text \<open>
  A call from its frame to its result: what entering a frame, returning and leaving do to the
  stack when the result is an int or bool, and that a static method whose code is an expression
  in postfix order and a return leaves the expression's value to the caller, and nothing else.
\<close>

subsection \<open>Steps of a call\<close>

lemma assign_int_like:
  assumes "vars st var = Some u" "scalar u" "vars st from = Some v" "int_like v"
  shows "varAssign E var from st = Some (True, st\<lparr>vars := (vars st)(var \<mapsto> v)\<rparr>)"
  using assms by (auto simp: varAssign_def VARCLEAR_def scalar_def int_like_def put_def wr_def)

lemma int_like_scalar: "int_like v \<Longrightarrow> scalar v \<and> clearable v \<and> vtype v \<noteq> TYPE_PTR"
  by (auto simp: int_like_def scalar_def clearable_def)

lemma trim_done: "trim_with release (int k) k q = Some q"
  by (cases k) simp_all

lemma leaveBlock_empty:
  "cur q = Some sf \<Longrightarrow> localCount sf = 0 \<Longrightarrow> leaveBlock E q = Some (set_cur (sf\<lparr>blockframes := tl (blockframes sf)\<rparr>) q)"
  by (simp add: leaveBlock_def)

text \<open>
  What a call leaves alone: the program, its constants, and the variants at the places P. The
  results of the frames of the callers are among them.
\<close>

definition same_code :: "('c, 'f) qinterp \<Rightarrow> ('c, 'f) qinterp \<Rightarrow> bool" where
  "same_code q q' \<longleftrightarrow> methods (qworld q') = methods (qworld q) \<and> classes (qworld q') = classes (qworld q)
     \<and> qclasses q' = qclasses q"

lemma same_code_trans [trans]: "same_code q q' \<Longrightarrow> same_code q' q'' \<Longrightarrow> same_code q q''"
  by (simp add: same_code_def)

definition keeps :: "loc set \<Rightarrow> ('c, 'f) qinterp \<Rightarrow> ('c, 'f) qinterp \<Rightarrow> bool" where
  "keeps P q q' \<longleftrightarrow> same_code q q' \<and> progs (ps q') = progs (ps q) \<and> fresh (qworld q) \<le> fresh (qworld q')
     \<and> (\<forall>l \<in> P. var_at q' l = var_at q l)"

definition const_places :: "loc set" where
  "const_places = {l. \<exists>p k. l = Const p k}"

definition held :: "stackframe list \<Rightarrow> loc set" where
  "held fs = const_places \<union> (\<lambda>sf. Retval (fid sf)) ` set fs"

definition scratch :: "nat \<Rightarrow> loc set" where
  "scratch f = {Tempdata1, Retval f} \<union> range Stk"

lemma keeps_refl [simp, intro!]: "keeps P q q" by (simp add: keeps_def same_code_def)

lemma keeps_trans [trans]: "keeps P q q' \<Longrightarrow> keeps P q' q'' \<Longrightarrow> keeps P q q''"
  by (auto simp: keeps_def same_code_def)

lemma keeps_mono: "keeps P q q' \<Longrightarrow> P' \<subseteq> P \<Longrightarrow> keeps P' q q'"
  by (auto simp: keeps_def)

lemma keeps_code: "keeps P q q' \<Longrightarrow> same_code q q'"
  by (simp add: keeps_def)

lemma held_simps [simp]: "held [] = const_places" "held (sf # fs) = insert (Retval (fid sf)) (held fs)" "const_places \<subseteq> held fs"
  by (auto simp: held_def)

lemma held_scratch: "f \<notin> fid ` set fs \<Longrightarrow> held fs \<subseteq> - scratch f"
  by (auto simp: held_def const_places_def scratch_def)

lemma stack_only_keeps: "stack_only q q' \<Longrightarrow> P \<inter> insert Tempdata1 (range Stk) = {} \<Longrightarrow> keeps P q q'"
proof -
  assume s: "stack_only q q'" and "P \<inter> insert Tempdata1 (range Stk) = {}"
  then have "l \<in> P \<Longrightarrow> l \<noteq> Tempdata1 \<and> (\<forall>k. l \<noteq> Stk k)" for l by auto
  with s show ?thesis by (simp add: stack_only_def keeps_def same_code_def)
qed

lemma held_stack: "held fs \<inter> insert Tempdata1 (range Stk) = {}"
  by (auto simp: held_def const_places_def)

text \<open>
  The frames in use and those in the cache are different, and a frame in the cache still has its
  result.
\<close>

definition cache_ok :: "('c, 'f) qinterp \<Rightarrow> bool" where
  "cache_ok q \<longleftrightarrow> distinct (map fid (frames q) @ stkframecache q)
     \<and> (\<forall>f \<in> set (map fid (frames q) @ stkframecache q). f < fresh (qworld q))
     \<and> (\<forall>f \<in> set (stkframecache q). var_at q (Retval f) \<noteq> None)"

lemma cache_keeps:
  assumes "cache_ok q" "keeps (- scratch f) q q'" "stkframecache q' = stkframecache q"
    "map fid (frames q') = map fid (frames q)" "f \<in> fid ` set (frames q)"
  shows "cache_ok q'"
proof -
  have "var_at q' (Retval g) = var_at q (Retval g)" if "g \<in> set (stkframecache q)" for g
  proof -
    have "g \<noteq> f" using assms(1,5) that by (auto simp: cache_ok_def)
    then show ?thesis using assms(2) by (auto simp: keeps_def scratch_def)
  qed
  moreover have "fid ` set (frames q') = fid ` set (frames q)" by (metis assms(4) list.set_map)
  moreover have "g < fresh (qworld q')" if "g \<in> set (map fid (frames q) @ stkframecache q)" for g
    using assms(1,2) that unfolding cache_ok_def keeps_def by (meson less_le_trans)
  ultimately show ?thesis using assms(1,3,4) by (simp add: cache_ok_def)
qed

lemma keeps_set_cur [simp]: "keeps P q (set_cur sf q') = keeps P q q'" "keeps P (set_cur sf q) q' = keeps P q q'"
  by (simp_all add: keeps_def same_code_def)

lemma cache_ok_set_cur: "cur q = Some sf \<Longrightarrow> fid sf' = fid sf \<Longrightarrow> cache_ok (set_cur sf' q) = cache_ok q"
proof -
  assume "cur q = Some sf" "fid sf' = fid sf"
  moreover from this obtain rest where "frames q = sf # rest" by (auto simp: cur_frames)
  ultimately show ?thesis by (simp add: cache_ok_def)
qed

lemma stack_only_cache:
  assumes "stack_only q q'" "cache_ok q"
  shows "cache_ok q'"
  using assms by (auto simp: stack_only_def cache_ok_def)

subsection \<open>A listing\<close>

text \<open>
  \<open>runs E q0 c n is s s'\<close>: in the program of q0, in a method of the class c, the listing takes the
  values s on top of the stack to s', and gives control back, for every fuel from n on.
\<close>

definition runs ::
  "('c, 'f) env \<Rightarrow> ('c, 'f) qinterp \<Rightarrow> nat \<Rightarrow> nat \<Rightarrow> instr list \<Rightarrow> (loc, 'f) variant list \<Rightarrow> (loc, 'f) variant list \<Rightarrow> bool" where
  "runs E q0 c n is s s' \<longleftrightarrow> (\<forall>q sf m mp pc pc' k base.
     coded (i16 (lb E)) (code mp) pc is pc' \<and> pc' \<le> mpc mp \<and> methods (qworld q) m = Some mp \<and> ready E q \<and> cache_ok q
     \<and> keeps const_places q0 q \<and> cur q = Some sf \<and> ctx sf = c \<and> fpc sf = pc \<and> ferr sf = IERR_NONE \<and> stk q = map Some s @ base \<longrightarrow>
     (\<exists>q'. interp_loop (length is + (n + k)) E m q = interp_loop (n + k) E m q' \<and> stk q' = map Some s' @ base
        \<and> ready E q' \<and> cache_ok q' \<and> keeps (held (frames q)) q q' \<and> frames q' = sf\<lparr>fpc := pc'\<rparr> # tl (frames q)))"

lemma runs_Nil: "runs E q0 c n [] s s"
  unfolding runs_def
proof (intro allI impI)
  fix q sf m mp pc pc' k base
  assume "coded (i16 (lb E)) (code mp) pc [] pc' \<and> pc' \<le> mpc mp \<and> methods (qworld q) m = Some mp \<and> ready E q \<and> cache_ok q
     \<and> keeps const_places q0 q \<and> cur q = Some sf \<and> ctx sf = c \<and> fpc sf = pc \<and> ferr sf = IERR_NONE \<and> stk q = map Some s @ base"
  moreover from this have "frames q = sf\<lparr>fpc := pc'\<rparr> # tl (frames q)" by (cases sf) (auto simp: cur_frames)
  ultimately show "\<exists>q'. interp_loop (length [] + (n + k)) E m q = interp_loop (n + k) E m q' \<and> stk q' = map Some s @ base
        \<and> ready E q' \<and> cache_ok q' \<and> keeps (held (frames q)) q q' \<and> frames q' = sf\<lparr>fpc := pc'\<rparr> # tl (frames q)"
    by (intro exI [of _ q]) simp
qed

lemma runs_Cons:
  assumes one: "\<And>q sf k base. ready E q \<Longrightarrow> cache_ok q \<Longrightarrow> keeps const_places q0 q \<Longrightarrow> cur q = Some sf \<Longrightarrow> ctx sf = c
      \<Longrightarrow> ferr sf = IERR_NONE \<Longrightarrow> stk q = map Some s @ base \<Longrightarrow>
      \<exists>q'. exec_op E (interp (n + k) E) (iop i) (imode i) (imode2 i) (iargs i) q = Some (None, q') \<and> stk q' = map Some s1 @ base
        \<and> ready E q' \<and> cache_ok q' \<and> keeps (held (frames q)) q q' \<and> frames q' = frames q"
    and rest: "runs E q0 c n is s1 s2"
  shows "runs E q0 c n (i # is) s s2"
  unfolding runs_def
proof (intro allI impI, elim conjE)
  fix q sf m mp pc pc' k base
  assume c: "coded (i16 (lb E)) (code mp) pc (i # is) pc'" "pc' \<le> mpc mp" and m: "methods (qworld q) m = Some mp"
    and q: "ready E q" "cache_ok q" "keeps const_places q0 q" "cur q = Some sf" "ctx sf = c" "fpc sf = pc" "ferr sf = IERR_NONE"
      "stk q = map Some s @ base"
  let ?sf = "sf\<lparr>fpc := pc + width i\<rparr>" and ?q = "set_cur (sf\<lparr>fpc := pc + width i\<rparr>) q"
  have f: "fetch (i16 (lb E)) (code mp) pc = ((iop i, length (iargs i), imode i, imode2 i), iargs i, pc + width i)"
    "coded (i16 (lb E)) (code mp) (pc + width i) is pc'" using c(1) by simp_all
  have h: "held (frames ?q) = held (frames q)" using q(4) by (auto simp: cur_frames)
  have "\<exists>q'. exec_op E (interp (n + (length is + k)) E) (iop i) (imode i) (imode2 i) (iargs i) ?q = Some (None, q')
      \<and> stk q' = map Some s1 @ base \<and> ready E q' \<and> cache_ok q' \<and> keeps (held (frames ?q)) ?q q' \<and> frames q' = frames ?q"
    by (rule one [where sf = ?sf]) (use q in \<open>simp_all add: cache_ok_set_cur\<close>)
  then obtain q1 where q1: "exec_op E (interp (length is + (n + k)) E) (iop i) (imode i) (imode2 i) (iargs i) ?q = Some (None, q1)"
    "stk q1 = map Some s1 @ base" "ready E q1" "cache_ok q1" "keeps (held (frames q)) q q1" "frames q1 = frames ?q"
    unfolding h by (auto simp: ac_simps)
  have "pc < mpc mp" using coded_end [OF f(2)] widths_nonneg [of "is"] width_pos [of i] c(2) by simp
  then have step: "interp_loop (length (i # is) + (n + k)) E m q = interp_loop (length is + (n + k)) E m q1"
    using q m f(1) q1(1) by (simp add: jsmethodCodeLen_def set_pc_at interp_def)
  have "methods (qworld q1) m = Some mp" "cur q1 = Some ?sf" using q1(5,6) m by (auto simp: keeps_def same_code_def cur_frames)
  moreover have "keeps const_places q0 q1" using q(3) keeps_mono [OF q1(5)] keeps_trans by (metis held_simps(3))
  ultimately obtain q' where q': "interp_loop (length is + (n + k)) E m q1 = interp_loop (n + k) E m q'" "stk q' = map Some s2 @ base"
    "ready E q'" "cache_ok q'" "keeps (held (frames q1)) q1 q'" "frames q' = ?sf\<lparr>fpc := pc'\<rparr> # tl (frames q1)"
    using rest [unfolded runs_def, rule_format, of mp "pc + width i" pc' q1 m ?sf base k] f(2) c(2) q1 q by auto
  have "keeps (held (frames q)) q q'" using keeps_trans [OF q1(5)] q'(5) h q1(6) by simp
  with q' step q1(6) show "\<exists>q'. interp_loop (length (i # is) + (n + k)) E m q = interp_loop (n + k) E m q' \<and> stk q' = map Some s2 @ base
        \<and> ready E q' \<and> cache_ok q' \<and> keeps (held (frames q)) q q' \<and> frames q' = sf\<lparr>fpc := pc'\<rparr> # tl (frames q)"
    by (intro exI [of _ q']) simp
qed

lemma runs_step:
  assumes "abs_step i s = Some s1" "runs E q0 c n is s1 s2"
  shows "runs E q0 c n (i # is) s s2"
proof (rule runs_Cons [OF _ assms(2)])
  fix q sf k base
  assume q: "ready E q" "cache_ok q" "cur q = Some sf" "stk q = map Some s @ base"
  from exec_abs [OF assms(1) q(1,3,4), of "interp (n + k) E"] obtain q' where
    q': "exec_op E (interp (n + k) E) (iop i) (imode i) (imode2 i) (iargs i) q = Some (None, q')" "stk q' = map Some s1 @ base"
      "stack_only q q'" "ready E q'" by blast
  moreover have "frames q' = frames q" using q'(3) by (simp add: stack_only_def)
  ultimately show "\<exists>q'. exec_op E (interp (n + k) E) (iop i) (imode i) (imode2 i) (iargs i) q = Some (None, q')
      \<and> stk q' = map Some s1 @ base \<and> ready E q' \<and> cache_ok q' \<and> keeps (held (frames q)) q q' \<and> frames q' = frames q"
    using stack_only_cache [OF q'(3) q(2)] stack_only_keeps [OF q'(3) held_stack] by blast
qed

lemma runs_abs: "abs_run is s = Some s' \<Longrightarrow> runs E q0 c n is s s'"
proof (induction "is" arbitrary: s)
  case (Cons i "is")
  then show ?case by (auto simp: bind_eq_Some_conv intro: runs_step)
qed (simp add: runs_Nil)

lemma exec_ret:
  assumes r: "ready E q" and c: "cur q = Some sf" and s: "stk q = Some v # rest" and v: "int_like v"
    and u: "var_at q (Retval (fid sf)) = Some u" "scalar u" and b: "localCount sf = 0"
  shows "\<exists>q'. exec_op E run OP_RET m m2 as q = Some (None, q') \<and> stk q' = rest \<and> ready E q' \<and> keeps (- scratch (fid sf)) q q'
    \<and> frames q' = sf\<lparr>blockframes := tl (blockframes sf), ferr := IERR_RETURN\<rparr> # tl (frames q)
    \<and> stkframecache q' = stkframecache q \<and> var_at q' (Retval (fid sf)) = Some v"
proof -
  obtain n where n: "nstack q = Suc n" "var_at q (Stk n) = Some v" using s by (auto simp: stk_Cons)
  let ?q = "set_var (Retval (fid sf)) v q"
  have "varAssign (ex E) (Retval (fid sf)) (Stk n) (qmem q) = Some (True, (qmem q)\<lparr>vars := (vars (qmem q))(Retval (fid sf) \<mapsto> v)\<rparr>)"
    by (rule assign_int_like) (use n(2) u v in \<open>auto simp: var_at_def\<close>)
  moreover have "varDeref (ex E) (Stk n) (qmem q) = Some (qmem q)"
    using n(2) int_like_scalar [OF v] by (simp add: varDeref_def var_at_def)
  ultimately have t: "take_result E True q = Some ?q"
    using c n(1) by (simp add: take_result_def stackPeek0_def stackPeekN_def domem_def onmem_def set_var_def)
  have "stk ?q = Some v # rest" using s by (simp add: stk_def)
  moreover have "clearable v" using int_like_scalar [OF v] by simp
  ultimately obtain q1 where q1: "stackPop E ?q = Some q1" "stk q1 = rest" "stack_only ?q q1"
    "\<forall>E. ready E ?q \<longrightarrow> ready E q1" using stackPop_plain [of ?q v rest E] by blast
  have r1: "ready E q1" using q1(4) r by (auto simp: ready_def)
  have f: "frames q1 = frames q" "cur q1 = Some sf" using q1(3) c by (auto simp: stack_only_def cur_frames)
  let ?sf = "sf\<lparr>blockframes := tl (blockframes sf), ferr := IERR_RETURN\<rparr>"
  have "fail IERR_RETURN (set_cur (sf\<lparr>blockframes := tl (blockframes sf)\<rparr>) q1) = Some (None, set_cur ?sf q1)"
    by (simp add: fail_def set_err_def)
  then have "exec_op E run OP_RET m m2 as q = Some (None, set_cur ?sf q1)"
    using t q1(1) leaveBlock_empty [OF f(2) b, of E]
    by (simp add: exec_op_def operators_def controls_def control_defs)
  moreover have "var_at q1 (Retval (fid sf)) = Some v" using q1(3) by (simp add: stack_only_def)
  moreover have "keeps (- scratch (fid sf)) q (set_cur ?sf q1)" "stkframecache q1 = stkframecache q"
    using q1(3) by (auto simp: stack_only_def keeps_def same_code_def scratch_def image_iff)
  ultimately show ?thesis using q1(2) r1 f by (intro exI [of _ "set_cur ?sf q1"]) simp
qed

subsection \<open>The method's code\<close>

text \<open>An instruction that returns.\<close>

definition returns :: "instr \<Rightarrow> bool" where
  "returns i \<longleftrightarrow> iop i = OP_RET \<and> iargs i = []"

lemma run_to_return:
  assumes a: "runs E q0 (ctx sf) n is [] [v]" "int_like v" and k: "coded (i16 (lb E)) (code mp) pc (is @ [i]) pc'" "pc' \<le> mpc mp" "returns i"
    and m: "methods (qworld q) m = Some mp"
    and q: "ready E q" "cache_ok q" "keeps const_places q0 q" "cur q = Some sf" "fpc sf = pc" "ferr sf = IERR_NONE" "localCount sf = 0"
    and u: "var_at q (Retval (fid sf)) = Some u" "scalar u"
  shows "\<exists>q'. interp_loop (length is + 2 + (n + k)) E m q = Some (None, q') \<and> stk q' = stk q \<and> ready E q' \<and> cache_ok q'
    \<and> keeps (held (tl (frames q))) q q'
    \<and> frames q' = sf\<lparr>blockframes := tl (blockframes sf), fpc := pc', ferr := IERR_RETURN\<rparr> # tl (frames q)
    \<and> var_at q' (Retval (fid sf)) = Some v"
proof -
  let ?I = "i16 (lb E)" and ?pc = "pc + widths is"
  let ?sf = "sf\<lparr>fpc := ?pc\<rparr>"
  have c: "coded ?I (code mp) pc is ?pc" "coded ?I (code mp) ?pc [i] pc'" using k(1) by (simp_all add: coded_append)
  have pc: "pc' = ?pc + 1" using c(2) k(3) by (simp add: returns_def width_def)
  have fr: "frames q = sf # tl (frames q)" using q(4) by (auto simp: cur_frames)
  have fuel: "length is + 2 + (n + k) = length is + (n + (2 + k))" "n + (2 + k) = Suc (Suc (n + k))" by simp_all
  obtain q1 where q1: "interp_loop (length is + 2 + (n + k)) E m q = interp_loop (Suc (Suc (n + k))) E m q1"
    "stk q1 = Some v # stk q" "ready E q1" "cache_ok q1" "keeps (held (frames q)) q q1" "frames q1 = ?sf # tl (frames q)"
    using a(1) [unfolded runs_def, rule_format, of mp pc ?pc q m sf "stk q" "2 + k"] c(1) pc k(2) q m
    unfolding fuel by auto
  have f1: "cur q1 = Some ?sf" "tl (frames q1) = tl (frames q)" using q1(6) by (simp_all add: cur_frames)
  have m1: "methods (qworld q1) m = Some mp" using q1(5) m by (simp add: keeps_def same_code_def)
  let ?sf2 = "?sf\<lparr>fpc := pc'\<rparr>" and ?run = "interp_with E (interp_loop (Suc (n + k)) E)"
  have "var_at q1 (Retval (fid sf)) = Some u" using q1(5) u(1) by (subst (asm) fr) (simp add: keeps_def)
  then have r: "ready E (set_cur ?sf2 q1)" "stk (set_cur ?sf2 q1) = Some v # stk q" "cur (set_cur ?sf2 q1) = Some ?sf2"
    "localCount ?sf2 = 0" "var_at (set_cur ?sf2 q1) (Retval (fid ?sf2)) = Some u"
    using q1(2,3) q(7) by (simp_all add: localCount_def)
  from exec_ret [OF r(1,3,2) a(2) r(5) u(2) r(4), of ?run "imode i" "imode2 i" "[]"] obtain q2 where
    q2: "exec_op E ?run OP_RET (imode i) (imode2 i) [] (set_cur ?sf2 q1) = Some (None, q2)" "stk q2 = stk q" "ready E q2"
      "keeps (- scratch (fid sf)) q1 q2"
      "frames q2 = ?sf2\<lparr>blockframes := tl (blockframes ?sf2), ferr := IERR_RETURN\<rparr> # tl (frames (set_cur ?sf2 q1))"
      "stkframecache q2 = stkframecache q1" "var_at q2 (Retval (fid sf)) = Some v" by auto
  have f2: "cur q2 = Some (?sf2\<lparr>blockframes := tl (blockframes sf), ferr := IERR_RETURN\<rparr>)" using q2(5) by (simp add: cur_frames)
  have m2: "methods (qworld q2) m = Some mp" using q2(4) m1 by (simp add: keeps_def same_code_def)
  have "fetch ?I (code mp) ?pc = ((OP_RET, 0, imode i, imode2 i), [], pc')" using c(2) k(3) by (simp add: returns_def)
  then have "interp_loop (Suc (Suc (n + k))) E m q1 = interp_loop (Suc (n + k)) E m q2"
    using q2(1) f1(1) m1 pc k(2) q(6) by (simp add: jsmethodCodeLen_def set_pc_at)
  also have "\<dots> = Some (None, q2)" using f2 m2 by (simp add: ok_def)
  finally have l: "interp_loop (length is + 2 + (n + k)) E m q = Some (None, q2)" using q1(1) by simp
  have "frames q2 = sf\<lparr>blockframes := tl (blockframes sf), fpc := pc', ferr := IERR_RETURN\<rparr> # tl (frames q)"
    using q2(5) f1(2) by (cases sf) simp
  moreover have "cache_ok q2" by (rule cache_keeps [OF q1(4) q2(4,6)]) (use q2(5) q1(6) in simp_all)
  moreover have "fid sf \<notin> fid ` set (tl (frames q))" using q(2) by (subst (asm) cache_ok_def, subst (asm) (1 2) fr) simp
  then have "held (tl (frames q)) \<subseteq> - scratch (fid sf)" by (rule held_scratch)
  then have "keeps (held (tl (frames q))) q1 q2" using q2(4) keeps_mono by blast
  moreover have "held (tl (frames q)) \<subseteq> held (frames q)" by (subst (2) fr) auto
  then have "keeps (held (tl (frames q))) q q1" using q1(5) keeps_mono by blast
  ultimately show ?thesis using l q2(2,3,7) keeps_trans by blast
qed

text \<open>A method may begin with entering a block without locals, as the compiler has it.\<close>

definition enter_0 :: instr where
  "enter_0 = \<lparr>iop = OP_ENTER, imode = MODE_IM, imode2 = 0, iargs = [0]\<rparr>"

definition prologue :: "instr list \<Rightarrow> bool" where
  "prologue pre \<longleftrightarrow> pre = [] \<or> pre = [enter_0]"

lemma enterBlock_0:
  assumes "ready E q" "cur q = Some sf"
  shows "enterBlock 0 q = Some (True, set_cur (sf\<lparr>blockframes := \<lparr>localcount = 0, breakpc = getBreak sf,
    blockcount = getBreakBlockCount sf, catchpc = -1\<rparr> # blockframes sf\<rparr>) q)"
  using assms by (simp add: enterBlock_def onworld_grow ready_def getBreakBlockCount_def)

text \<open>The code of a method: a prologue, a listing, a return, and what is never reached.\<close>

definition body_of :: "'c i16ops \<Rightarrow> 'c jsmethod \<Rightarrow> instr list \<Rightarrow> instr list \<Rightarrow> bool" where
  "body_of I mp pre is \<longleftrightarrow> prologue pre \<and> (\<exists>i js. returns i \<and> coded I (code mp) 0 (pre @ is @ i # js) (mpc mp))"

lemma interp_returns:
  assumes a: "runs E q0 (ctx sf) n is [] [v]" "int_like v" and k: "body_of (i16 (lb E)) mp pre is"
    and m: "fmethod sf = Some m" "methods (qworld q) m = Some mp" "hasretval mp"
    and q: "ready E q" "cache_ok q" "keeps const_places q0 q" "cur q = Some sf" "ferr sf = IERR_NONE" "localCount sf = 0"
    and u: "var_at q (Retval (fid sf)) = Some u" "scalar u"
  shows "\<exists>q'. interp (length pre + length is + 2 + n + k) E q = Some (IERR_NONE, q') \<and> stk q' = stk q \<and> ready E q' \<and> cache_ok q'
    \<and> keeps (held (tl (frames q))) q q'
    \<and> (\<exists>pc. frames q' = sf\<lparr>blockframes := (if pre = [] then tl (blockframes sf) else blockframes sf), fpc := pc\<rparr> # tl (frames q))
    \<and> var_at q' (Retval (fid sf)) = Some v"
proof -
  obtain i js where k: "coded (i16 (lb E)) (code mp) 0 (pre @ is @ i # js) (mpc mp)" "returns i" "prologue pre"
    using k by (auto simp: body_of_def)
  let ?I = "i16 (lb E)" and ?start = "set_cur (sf\<lparr>fpc := 0\<rparr>) q" and ?pc = "widths pre"
  let ?pc' = "widths pre + widths is + 1"
  have w: "width i = 1" using k(2) by (simp add: returns_def width_def)
  from k(1) w have c: "coded ?I (code mp) 0 pre ?pc" "coded ?I (code mp) ?pc (is @ [i]) ?pc'"
    and e: "coded ?I (code mp) ?pc' js (mpc mp)"
    by (simp_all add: coded_append add.assoc)
  have pc': "?pc' \<le> mpc mp" using coded_end [OF e] widths_nonneg [of js] by simp
  define bl where "bl = (if pre = [] then blockframes sf else \<lparr>localcount = 0, breakpc = getBreak sf,
    blockcount = getBreakBlockCount sf, catchpc = -1\<rparr> # blockframes sf)"
  let ?sf1 = "sf\<lparr>fpc := ?pc, blockframes := bl\<rparr>"
  have step: "interp_loop (length pre + j) E m ?start = interp_loop j E m (set_cur ?sf1 q)" for j
  proof (cases "pre = []")
    case True
    then show ?thesis by (cases sf) (simp add: bl_def)
  next
    case False
    with k(3) have pre: "pre = [enter_0]" by (simp add: prologue_def)
    let ?q1 = "set_cur (sf\<lparr>fpc := 3\<rparr>) q"
    have "exec_op E run OP_ENTER m1 m2 [0] ?q1 = Some (None, set_cur ?sf1 q)" for run m1 m2
      using enterBlock_0 [of E ?q1 "sf\<lparr>fpc := 3\<rparr>"] q(1) pre
      by (simp add: exec_op_def operators_def controls_def control_defs elem_def ok_def bl_def enter_0_def width_def
          getBreak_def getBreakBlockCount_def)
    moreover have "fetch ?I (code mp) 0 = ((OP_ENTER, 1, MODE_IM, 0), [0], 3)" "0 < mpc mp"
      using c(1) pre pc' widths_nonneg [of "is"] by (simp_all add: enter_0_def width_def)
    ultimately show ?thesis
      using pre m q by (simp add: jsmethodCodeLen_def set_pc_at)
  qed
  have f1: "fpc ?sf1 = ?pc" "ferr ?sf1 = IERR_NONE" "localCount ?sf1 = 0" "var_at (set_cur ?sf1 q) (Retval (fid ?sf1)) = Some u"
    "cur (set_cur ?sf1 q) = Some ?sf1" "ready E (set_cur ?sf1 q)" "methods (qworld (set_cur ?sf1 q)) m = Some mp"
    "cache_ok (set_cur ?sf1 q)" "keeps const_places q0 (set_cur ?sf1 q)" "runs E q0 (ctx ?sf1) n is [] [v]"
    using q m u a by (simp_all add: localCount_def bl_def cache_ok_set_cur)
  from run_to_return [OF f1(10) a(2) c(2) pc' k(2) f1(7,6,8,9,5,1-4) u(2), of k] obtain q2 where
    q2: "interp_loop (length is + 2 + (n + k)) E m (set_cur ?sf1 q) = Some (None, q2)" "stk q2 = stk q" "ready E q2" "cache_ok q2"
      "keeps (held (tl (frames q))) q q2"
      "frames q2 = ?sf1\<lparr>blockframes := tl bl, fpc := ?pc', ferr := IERR_RETURN\<rparr> # tl (frames q)"
      "var_at q2 (Retval (fid sf)) = Some v" by auto
  let ?q = "set_cur (?sf1\<lparr>blockframes := tl bl, fpc := ?pc', ferr := IERR_NONE\<rparr>) q2"
  have n: "nstack q2 = nstack q" using arg_cong [OF q2(2), of length] by (simp add: stk_def)
  have "trim_with (varClear (ex E)) (int (nstack q) + 1) (nstack q) ?q = Some ?q" by (cases "nstack q") simp_all
  moreover have "interp_loop (length pre + length is + 2 + n + k) E m ?start = Some (None, q2)"
    using step [of "length is + 2 + (n + k)"] q2(1) by (simp add: add.assoc del: interp_loop.simps)
  moreover have c2: "cur q2 = Some (?sf1\<lparr>blockframes := tl bl, fpc := ?pc', ferr := IERR_RETURN\<rparr>)" using q2(6) by (simp add: cur_frames)
  ultimately have "interp (length pre + length is + 2 + n + k) E q = Some (IERR_NONE, ?q)"
    using q(4) m n by (simp add: interp_def interp_with_def set_pc_at set_err_def del: interp_loop.simps)
  moreover have "\<exists>pc. frames ?q = sf\<lparr>blockframes := (if pre = [] then tl (blockframes sf) else blockframes sf), fpc := pc\<rparr>
      # tl (frames q)"
    using q2(6) q(5) by (intro exI [of _ ?pc']) (cases sf; simp add: bl_def)
  moreover have "cache_ok ?q" using q2(4) c2 by (simp add: cache_ok_set_cur)
  ultimately show ?thesis using q2(2,3,5,7) by (intro exI [of _ ?q]) simp
qed

subsection \<open>Entering and leaving a frame\<close>

lemma enterFrame_ok:
  assumes r: "ready E q" and c: "cache_ok q"
  shows "\<exists>q' f u. enterFrame jsp q = Some (True, q') \<and> stk q' = stk q \<and> nstack q' = nstack q \<and> ready E q' \<and> cache_ok q'
    \<and> keeps (held (frames q)) q q'
    \<and> frames q' = \<lparr>fid = f, ctx = jsp, fmethod = None, nlocals = 0, blockframes = [], ferr = IERR_NONE,
        stackcount = int (nstack q), fpc = 0\<rparr> # frames q
    \<and> var_at q' (Retval f) = Some u \<and> scalar u"
proof (cases "stkframecache q")
  case Nil
  let ?f = "fresh (qworld q)"
  have "?f \<notin> fid ` set (frames q)" using c by (auto simp: cache_ok_def)
  then have "Retval ?f \<notin> held (frames q)" by (auto simp: held_def const_places_def)
  with Nil r c show ?thesis
    by (auto simp: enterFrame_def ready_def onworld_def no_failure new_address_def stk_def keeps_def same_code_def scalar_def
        void_variant_def qworld_def qmem_def var_at_def set_world_def set_var_def set_mem_def cache_ok_def less_Suc_eq)
next
  case (Cons f fs)
  with c obtain u where "var_at q (Retval f) = Some u" by (auto simp: cache_ok_def)
  moreover have "f \<notin> fid ` set (frames q)" "f \<notin> set fs" using c Cons by (auto simp: cache_ok_def)
  then have "Retval f \<notin> held (frames q)" by (auto simp: held_def const_places_def)
  ultimately show ?thesis using Cons r c
    by (auto simp: enterFrame_def ready_def onworld_def no_failure stk_def keeps_def same_code_def scalar_def
        qworld_def qmem_def var_at_def set_world_def set_var_def set_mem_def cache_ok_def)
qed

lemma leaveFrame_result:
  assumes r: "ready E q" "cache_ok q" and c: "cur q = Some sf" "nlocals sf = 0" "stackcount sf = int (nstack q) + int (length (margs mp))" "ferr sf = IERR_NONE"
    and m: "fmethod sf = Some m" "methods (qworld q) m = Some mp" "hasretval mp"
    and v: "var_at q (Retval (fid sf)) = Some v" "int_like v"
  shows "\<exists>q'. leaveFrame E False q = Some q' \<and> stk q' = Some v # stk q \<and> frames q' = tl (frames q) \<and> keeps (held (frames q)) q q'
    \<and> ready E q' \<and> cache_ok q'"
proof -
  let ?sf = "sf\<lparr>blockframes := []\<rparr>"
  let ?q = "set_cur ?sf q" and ?q1 = "push_raw v (set_cur ?sf q)"
  have t: "trim_with (VARCLEAR (ex E)) (int (nstack q)) (nstack q) ?q = Some ?q" by (rule trim_done)
  have p: "stackPush E (Retval (fid sf)) ?q = Some (True, ?q1)"
    by (rule stackPush_plain) (use r v int_like_scalar [OF v(2)] in \<open>auto simp: ready_def\<close>)
  have "vars (qmem ?q1) (Retval (fid sf)) = Some v" using v(1) by (simp add: push_raw_def var_at_def)
  then have "VARCLEAR (ex E) (Retval (fid sf)) (qmem ?q1) = Some (qmem ?q1)"
    using int_like_scalar [OF v(2)] by (simp add: VARCLEAR_def scalar_def)
  then have l: "leave_result E ?q = Some ?q1"
    using p m c by (simp add: leave_result_def domem_def)
  have g: "onworld grow ?q1 = (True, ?q1)"
    using r by (intro onworld_grow) (simp add: ready_def push_raw_def)
  let ?q2 = "?q1\<lparr>stkframecache := fid sf # stkframecache ?q1, frames := tl (frames ?q1)\<rparr>"
  have "leaveFrame E False q = Some ?q2"
    using c m t l g by (simp add: leaveFrame_def getArgumentCount_def Let_def)
  moreover have "stk ?q2 = Some v # stk q"
    using push_raw_stk [of v ?q] by (simp add: stk_def var_at_def qmem_def qworld_def)
  moreover have "frames ?q2 = tl (frames q)" by (simp add: push_raw_def)
  moreover have s: "stack_only q (push_raw v q)" by (rule push_raw_only)
  have w: "qworld ?q2 = qworld (push_raw v q)" "ps ?q2 = ps (push_raw v q)" "qclasses ?q2 = qclasses (push_raw v q)"
    "\<And>l. var_at ?q2 l = var_at (push_raw v q) l"
    by (simp_all add: push_raw_def set_cur_def set_var_def set_mem_def set_world_def qworld_def qmem_def var_at_def)
  then have "keeps (held (frames q)) q ?q2"
    using stack_only_keeps [OF s held_stack] unfolding keeps_def same_code_def by simp
  moreover have "ready E ?q2"
    using push_raw_ready [of E ?q v] r by (simp add: ready_def qworld_def var_at_def qmem_def)
  moreover have var: "var_at ?q2 (Retval f) = var_at q (Retval f)" for f unfolding w(4) by (simp add: push_raw_def)
  obtain rest where rest: "frames q = sf # rest" using c(1) by (auto simp: cur_frames)
  have "frames ?q2 = rest" "stkframecache ?q2 = fid sf # stkframecache q" "fresh (qworld ?q2) = fresh (qworld q)"
    unfolding w(1) by (simp_all add: push_raw_def rest)
  then have "cache_ok ?q2"
    using r(2) v(1) unfolding cache_ok_def rest var by (simp; blast)
  ultimately show ?thesis by blast
qed

subsection \<open>The call\<close>

text \<open>Memory for a name that is freed again.\<close>

definition borrowed :: "('c, 'f) qinterp \<Rightarrow> ('c, 'f) qinterp" where
  "borrowed q = set_world ((qworld q)\<lparr>live := live (qworld q) + 1\<rparr>) q"

lemma borrow: "mallocs (qworld q) = [] \<Longrightarrow> onworld take_block q = (True, borrowed q)" "qfree (Suc 0) (borrowed q) = q"
  "methods (qworld (borrowed q)) = methods (qworld q)" "classes (qworld (borrowed q)) = classes (qworld q)"
  "qclasses (borrowed q) = qclasses q" "cur (borrowed q) = cur q" "set_cur sf (borrowed q) = borrowed (set_cur sf q)"
  by (simp_all add: onworld_def no_failure borrowed_def qfree_def free_blocks_def)
     (simp_all add: set_world_def qworld_def set_cur_def)

lemma enter_method_returns:
  assumes a: "runs E q0 (ctx sf) n is [] [v]" "int_like v" and k: "body_of (i16 (lb E)) mp pre is"
    and m: "fmethod sf = Some m" "methods (qworld q) m = Some mp" "hasretval mp" "margs mp = []" "\<not> misnative mp"
    and q: "ready E q" "cache_ok q" "keeps const_places q0 q" "cur q = Some sf" "ferr sf = IERR_NONE" "nlocals sf = 0" "blockframes sf = []"
      "stackcount sf = int (nstack q)"
    and u: "var_at q (Retval (fid sf)) = Some u" "scalar u"
  shows "\<exists>q'. enter_method E (interp (length pre + length is + 2 + n + k) E) False m q = Some (IERR_NONE, q') \<and> stk q' = Some v # stk q
    \<and> frames q' = tl (frames q) \<and> keeps (held (tl (frames q))) q q' \<and> ready E q' \<and> cache_ok q'"
proof -
  let ?b = "\<lparr>localcount = 0, breakpc = getBreak sf, blockcount = getBreakBlockCount sf, catchpc = -1\<rparr>"
  let ?sf = "sf\<lparr>blockframes := [?b]\<rparr>" and ?run = "interp (length pre + length is + 2 + n + k) E"
  let ?q = "set_cur ?sf q"
  have e: "enterBlock 0 q = Some (True, ?q)"
    using q by (simp add: enterBlock_def onworld_grow ready_def getBreakBlockCount_def)
  have f: "fmethod ?sf = Some m" "methods (qworld ?q) m = Some mp" "ready E ?q" "cur ?q = Some ?sf" "ferr ?sf = IERR_NONE"
    "localCount ?sf = 0" "var_at ?q (Retval (fid ?sf)) = Some u" "cache_ok ?q" "keeps const_places q0 ?q" "runs E q0 (ctx ?sf) n is [] [v]"
    using m q u a by (simp_all add: localCount_def cache_ok_set_cur)
  from interp_returns [OF f(10) a(2) k f(1,2) m(3) f(3,8,9,4-7) u(2), of k] obtain q1 pc where
    q1: "?run ?q = Some (IERR_NONE, q1)" "stk q1 = stk q" "ready E q1" "cache_ok q1" "keeps (held (tl (frames q))) q q1"
      "frames q1 = ?sf\<lparr>blockframes := (if pre = [] then [] else [?b]), fpc := pc\<rparr> # tl (frames q)" "var_at q1 (Retval (fid sf)) = Some v"
    by (cases "pre = []") auto
  let ?sf1 = "?sf\<lparr>blockframes := [], fpc := pc\<rparr>" and ?sf0 = "?sf\<lparr>blockframes := (if pre = [] then [] else [?b]), fpc := pc\<rparr>"
  have c0: "cur q1 = Some ?sf0" using q1(6) by (simp add: cur_frames)
  moreover have "localCount ?sf0 = 0" by (simp add: localCount_def)
  ultimately have l1: "leaveBlock E q1 = Some (set_cur ?sf1 q1)" using leaveBlock_empty [OF c0, of E] by (cases sf) simp
  let ?q1 = "set_cur ?sf1 q1"
  have c1: "cur ?q1 = Some ?sf1" by simp
  have "nstack q1 = nstack q" using arg_cong [OF q1(2), of length] by (simp add: stk_def)
  moreover have "methods (qworld ?q1) m = Some mp" using q1(5) m(2) by (simp add: keeps_def same_code_def)
  moreover have "cache_ok ?q1" using q1(4) c0 by (simp add: cache_ok_set_cur)
  moreover have "frames ?q1 = ?sf1 # tl (frames q)" using q1(6) by simp
  ultimately obtain q2 where q2: "leaveFrame E False ?q1 = Some q2" "stk q2 = Some v # stk q1" "frames q2 = tl (frames q)"
    "keeps (held (?sf1 # tl (frames q))) q1 q2" "ready E q2" "cache_ok q2"
    using leaveFrame_result [OF _ _ c1, where E = E and m = m and mp = mp and v = v] m q q1(3,7) a(2) by auto
  have "enter_method E ?run False m q = Some (IERR_NONE, q2)"
    using e m q q1(1) l1 q2(1) by (simp add: enter_method_def exec_method_def)
  moreover have "keeps (held (tl (frames q))) q1 q2" by (rule keeps_mono [OF q2(4)]) auto
  ultimately show ?thesis using keeps_trans [OF q1(5)] q1(2) q2 by auto
qed

text \<open>The method a name stands for: static, without arguments, with a result and code of its own.\<close>

definition static_method :: "('c, 'f) env \<Rightarrow> ('c, 'f) qinterp \<Rightarrow> string \<Rightarrow> nat \<Rightarrow> 'c jsmethod \<Rightarrow> bool" where
  "static_method E q name c mp \<longleftrightarrow> qclasses q (st_left E name (st_index E name ''.'')) = Some c
     \<and> (\<exists>jsp m. classes (qworld q) c = Some jsp
          \<and> jsclassFindMethod (methods (qworld q)) jsp (st_subend E name (st_index E name ''.'' + 1)) = Some m
          \<and> methods (qworld q) m = Some mp)
     \<and> hasretval mp \<and> margs mp = [] \<and> \<not> misnative mp"

lemma static_method_code: "static_method E q name c mp \<Longrightarrow> same_code q q' \<Longrightarrow> static_method E q' name c mp"
  by (simp add: static_method_def same_code_def)

lemma static_call_value:
  assumes "runs E q0 c n is [] [v]" "int_like v" and "static_method E q name c mp" and "body_of (i16 (lb E)) mp pre is"
    and "ready E q" and "cache_ok q" and "keeps const_places q0 q"
  shows "\<exists>q'. callStaticMethod E (interp (length pre + length is + 2 + n + k) E) name q = Some (IERR_NONE, q')
    \<and> stk q' = Some v # stk q \<and> frames q' = frames q \<and> keeps (held (frames q)) q q' \<and> ready E q' \<and> cache_ok q'"
proof -
  obtain jsp m where s: "qclasses q (st_left E name (st_index E name ''.'')) = Some c" "classes (qworld q) c = Some jsp"
    "jsclassFindMethod (methods (qworld q)) jsp (st_subend E name (st_index E name ''.'' + 1)) = Some m"
    "methods (qworld q) m = Some mp" "hasretval mp" "margs mp = []" "\<not> misnative mp"
    using assms(3) by (auto simp: static_method_def)
  from enterFrame_ok [OF assms(5,6)] obtain q1 f u where q1:
    "enterFrame c q = Some (True, q1)" "stk q1 = stk q" "nstack q1 = nstack q" "ready E q1" "cache_ok q1" "keeps (held (frames q)) q q1"
    "frames q1 = \<lparr>fid = f, ctx = c, fmethod = None, nlocals = 0, blockframes = [], ferr = IERR_NONE,
        stackcount = int (nstack q), fpc = 0\<rparr> # frames q" "var_at q1 (Retval f) = Some u" "scalar u" by blast
  let ?sf = "\<lparr>fid = f, ctx = c, fmethod = Some m, nlocals = 0, blockframes = [], ferr = IERR_NONE,
        stackcount = int (nstack q), fpc = 0\<rparr>"
  let ?q = "set_cur ?sf q1" and ?run = "interp (length pre + length is + 2 + n + k) E"
  have w: "methods (qworld q1) = methods (qworld q)" "classes (qworld q1) = classes (qworld q)"
    using q1(6) by (simp_all add: keeps_def same_code_def)
  have M: "mallocs (qworld q) = []" "mallocs (qworld q1) = []" using assms(5) q1(4) by (simp_all add: ready_def)
  obtain sf1 where c1: "cur q1 = Some sf1" "set_cur (sf1\<lparr>fmethod := Some m\<rparr>) q1 = ?q" "fid sf1 = f" using q1(7) by (simp add: cur_def)
  have "callStaticMethod E ?run name q = enter_method E ?run False m ?q"
    using s(1-3) q1(1) c1 w M
    by (simp add: callStaticMethod_def borrow find_method_def set_method_of_frame_def Let_def)
  moreover have "keeps const_places q0 q1" using keeps_trans [OF assms(7) keeps_mono [OF q1(6) held_simps(3)]] .
  then have "\<exists>q'. enter_method E ?run False m ?q = Some (IERR_NONE, q') \<and> stk q' = Some v # stk ?q
      \<and> frames q' = tl (frames ?q) \<and> keeps (held (tl (frames ?q))) ?q q' \<and> ready E q' \<and> cache_ok q'"
    by (intro enter_method_returns [OF _ assms(2,4), where sf = ?sf and ?q0.0 = q0])
      (use assms(1) q1 s w c1 in \<open>simp_all add: cache_ok_set_cur\<close>)
  ultimately show ?thesis using q1 keeps_trans [OF q1(6)] by auto
qed

end
