(* ===== verification/Compile.thy ===== *)
theory Compile
  imports Parser_Text Interp_Return
begin

section \<open>From source text to the value of a call\<close>

text \<open>
  The parser, the programs it builds and the interpreter together: the source of a class with a
  static method that returns an expression is compiled, and a call of that method computes the
  value of the expression.
\<close>

subsection \<open>The value of an expression\<close>

definition binary_value :: "opcode \<Rightarrow> (loc, 'f) variant \<Rightarrow> (loc, 'f) variant \<Rightarrow> (loc, 'f) variant option" where
  "binary_value op w v = do {
     j \<leftarrow> number w; k \<leftarrow> number v;
     if op \<in> set int_operators then map_option (case_prod mk) (int_result op j k)
     else Some (mk TYPE_BOOL (DI (of_bool (logic_result op j k)))) }"

primrec eval :: "exp \<Rightarrow> (loc, 'f) variant option" where
  "eval (Lit x) = Some (mk TYPE_INT (DI (atoi x)))"
| "eval Tru = Some (mk TYPE_INT (DI 1))"
| "eval Fals = Some (mk TYPE_INT (DI 0))"
| "eval (Neg a) = do { v \<leftarrow> eval a; k \<leftarrow> number v; Some (case_prod mk (unary_result OP_NEGATE k)) }"
| "eval (LogNot a) = do { v \<leftarrow> eval a; k \<leftarrow> number v; Some (case_prod mk (unary_result OP_NOT k)) }"
| "eval (Op t a b) = do { w \<leftarrow> eval a; v \<leftarrow> eval b; binary_value (the (opcode_of t)) w v }"

lemma opcode_kinds: "opcode_of t = Some op \<Longrightarrow> op \<in> set int_operators \<or> op \<in> {OP_OR, OP_AND}"
  by (auto simp: opcode_of_def op_tables int_operators_def split: if_splits)

lemma abs_run_append: "abs_run (is @ js) s = do { s \<leftarrow> abs_run is s; abs_run js s }"
  by (induction "is" arbitrary: s) (auto simp: bind_assoc)

lemma binary_step:
  assumes "op \<in> set int_operators \<or> op \<in> {OP_OR, OP_AND}" "binary_value op w u = Some v"
  shows "abs_step (instr0 op) (u # w # s) = Some (v # s)"
proof -
  have "op \<noteq> OP_PUSH" "op \<in> {OP_OR, OP_AND} \<Longrightarrow> op \<notin> set int_operators"
    using assms(1) by (auto simp: int_operators_def)
  with assms show ?thesis
    by (cases "op \<in> set int_operators") (auto simp: abs_step_def binary_value_def bind_eq_Some_conv)
qed

lemma unary_step: "op \<in> {OP_NEGATE, OP_NOT} \<Longrightarrow> number u = Some k \<Longrightarrow>
    abs_step (instr0 op) (u # s) = Some (case_prod mk (unary_result op k) # s)"
  by (auto simp: abs_step_def int_operators_def unary_operators_def)

lemma abs_run_code: "exp_ok e \<Longrightarrow> eval e = Some v \<Longrightarrow> abs_run (code_of e) s = Some (v # s)"
proof (induction e arbitrary: v s)
  case (Op t a b)
  then obtain op w u where o: "opcode_of t = Some op" "eval a = Some w" "eval b = Some u" "binary_value op w u = Some v"
    by (auto simp: bind_eq_Some_conv)
  from binary_step [OF opcode_kinds [OF o(1)] o(4)] Op o show ?case by (simp add: abs_run_append)
qed (auto simp: abs_run_append bind_eq_Some_conv unary_step abs_step_def [of "instr1 OP_PUSH m k" for m k])

subsection \<open>A method under construction\<close>

text \<open>What surrounds the method that code is emitted for: nothing else changes.\<close>

record ('c, 'f) site =
  smethods :: "nat \<rightharpoonup> 'c jsmethod"
  sclasses :: "nat \<rightharpoonup> jsclass"
  sstore :: "(loc, 'f) mem"
  sfresh :: nat
  sprogs :: "nat \<rightharpoonup> program"
  smethod :: nat
  sshape :: "'c jsmethod"

definition compiling :: "('c, 'f) pcx \<Rightarrow> ('c, 'f) site \<Rightarrow> program \<Rightarrow> bool \<Rightarrow> instr list \<Rightarrow> ('c, 'f) pst \<Rightarrow> bool" where
  "compiling C B pp h is s \<longleftrightarrow> (\<exists>c. i16_laws (i16 (clib C)) \<and> stores_ok (i16 (clib C))
     \<and> store (wld (pps s)) = sstore B
     \<and> errornum pp = 0 \<and> curclass pp \<noteq> None \<and> curmethod pp = Some (smethod B)
     \<and> progs (pps s) = (sprogs B)(cprog C \<mapsto> pp) \<and> mallocs (wld (pps s)) = []
     \<and> classes (wld (pps s)) = sclasses B \<and> fresh (wld (pps s)) = sfresh B
     \<and> methods (wld (pps s)) = (smethods B)(smethod B \<mapsto> (sshape B)\<lparr>code := c, mpc := widths is, hasretval := h\<rparr>)
     \<and> coded (i16 (clib C)) c 0 is (widths is))"

lemma compiling_emitting: "compiling C B pp h is s \<Longrightarrow> emitting C (smethod B) s"
  by (auto simp: compiling_def emitting_def building_def widths_nonneg)

lemma compiling_emitted:
  assumes "compiling C B pp h is s" "emitted C (smethod B) s js s'"
  shows "compiling C B pp (OP_RET \<in> iop ` set js \<or> h) (is @ js) s'"
proof -
  from assms(1) obtain c where c: "methods (wld (pps s)) (smethod B) = Some ((sshape B)\<lparr>code := c, mpc := widths is, hasretval := h\<rparr>)"
    "coded (i16 (clib C)) c 0 is (widths is)" by (auto simp: compiling_def)
  with assms(2) obtain c' where c': "pps s' = set_method (smethod B) ((sshape B)\<lparr>code := c', mpc := widths (is @ js),
       hasretval := (OP_RET \<in> iop ` set js \<or> h)\<rparr>) (pps s)" "coded (i16 (clib C)) c' 0 (is @ js) (widths (is @ js))"
    by (auto simp: emitted_def)
  have "methods (wld (pps s')) = (smethods B)(smethod B \<mapsto> (sshape B)\<lparr>code := c', mpc := widths (is @ js),
       hasretval := (OP_RET \<in> iop ` set js \<or> h)\<rparr>)"
    "fresh (wld (pps s')) = fresh (wld (pps s))" "store (wld (pps s')) = store (wld (pps s))"
    using assms(1) c'(1) by (auto simp: compiling_def set_method_def)
  with assms(1) c' show ?thesis unfolding compiling_def by (intro exI [of _ c']) simp
qed

lemma compiling_lex: "compiling C B pp h is s \<Longrightarrow> pps s' = pps s \<Longrightarrow> compiling C B pp h is s'"
  by (simp add: compiling_def)

lemma compiling_prog:
  assumes "compiling C B pp h is s" "errornum (f pp) = 0" "curclass (f pp) \<noteq> None" "curmethod (f pp) = Some (smethod B)"
  shows "\<exists>s'. on_prog C f s = Some s' \<and> plex s' = plex s \<and> compiling C B (f pp) h is s'"
  using assms by (auto simp: compiling_def on_prog_def pprog_def set_prog_def)

lemma compiling_emit0:
  assumes "compiling C B pp h is s" "op < 128"
  shows "\<exists>s'. emit0 C op s = Some s' \<and> plex s' = plex s \<and> compiling C B pp (op = OP_RET \<or> h) (is @ [instr0 op]) s'"
  using emit0_emitted [OF compiling_emitting [OF assms(1)] assms(2)] compiling_emitted [OF assms(1)] by fastforce

lemma compiling_pprog: "compiling C B pp h is s \<Longrightarrow> pprog C s = Some pp"
  by (simp add: compiling_def pprog_def)

subsection \<open>Scopes\<close>


lemma hole_emitted:
  assumes "emitting C m s" "op < 128" "methods (wld (pps s)) m = Some mp"
  shows "\<exists>s'. emit_hole C op k s = Some (mpc mp + 1, s') \<and> emitted C m s [instr1 op MODE_IM (word_of_int k)] s' \<and> plex s' = plex s"
proof -
  from assms(1,3) obtain pp where b: "building (pps s) (cprog C) pp m mp" and st: "stores_ok (i16 (clib C))"
    by (auto simp: emitting_def building_def)
  obtain s' where s': "do { s \<leftarrow> emit1 C op MODE_IM s; put_arg C k s } = Some s'"
    "emitted C m s [instr1 op MODE_IM (word_of_int k)] s'" "plex s' = plex s"
    using emit1_emitted [OF assms(1,2), of MODE_IM k] by auto
  obtain ok c where c: "i16_set (i16 (clib C)) (code mp) (encodeOp op 1 MODE_IM 0) (mpc mp) = (ok, c)" by fastforce
  let ?mp = "mp\<lparr>mpc := mpc mp + 1, code := c, hasretval := (op = OP_RET \<or> hasretval mp)\<rparr>"
  let ?s = "s\<lparr>pps := set_method m ?mp (pps s)\<rparr>"
  have e: "emit1 C op MODE_IM s = Some ?s"
    using emit_word [OF b c] by (simp add: emit1_def programEmit1_def onps_def)
  obtain ok' d where d: "i16_set2 (i16 (clib C)) c (word_of_int k) (mpc mp + 1) = (ok', d)" by fastforce
  have "fst (i16_set2 (i16 (clib C)) c (word_of_int k) (mpc mp + 1))" using st unfolding stores_ok_def by blast
  with d have "ok'" by simp
  with d have "i16_set2 (i16 (clib C)) (code ?mp) (word_of_int k) (mpc ?mp) = (True, d)" by simp
  from emit_arg [OF building_set_method [OF b] this] obtain ps where
    "programEmitArg (clib C) (cprog C) (word_of_int k) (pps ?s) = Some (mpc mp + 1, ps)" by simp
  then have "emitArg C k ?s = Some (mpc mp + 1, ?s\<lparr>pps := ps\<rparr>)" by (simp add: emitArg_def onps_def)
  with e s' show ?thesis by (auto simp: emit_hole_def put_arg_def)
qed

definition scope :: "int \<Rightarrow> program \<Rightarrow> symtab" where
  "scope pc pp = \<lparr>cumulative = (case symstack pp of [] \<Rightarrow> 0 | t # _ \<Rightarrow> cumulative t), symcount = 0,
     patchupPc = pc, syms = Map.empty, symlist = []\<rparr>"

lemma compiling_world:
  assumes "compiling C B pp h is s" "w = (wld (pps s))\<lparr>live := k\<rparr>"
  shows "compiling C B pp h is (s\<lparr>pps := (pps s)\<lparr>wld := w\<rparr>\<rparr>)"
  using assms by (simp add: compiling_def)

lemma compiling_enter:
  assumes "compiling C B pp h is s"
  shows "\<exists>s'. enter_scope C s = Some s' \<and> plex s' = plex s
    \<and> compiling C B (pp\<lparr>symstack := scope (widths is + 1) pp # symstack pp\<rparr>) h (is @ [enter_0]) s'"
proof -
  from assms obtain mp where m: "methods (wld (pps s)) (smethod B) = Some mp" "mpc mp = widths is"
    by (auto simp: compiling_def)
  from hole_emitted [OF compiling_emitting [OF assms] _ m(1), of OP_ENTER 0] obtain s1 where
    s1: "emit_hole C OP_ENTER 0 s = Some (widths is + 1, s1)" "emitted C (smethod B) s [enter_0] s1" "plex s1 = plex s"
    using m(2) by (auto simp: enter_0_def)
  have c1: "compiling C B pp h (is @ [enter_0]) s1"
    using compiling_emitted [OF assms s1(2)] by (simp add: enter_0_def)
  then have M: "mallocs (wld (pps s1)) = []" by (simp add: compiling_def)
  let ?s = "s1\<lparr>pps := (pps s1)\<lparr>wld := (wld (pps s1))\<lparr>live := live (wld (pps s1)) + 1 + 1 + 1\<rparr>\<rparr>\<rparr>"
  have "symtabEnter C (widths is + 1) s1
      = on_prog C (\<lambda>pp'. pp'\<lparr>symstack := scope (widths is + 1) pp # symstack pp'\<rparr>) ?s"
    using M compiling_pprog [OF c1]
    by (simp add: symtabEnter_def pworld_def no_failure pprog_def scope_def on_prog_def)
  moreover have "compiling C B pp h (is @ [enter_0]) ?s" by (rule compiling_world [OF c1]) simp
  ultimately show ?thesis
    using compiling_prog [of C B pp h "is @ [enter_0]" ?s "\<lambda>pp'. pp'\<lparr>symstack := scope (widths is + 1) pp # symstack pp'\<rparr>"] s1 assms
    by (auto simp: enter_scope_def compiling_def)
qed

text \<open>Leaving a scope without variables writes the count that is there already.\<close>

lemma compiling_exit:
  assumes c: "compiling C B (pp\<lparr>symstack := stp # ss\<rparr>) h (enter_0 # is) s" and t: "patchupPc stp = 1" "symcount stp = 0" "symlist stp = []"
  shows "\<exists>s'. symtabExit C s = Some s' \<and> plex s' = plex s \<and> compiling C B (pp\<lparr>symstack := ss\<rparr>) h (enter_0 # is) s'"
proof -
  from c obtain d where d: "i16_laws (i16 (clib C))" "stores_ok (i16 (clib C))" "coded (i16 (clib C)) d 0 ([] @ enter_0 # is) (widths (enter_0 # is))"
    and m: "methods (wld (pps s)) (smethod B) = Some ((sshape B)\<lparr>code := d, mpc := widths (enter_0 # is), hasretval := h\<rparr>)"
    by (auto simp: compiling_def)
  obtain ok d' where d': "i16_set2 (i16 (clib C)) d 0 (widths [] + 1) = (ok, d')" by fastforce
  have e: "iargs enter_0 = 0 # []" "enter_0\<lparr>iargs := [0]\<rparr> = enter_0" by (simp_all add: enter_0_def)
  note w = patch_code [OF d e(1) d']
  obtain s1 where s1: "on_prog C (\<lambda>pp. pp\<lparr>symstack := ss\<rparr>) s = Some s1" "plex s1 = plex s"
    "compiling C B (pp\<lparr>symstack := ss\<rparr>) h (enter_0 # is) s1"
    using compiling_prog [OF c, of "\<lambda>pp. pp\<lparr>symstack := ss\<rparr>"] c by (auto simp: compiling_def)
  have m1: "methods (wld (pps s1)) = methods (wld (pps s))" using s1(3) c s1(1) by (auto simp: on_prog_def set_prog_def)
  let ?mp = "(sshape B)\<lparr>code := d', mpc := widths (enter_0 # is), hasretval := h\<rparr>"
  let ?s2 = "s1\<lparr>pps := set_method (smethod B) ?mp (pps s1)\<rparr>"
  have "arg_at C 1 0 s1 = Some ?s2"
    using s1(3) d' w m m1 by (cases "sshape B") (auto simp: arg_at_def onps_def programEmitArgAt_def compiling_def)
  moreover have c2: "compiling C B (pp\<lparr>symstack := ss\<rparr>) h (enter_0 # is) ?s2"
    using s1(3) d' w e(2) unfolding compiling_def by (auto simp: set_method_def)
  let ?s3 = "?s2\<lparr>pps := (pps ?s2)\<lparr>wld := (wld (pps ?s2))\<lparr>live := live (wld (pps ?s2)) - 1 - 1 - 1\<rparr>\<rparr>\<rparr>"
  have "snd (pworld (\<lambda>w. ((), symtab_destruct stp w)) ?s2) = ?s3"
    using t by (simp add: pworld_def symtab_destruct_def free_blocks_def)
  ultimately have "symtabExit C s = Some ?s3"
    using s1(1) t compiling_pprog [OF c] by (simp add: symtabExit_def)
  moreover have "compiling C B (pp\<lparr>symstack := ss\<rparr>) h (enter_0 # is) ?s3" by (rule compiling_world [OF c2]) simp
  ultimately show ?thesis using s1(2) by (intro exI [of _ ?s3]) simp
qed

subsection \<open>A method that returns an expression\<close>

lemma expect_reads:
  assumes "reads (plex s) ((t, w) # y # ts)"
  shows "\<exists>s'. expect C t e f s = f s' \<and> pps s' = pps s \<and> reads (plex s') (y # ts)"
  using reads_next [OF assms] reads_at [OF assms] by (auto simp: expect_def)

lemma reads_name: "reads (plex s) ((T_ID, x) # ts) \<Longrightarrow> text_of s = x"
  by (cases ts) (auto simp: text_of_def tok_is_def reads.simps)

lemma toks_head: "fst (hd (toks k e)) \<noteq> T_SEMI"
proof -
  have "fst (hd (toks k e @ ts)) \<noteq> T_SEMI" for ts
    by (induction e arbitrary: k ts) (auto simp: parens_def)
  from this [of "[]"] show ?thesis by simp
qed

lemma compiling_isrhs:
  assumes "compiling C B pp h is s"
  shows "\<exists>s'. set_isrhs C b s = Some s' \<and> plex s' = plex s \<and> compiling C B (pp\<lparr>isrhs := b\<rparr>) h is s'"
  using compiling_prog [OF assms, of "\<lambda>pp. pp\<lparr>isrhs := b\<rparr>"] assms unfolding set_isrhs_def by (auto simp: compiling_def)

lemma compiling_hasret:
  assumes "compiling C B pp h is s"
  shows "\<exists>s'. set_hasretval C s = Some s' \<and> plex s' = plex s \<and> compiling C B pp True is s'"
  using assms by (auto simp: compiling_def set_hasretval_def pprog_def set_method_def)

lemma return_compiles:
  assumes e: "exp_ok e" and c: "compiling C B pp h is s" and d: "\<not> isdebuging pp"
    and r: "reads (plex s) ((T_RETURN, []) # toks 0 e @ (T_SEMI, []) # (T_RBRACE, []) # ts)"
  shows "\<exists>s'. stmts (fuel e + 4 + n) C s = Some s' \<and> reads (plex s') ((T_RBRACE, []) # ts)
    \<and> compiling C B (pp\<lparr>isrhs := False\<rparr>) True (is @ code_of e @ [instr0 OP_RET]) s'"
proof -
  let ?st = "stmts (fuel e + 3 + n) C" and ?rest = "(T_SEMI, []) # (T_RBRACE, []) # ts"
  obtain x xs where x: "toks 0 e = x # xs" using toks_cons by blast
  with toks_head [of 0 e] have xh: "fst x \<noteq> T_SEMI" by simp
  from reads_next [of s "(T_RETURN, [])" x "xs @ ?rest"] r x obtain s1 where
    s1: "lexnext s = Some s1" "pps s1 = pps s" "reads (plex s1) (toks 0 e @ ?rest)" by auto
  from compiling_isrhs [OF compiling_lex [OF c s1(2)], of True] obtain s2 where
    s2: "set_isrhs C True s1 = Some s2" "plex s2 = plex s1" "compiling C B (pp\<lparr>isrhs := True\<rparr>) h is s2" by blast
  from compiling_hasret [OF s2(3)] obtain s3 where
    s3: "set_hasretval C s2 = Some s3" "plex s3 = plex s2" "compiling C B (pp\<lparr>isrhs := True\<rparr>) True is s3" by blast
  have "reads (plex s3) (toks 0 e @ ?rest)" "stops 0 (fst (T_SEMI, ([] :: string)))"
    using s1(3) s2(2) s3(2) stops_semi by simp_all
  from expr_emits [OF e compiling_emitting [OF s3(3)] this, of "n + 2"] obtain s4 where
    s4: "expr (fuel e + 3 + n) C s3 = Some s4" "emitted C (smethod B) s3 (code_of e) s4" "reads (plex s4) ?rest"
    by (auto simp: eval_nat_numeral)
  note c4 = compiling_emitted [OF s3(3) s4(2)]
  from compiling_emit0 [OF c4, of OP_RET] obtain s5 where
    s5: "emit0 C OP_RET s4 = Some s5" "plex s5 = plex s4"
      "compiling C B (pp\<lparr>isrhs := True\<rparr>) True (is @ code_of e @ [instr0 OP_RET]) s5" by auto
  from compiling_isrhs [OF s5(3), of False] obtain s6 where
    s6: "set_isrhs C False s5 = Some s6" "plex s6 = plex s5"
      "compiling C B (pp\<lparr>isrhs := False\<rparr>) True (is @ code_of e @ [instr0 OP_RET]) s6" by auto
  have "sreturn (fuel e + 3 + n) C s = Some s6"
    using s1(1) s2(1) s3(1) s4(1) s5(1) s6(1) xh reads_at [of s1 x] s1(3) x by (simp add: sreturn_def)
  moreover have "stmt (fuel e + 3 + n) C ?st s = sreturn (fuel e + 3 + n) C s" "\<not> at T_RBRACE s" "\<not> at T_CASE s" "\<not> at T_LEXERROR s" "\<not> at T_DEFAULT s"
    using reads_at [OF r] by (simp_all add: stmt_def)
  moreover have "line_info C s = Some s" using d compiling_pprog [OF c] by (simp add: line_info_def)
  moreover have "errornum pp = 0" using c by (simp add: compiling_def)
  ultimately have 1: "stmts (fuel e + 4 + n) C s = ?st s6"
    using compiling_pprog [OF c] by (simp add: eval_nat_numeral)
  have r6: "reads (plex s6) ?rest" using s4(3) s5(2) s6(2) by simp
  from reads_next [OF r6] obtain s7 where s7: "lexnext s6 = Some s7" "pps s7 = pps s6" "reads (plex s7) ((T_RBRACE, []) # ts)" by blast
  have 2: "?st s6 = stmts (fuel e + 2 + n) C s7"
    using reads_at [OF r6] compiling_pprog [OF s6(3)] s6(3) s7(1)
    by (simp add: eval_nat_numeral stmt_def line_info_def compiling_def)
  have "stmts (fuel e + 2 + n) C s7 = Some s7"
    using reads_at [OF s7(3)] compiling_pprog [OF compiling_lex [OF s6(3) s7(2)]] by (simp add: eval_nat_numeral)
  with 1 2 s7(3) compiling_lex [OF s6(3) s7(2)] show ?thesis by auto
qed

definition new_method :: "'c lib \<Rightarrow> string \<Rightarrow> bool \<Rightarrow> jsaccess \<Rightarrow> nat \<Rightarrow> 'c jsmethod" where
  "new_method L name isstatic acc c = \<lparr>mname = name, margs = [], misstatic = isstatic, misnative = False, hasretval = False,
     access = acc, msig = name @ (if isstatic then '':Sv'' else '':Iv''), mclass = c, mpc = 0, code = i16_new (i16 L), nativemethod = None\<rparr>"

definition new_site :: "('c, 'f) pcx \<Rightarrow> string \<Rightarrow> bool \<Rightarrow> jsaccess \<Rightarrow> nat \<Rightarrow> jsclass \<Rightarrow> ('c, 'f) pstate \<Rightarrow> ('c, 'f) site" where
  "new_site C name isstatic acc c cls p =
     (let w = wld p; m = fresh w
      in \<lparr>smethods = methods w, sclasses = (classes w)(c \<mapsto> cls\<lparr>cmethods := cmethods cls @ [m]\<rparr>), sstore = store w, sfresh = m + 1,
          sprogs = progs p, smethod = m, sshape = new_method (clib C) name isstatic acc c\<rparr>)"

text \<open>Where a method may be defined.\<close>

definition in_class :: "('c, 'f) pcx \<Rightarrow> program \<Rightarrow> nat \<Rightarrow> jsclass \<Rightarrow> ('c, 'f) pst \<Rightarrow> bool" where
  "in_class C pp c cls s \<longleftrightarrow> lib_laws (clib C) \<and> stores_ok (i16 (clib C)) \<and> mallocs (wld (pps s)) = []
     \<and> progs (pps s) (cprog C) = Some pp \<and> errornum pp = 0 \<and> curclass pp = Some c \<and> classes (wld (pps s)) c = Some cls"

lemma in_class_lex: "in_class C pp c cls s \<Longrightarrow> pps s' = pps s \<Longrightarrow> in_class C pp c cls s'"
  by (simp add: in_class_def)

lemma method_constructed:
  assumes "lib_laws L" "mallocs w = []" "classes w c = Some cls"
  shows "jsmethodConstruct L c name st acc w = Some (Some (fresh w), w\<lparr>live := live w + 1 + 1 + 1 + 1 + 1, fresh := fresh w + 1,
    methods := (methods w)(fresh w \<mapsto> new_method L name st acc c),
    classes := (classes w)(c \<mapsto> cls\<lparr>cmethods := cmethods cls @ [fresh w]\<rparr>)\<rparr>)"
proof -
  have "st_setchar L (name @ '':S'') (Suc (Suc (length name))) ch = name @ '':S'' @ [ch]"
    "st_setchar L (name @ '':I'') (Suc (Suc (length name))) ch = name @ '':I'' @ [ch]" for ch
    using assms unfolding lib_laws_def
    by (metis append.assoc append_Cons append_Nil length_append length_Cons list.size(3) add_Suc_right add_0_right)+
  then show ?thesis
    using assms by (cases st)
      (simp_all add: jsmethodConstruct_def no_failure buildMethodSig_def new_address_def jsclassAddMethod_def
        new_method_def Let_def)
qed

lemma define_starts:
  assumes "in_class C pp c cls s"
  shows "\<exists>s'. define_method C name st acc s = Some (Some (fresh (wld (pps s))), s') \<and> plex s' = plex s
    \<and> compiling C (new_site C name st acc c cls (pps s)) (pp\<lparr>curmethod := Some (fresh (wld (pps s)))\<rparr>) False [] s'"
proof -
  let ?w = "wld (pps s)" and ?m = "fresh (wld (pps s))"
  let ?w' = "?w\<lparr>live := live ?w + 1 + 1 + 1 + 1 + 1, fresh := ?m + 1,
    methods := (methods ?w)(?m \<mapsto> new_method (clib C) name st acc c),
    classes := (classes ?w)(c \<mapsto> cls\<lparr>cmethods := cmethods cls @ [?m]\<rparr>)\<rparr>"
  have "jsmethodConstruct (clib C) c name st acc ?w = Some (Some ?m, ?w')"
    using assms by (intro method_constructed) (simp_all add: in_class_def)
  then have "define_method C name st acc s = Some (Some ?m,
      s\<lparr>pps := set_prog (cprog C) (pp\<lparr>curmethod := Some ?m\<rparr>) ((pps s)\<lparr>wld := ?w'\<rparr>)\<rparr>)"
    using assms by (simp add: in_class_def define_method_def onps_def programDefineMethod_def)
  then show ?thesis
    using assms by (auto simp: in_class_def lib_laws_def compiling_def new_site_def new_method_def set_prog_def Let_def)
qed

text \<open>The tokens of a static method without arguments that returns an expression.\<close>

definition method_toks :: "string \<Rightarrow> exp \<Rightarrow> (token \<times> string) list" where
  "method_toks f e = (T_ID, f) # (T_LPAR, []) # (T_RPAR, []) # (T_LBRACE, []) # (T_RETURN, []) # toks 0 e
     @ [(T_SEMI, []), (T_RBRACE, [])]"

definition method_code :: "exp \<Rightarrow> instr list" where
  "method_code e = enter_0 # code_of e @ [instr0 OP_RET, instr0 OP_LEAVE]"

lemma if_no_error_compiling: "compiling C B pp h is s \<Longrightarrow> if_no_error C f s = f s"
  using compiling_emitting if_no_error_emitting by metis

lemma method_compiles:
  assumes e: "exp_ok e" and c: "in_class C pp c cls s" and d: "\<not> isdebuging pp"
    and r: "reads (plex s) (method_toks f e @ x # ts)"
  shows "\<exists>s'. pmethod (fuel e + 4 + n) C acc True s = Some s' \<and> reads (plex s') (x # ts)
    \<and> compiling C (new_site C f True acc c cls (pps s)) (pp\<lparr>curmethod := Some (fresh (wld (pps s))), isrhs := False\<rparr>) True
        (method_code e) s'"
proof -
  let ?B = "new_site C f True acc c cls (pps s)" and ?pp = "pp\<lparr>curmethod := Some (fresh (wld (pps s)))\<rparr>"
  let ?sc = "scope 1 ?pp" and ?st = "stmts (fuel e + 4 + n) C"
  let ?body = "(T_RETURN, []) # toks 0 e @ (T_SEMI, []) # (T_RBRACE, []) # x # ts"
  have r: "reads (plex s) ((T_ID, f) # (T_LPAR, []) # (T_RPAR, []) # (T_LBRACE, []) # ?body)"
    using r by (simp add: method_toks_def)
  from define_starts [OF c, of f True acc] obtain s1 where
    s1: "define_method C f True acc s = Some (Some (fresh (wld (pps s))), s1)" "plex s1 = plex s" "compiling C ?B ?pp False [] s1"
    by blast
  from compiling_enter [OF s1(3)] obtain s2 where
    s2: "enter_scope C s1 = Some s2" "plex s2 = plex s1" "compiling C ?B (?pp\<lparr>symstack := ?sc # symstack pp\<rparr>) False [enter_0] s2"
    by auto
  have "reads (plex s2) ((T_ID, f) # (T_LPAR, []) # (T_RPAR, []) # (T_LBRACE, []) # ?body)" using r s1(2) s2(2) by simp
  from reads_next [OF this] obtain s3 where
    s3: "lexnext s2 = Some s3" "pps s3 = pps s2" "reads (plex s3) ((T_LPAR, []) # (T_RPAR, []) # (T_LBRACE, []) # ?body)" by blast
  from expect_reads [OF s3(3)] obtain s4 where
    s4: "expect C T_LPAR YYER_EXPECTED_LPAR (arg_decs (fuel e + 4 + n) C) s3 = arg_decs (fuel e + 4 + n) C s4" "pps s4 = pps s3"
      "reads (plex s4) ((T_RPAR, []) # (T_LBRACE, []) # ?body)" by blast
  from expect_reads [OF s4(3)] obtain s5 where
    s5: "expect C T_RPAR YYER_EXPECTED_RPAR Some s4 = Some s5" "pps s5 = pps s4" "reads (plex s5) ((T_LBRACE, []) # ?body)" by blast
  have a: "argdec (fuel e + 4 + n) C s2 = Some s5"
    using s3(1) s4(1) s5(1) reads_at [OF s4(3)] by (simp add: argdec_def eval_nat_numeral)
  have c5: "compiling C ?B (?pp\<lparr>symstack := ?sc # symstack pp\<rparr>) False [enter_0] s5"
    using compiling_lex [OF s2(3)] s3(2) s4(2) s5(2) by simp
  from expect_reads [OF s5(3)] obtain s6 where
    s6: "methodbody C ?st s5 = do { s \<leftarrow> ?st s6; block_end C s }" "pps s6 = pps s5" "reads (plex s6) ?body"
    unfolding methodbody_def by blast
  have sw: "pp\<lparr>curmethod := m, symstack := ss, isrhs := b\<rparr> = pp\<lparr>curmethod := m, isrhs := b, symstack := ss\<rparr>" for m ss b by simp
  have d': "\<not> isdebuging (?pp\<lparr>symstack := ?sc # symstack pp\<rparr>)" using d by simp
  from return_compiles [OF e compiling_lex [OF c5 s6(2)] d' s6(3), of n, unfolded sw] obtain s7 where
    s7: "?st s6 = Some s7" "reads (plex s7) ((T_RBRACE, []) # x # ts)"
      "compiling C ?B (?pp\<lparr>isrhs := False, symstack := ?sc # symstack pp\<rparr>) True ([enter_0] @ code_of e @ [instr0 OP_RET]) s7"
    by blast
  from compiling_emit0 [OF s7(3), of OP_LEAVE] obtain s8 where
    s8: "emit0 C OP_LEAVE s7 = Some s8" "plex s8 = plex s7"
      "compiling C ?B (?pp\<lparr>isrhs := False, symstack := ?sc # symstack pp\<rparr>) True (method_code e) s8"
    by (auto simp: method_code_def)
  from compiling_exit [OF s8(3) [unfolded method_code_def]] obtain s9 where
    s9: "symtabExit C s8 = Some s9" "plex s9 = plex s8" "compiling C ?B (?pp\<lparr>isrhs := False\<rparr>) True (method_code e) s9"
    by (auto simp: scope_def method_code_def)
  have "reads (plex s9) ((T_RBRACE, []) # x # ts)" using s7(2) s8(2) s9(2) by simp
  from expect_reads [OF this] obtain s10 where
    s10: "expect C T_RBRACE YYER_EXPECTED_RBRACE Some s9 = Some s10" "pps s10 = pps s9" "reads (plex s10) (x # ts)" by blast
  have "block_end C s7 = Some s10"
    using s8(1) s9(1) s10(1) if_no_error_compiling [OF s7(3)] by (simp add: block_end_def)
  then have "if_no_error C (methodbody C ?st) s5 = Some s10"
    using s6(1) s7(1) if_no_error_compiling [OF c5] by simp
  moreover have "pmethod (fuel e + 4 + n) C acc True s = if_no_error C (methodbody C ?st) s5"
    using s1(1) s2(1) a reads_at [OF r] reads_name [OF r] by (simp add: pmethod_def)
  ultimately show ?thesis using s10(3) compiling_lex [OF s9(3) s10(2)] by auto
qed

subsection \<open>A class with that method\<close>

lemma compiling_in_class:
  "compiling C B pp h is s \<Longrightarrow> lib_laws (clib C) \<Longrightarrow> curclass pp = Some c \<Longrightarrow> sclasses B c = Some cls \<Longrightarrow> in_class C pp c cls s"
  by (auto simp: compiling_def in_class_def)

lemma new_site_simps [simp]:
  "smethods (new_site C f st acc c cls p) = methods (wld p)" "sprogs (new_site C f st acc c cls p) = progs p"
  "sclasses (new_site C f st acc c cls p) = (classes (wld p))(c \<mapsto> cls\<lparr>cmethods := cmethods cls @ [fresh (wld p)]\<rparr>)"
  "sstore (new_site C f st acc c cls p) = store (wld p)" "sfresh (new_site C f st acc c cls p) = fresh (wld p) + 1" "smethod (new_site C f st acc c cls p) = fresh (wld p)"
  "sshape (new_site C f st acc c cls p) = new_method (clib C) f st acc c"
  by (simp_all add: new_site_def Let_def)

text \<open>The method under construction as it is now.\<close>

lemma compiling_method:
  assumes "compiling C B pp h is s"
  obtains d where "methods (wld (pps s)) = (smethods B)(smethod B \<mapsto> (sshape B)\<lparr>code := d, mpc := widths is, hasretval := h\<rparr>)"
    "coded (i16 (clib C)) d 0 is (widths is)"
  using assms by (auto simp: compiling_def)

definition with_this :: "('c, 'f) site \<Rightarrow> vardef \<Rightarrow> ('c, 'f) site" where
  "with_this B vd = B\<lparr>sshape := (sshape B)\<lparr>margs := margs (sshape B) @ [vd], msig := msig (sshape B) @ ''v''\<rparr>\<rparr>"

lemma with_this_simps [simp]:
  "smethods (with_this B vd) = smethods B" "sprogs (with_this B vd) = sprogs B" "sclasses (with_this B vd) = sclasses B"
  "sfresh (with_this B vd) = sfresh B" "sstore (with_this B vd) = sstore B" "smethod (with_this B vd) = smethod B"
  "msig (sshape (with_this B vd)) = msig (sshape B) @ ''v''"
  by (simp_all add: with_this_def)

lemma compiling_add_this:
  assumes "compiling C B pp h is s"
  shows "\<exists>s' vd. add_arg C ''this'' False s = Some s' \<and> plex s' = plex s \<and> compiling C (with_this B vd) pp h is s'"
proof -
  let ?w = "wld (pps s)"
  from assms have M: "mallocs ?w = []" "pprog C s = Some pp" "curmethod pp = Some (smethod B)"
    by (simp_all add: compiling_def pprog_def)
  obtain d where d: "methods ?w = (smethods B)(smethod B \<mapsto> (sshape B)\<lparr>code := d, mpc := widths is, hasretval := h\<rparr>)"
    "coded (i16 (clib C)) d 0 is (widths is)"
    using compiling_method [OF assms] by blast
  let ?vd = "\<lparr>voffset = int (length (margs (sshape B))), vname = ''this'', srcmode = MODE_BLOCK, visstatic = False, isauto = False,
                         isptr = False, visnative = False, nativefield = None\<rparr>"
  let ?w' = "?w\<lparr>live := live ?w + 1 + 1, methods := (methods ?w)(smethod B \<mapsto> (sshape (with_this B ?vd))\<lparr>code := d,
      mpc := widths is, hasretval := h\<rparr>)\<rparr>"
  have "jsmethodAddArg (smethod B) ''this'' False ?w = Some (int (length (margs (sshape B))), ?w')"
    using M d by (cases "sshape B") (simp add: jsmethodAddArg_def createVar_def no_failure methodSigAppendArg_def with_this_def Let_def)
  then have "add_arg C ''this'' False s = Some (s\<lparr>pps := (pps s)\<lparr>wld := ?w'\<rparr>\<rparr>)"
    using M by (simp add: add_arg_def)
  moreover have "compiling C (with_this B ?vd) pp h is (s\<lparr>pps := (pps s)\<lparr>wld := ?w'\<rparr>\<rparr>)"
    using assms d unfolding compiling_def by (intro exI [of _ d]) auto
  ultimately show ?thesis by (intro exI conjI) auto
qed

text \<open>
  The class is there, with the constructors of a class and the method, whose code is that of the
  expression; nothing that was there before is different.
\<close>

definition method_of :: "'c lib \<Rightarrow> string \<Rightarrow> bool \<Rightarrow> instr list \<Rightarrow> 'c jsmethod \<Rightarrow> bool" where
  "method_of L sig ret js mp \<longleftrightarrow> msig mp = sig \<and> hasretval mp = ret \<and> margs mp = [] \<and> \<not> misnative mp
     \<and> coded (i16 L) (code mp) 0 js (mpc mp)"

definition compiled ::
  "'c lib \<Rightarrow> string \<Rightarrow> string \<Rightarrow> exp \<Rightarrow> nat \<Rightarrow> nat \<Rightarrow> ('c, 'f) pstate \<Rightarrow> ('c, 'f) pstate \<Rightarrow> bool" where
  "compiled L A f e p c S S' \<longleftrightarrow> (\<exists>pp cls m mp0 mp1 mp2.
       progs S' = (progs S)(p \<mapsto> pp) \<and> errornum pp = 0 \<and> pclasses pp = [A \<mapsto> c] \<and> lclasses pp = [c] \<and> intrinsics pp = None
     \<and> classes (wld S') = (classes (wld S))(c \<mapsto> cls) \<and> cname cls = A \<and> basename cls = ''Object'' \<and> cfields cls = []
     \<and> vtable cls = None \<and> cmethods cls = [m, m + 1, m + 2]
     \<and> methods (wld S') = (methods (wld S))(m \<mapsto> mp0, m + 1 \<mapsto> mp1, m + 2 \<mapsto> mp2)
     \<and> msig mp0 = ''@@constructor:Ivv'' \<and> method_of L ''@@constructor:Sv'' False [instr0 OP_VRET] mp1
     \<and> method_of L (f @ '':Sv'') True (method_code e) mp2
     \<and> store (wld S') = store (wld S) \<and> mallocs (wld S') = [] \<and> fresh (wld S) \<le> c \<and> fresh (wld S) \<le> m \<and> c < m
     \<and> m < fresh (wld S'))"

text \<open>The method that code is emitted for is switched to another one.\<close>

lemma emit_vret:
  assumes I: "i16_laws (i16 (clib C))" "stores_ok (i16 (clib C))" and p: "progs (pps s) (cprog C) = Some pp" "errornum pp = 0" "curclass pp \<noteq> None"
    and m: "methods (wld (pps s)) m = Some mp" "mpc mp = 0" "\<not> hasretval mp"
  shows "\<exists>t s' mp'. set_curmethod C (Some m) s = Some t \<and> emit0 C OP_VRET t = Some s' \<and> plex s' = plex s
    \<and> pps s' = set_method m mp' (set_prog (cprog C) (pp\<lparr>curmethod := Some m\<rparr>) (pps s)) \<and> msig mp' = msig mp
    \<and> (margs mp = [] \<longrightarrow> \<not> misnative mp \<longrightarrow> method_of (clib C) (msig mp) False [instr0 OP_VRET] mp')"
proof -
  let ?s = "s\<lparr>pps := set_prog (cprog C) (pp\<lparr>curmethod := Some m\<rparr>) (pps s)\<rparr>"
  have "set_curmethod C (Some m) s = Some ?s" using p by (simp add: set_curmethod_def on_prog_def pprog_def)
  moreover have "emitting C m ?s"
    using I p m by (auto simp: emitting_def building_def set_prog_def)
  from emit0_emitted [OF this, of OP_VRET] obtain s' where
    s': "emit0 C OP_VRET ?s = Some s'" "emitted C m ?s [instr0 OP_VRET] s'" "plex s' = plex ?s" by auto
  have "coded (i16 (clib C)) (code mp) 0 [] (mpc mp)" using m(2) by simp
  moreover have "methods (wld (pps ?s)) m = Some mp" using m(1) by (simp add: set_prog_def)
  ultimately obtain c where c: "pps s' = set_method m (mp\<lparr>code := c, mpc := 1\<rparr>) (pps ?s)"
    "coded (i16 (clib C)) c 0 [instr0 OP_VRET] 1"
    using s'(2) m(2,3) by (fastforce simp: emitted_def width_def dest: spec [of _ "[]"])
  let ?mp = "mp\<lparr>code := c, mpc := 1\<rparr>"
  have "margs mp = [] \<longrightarrow> \<not> misnative mp \<longrightarrow> method_of (clib C) (msig mp) False [instr0 OP_VRET] ?mp"
    using c(2) m(3) by (simp add: method_of_def)
  with \<open>set_curmethod C (Some m) s = Some ?s\<close> s' c(1) show ?thesis
    by (intro exI [of _ ?s] exI [of _ s'] exI [of _ ?mp]) simp
qed

text \<open>The body of a class makes its methods.\<close>

definition class_filled ::
  "('c, 'f) pcx \<Rightarrow> string \<Rightarrow> exp \<Rightarrow> program \<Rightarrow> nat \<Rightarrow> jsclass \<Rightarrow> ('c, 'f) pstate \<Rightarrow> ('c, 'f) pstate \<Rightarrow> bool" where
  "class_filled C f e pp c cls S S' \<longleftrightarrow> (\<exists>pp' mp0 mp1 mp2. let m = fresh (wld S) in
       progs S' = (progs S)(cprog C \<mapsto> pp') \<and> errornum pp' = 0 \<and> pclasses pp' = pclasses pp \<and> lclasses pp' = lclasses pp
     \<and> intrinsics pp' = intrinsics pp
     \<and> classes (wld S') = (classes (wld S))(c \<mapsto> cls\<lparr>cmethods := [m, m + 1, m + 2]\<rparr>)
     \<and> methods (wld S') = (methods (wld S))(m \<mapsto> mp0, m + 1 \<mapsto> mp1, m + 2 \<mapsto> mp2)
     \<and> msig mp0 = ''@@constructor:Ivv'' \<and> method_of (clib C) ''@@constructor:Sv'' False [instr0 OP_VRET] mp1
     \<and> method_of (clib C) (f @ '':Sv'') True (method_code e) mp2
     \<and> store (wld S') = store (wld S) \<and> mallocs (wld S') = [] \<and> fresh (wld S') = m + 3)"

lemma class_rest_compiles:
  assumes e: "exp_ok e" and f: "is_name f" and c: "in_class C pp c cls s" and cls: "cmethods cls = []" "vtable cls = None"
    and pp: "\<not> isdebuging pp"
    and r: "reads (plex s) ((T_LBRACE, []) # (T_PUBLIC, []) # (T_STATIC, []) # method_toks f e @ (T_RBRACE, []) # y # ts)"
  shows "\<exists>s'. class_rest (fuel e + 5 + n) C s = Some s' \<and> reads (plex s') (y # ts)
    \<and> class_filled C f e pp c cls (pps s) (pps s')"
proof -
  let ?r = "(T_PUBLIC, []) # (T_STATIC, []) # method_toks f e @ (T_RBRACE, []) # y # ts" and ?k = "''@@constructor''"
  let ?m = "fresh (wld (pps s))"
  have laws: "lib_laws (clib C)" "stores_ok (i16 (clib C))" "curclass pp = Some c" using c by (simp_all add: in_class_def)
  then have I: "i16_laws (i16 (clib C))" by (simp add: lib_laws_def)
  from define_starts [OF c, of ?k False ACC_PRIVATE] obtain s1 where
    s1: "define_method C ?k False ACC_PRIVATE s = Some (Some ?m, s1)" "plex s1 = plex s"
      "compiling C (new_site C ?k False ACC_PRIVATE c cls (pps s)) (pp\<lparr>curmethod := Some ?m\<rparr>) False [] s1" by blast
  from compiling_add_this [OF s1(3)] obtain s2 vd where
    s2: "add_arg C ''this'' False s1 = Some s2" "plex s2 = plex s1"
      "compiling C (with_this (new_site C ?k False ACC_PRIVATE c cls (pps s)) vd) (pp\<lparr>curmethod := Some ?m\<rparr>) False [] s2" by blast
  let ?cls1 = "cls\<lparr>cmethods := [?m]\<rparr>"
  have c2: "in_class C (pp\<lparr>curmethod := Some ?m\<rparr>) c ?cls1 s2"
    by (rule compiling_in_class [OF s2(3) laws(1)]) (use laws cls in simp_all)
  have f2: "fresh (wld (pps s2)) = ?m + 1" using s2(3) by (simp add: compiling_def)
  obtain d1 where M2: "methods (wld (pps s2)) = (methods (wld (pps s)))(?m \<mapsto>
      (sshape (with_this (new_site C ?k False ACC_PRIVATE c cls (pps s)) vd))\<lparr>code := d1, mpc := 0, hasretval := False\<rparr>)"
    using compiling_method [OF s2(3)] by auto
  from define_starts [OF c2, of ?k True ACC_PRIVATE] f2 obtain s3 where
    s3: "define_method C ?k True ACC_PRIVATE s2 = Some (Some (?m + 1), s3)" "plex s3 = plex s2"
      "compiling C (new_site C ?k True ACC_PRIVATE c ?cls1 (pps s2)) (pp\<lparr>curmethod := Some (?m + 1)\<rparr>) False [] s3" by auto
  let ?cls2 = "cls\<lparr>cmethods := [?m, ?m + 1]\<rparr>" and ?pp2 = "pp\<lparr>curmethod := Some (?m + 1)\<rparr>"
  have c3: "in_class C ?pp2 c ?cls2 s3"
    by (rule compiling_in_class [OF s3(3) laws(1)]) (use laws cls f2 in simp_all)
  have f3: "fresh (wld (pps s3)) = ?m + 2" using s3(3) f2 by (simp add: compiling_def)
  obtain d2 where M3: "methods (wld (pps s3)) = (methods (wld (pps s2)))(?m + 1 \<mapsto>
      (new_method (clib C) ?k True ACC_PRIVATE c)\<lparr>code := d2, mpc := 0, hasretval := False\<rparr>)"
    using compiling_method [OF s3(3)] f2 by auto
  have r3: "reads (plex s3) ((T_LBRACE, []) # ?r)" using r s1(2) s2(2) s3(2) by simp
  from reads_next [OF r3] obtain s4 where s4: "lexnext s3 = Some s4" "pps s4 = pps s3" "reads (plex s4) ?r" by blast
  from reads_next [OF s4(3)] obtain s5 where
    s5: "lexnext s4 = Some s5" "pps s5 = pps s3" "reads (plex s5) ((T_STATIC, []) # method_toks f e @ (T_RBRACE, []) # y # ts)"
    using s4(2) by auto
  from s5(3) have "reads (plex s5) ((T_STATIC, []) # (T_ID, f) # tl (method_toks f e) @ (T_RBRACE, []) # y # ts)"
    by (simp add: method_toks_def)
  from reads_next [OF this] obtain s6 where
    s6: "lexnext s5 = Some s6" "pps s6 = pps s3" "reads (plex s6) (method_toks f e @ (T_RBRACE, []) # y # ts)"
    using s5(2) by (auto simp: method_toks_def)
  have dbg: "\<not> isdebuging ?pp2" using pp by simp
  from method_compiles [OF e in_class_lex [OF c3 s6(2)] dbg s6(3), of n ACC_PUBLIC] s6(2) f3 obtain s7 where
    s7: "pmethod (fuel e + 4 + n) C ACC_PUBLIC True s6 = Some s7" "reads (plex s7) ((T_RBRACE, []) # y # ts)"
      "compiling C (new_site C f True ACC_PUBLIC c ?cls2 (pps s3)) (pp\<lparr>curmethod := Some (?m + 2), isrhs := False\<rparr>) True (method_code e) s7"
    by auto
  let ?pp3 = "pp\<lparr>curmethod := Some (?m + 2), isrhs := False\<rparr>" and ?cls3 = "cls\<lparr>cmethods := [?m, ?m + 1, ?m + 2]\<rparr>"
  have id: "at T_ID s6" "\<not> at T_CONST s6" "\<not> at T_VAR s6"
    using s6(3) reads_at [of s6 "(T_ID, f)"] by (simp_all add: method_toks_def)
  have st: "at T_STATIC s5" using reads_at [OF s5(3)] by simp
  have "member (fuel e + 4 + n) C ACC_PUBLIC s4 = Some (True, s7)"
    using s5(1) s6(1) s7(1) id st by (simp add: member_def)
  moreover have "pprog C s4 = Some ?pp2" "errornum ?pp2 = 0" using c3 s4(2) by (simp_all add: in_class_def pprog_def)
  moreover have "access_at s4 = Some ACC_PUBLIC" "\<not> at T_RBRACE s4" using reads_at [OF s4(3)] by (simp_all add: access_at_def)
  ultimately have 1: "members (fuel e + 5 + n) C s4 = members (fuel e + 4 + n) C s7" by (simp add: eval_nat_numeral)
  have "members (fuel e + 4 + n) C s7 = Some s7"
    using reads_at [OF s7(2)] compiling_pprog [OF s7(3)] by (simp add: eval_nat_numeral)
  with 1 s4(1) have body: "classbody (fuel e + 5 + n) C s3 = Some s7" by (simp add: classbody_def)
  from expect_reads [OF s7(2)] obtain s8 where
    s8: "expect C T_RBRACE YYER_EXPECTED_RBRACE g s7 = g s8" "pps s8 = pps s7" "reads (plex s8) (y # ts)" for g
    using reads_next [OF s7(2)] reads_at [OF s7(2)] by (fastforce simp: expect_def)
  obtain d3 where M7: "methods (wld (pps s7)) = (methods (wld (pps s3)))(?m + 2 \<mapsto>
      (new_method (clib C) f True ACC_PUBLIC c)\<lparr>code := d3, mpc := widths (method_code e), hasretval := True\<rparr>)"
    "coded (i16 (clib C)) d3 0 (method_code e) (widths (method_code e))"
    using compiling_method [OF s7(3)] f3 by auto
  let ?mp = "(new_method (clib C) f True ACC_PUBLIC c)\<lparr>code := d3, mpc := widths (method_code e), hasretval := True\<rparr>"
  let ?mp1 = "(sshape (with_this (new_site C ?k False ACC_PRIVATE c cls (pps s)) vd))\<lparr>code := d1, mpc := 0, hasretval := False\<rparr>"
  let ?mp2 = "(new_method (clib C) ?k True ACC_PRIVATE c)\<lparr>code := d2, mpc := 0, hasretval := False\<rparr>"
  have M8: "methods (wld (pps s8)) ?m = Some ?mp1" "methods (wld (pps s8)) (?m + 1) = Some ?mp2"
    "methods (wld (pps s8)) (?m + 2) = Some ?mp"
    using M2 M3 M7(1) s8(2) by simp_all
  have P8: "progs (pps s8) (cprog C) = Some ?pp3" "errornum ?pp3 = 0" "curclass ?pp3 \<noteq> None"
    "classes (wld (pps s8)) c = Some ?cls3"
    using s7(3) s8(2) f3 by (simp_all add: compiling_def)
  from emit_vret [OF I laws(2) P8(1-3) M8(1)] obtain t9 s9 mp1 where
    s9: "set_curmethod C (Some ?m) s8 = Some t9" "emit0 C OP_VRET t9 = Some s9" "plex s9 = plex s8"
      "pps s9 = set_method ?m mp1 (set_prog (cprog C) (?pp3\<lparr>curmethod := Some ?m\<rparr>) (pps s8))" "msig mp1 = msig ?mp1" by auto
  have P9: "progs (pps s9) (cprog C) = Some (?pp3\<lparr>curmethod := Some ?m\<rparr>)" "errornum (?pp3\<lparr>curmethod := Some ?m\<rparr>) = 0"
    "curclass (?pp3\<lparr>curmethod := Some ?m\<rparr>) \<noteq> None" "methods (wld (pps s9)) (?m + 1) = Some ?mp2"
    using s9(4) P8 M8 by (simp_all add: set_method_def set_prog_def)
  from emit_vret [OF I laws(2) P9] obtain t10 s10 mp2 where
    s10: "set_curmethod C (Some (?m + 1)) s9 = Some t10" "emit0 C OP_VRET t10 = Some s10" "plex s10 = plex s9"
      "pps s10 = set_method (?m + 1) mp2 (set_prog (cprog C) (?pp3\<lparr>curmethod := Some ?m, curmethod := Some (?m + 1)\<rparr>) (pps s9))"
      "method_of (clib C) (msig ?mp2) False [instr0 OP_VRET] mp2" by (auto simp: new_method_def)
  have "class_rest (fuel e + 5 + n) C s = Some s10"
    using s1(1) s2(1) s3(1) body s8(1) s9(1,2) s10(1,2) reads_at [OF r] if_no_error_compiling [OF s7(3)]
    by (simp add: class_rest_def)
  moreover have "reads (plex s10) (y # ts)" using s8(3) s9(3) s10(3) by simp
  moreover have "class_filled C f e pp c cls (pps s) (pps s10)"
  proof -
    have M: "methods (wld (pps s8)) = (methods (wld (pps s)))(?m \<mapsto> ?mp1, ?m + 1 \<mapsto> ?mp2, ?m + 2 \<mapsto> ?mp)"
      using M2 M3 M7(1) s8(2) by simp
    have S: "progs (pps s8) = (progs (pps s))(cprog C \<mapsto> ?pp3)" "classes (wld (pps s8)) = (classes (wld (pps s)))(c \<mapsto> ?cls3)"
      "store (wld (pps s8)) = store (wld (pps s))" "mallocs (wld (pps s8)) = []" "fresh (wld (pps s8)) = ?m + 3"
      using s2(3) s3(3) s7(3) s8(2) f2 f3 by (simp_all add: compiling_def)
    have "msig mp1 = ''@@constructor:Ivv''" "method_of (clib C) ''@@constructor:Sv'' False [instr0 OP_VRET] mp2"
      "method_of (clib C) (f @ '':Sv'') True (method_code e) ?mp"
      using s9(5) s10(5) M7(2) by (simp_all add: new_method_def method_of_def)
    moreover have "methods (wld (pps s10)) = (methods (wld (pps s)))(?m \<mapsto> mp1, ?m + 1 \<mapsto> mp2, ?m + 2 \<mapsto> ?mp)"
      using s9(4) s10(4) M by (simp add: set_method_def set_prog_def fun_upd_twist)
    moreover have "progs (pps s10) = (progs (pps s))(cprog C \<mapsto> ?pp3\<lparr>curmethod := Some (?m + 1)\<rparr>)"
      "classes (wld (pps s10)) = (classes (wld (pps s)))(c \<mapsto> ?cls3)"
      "store (wld (pps s10)) = store (wld (pps s))" "mallocs (wld (pps s10)) = []" "fresh (wld (pps s10)) = ?m + 3"
      using s9(4) s10(4) S by (simp_all add: set_method_def set_prog_def)
    ultimately show ?thesis
      unfolding class_filled_def Let_def using P8(2)
      by (intro exI [of _ "?pp3\<lparr>curmethod := Some (?m + 1)\<rparr>"] exI [of _ mp1] exI [of _ mp2] exI [of _ ?mp]) simp
  qed
  ultimately show ?thesis by blast
qed

text \<open>A table that takes every key.\<close>

definition tables_ok :: "'c lib \<Rightarrow> bool" where
  "tables_ok L \<longleftrightarrow> (\<forall>m k v. ht_add L m k v \<noteq> None)"

lemma program_class_defined:
  assumes "lib_laws L" "tables_ok L" "mallocs (wld s) = []" "progs s p = Some pp"
  shows "\<exists>s' pp' cls. let c = fresh (wld s) in programDefineClass E L p A b None s = Some (Some c, s')
    \<and> progs s' = (progs s)(p \<mapsto> pp') \<and> curclass pp' = Some c \<and> lclasses pp' = lclasses pp @ [c]
    \<and> pclasses pp' = (pclasses pp)(A \<mapsto> c) \<and> intrinsics pp' = intrinsics pp \<and> isdebuging pp' = isdebuging pp \<and> errornum pp' = errornum pp
    \<and> classes (wld s') = (classes (wld s))(c \<mapsto> cls) \<and> methods (wld s') = methods (wld s)
    \<and> store (wld s') = store (wld s) \<and> mallocs (wld s') = [] \<and> fresh (wld s') = c + 1
    \<and> cname cls = A \<and> basename cls = b \<and> baseclass cls = None \<and> cfields cls = [] \<and> cmethods cls = [] \<and> vtable cls = None"
proof -
  from assms(2) obtain t where "ht_add L (pclasses pp) A (fresh (wld s)) = Some t" unfolding tables_ok_def by blast
  with assms(1) have t: "ht_add L (pclasses pp) A (fresh (wld s)) = Some ((pclasses pp)(A \<mapsto> fresh (wld s)))"
    unfolding lib_laws_def by metis
  let ?c = "fresh (wld s)" and ?w = "wld s"
  let ?cls = "\<lparr>cname = A, basename = b, baseclass = None, cmethods = [], cfields = [], staticlocations = [],
     instancelocations = [], vtable = None, constdata = None, privateclassdata = None\<rparr>"
  let ?pp = "pp\<lparr>pclasses := (pclasses pp)(A \<mapsto> ?c), lclasses := lclasses pp @ [?c], curclass := Some ?c\<rparr>"
  let ?w' = "?w\<lparr>live := live ?w + 1 + 1 + 1 + 1 + 1 + 1 + 1, fresh := ?c + 1, classes := (classes ?w)(?c \<mapsto> ?cls)\<rparr>"
  let ?s = "set_prog p ?pp (s\<lparr>wld := ?w'\<rparr>)"
  have "jsclassConstruct A b None ?w = (Some ?c, ?w')"
    using assms(3) by (simp add: jsclassConstruct_def no_failure new_address_def Let_def)
  then have "programDefineClass E L p A b None s = Some (Some ?c, ?s)"
    using assms(3,4) t by (simp add: programDefineClass_def no_failure)
  then show ?thesis unfolding Let_def using assms(3)
    by (intro exI [of _ ?s] exI [of _ ?pp] exI [of _ ?cls]) (simp add: set_prog_def)
qed

lemma class_defined:
  assumes "lib_laws (clib C)" "stores_ok (i16 (clib C))" "tables_ok (clib C)" "mallocs (wld (pps s)) = []"
    "progs (pps s) (cprog C) = Some pp" "errornum pp = 0"
  shows "\<exists>s' pp' cls. let c = fresh (wld (pps s)) in define_class C A b s = Some s' \<and> plex s' = plex s \<and> in_class C pp' c cls s'
    \<and> progs (pps s') = (progs (pps s))(cprog C \<mapsto> pp') \<and> classes (wld (pps s')) = (classes (wld (pps s)))(c \<mapsto> cls)
    \<and> methods (wld (pps s')) = methods (wld (pps s)) \<and> store (wld (pps s')) = store (wld (pps s)) \<and> fresh (wld (pps s')) = c + 1
    \<and> cname cls = A \<and> basename cls = b \<and> cfields cls = [] \<and> cmethods cls = [] \<and> vtable cls = None
    \<and> isdebuging pp' = isdebuging pp \<and> pclasses pp' = (pclasses pp)(A \<mapsto> c) \<and> lclasses pp' = lclasses pp @ [c]
    \<and> intrinsics pp' = intrinsics pp"
proof -
  from program_class_defined [OF assms(1,3,4,5), of "cext C" A b] obtain ps pp' cls where
    "programDefineClass (cext C) (clib C) (cprog C) A b None (pps s) = Some (Some (fresh (wld (pps s))), ps)"
    "progs ps = (progs (pps s))(cprog C \<mapsto> pp')" "curclass pp' = Some (fresh (wld (pps s)))"
    "lclasses pp' = lclasses pp @ [fresh (wld (pps s))]"
    "pclasses pp' = (pclasses pp)(A \<mapsto> fresh (wld (pps s)))" "intrinsics pp' = intrinsics pp" "isdebuging pp' = isdebuging pp"
    "errornum pp' = errornum pp"
    "classes (wld ps) = (classes (wld (pps s)))(fresh (wld (pps s)) \<mapsto> cls)" "methods (wld ps) = methods (wld (pps s))"
    "store (wld ps) = store (wld (pps s))" "mallocs (wld ps) = []" "fresh (wld ps) = fresh (wld (pps s)) + 1"
    "cname cls = A" "basename cls = b" "baseclass cls = None" "cfields cls = []" "cmethods cls = []" "vtable cls = None"
    unfolding Let_def by blast
  then show ?thesis unfolding Let_def using assms(1,2,6)
    by (intro exI [of _ "s\<lparr>pps := ps\<rparr>"] exI [of _ pp'] exI [of _ cls]) (simp add: define_class_def onps_def in_class_def)
qed

definition class_toks :: "string \<Rightarrow> string \<Rightarrow> exp \<Rightarrow> (token \<times> string) list" where
  "class_toks A f e = (T_CLASS, []) # (T_ID, A) # (T_LBRACE, []) # (T_PUBLIC, []) # (T_STATIC, []) # method_toks f e
     @ [(T_RBRACE, [])]"

lemma class_decl_compiles:
  assumes e: "exp_ok e" and f: "is_name f"
    and L: "lib_laws (clib C)" "stores_ok (i16 (clib C))" "tables_ok (clib C)" "mallocs (wld (pps s)) = []"
    and pp: "progs (pps s) (cprog C) = Some pp" "errornum pp = 0" "\<not> isdebuging pp" "pclasses pp = Map.empty" "lclasses pp = []"
      "intrinsics pp = None"
    and r: "reads (plex s) (class_toks A f e @ y # ts)"
  shows "\<exists>s' c. class_decl (fuel e + 5 + n) C s = Some s' \<and> reads (plex s') (y # ts)
    \<and> compiled (clib C) A f e (cprog C) c (pps s) (pps s')"
proof -
  let ?r = "(T_LBRACE, []) # (T_PUBLIC, []) # (T_STATIC, []) # method_toks f e @ (T_RBRACE, []) # y # ts"
  have r: "reads (plex s) ((T_CLASS, []) # (T_ID, A) # ?r)" using r by (simp add: class_toks_def)
  from reads_next [OF r] obtain s1 where s1: "lexnext s = Some s1" "pps s1 = pps s" "reads (plex s1) ((T_ID, A) # ?r)" by blast
  let ?s2 = "s1\<lparr>pps := (pps s1)\<lparr>wld := (wld (pps s1))\<lparr>live := live (wld (pps s1)) + 1\<rparr>\<rparr>\<rparr>"
  have t: "pworld take_block s1 = (True, ?s2)" using L(4) s1(2) by (simp add: pworld_def no_failure)
  have "reads (plex ?s2) ((T_ID, A) # ?r)" using s1(3) by simp
  from reads_next [OF this] obtain s3 where s3: "lexnext ?s2 = Some s3" "pps s3 = pps ?s2" "reads (plex s3) ?r" by blast
  let ?c = "fresh (wld (pps s3))"
  have p3: "mallocs (wld (pps s3)) = []" "progs (pps s3) (cprog C) = Some pp" using s3(2) s1(2) L(4) pp(1) by simp_all
  from class_defined [OF L(1-3) p3 pp(2), of A "''Object''"] obtain s4 pp' cls where
    s4: "define_class C A ''Object'' s3 = Some s4" "plex s4 = plex s3" "in_class C pp' ?c cls s4"
      "progs (pps s4) = (progs (pps s3))(cprog C \<mapsto> pp')" "classes (wld (pps s4)) = (classes (wld (pps s3)))(?c \<mapsto> cls)"
      "methods (wld (pps s4)) = methods (wld (pps s3))" "store (wld (pps s4)) = store (wld (pps s3))"
      "fresh (wld (pps s4)) = ?c + 1"
    and cls: "cname cls = A" "basename cls = ''Object''" "cfields cls = []" "cmethods cls = []" "vtable cls = None"
    and pp': "isdebuging pp' = isdebuging pp" "pclasses pp' = (pclasses pp)(A \<mapsto> ?c)" "lclasses pp' = lclasses pp @ [?c]"
      "intrinsics pp' = intrinsics pp"
    unfolding Let_def by blast
  let ?s5 = "pfree 1 s4"
  have c5: "in_class C pp' ?c cls ?s5" using s4(3) by (simp add: in_class_def pfree_def pworld_def free_blocks_def)
  have p5: "reads (plex ?s5) ?r" using s3(3) s4(2) by (simp add: pfree_def pworld_def)
  have "\<not> isdebuging pp'" using pp'(1) pp(3) by simp
  from class_rest_compiles [OF e f c5 cls(4,5) this p5, of n] obtain s6 where
    s6: "class_rest (fuel e + 5 + n) C ?s5 = Some s6" "reads (plex s6) (y # ts)" "class_filled C f e pp' ?c cls (pps ?s5) (pps s6)" by blast
  have "class_head C A s3 = Some (True, ?s5)" using s4(1) reads_at [OF s3(3)] by (simp add: class_head_def)
  then have "class_decl (fuel e + 5 + n) C s = Some s6"
    using s1(1) t s3(1) s6(1) reads_at [OF s1(3)] reads_name [OF s1(3)] by (simp add: class_decl_def)
  moreover have "compiled (clib C) A f e (cprog C) ?c (pps s) (pps s6)"
  proof -
    let ?m = "?c + 1"
    have eqs: "progs (pps ?s5) = (progs (pps s))(cprog C \<mapsto> pp')" "classes (wld (pps ?s5)) = (classes (wld (pps s)))(?c \<mapsto> cls)"
      "methods (wld (pps ?s5)) = methods (wld (pps s))" "store (wld (pps ?s5)) = store (wld (pps s))" "fresh (wld (pps ?s5)) = ?m"
      "?c = fresh (wld (pps s))"
      using s4(4-8) s3(2) s1(2) by (simp_all add: pfree_def pworld_def free_blocks_def)
    from s6(3) obtain pp2 mp0 mp1 mp2 where
      "progs (pps s6) = (progs (pps ?s5))(cprog C \<mapsto> pp2)" "errornum pp2 = 0" "pclasses pp2 = pclasses pp'" "lclasses pp2 = lclasses pp'"
      "intrinsics pp2 = intrinsics pp'"
      "classes (wld (pps s6)) = (classes (wld (pps ?s5)))(?c \<mapsto> cls\<lparr>cmethods := [?m, ?m + 1, ?m + 2]\<rparr>)"
      "methods (wld (pps s6)) = (methods (wld (pps ?s5)))(?m \<mapsto> mp0, ?m + 1 \<mapsto> mp1, ?m + 2 \<mapsto> mp2)"
      "msig mp0 = ''@@constructor:Ivv''" "method_of (clib C) ''@@constructor:Sv'' False [instr0 OP_VRET] mp1"
      "method_of (clib C) (f @ '':Sv'') True (method_code e) mp2"
      "store (wld (pps s6)) = store (wld (pps ?s5))" "mallocs (wld (pps s6)) = []" "fresh (wld (pps s6)) = ?m + 3"
      unfolding class_filled_def Let_def eqs(5) by blast
    then show ?thesis
      unfolding compiled_def using eqs cls pp' pp(4-6)
      by (intro exI [of _ pp2] exI [of _ "cls\<lparr>cmethods := [?m, ?m + 1, ?m + 2]\<rparr>"] exI [of _ ?m] exI [of _ mp0] exI [of _ mp1]
          exI [of _ mp2]) simp
  qed
  ultimately show ?thesis using s6(2) by blast
qed

lemma parse_compiles:
  assumes e: "exp_ok e" and f: "is_name f"
    and L: "lib_laws L" "stores_ok (i16 L)" "tables_ok L" "mallocs (wld S) = []"
    and r: "reads (snd (jsppLex lexp)) (class_toks A f e @ [(T_JEOF, [])])" "\<not> overrun (snd (jsppLex lexp))"
  shows "\<exists>p c S'. parse (fuel e + 7 + n) L X depth note lexp None S = Some (Some p, S') \<and> compiled L A f e p c S S' \<and> p = fresh (wld S)"
proof -
  let ?p = "fresh (wld S)"
  let ?C = "\<lparr>clib = L, cext = X, cprog = ?p, cdepth = depth, note_add = note\<rparr>"
  obtain S1 pp where S1: "programConstruct S = (Some ?p, S1)" "mallocs (wld S1) = []" "progs S1 = (progs S)(?p \<mapsto> pp)"
    "errornum pp = 0" "\<not> isdebuging pp" "pclasses pp = Map.empty" "lclasses pp = []" "intrinsics pp = None"
    "classes (wld S1) = classes (wld S)" "methods (wld S1) = methods (wld S)" "store (wld S1) = store (wld S)"
    "fresh (wld S1) = ?p + 1"
    using L(4) by (auto simp: programConstruct_def no_failure new_address_def set_prog_def Let_def)
  let ?s = "\<lparr>plex = snd (jsppLex lexp), pps = S1\<rparr>"
  have l: "lexnext \<lparr>plex = lexp, pps = S1\<rparr> = Some ?s" using r(2) by (simp add: lexnext_def Let_def)
  have r1: "reads (plex ?s) (class_toks A f e @ (T_JEOF, []) # [])" using r(1) by simp
  from class_decl_compiles [OF e f _ _ _ _ _ S1(4-8) r1, of ?C "n + 1"] L S1(2,3) obtain s' c where
    s': "class_decl (fuel e + 6 + n) ?C ?s = Some s'" "reads (plex s') [(T_JEOF, [])]" "compiled L A f e ?p c S1 (pps s')"
    by (auto simp: eval_nat_numeral)
  have "at T_CLASS ?s" "\<not> at T_JEOF ?s" "\<not> at T_LEXERROR ?s"
    using r1 reads_at [of ?s "(T_CLASS, [])"] by (simp_all add: class_toks_def)
  moreover have "at T_JEOF s'" using reads_at [OF s'(2)] by simp
  moreover obtain pp' where "progs (pps s') ?p = Some pp'" using s'(3) by (auto simp: compiled_def)
  ultimately have "pfile (fuel e + 7 + n) ?C \<lparr>plex = lexp, pps = S1\<rparr> = Some s'"
    using s'(1) l S1(3,4) by (simp add: pfile_def eval_nat_numeral pdeclaration_def pprog_def)
  moreover have "compiled L A f e ?p c S (pps s')" using s'(3) S1(3,9-12) unfolding compiled_def by fastforce
  ultimately show ?thesis using S1(1) by (auto simp: parse_def)
qed

subsection \<open>Source text\<close>

text \<open>The class can be printed: its names are names, its literals are decimal.\<close>

definition source_ok :: "string \<Rightarrow> string \<Rightarrow> exp \<Rightarrow> bool" where
  "source_ok A f e \<longleftrightarrow> exp_ok e \<and> list_all token_ok (toks 0 e) \<and> is_name A \<and> keyword A = T_ID \<and> is_name f \<and> keyword f = T_ID"

definition source :: "string \<Rightarrow> string \<Rightarrow> exp \<Rightarrow> string" where
  "source A f e = print (class_toks A f e)"

lemma class_toks_ok: "source_ok A f e \<Longrightarrow> list_all token_ok (class_toks A f e)"
  by (simp add: source_ok_def class_toks_def method_toks_def token_ok_def keyword_table_def Lexer_Spec.operators_def)

lemma source_compiles:
  assumes "source_ok A f e" "lib_laws L" "stores_ok (i16 L)" "tables_ok L" "mallocs (wld S) = []"
  shows "\<exists>p c S'. parseChar (fuel e + 7 + n) L X depth note True True (source A f e) None S = Some (Some p, S')
    \<and> compiled L A f e p c S S' \<and> p = fresh (wld S)"
proof -
  have e: "exp_ok e" "is_name f" using assms(1) by (simp_all add: source_ok_def)
  have "class_toks A f e \<noteq> []" by (simp add: class_toks_def)
  from reads_print [OF class_toks_ok [OF assms(1)] this blank_then_init]
  have "reads (snd (jsppLex (lex_init (source A f e) 0))) (class_toks A f e @ [(T_JEOF, [])])"
    "\<not> overrun (snd (jsppLex (lex_init (source A f e) 0)))" unfolding source_def by blast+
  from parse_compiles [OF e assms(2-5) this, of n X depth "note"]
  show ?thesis by (simp add: parseChar_def jspplexConstructChar_def)
qed

end
