(* ===== verification/Embed.thy ===== *)
theory Embed
  imports Interp
begin

section \<open>The life of an interpreter, jspp/src/interp.c\<close>

text \<open>
  An interpreter is constructed with a program of intrinsic classes, takes further programs, runs
  their static methods and is destroyed. There is one at a time: its own variants (\<open>tempdata1\<close>,
  \<open>null\<close>) are at fixed addresses of the store. The intrinsic classes are tables of what the code
  defines one call after the other; the native functions are numbers, whose meaning is
  \<open>call_native\<close> of the environment. The blocks that a string or instance in a variant owns are
  not counted in \<open>live\<close>.

  A step is None where the C code follows a null pointer or frees twice.
\<close>

subsection \<open>Running a static method\<close>

text \<open>
  The signature is built in strings that a failing append leaves behind. The result is copied
  from the top of the stack to a new variant; with a result on the stack a null \<open>varret\<close> is
  written through.
\<close>

definition take_top :: "('c, 'f) env \<Rightarrow> ('c, 'f) qinterp \<Rightarrow> (loc option \<times> ('c, 'f) qinterp) option" where
  "take_top E q = do {
     top \<leftarrow> stackPeek0 q;
     let (ok, q) = onworld take_block q;
     let (a, q) = (if ok then let (a, q) = onworld new_address q in (Some (Var a), q) else (None, q));
     (r, q) \<leftarrow> onmem (varConstructDup (ex E) a top) q;
     let q = (if ok \<and> r = None then qfree 1 q else q);
     q \<leftarrow> domem (varClear (ex E) top) q;
     Some (r, drop_top q) }"

definition qinterpRun ::
  "('c, 'f) env \<Rightarrow> ('c, 'f) run \<Rightarrow> string \<Rightarrow> string \<Rightarrow> nat \<Rightarrow> bool \<Rightarrow> ('c, 'f) qinterp
     \<Rightarrow> (InterpErrors \<times> loc option \<times> ('c, 'f) qinterp) option" where
  "qinterpRun E run startcls mainmethod argcount varret q =
     (let (ok, q) = onworld take_block q in if \<not> ok then Some (IERR_OUT_OF_MEM, None, q) else
      let (ok, q) = onworld take_block q in if \<not> ok then Some (IERR_OUT_OF_MEM, None, qfree 1 q) else
      let (ok, q) = onworld grow q in if \<not> ok then Some (IERR_OUT_OF_MEM, None, qfree 1 q) else
      let (sig, q) = onworld (buildMethodSig (lb E) mainmethod True) q
      in case sig of None \<Rightarrow> Some (IERR_OUT_OF_MEM, None, qfree 1 q) | Some sig \<Rightarrow>
      let (sig, q) = ((\<lambda>(sig, q). onworld (methodSigAppendArg sig) q) ^^ argcount) (sig, q);
          (ok, q) = onworld grow q
      in if \<not> ok then Some (IERR_OUT_OF_MEM, None, qfree 2 q)
      else do {
        (err, q) \<leftarrow> callStaticMethod E run (startcls @ ''.'' @ sig) (qfree 1 q);
        let q = qfree 2 q;
        if nstack q = 0 then Some (err, None, q)
        else if \<not> varret then None
        else do { (r, q) \<leftarrow> take_top E q; Some (err, r, q) } })"

subsection \<open>Programs\<close>

text \<open>A class with a base gets it, from its program or the interpreter, and its virtual table.\<close>

definition set_base :: "nat \<Rightarrow> nat option \<Rightarrow> ('c, 'f) qinterp \<Rightarrow> ('c, 'f) qinterp option" where
  "set_base c b q = map_option (\<lambda>jsp. set_world (set_class c (jsp\<lparr>baseclass := b\<rparr>) (qworld q)) q) (classes (qworld q) c)"

definition link_base :: "('c, 'f) env \<Rightarrow> nat \<Rightarrow> nat \<Rightarrow> string \<Rightarrow> ('c, 'f) qinterp \<Rightarrow> (bool \<times> ('c, 'f) qinterp) option" where
  "link_base E p c base q = do {
     (b, s) \<leftarrow> programFindClass (cstack (ex E)) base p (ps q);
     q \<leftarrow> set_base c b (q\<lparr>ps := s\<rparr>);
     q \<leftarrow> (if b = None then set_base c (qinterpFindClass q base) q else Some q);
     if b = None \<and> qinterpFindClass q base = None then Some (False, q)
     else do {
       (ok, w) \<leftarrow> jsclassInitVtab (cstack (ex E)) (lb E) c (qworld q);
       Some (ok, set_world w q) } }"

fun prepare_classes ::
  "('c, 'f) env \<Rightarrow> ('c, 'f) run \<Rightarrow> nat \<Rightarrow> nat list \<Rightarrow> ('c, 'f) qinterp \<Rightarrow> (bool \<times> ('c, 'f) qinterp) option" where
  "prepare_classes E run p [] q = Some (True, q)"
| "prepare_classes E run p (c # cs) q = do {
     jsp \<leftarrow> classes (qworld q) c;
     (case ht_add (lb E) (qclasses q) (cname jsp) c of
        None \<Rightarrow> Some (False, q)
      | Some t \<Rightarrow> do {
          let q = q\<lparr>qclasses := t\<rparr>;
          (ok, q) \<leftarrow> (if basename jsp \<noteq> [] then link_base E p c (basename jsp) q else Some (True, q));
          if \<not> ok then Some (False, q)
          else do {
            jsp \<leftarrow> classes (qworld q) c;
            let q = set_world (set_class c (jsp\<lparr>constdata := Some p\<rparr>) (qworld q)) q;
            (err, _, q) \<leftarrow> qinterpRun E run (cname jsp) ''@@constructor'' 0 False q;
            if err \<noteq> IERR_NONE then Some (False, q) else prepare_classes E run p cs q } }) }"

definition qinterpPrepare ::
  "('c, 'f) env \<Rightarrow> ('c, 'f) run \<Rightarrow> nat \<Rightarrow> ('c, 'f) qinterp \<Rightarrow> (bool \<times> ('c, 'f) qinterp) option" where
  "qinterpPrepare E run p q = do {
     pp \<leftarrow> progs (ps q) p;
     (ok, q) \<leftarrow> prepare_classes E run p (lclasses pp) q;
     if \<not> ok then Some (False, q)
     else (let (ok, q) = onworld grow q in Some (ok, if ok then q\<lparr>programs := programs q @ [p]\<rparr> else q)) }"

fun forget_classes :: "nat list \<Rightarrow> ('c, 'f) qinterp \<Rightarrow> ('c, 'f) qinterp option" where
  "forget_classes [] q = Some q"
| "forget_classes (c # cs) q = do {
     jsp \<leftarrow> classes (qworld q) c;
     forget_classes cs (q\<lparr>qclasses := (qclasses q)(cname jsp := None)\<rparr>) }"

definition qinterpRemoveProgram :: "nat \<Rightarrow> ('c, 'f) qinterp \<Rightarrow> ('c, 'f) qinterp option" where
  "qinterpRemoveProgram p q = do {
     let q = q\<lparr>programs := remove1 p (programs q)\<rparr>;
     pp \<leftarrow> progs (ps q) p;
     forget_classes (lclasses pp) q }"

definition qinterpGetIntrinsics :: "('c, 'f) qinterp \<Rightarrow> nat option" where
  "qinterpGetIntrinsics q = (case programs q of [] \<Rightarrow> None | p # _ \<Rightarrow> Some p)"

subsection \<open>Classes from tables\<close>

text \<open>
  What defines one method of a class: an internal constructor, or a native method with the number
  of its function, the names of the arguments, and whether it is static and has a result.
\<close>

datatype mdef = Ctor bool "string list" | Native nat string bool bool "string list"

definition add_args :: "nat option \<Rightarrow> string list \<Rightarrow> ('c, 'f) pstate \<Rightarrow> ('c, 'f) pstate option" where
  "add_args mp = foldM (\<lambda>name s. do {
     m \<leftarrow> mp;
     (_, w) \<leftarrow> jsmethodAddArg m name False (wld s);
     Some (s\<lparr>wld := w\<rparr>) })"

fun define_one :: "'c lib \<Rightarrow> nat \<Rightarrow> mdef \<Rightarrow> ('c, 'f) pstate \<Rightarrow> ('c, 'f) pstate option" where
  "define_one L p (Ctor isstatic args) s = do {
     (mp, s) \<leftarrow> programDefineMethod L p ''@@constructor'' isstatic ACC_PRIVATE s;
     add_args mp args s }"
| "define_one L p (Native meth name isstatic hasret args) s = do {
     (mp, s) \<leftarrow> programDefineNativeMethod L p meth name isstatic ACC_PUBLIC hasret s;
     add_args mp args s }"

fun define_all ::
  "'f ext \<Rightarrow> 'c lib \<Rightarrow> nat \<Rightarrow> (string \<times> mdef list) list \<Rightarrow> ('c, 'f) pstate \<Rightarrow> (bool \<times> ('c, 'f) pstate) option" where
  "define_all E L p [] s = Some (True, s)"
| "define_all E L p ((name, ms) # cs) s = do {
     (c, s) \<leftarrow> programDefineClass E L p name [] None s;
     if c = None then do { s \<leftarrow> programDestruct E p s; Some (False, s) }
     else do { s \<leftarrow> foldM (define_one L p) ms s; define_all E L p cs s } }"

subsection \<open>The intrinsic classes\<close>

text \<open>The native functions.\<close>

abbreviation (input) fn_object_parseInt :: nat where "fn_object_parseInt \<equiv> 0"
abbreviation (input) fn_object_parseFloat :: nat where "fn_object_parseFloat \<equiv> 1"
abbreviation (input) fn_object_toString :: nat where "fn_object_toString \<equiv> 2"
abbreviation (input) fn_object_toStringI :: nat where "fn_object_toStringI \<equiv> 3"
abbreviation (input) fn_object_typename :: nat where "fn_object_typename \<equiv> 4"
abbreviation (input) fn_object_length :: nat where "fn_object_length \<equiv> 5"
abbreviation (input) fn_array_arrayX :: nat where "fn_array_arrayX \<equiv> 6"
abbreviation (input) fn_array_length :: nat where "fn_array_length \<equiv> 7"
abbreviation (input) fn_array_dims :: nat where "fn_array_dims \<equiv> 8"
abbreviation (input) fn_array_itemX :: nat where "fn_array_itemX \<equiv> 9"
abbreviation (input) fn_vector_vector :: nat where "fn_vector_vector \<equiv> 10"
abbreviation (input) fn_vector_add :: nat where "fn_vector_add \<equiv> 11"
abbreviation (input) fn_vector_size :: nat where "fn_vector_size \<equiv> 12"
abbreviation (input) fn_vector_elementat :: nat where "fn_vector_elementat \<equiv> 13"
abbreviation (input) fn_vector_setelementat :: nat where "fn_vector_setelementat \<equiv> 14"
abbreviation (input) fn_vector_clear :: nat where "fn_vector_clear \<equiv> 15"
abbreviation (input) fn_console_writeln :: nat where "fn_console_writeln \<equiv> 16"
abbreviation (input) fn_console_write :: nat where "fn_console_write \<equiv> 17"
abbreviation (input) fn_console_readln :: nat where "fn_console_readln \<equiv> 18"
abbreviation (input) fn_stringbuffer_stringbuffer :: nat where "fn_stringbuffer_stringbuffer \<equiv> 19"
abbreviation (input) fn_stringbuffer_append :: nat where "fn_stringbuffer_append \<equiv> 20"
abbreviation (input) fn_stringbuffer_tostring :: nat where "fn_stringbuffer_tostring \<equiv> 21"
abbreviation (input) fn_datetime_datetime :: nat where "fn_datetime_datetime \<equiv> 22"
abbreviation (input) fn_datetime_diffms :: nat where "fn_datetime_diffms \<equiv> 23"
abbreviation (input) fn_datetime_now :: nat where "fn_datetime_now \<equiv> 24"
abbreviation (input) fn_datetime_tomilliseconds :: nat where "fn_datetime_tomilliseconds \<equiv> 25"
abbreviation (input) fn_math_rand :: nat where "fn_math_rand \<equiv> 26"
abbreviation (input) fn_math_exp :: nat where "fn_math_exp \<equiv> 27"
abbreviation (input) fn_hashtable_hashtable :: nat where "fn_hashtable_hashtable \<equiv> 28"
abbreviation (input) fn_hashtable_put :: nat where "fn_hashtable_put \<equiv> 29"
abbreviation (input) fn_hashtable_get :: nat where "fn_hashtable_get \<equiv> 30"
abbreviation (input) fn_hashtable_clear :: nat where "fn_hashtable_clear \<equiv> 31"
abbreviation (input) fn_socket_socket :: nat where "fn_socket_socket \<equiv> 32"
abbreviation (input) fn_socket_accept :: nat where "fn_socket_accept \<equiv> 33"
abbreviation (input) fn_socket_connect :: nat where "fn_socket_connect \<equiv> 34"
abbreviation (input) fn_socket_bind :: nat where "fn_socket_bind \<equiv> 35"
abbreviation (input) fn_socket_listen :: nat where "fn_socket_listen \<equiv> 36"
abbreviation (input) fn_socket_settimeout :: nat where "fn_socket_settimeout \<equiv> 37"
abbreviation (input) fn_socket_setlingeron :: nat where "fn_socket_setlingeron \<equiv> 38"
abbreviation (input) fn_socket_setnodelay :: nat where "fn_socket_setnodelay \<equiv> 39"
abbreviation (input) fn_socket_send :: nat where "fn_socket_send \<equiv> 40"
abbreviation (input) fn_socket_recv :: nat where "fn_socket_recv \<equiv> 41"
abbreviation (input) fn_socket_flush :: nat where "fn_socket_flush \<equiv> 42"
abbreviation (input) fn_socket_error :: nat where "fn_socket_error \<equiv> 43"
abbreviation (input) fn_socket_setblocking :: nat where "fn_socket_setblocking \<equiv> 44"
abbreviation (input) fn_socket_close :: nat where "fn_socket_close \<equiv> 45"
abbreviation (input) fn_des_encrypt :: nat where "fn_des_encrypt \<equiv> 46"
abbreviation (input) fn_des_decrypt :: nat where "fn_des_decrypt \<equiv> 47"
abbreviation (input) fn_httprequest_httprequest :: nat where "fn_httprequest_httprequest \<equiv> 48"
abbreviation (input) fn_httprequest_get :: nat where "fn_httprequest_get \<equiv> 49"

definition object_methods :: "mdef list" where
  "object_methods = [
     Ctor True [],
     Ctor False [''this''],
     Native fn_object_parseInt ''parseInt'' True True [''val''],
     Native fn_object_parseFloat ''parseFloat'' True True [''val''],
     Native fn_object_toString ''toString'' True True [''val''],
     Native fn_object_toStringI ''toString'' False True [''this''],
     Native fn_object_typename ''typename'' True True [''typ''],
     Native fn_object_length ''length'' True True [''obj'']]"

text \<open>The arguments \<open>this\<close> and \<open>index0\<close>, \<open>index1\<close>, up to k of them.\<close>

definition indexed :: "nat \<Rightarrow> string list" where
  "indexed k = ''this'' # map (\<lambda>i. ''index'' @ [char_of (48 + i)]) [0..<k]"

definition array_constructors :: "mdef list" where
  "array_constructors = [
     Ctor True [],
     Ctor False [''this''],
     Native fn_array_arrayX ''Array'' False False [''this'', ''len''],
     Native fn_array_arrayX ''Array'' False False [''this'', ''dim1'', ''dim2''],
     Native fn_array_arrayX ''Array'' False False [''this'', ''dim0'', ''dim1'', ''dim2''],
     Native fn_array_arrayX ''Array'' False False [''this'', ''dim0'', ''dim1'', ''dim2'', ''dim3'']]
     @ map (\<lambda>k. Native fn_array_arrayX ''Array'' False False (indexed k)) [5..<11]"

definition array_accessors :: "mdef list" where
  "array_accessors = [
     Native fn_array_length ''length'' False True [''this'', ''index''],
     Native fn_array_length ''length'' False True [''this''],
     Native fn_array_dims ''dims'' False True [''this'']]
     @ map (\<lambda>k. Native fn_array_itemX ''[]'' False True (indexed k)) [1..<11]"

definition vector_methods :: "mdef list" where
  "vector_methods = [
     Ctor True [],
     Ctor False [''this''],
     Native fn_vector_vector ''Vector'' False False [''this''],
     Native fn_vector_add ''add'' False False [''this'', ''item''],
     Native fn_vector_size ''size'' False True [''this''],
     Native fn_vector_size ''length'' False True [''this''],
     Native fn_vector_elementat ''elementAt'' False True [''this'', ''idx''],
     Native fn_vector_elementat ''[]'' False True [''this'', ''idx''],
     Native fn_vector_setelementat ''setElementAt'' False False [''this'', ''idx'', ''item''],
     Native fn_vector_clear ''clear'' False False [''this'']]"

definition console_methods :: "mdef list" where
  "console_methods = [
     Ctor True [],
     Native fn_console_writeln ''writeln'' True False [''arg''],
     Native fn_console_write ''write'' True False [''arg''],
     Native fn_console_readln ''readln'' True True []]"

definition stringbuffer_methods :: "mdef list" where
  "stringbuffer_methods = [
     Ctor True [],
     Ctor False [''this''],
     Native fn_stringbuffer_stringbuffer ''StringBuffer'' False False [''this''],
     Native fn_stringbuffer_stringbuffer ''StringBuffer'' False False [''this'', ''size''],
     Native fn_stringbuffer_append ''append'' False False [''this'', ''arg''],
     Native fn_stringbuffer_tostring ''toString'' False True [''this'']]"

definition datetime_methods :: "mdef list" where
  "datetime_methods = [
     Ctor True [],
     Ctor False [''this''],
     Native fn_datetime_datetime ''DateTime'' False False [''this''],
     Native fn_datetime_diffms ''diffms'' False True [''this'', ''dtm''],
     Native fn_datetime_now ''now'' True True [],
     Native fn_datetime_tomilliseconds ''toMilliseconds'' False True [''this'']]"

definition math_methods :: "mdef list" where
  "math_methods = [
     Ctor True [],
     Ctor False [''this''],
     Native fn_math_rand ''rand'' True True [],
     Native fn_math_exp ''exp'' True True [''num'']]"

definition hashtable_methods :: "mdef list" where
  "hashtable_methods = [
     Ctor True [],
     Ctor False [''this''],
     Native fn_hashtable_hashtable ''Hashtable'' False False [''this''],
     Native fn_hashtable_put ''put'' False False [''this'', ''key'', ''val''],
     Native fn_hashtable_get ''get'' False True [''this'', ''key''],
     Native fn_hashtable_clear ''clear'' False False [''this'']]"

text \<open>The console is there when the library is built for one (con).\<close>

definition intrinsic_classes :: "bool \<Rightarrow> (string \<times> mdef list) list" where
  "intrinsic_classes con = [
     (''Object'', object_methods),
     (''Array'', array_constructors @ array_accessors),
     (''Vector'', vector_methods)]
     @ (if con then [(''Console'', console_methods)] else [])
     @ [(''StringBuffer'', stringbuffer_methods),
     (''DateTime'', datetime_methods),
     (''Math'', math_methods),
     (''Hashtable'', hashtable_methods)]"

definition socket_methods :: "mdef list" where
  "socket_methods = [
     Ctor True [],
     Ctor False [''this''],
     Native fn_socket_socket ''Socket'' False False [''this'', ''port''],
     Native fn_socket_accept ''accept'' False True [''this''],
     Native fn_socket_connect ''connect'' False True [''this'', ''addr''],
     Native fn_socket_bind ''bind'' False True [''this''],
     Native fn_socket_listen ''listen'' False True [''this'', ''buffers''],
     Native fn_socket_settimeout ''setTimeout'' False True [''this'', ''recvto'', ''sendto''],
     Native fn_socket_setlingeron ''setLingerOn'' False True [''this''],
     Native fn_socket_setnodelay ''setNoDelay'' False True [''this''],
     Native fn_socket_send ''send'' False True [''this'', ''str'', ''len''],
     Native fn_socket_recv ''recv'' False True [''this''],
     Native fn_socket_flush ''flush'' False False [''this''],
     Native fn_socket_error ''error'' False True [''this''],
     Native fn_socket_setblocking ''setBlocking'' False True [''this'', ''onoff''],
     Native fn_socket_close ''close'' False False [''this'']]"

definition des_methods :: "mdef list" where
  "des_methods = [
     Ctor True [],
     Native fn_des_encrypt ''encrypt'' True True [''pw'', ''data''],
     Native fn_des_decrypt ''decrypt'' True True [''pw'', ''data'']]"

definition httprequest_methods :: "mdef list" where
  "httprequest_methods = [
     Ctor True [],
     Ctor False [''this''],
     Native fn_httprequest_httprequest ''HttpRequest'' False False [''this'', ''url''],
     Native fn_httprequest_get ''get'' False True [''this'']]"

text \<open>The classes of the native libraries, jspp/src/libcommon.c.\<close>

definition lib_classes :: "(string \<times> mdef list) list" where
  "lib_classes = [
     (''Socket'', socket_methods),
     (''DES'', des_methods),
     (''HttpRequest'', httprequest_methods)]"

definition libPrepare :: "('c, 'f) env \<Rightarrow> nat \<Rightarrow> ('c, 'f) pstate \<Rightarrow> (bool \<times> ('c, 'f) pstate) option" where
  "libPrepare E p = define_all (ex E) (lb E) p lib_classes"

text \<open>A failing \<open>libPrepare\<close> has freed the program already.\<close>

definition drop_program ::
  "('c, 'f) env \<Rightarrow> nat \<Rightarrow> ('c, 'f) qinterp \<Rightarrow> (bool \<times> ('c, 'f) qinterp) option" where
  "drop_program E p q = do { s \<leftarrow> programDestruct (ex E) p (ps q); Some (False, q\<lparr>ps := s\<rparr>) }"

definition qinterpLoadIntrinsics ::
  "('c, 'f) env \<Rightarrow> ('c, 'f) run \<Rightarrow> bool \<Rightarrow> ('c, 'f) qinterp \<Rightarrow> (bool \<times> ('c, 'f) qinterp) option" where
  "qinterpLoadIntrinsics E run con q =
     (case programConstruct (ps q) of
        (None, s) \<Rightarrow> None
      | (Some p, s) \<Rightarrow> do {
          (ok, s) \<leftarrow> define_all (ex E) (lb E) p (intrinsic_classes con) s;
          if \<not> ok then Some (False, q\<lparr>ps := s\<rparr>)
          else do {
            (ok, s) \<leftarrow> libPrepare E p s;
            let q = q\<lparr>ps := s\<rparr>;
            if \<not> ok then drop_program E p q
            else do {
              (ok, q) \<leftarrow> qinterpPrepare E run p q;
              if \<not> ok then drop_program E p q else Some (True, q) } } })"

subsection \<open>Construction and destruction\<close>

definition new_qinterp :: "('c, 'f) pstate \<Rightarrow> ('c, 'f) qinterp" where
  "new_qinterp s = set_var Null (mk TYPE_NULL (DI 0)) (set_var Tempdata1 void_variant
     \<lparr>ps = s, programs = [], qclasses = Map.empty, nstack = 0, frames = [], stkframecache = [], linenum = 0\<rparr>)"

definition qinterpConstruct ::
  "('c, 'f) env \<Rightarrow> ('c, 'f) run \<Rightarrow> bool \<Rightarrow> ('c, 'f) pstate \<Rightarrow> (('c, 'f) qinterp option \<times> ('c, 'f) pstate) option" where
  "qinterpConstruct E run con s =
     (let fail = (\<lambda>k w. Some (None, s\<lparr>wld := free_blocks k w\<rparr>)); w = wld s;
          (ok, w) = take_block w in if \<not> ok then fail 0 w else
      let (ok, w) = take_block w in if \<not> ok then fail 1 w else
      let (ok, w) = take_block w in if \<not> ok then fail 2 w else
      let (ok, w) = take_block w in if \<not> ok then fail 3 w else
      let (ok, w) = take_block w in if \<not> ok then fail 4 w else
      let (ok, w) = take_block w in if \<not> ok then fail 5 w else
      do {
        (ok, q) \<leftarrow> qinterpLoadIntrinsics E run con (new_qinterp (s\<lparr>wld := w\<rparr>));
        if \<not> ok then Some (None, ps (qfree 6 q)) else Some (Some q, ps q) })"

text \<open>
  The frames of calls in progress are freed without what they hold. Frames in the cache have two
  vectors each.
\<close>

definition qinterpDestruct :: "('c, 'f) env \<Rightarrow> ('c, 'f) qinterp \<Rightarrow> ('c, 'f) pstate option" where
  "qinterpDestruct E q = do {
     s \<leftarrow> foldM (programDestruct (ex E)) (programs q) (ps q);
     let q = qfree (1 + length (frames q)) (q\<lparr>ps := s\<rparr>);
     q \<leftarrow> domem (foldM (varClear (ex E)) (map Stk [0..<nstack q])) q;
     q \<leftarrow> domem (foldM (VARCLEAR (ex E)) (map Retval (stkframecache q))) q;
     let q = qfree (3 * length (stkframecache q) + 4) q;
     q \<leftarrow> domem (varClear (ex E) Tempdata1) q;
     Some (ps (qfree 1 q)) }"

subsection \<open>Messages\<close>

fun qinterpGetErrorMessage :: "InterpErrors \<Rightarrow> string" where
  "qinterpGetErrorMessage IERR_NONE = ''No error''"
| "qinterpGetErrorMessage IERR_OUT_OF_MEM = ''Out of memory''"
| "qinterpGetErrorMessage IERR_MAIN_CLASS_NOT_FOUND = ''main() not found''"
| "qinterpGetErrorMessage IERR_CLASS_NOT_FOUND = ''Undefined class''"
| "qinterpGetErrorMessage IERR_UNKNOWN_METHOD = ''Undefined method''"
| "qinterpGetErrorMessage IERR_UNKNOWN_OPCODE = ''Internal error: unknown opcode''"
| "qinterpGetErrorMessage IERR_FIELD_NOT_FOUND = ''Undefined field''"
| "qinterpGetErrorMessage IERR_TYPE_MISMATCH = ''Type mismatch''"
| "qinterpGetErrorMessage IERR_INTERNAL_ERROR1 = ''Internal error: 1''"
| "qinterpGetErrorMessage IERR_INTERNAL_ERROR2 = ''Internal error: 2''"
| "qinterpGetErrorMessage IERR_BAD_BREAK = ''Bad break''"
| "qinterpGetErrorMessage IERR_BAD_CONTINUE = ''Bad continue''"
| "qinterpGetErrorMessage IERR_EXCEPTION = ''Unhandled exception''"
| "qinterpGetErrorMessage IERR_CALL_REQUIRES_THIS = ''Internal error: call requires this pointer''"
| "qinterpGetErrorMessage IERR_INDEX_OUT_OF_BOUNDS = ''Index out of bounds''"
| "qinterpGetErrorMessage IERR_WRONG_ARRAY_INDEXS = ''Incorrect array index reference''"
| "qinterpGetErrorMessage _ = ''Unknown error''"

end
