(* ===== verification/Life.thy ===== *)
theory Life
  imports Compile Embed
begin

section \<open>From the construction of an interpreter to the value of a program\<close>

text \<open>
  Constructing an interpreter succeeds, a program whose class has the constructors the compiler
  makes can be added to it, and its methods can be run: composed with the compiler this is the
  value of a program given as text.
\<close>

subsection \<open>A call without a result\<close>

text \<open>What is between two calls: the stack, the frames, the program and its classes are the same.\<close>

definition quiet :: "('c, 'f) env \<Rightarrow> ('c, 'f) qinterp \<Rightarrow> ('c, 'f) qinterp \<Rightarrow> bool" where
  "quiet E q q' \<longleftrightarrow> same_code q q' \<and> progs (ps q') = progs (ps q) \<and> programs q' = programs q \<and> nstack q' = nstack q
     \<and> frames q' = frames q \<and> fresh (qworld q) \<le> fresh (qworld q') \<and> (ready E q \<longrightarrow> ready E q') \<and> (cache_ok q \<longrightarrow> cache_ok q')"

lemma quiet_refl: "quiet E q q"
  by (simp add: quiet_def same_code_def)

lemma quiet_trans [trans]: "quiet E q q' \<Longrightarrow> quiet E q' q'' \<Longrightarrow> quiet E q q''"
  by (auto simp: quiet_def same_code_def)

text \<open>Counting blocks changes nothing else.\<close>

lemma live_quiet:
  "quiet E q (set_world ((qworld q)\<lparr>live := k\<rparr>) q)"
  by (auto simp: quiet_def same_code_def set_world_def qworld_def ready_def cache_ok_def var_at_def qmem_def)

lemma enterFrame_quiet:
  assumes "ready E q" "cache_ok q"
  shows "\<exists>q' f. enterFrame c q = Some (True, q')
    \<and> quiet E q (q'\<lparr>frames := frames q, stkframecache := f # stkframecache q'\<rparr>)
    \<and> frames q' = \<lparr>fid = f, ctx = c, fmethod = None, nlocals = 0, blockframes = [], ferr = IERR_NONE,
        stackcount = int (nstack q), fpc = 0\<rparr> # frames q \<and> ready E q' \<and> same_code q q' \<and> nstack q' = nstack q"
proof (cases "stkframecache q")
  case Nil
  with assms show ?thesis
    by (auto simp: enterFrame_def ready_def onworld_def no_failure new_address_def quiet_def same_code_def
        qworld_def qmem_def var_at_def set_world_def set_var_def set_mem_def cache_ok_def less_Suc_eq)
next
  case (Cons f fs)
  with assms obtain u where "var_at q (Retval f) = Some u" by (auto simp: cache_ok_def)
  with Cons assms show ?thesis
    by (auto simp: enterFrame_def ready_def onworld_def no_failure quiet_def same_code_def
        qworld_def qmem_def var_at_def set_world_def set_var_def set_mem_def cache_ok_def)
qed

text \<open>The code of a constructor that has nothing to do: none, or a return.\<close>

definition void_code :: "instr list \<Rightarrow> bool" where
  "void_code js \<longleftrightarrow> js = [] \<or> js = [instr0 OP_VRET]"

lemma interp_void:
  assumes "coded (i16 (lb E)) (code mp) 0 js (mpc mp)" "void_code js" "ready E q" "cur q = Some sf" "fmethod sf = Some m"
    "methods (qworld q) m = Some mp" "ferr sf = IERR_NONE"
  shows "\<exists>pc. interp (Suc (Suc n)) E q = Some (IERR_NONE, set_cur (sf\<lparr>fpc := pc\<rparr>) q)"
proof -
  have trim: "trim_with (varClear (ex E)) (int (nstack q) + of_bool b) (nstack q) q' = Some q'" for b and q' :: "('a, 'b) qinterp"
    by (cases b; cases "nstack q") (simp_all add: trim_done)
  show ?thesis
  proof (cases "js = []")
    case True
    then show ?thesis using assms trim
      by (intro exI [of _ 0]) (simp add: interp_def interp_with_def set_pc_at jsmethodCodeLen_def ok_def)
  next
    case False
    then have js: "js = [instr0 OP_VRET]" using assms(2) by (simp add: void_code_def)
    then have "fetch (i16 (lb E)) (code mp) 0 = ((OP_VRET, 0, 0, 0), [], 1)" "mpc mp = 1"
      using assms(1) by (simp_all add: width_def)
    then show ?thesis using assms(3-7) trim
      by (intro exI [of _ 1])
        (simp add: interp_def interp_with_def set_pc_at jsmethodCodeLen_def ok_def exec_op_def operators_def controls_def
          control_defs fail_def set_err_def; cases sf; simp)
  qed
qed

lemma enter_method_void:
  assumes k: "method_of (lb E) sig False js mp" "void_code js"
    and q: "ready E q" "cur q = Some sf" "ferr sf = IERR_NONE" "nlocals sf = 0" "blockframes sf = []" "stackcount sf = int (nstack q)"
      "fmethod sf = Some m" "methods (qworld q) m = Some mp"
  shows "enter_method E (interp (Suc (Suc n)) E) False m q
    = Some (IERR_NONE, q\<lparr>stkframecache := fid sf # stkframecache q, frames := tl (frames q)\<rparr>)"
proof -
  let ?b = "\<lparr>localcount = 0, breakpc = getBreak sf, blockcount = getBreakBlockCount sf, catchpc = -1\<rparr>"
  let ?sf = "sf\<lparr>blockframes := [?b]\<rparr>"
  have mp: "margs mp = []" "\<not> misnative mp" "\<not> hasretval mp" "coded (i16 (lb E)) (code mp) 0 js (mpc mp)"
    using k(1) by (simp_all add: method_of_def)
  have e: "enterBlock 0 q = Some (True, set_cur ?sf q)" using enterBlock_0 [OF q(1,2)] q(5) by simp
  have f: "ready E (set_cur ?sf q)" "cur (set_cur ?sf q) = Some ?sf" "fmethod ?sf = Some m"
    "methods (qworld (set_cur ?sf q)) m = Some mp" "ferr ?sf = IERR_NONE" using q by simp_all
  from interp_void [OF mp(4) k(2) f, of n] obtain pc where
    i: "interp (Suc (Suc n)) E (set_cur ?sf q) = Some (IERR_NONE, set_cur (?sf\<lparr>fpc := pc\<rparr>) (set_cur ?sf q))" by blast
  let ?q1 = "set_cur (?sf\<lparr>fpc := pc\<rparr>) (set_cur ?sf q)" and ?sf1 = "?sf\<lparr>fpc := pc\<rparr>"
  have "cur ?q1 = Some ?sf1" "localCount ?sf1 = 0" by (simp_all add: localCount_def)
  from leaveBlock_empty [OF this, of E] have
    l: "leaveBlock E ?q1 = Some (set_cur (?sf1\<lparr>blockframes := []\<rparr>) ?q1)" by simp
  have t: "trim_with (VARCLEAR (ex E)) (int (nstack q)) (nstack q) q' = Some q'" for q' :: "('a, 'b) qinterp" by (rule trim_done)
  have g: "onworld grow (set_cur s q) = (True, set_cur s q)" for s
    by (rule onworld_grow) (use q(1) in \<open>simp add: ready_def\<close>)
  have "leaveFrame E False (set_cur (?sf1\<lparr>blockframes := []\<rparr>) ?q1)
      = Some (q\<lparr>stkframecache := fid sf # stkframecache q, frames := tl (frames q)\<rparr>)"
    using q mp t g
    by (simp add: leaveFrame_def getArgumentCount_def leave_result_def Let_def) (simp add: set_cur_def)
  then show ?thesis using e i l mp q by (simp add: enter_method_def exec_method_def)
qed

text \<open>What the code relies on of the string functions a call uses.\<close>

definition name_laws :: "('c, 'f) env \<Rightarrow> bool" where
  "name_laws E \<longleftrightarrow> (\<forall>A t. CHR ''.'' \<notin> set A \<longrightarrow> st_index E (A @ ''.'' @ t) ''.'' = int (length A))
     \<and> (\<forall>s k. st_left E s (int k) = take k s) \<and> (\<forall>s k. st_subend E s (int k) = drop k s)"

lemma name_parts:
  assumes "name_laws E" "CHR ''.'' \<notin> set A"
  shows "st_index E (A @ CHR ''.'' # t) ''.'' = int (length A)" "st_left E (A @ CHR ''.'' # t) (int (length A)) = A"
    "st_subend E (A @ CHR ''.'' # t) (int (length A) + 1) = t"
proof -
  show "st_index E (A @ CHR ''.'' # t) ''.'' = int (length A)" "st_left E (A @ CHR ''.'' # t) (int (length A)) = A"
    using assms by (simp_all add: name_laws_def)
  have "st_subend E (A @ CHR ''.'' # t) (int (Suc (length A))) = drop (Suc (length A)) (A @ CHR ''.'' # t)"
    using assms unfolding name_laws_def by blast
  then show "st_subend E (A @ CHR ''.'' # t) (int (length A) + 1) = t" by (simp add: add.commute)
qed

lemma call_void:
  assumes k: "method_of (lb E) sig False js mp" "void_code js"
    and q: "ready E q" "cache_ok q" "qclasses q A = Some c" "classes (qworld q) c = Some jsp"
      "jsclassFindMethod (methods (qworld q)) jsp sig = Some m" "methods (qworld q) m = Some mp"
    and n: "name_laws E" "CHR ''.'' \<notin> set A"
  shows "\<exists>q'. callStaticMethod E (interp (Suc (Suc n)) E) (A @ ''.'' @ sig) q = Some (IERR_NONE, q') \<and> quiet E q q'"
proof -
  from enterFrame_quiet [OF q(1,2)] obtain q1 f where q1:
    "enterFrame c q = Some (True, q1)" "quiet E q (q1\<lparr>frames := frames q, stkframecache := f # stkframecache q1\<rparr>)"
    "frames q1 = \<lparr>fid = f, ctx = c, fmethod = None, nlocals = 0, blockframes = [], ferr = IERR_NONE,
        stackcount = int (nstack q), fpc = 0\<rparr> # frames q" "ready E q1" "same_code q q1" "nstack q1 = nstack q" by blast
  let ?sf = "\<lparr>fid = f, ctx = c, fmethod = Some m, nlocals = 0, blockframes = [], ferr = IERR_NONE,
        stackcount = int (nstack q), fpc = 0\<rparr>"
  let ?q = "set_cur ?sf q1" and ?run = "interp (Suc (Suc n)) E"
  have s: "methods (qworld q1) = methods (qworld q)" "classes (qworld q1) = classes (qworld q)"
    using q1(5) by (simp_all add: same_code_def)
  have M: "mallocs (qworld q) = []" "mallocs (qworld q1) = []" using q(1) q1(4) by (simp_all add: ready_def)
  obtain sf1 where c1: "cur q1 = Some sf1" "set_cur (sf1\<lparr>fmethod := Some m\<rparr>) q1 = ?q" using q1(3) by (simp add: cur_def)
  have "callStaticMethod E ?run (A @ ''.'' @ sig) q = enter_method E ?run False m ?q"
    using q(3-5) q1(1) c1 s M name_parts [OF n]
    by (simp add: callStaticMethod_def borrow find_method_def set_method_of_frame_def Let_def)
  also have "\<dots> = Some (IERR_NONE, ?q\<lparr>stkframecache := fid ?sf # stkframecache ?q, frames := tl (frames ?q)\<rparr>)"
    by (rule enter_method_void [OF k, where sf = ?sf]) (use q1 q s in simp_all)
  also have "?q\<lparr>stkframecache := fid ?sf # stkframecache ?q, frames := tl (frames ?q)\<rparr>
      = q1\<lparr>frames := frames q, stkframecache := f # stkframecache q1\<rparr>"
    using q1(3) by (simp add: set_cur_def)
  finally show ?thesis using q1(2) by blast
qed

subsection \<open>Running a method by its name\<close>

lemma mallocs_live [simp]: "mallocs (w\<lparr>live := k\<rparr>) = mallocs w" by simp

lemma run_call:
  assumes "ready E q" "lib_laws (lb E)"
    and "callStaticMethod E run (A @ ''.'' @ m @ '':Sv'') (set_world ((qworld q)\<lparr>live := live (qworld q) + 2\<rparr>) q) = Some (err, q1)"
  shows "qinterpRun E run A m 0 b q = (let q = qfree 2 q1 in
    if nstack q = 0 then Some (err, None, q) else if \<not> b then None
    else do { (r, q) \<leftarrow> take_top E q; Some (err, r, q) })"
proof -
  have M: "mallocs (qworld q) = []" using assms(1) by (simp add: ready_def)
  have sc: "st_setchar (lb E) (m @ '':S'') (Suc (Suc (length m))) (CHR ''v'') = m @ '':Sv''"
    using assms(2) unfolding lib_laws_def
    by (metis append.assoc append_Cons append_Nil length_append length_Cons list.size(3) add_Suc_right add_0_right)
  define w where "w = qworld q"
  have w: "mallocs w = []" "q = set_world w q" using M by (simp_all add: w_def set_world_def qworld_def)
  have ow: "onworld f (set_world u q) = (case f u of (a, u) \<Rightarrow> (a, set_world u q))" for u and f :: "('a, 'b) world \<Rightarrow> 'd \<times> ('a, 'b) world"
    by (simp add: onworld_def set_world_def qworld_def)
  have fr: "qfree k (set_world u q) = set_world (free_blocks k u) q" for u k by (simp add: qfree_def set_world_def qworld_def)
  have "buildMethodSig (lb E) m True (w\<lparr>live := live w + 1 + 1\<rparr>) = (Some (m @ '':Sv''), w\<lparr>live := live w + 1 + 1 + 1\<rparr>)"
    using w(1) sc by (simp add: buildMethodSig_def no_failure)
  moreover have "set_world (free_blocks 1 (w\<lparr>live := live w + 1 + 1 + 1\<rparr>)) q
      = set_world ((qworld q)\<lparr>live := live (qworld q) + 2\<rparr>) q"
    by (simp add: free_blocks_def w_def add.commute)
  ultimately show ?thesis
    using assms(3) w(1) unfolding qinterpRun_def
    apply (subst w(2))
    by (simp add: ow fr no_failure Let_def add.commute)
qed

lemma live_two:
  assumes "ready E q" "cache_ok q"
  shows "quiet E q (set_world ((qworld q)\<lparr>live := k\<rparr>) q)" "ready E (set_world ((qworld q)\<lparr>live := k\<rparr>) q)"
    "cache_ok (set_world ((qworld q)\<lparr>live := k\<rparr>) q)"
  using live_quiet [of E q k] assms by (auto simp: quiet_def)

lemma free_quiet: "quiet E q (qfree k q)"
  unfolding qfree_def free_blocks_def by (rule live_quiet)

lemma run_void:
  assumes k: "method_of (lb E) (f @ '':Sv'') False js mp" "void_code js" and L: "lib_laws (lb E)" "name_laws E" "CHR ''.'' \<notin> set A"
    and q: "ready E q" "cache_ok q" "qclasses q A = Some c" "classes (qworld q) c = Some jsp"
      "jsclassFindMethod (methods (qworld q)) jsp (f @ '':Sv'') = Some m" "methods (qworld q) m = Some mp" "nstack q = 0"
  shows "\<exists>q'. qinterpRun E (interp (Suc (Suc n)) E) A f 0 b q = Some (IERR_NONE, None, q') \<and> quiet E q q'"
proof -
  let ?q = "set_world ((qworld q)\<lparr>live := live (qworld q) + 2\<rparr>) q"
  have "qclasses ?q = qclasses q" "classes (qworld ?q) = classes (qworld q)" "methods (qworld ?q) = methods (qworld q)"
    by (simp_all add: set_world_def qworld_def)
  with q call_void [OF k live_two(2,3) [OF q(1,2)], where A = A and c = c and jsp = jsp and m = m and n = n, of "live (qworld q) + 2"] L obtain q1 where
    q1: "callStaticMethod E (interp (Suc (Suc n)) E) (A @ ''.'' @ f @ '':Sv'') ?q = Some (IERR_NONE, q1)" "quiet E ?q q1" by auto
  have "quiet E q ?q" by (rule live_quiet)
  also note q1(2)
  also have "quiet E q1 (qfree 2 q1)" by (rule free_quiet)
  finally have "quiet E q (qfree 2 q1)" .
  moreover from this have "nstack (qfree 2 q1) = 0" using q(7) by (simp add: quiet_def)
  ultimately show ?thesis using run_call [OF q(1) L(1) q1(1), of b] by (simp add: Let_def)
qed

lemma take_top_value:
  assumes r: "ready E q" and s: "stk q = [Some v]" "int_like v"
  shows "\<exists>l q'. take_top E q = Some (Some l, q') \<and> var_at q' l = Some v \<and> nstack q' = 0 \<and> frames q' = frames q"
proof -
  have n: "nstack q = Suc 0" "var_at q (Stk 0) = Some v" using s(1) by (auto simp: stk_Cons)
  have M: "mallocs (qworld q) = []" using r by (simp add: ready_def)
  let ?a = "fresh (qworld q)" and ?w = "qworld q"
  let ?q = "set_world (?w\<lparr>live := live ?w + 1, fresh := ?a + 1\<rparr>) q"
  have t: "onworld take_block q = (True, set_world (?w\<lparr>live := live ?w + 1\<rparr>) q)"
    "onworld new_address (set_world (?w\<lparr>live := live ?w + 1\<rparr>) q) = (?a, ?q)"
    using M by (simp_all add: onworld_def no_failure new_address_def set_world_def qworld_def)
  let ?st = "(qmem q)\<lparr>vars := (vars (qmem q))(Var ?a \<mapsto> void_variant)\<rparr>"
  have m: "qmem ?q = qmem q" by (simp add: qmem_def qworld_def set_world_def)
  have "varAssign (ex E) (Var ?a) (Stk 0) ?st = Some (True, ?st\<lparr>vars := (vars ?st)(Var ?a \<mapsto> v)\<rparr>)"
    by (rule assign_int_like) (use n(2) s(2) in \<open>auto simp: var_at_def scalar_def void_variant_def\<close>)
  then have d: "varConstructDup (ex E) (Some (Var ?a)) (Stk 0) (qmem ?q)
      = Some (Some (Var ?a), (qmem q)\<lparr>vars := (vars (qmem q))(Var ?a \<mapsto> v)\<rparr>)"
    using m by (simp add: varConstructDup_def varConstruct_def)
  let ?st1 = "(qmem q)\<lparr>vars := (vars (qmem q))(Var ?a \<mapsto> v)\<rparr>"
  have "vars ?st1 (Stk 0) = Some v" "clearable v" using n(2) int_like_scalar [OF s(2)] by (simp_all add: var_at_def)
  from varClear_at [OF this, of "ex E"] obtain u where
    c: "varClear (ex E) (Stk 0) ?st1 = Some (?st1\<lparr>vars := (vars ?st1)(Stk 0 \<mapsto> u)\<rparr>)" by blast
  let ?q1 = "drop_top (set_mem (?st1\<lparr>vars := (vars ?st1)(Stk 0 \<mapsto> u)\<rparr>) (set_mem ?st1 ?q))"
  have "take_top E q = Some (Some (Var ?a), ?q1)"
    using n t d c by (simp add: take_top_def stackPeek0_def stackPeekN_def onmem_def domem_def)
  moreover have "var_at ?q1 (Var ?a) = Some v" "nstack ?q1 = 0" "frames ?q1 = frames q"
    using n(1) by (simp_all add: drop_top_def var_at_def del_var_def set_world_def)
  ultimately show ?thesis by blast
qed

lemma run_value:
  assumes e: "exp_ok e" "eval e = Some v" and k: "method_of (lb E) (f @ '':Sv'') True (method_code e) mp"
    and L: "lib_laws (lb E)" "name_laws E" "CHR ''.'' \<notin> set A"
    and q: "ready E q" "cache_ok q" "qclasses q A = Some c" "classes (qworld q) c = Some jsp"
      "jsclassFindMethod (methods (qworld q)) jsp (f @ '':Sv'') = Some m" "methods (qworld q) m = Some mp" "nstack q = 0"
  shows "\<exists>l q'. qinterpRun E (interp (length (code_of e) + 3 + n) E) A f 0 True q = Some (IERR_NONE, Some l, q')
    \<and> var_at q' l = Some v \<and> nstack q' = 0 \<and> frames q' = frames q"
proof -
  let ?q = "set_world ((qworld q)\<lparr>live := live (qworld q) + 2\<rparr>) q" and ?name = "A @ ''.'' @ f @ '':Sv''"
  have a: "abs_run (code_of e) [] = Some [v]" by (rule abs_run_code [OF e])
  then have v: "int_like v" using abs_run_typed by fastforce
  have mp: "coded (i16 (lb E)) (code mp) 0 ([enter_0] @ code_of e @ instr0 OP_RET # [instr0 OP_LEAVE]) (mpc mp)"
    "hasretval mp" "margs mp = []" "\<not> misnative mp"
    using k by (simp_all add: method_of_def method_code_def)
  then have b: "body_of (i16 (lb E)) mp [enter_0] (code_of e)"
    unfolding body_of_def prologue_def by (intro conjI exI [of _ "instr0 OP_RET"]) (auto simp: returns_def)
  have w: "qclasses ?q = qclasses q" "classes (qworld ?q) = classes (qworld q)" "methods (qworld ?q) = methods (qworld q)" "stk ?q = []"
    using q(7) by (simp_all add: set_world_def qworld_def stk_def)
  have "static_method E ?q ?name c mp"
    using w q(3-6) mp(2-4) name_parts [OF L(2,3)] by (simp add: static_method_def)
  from static_call_value [OF runs_abs [OF a] v this b live_two(2,3) [OF q(1,2)] keeps_refl, of 0 n]
  obtain q1 where q1: "callStaticMethod E (interp (length (code_of e) + 3 + n) E) ?name ?q = Some (IERR_NONE, q1)"
    "stk q1 = [Some v]" "frames q1 = frames ?q" "ready E q1"
    using w(4) by (auto simp: eval_nat_numeral)
  have "quiet E q1 (qfree 2 q1)" by (rule free_quiet)
  with q1(4) have r: "ready E (qfree 2 q1)" "nstack (qfree 2 q1) = nstack q1" by (simp_all add: quiet_def)
  have "stk (qfree 2 q1) = [Some v]" using q1(2) r(2) by (simp add: stk_def qfree_def free_blocks_def var_at_def qmem_def qworld_def set_world_def)
  from take_top_value [OF r(1) this v] obtain l q2 where
    q2: "take_top E (qfree 2 q1) = Some (Some l, q2)" "var_at q2 l = Some v" "nstack q2 = 0" "frames q2 = frames (qfree 2 q1)" by auto
  have "nstack q1 \<noteq> 0" using arg_cong [OF q1(2), of length] by (simp add: stk_def)
  then show ?thesis
    using run_call [OF q(1) L(1) q1(1), of True] q2 q1(3) r(2)
    by (simp add: Let_def qfree_def set_world_def)
qed

subsection \<open>Classes from tables\<close>

text \<open>The method an entry of a table stands for.\<close>

fun fits :: "'c lib \<Rightarrow> mdef \<Rightarrow> 'c jsmethod \<Rightarrow> bool" where
  "fits L (Ctor st args) mp \<longleftrightarrow> msig mp = ''@@constructor'' @ (if st then '':Sv'' else '':Iv'') @ map (\<lambda>_. CHR ''v'') args
     \<and> misstatic mp = st \<and> map vname (margs mp) = args \<and> \<not> misnative mp \<and> \<not> hasretval mp \<and> mpc mp = 0"
| "fits L (Native meth name st ret args) mp \<longleftrightarrow> msig mp = name @ (if st then '':Sv'' else '':Iv'') @ map (\<lambda>_. CHR ''v'') args
     \<and> misstatic mp = st \<and> map vname (margs mp) = args \<and> nativemethod mp = Some meth \<and> misnative mp \<and> hasretval mp = ret"

definition methods_of :: "'c lib \<Rightarrow> ('c, 'f) world \<Rightarrow> nat \<Rightarrow> mdef list \<Rightarrow> nat list \<Rightarrow> bool" where
  "methods_of L w k ds ms \<longleftrightarrow> list_all2 (\<lambda>d m. k \<le> m \<and> m < fresh w \<and> (\<exists>mp. methods w m = Some mp \<and> fits L d mp)) ds ms"

text \<open>A class without base and fields, its virtual table not built, with the methods of the table.\<close>

definition class_of :: "'c lib \<Rightarrow> ('c, 'f) world \<Rightarrow> nat \<Rightarrow> string \<Rightarrow> mdef list \<Rightarrow> nat \<Rightarrow> bool" where
  "class_of L w k name ds c \<longleftrightarrow> k \<le> c \<and> c < fresh w \<and> (\<exists>jsp. classes w c = Some jsp \<and> cname jsp = name \<and> basename jsp = []
     \<and> baseclass jsp = None \<and> cfields jsp = [] \<and> vtable jsp = None \<and> methods_of L w k ds (cmethods jsp))"

text \<open>What is at the addresses given out before is as it was.\<close>

definition extends :: "('c, 'f) world \<Rightarrow> ('c, 'f) world \<Rightarrow> bool" where
  "extends w w' \<longleftrightarrow> fresh w \<le> fresh w' \<and> store w' = store w \<and> mallocs w' = mallocs w
     \<and> (\<forall>a < fresh w. classes w' a = classes w a \<and> methods w' a = methods w a)"

lemma extends_refl: "extends w w" by (simp add: extends_def)

lemma extends_trans [trans]: "extends w w' \<Longrightarrow> extends w' w'' \<Longrightarrow> extends w w''"
  by (auto simp: extends_def)

lemma methods_of_keeps:
  assumes "methods_of L w k ds ms" "fresh w \<le> fresh w'" "\<forall>a < fresh w. methods w' a = methods w a"
  shows "methods_of L w' k ds ms"
  using assms unfolding methods_of_def by (fastforce elim!: list_all2_mono)

lemma methods_of_defined: "methods_of L w k ds ms \<Longrightarrow> x \<in> set ms \<Longrightarrow> x < fresh w \<and> methods w x \<noteq> None"
  unfolding methods_of_def by (induction rule: list_all2_induct) auto

lemma class_of_keeps: "class_of L w k name ds c \<Longrightarrow> extends w w' \<Longrightarrow> class_of L w' k name ds c"
  using methods_of_keeps by (fastforce simp: class_of_def extends_def)

lemma class_of_low: "class_of L w k name ds c \<Longrightarrow> j \<le> k \<Longrightarrow> class_of L w j name ds c"
  unfolding class_of_def methods_of_def by (fastforce elim!: list_all2_mono)

lemma add_args_ok:
  assumes "mallocs (wld s) = []" "methods (wld s) m = Some mp"
  shows "\<exists>mp' k. add_args (Some m) names s
      = Some (s\<lparr>wld := (wld s)\<lparr>live := k, methods := (methods (wld s))(m \<mapsto> mp')\<rparr>\<rparr>)
    \<and> (\<exists>vs. mp' = mp\<lparr>margs := margs mp @ vs, msig := msig mp @ map (\<lambda>_. CHR ''v'') names\<rparr> \<and> map vname vs = names)"
  using assms
proof (induction names arbitrary: s mp)
  case Nil
  have "s\<lparr>wld := (wld s)\<lparr>live := live (wld s), methods := (methods (wld s))(m \<mapsto> mp)\<rparr>\<rparr> = s" using Nil(2) by (simp add: map_upd_triv)
  then show ?case by (intro exI [of _ mp] exI [of _ "live (wld s)"] conjI exI [of _ "[]"]) (simp_all only: add_args_def foldM.simps list.map append_Nil2, simp)
next
  case (Cons name names)
  let ?vd = "\<lparr>voffset = int (length (margs mp)), vname = name, srcmode = MODE_BLOCK, visstatic = False, isauto = False,
               isptr = False, visnative = False, nativefield = None\<rparr>"
  let ?mp = "mp\<lparr>margs := margs mp @ [?vd], msig := msig mp @ ''v''\<rparr>" and ?w = "wld s"
  let ?s = "s\<lparr>wld := ?w\<lparr>live := live ?w + 1 + 1, methods := (methods ?w)(m \<mapsto> ?mp)\<rparr>\<rparr>"
  have "jsmethodAddArg m name False ?w = Some (int (length (margs mp)), wld ?s)"
    using Cons.prems by (simp add: jsmethodAddArg_def createVar_def no_failure methodSigAppendArg_def Let_def)
  then have "add_args (Some m) (name # names) s = add_args (Some m) names ?s" by (simp add: add_args_def)
  moreover obtain mp' k vs where 1: "add_args (Some m) names ?s
      = Some (?s\<lparr>wld := (wld ?s)\<lparr>live := k, methods := (methods (wld ?s))(m \<mapsto> mp')\<rparr>\<rparr>)"
    and 2: "mp' = ?mp\<lparr>margs := margs ?mp @ vs, msig := msig ?mp @ map (\<lambda>_. CHR ''v'') names\<rparr>" "map vname vs = names"
    using Cons.IH [of ?s ?mp] Cons.prems by fastforce
  moreover have "?s\<lparr>wld := (wld ?s)\<lparr>live := k, methods := (methods (wld ?s))(m \<mapsto> mp')\<rparr>\<rparr>
      = s\<lparr>wld := ?w\<lparr>live := k, methods := (methods ?w)(m \<mapsto> mp')\<rparr>\<rparr>" by simp
  ultimately have 3: "add_args (Some m) (name # names) s = Some (s\<lparr>wld := ?w\<lparr>live := k, methods := (methods ?w)(m \<mapsto> mp')\<rparr>\<rparr>)"
    by simp
  have 4: "mp' = mp\<lparr>margs := margs mp @ ?vd # vs, msig := msig mp @ map (\<lambda>_. CHR ''v'') (name # names)\<rparr>"
    using 2(1) by simp
  have 5: "map vname (?vd # vs) = name # names" using 2(2) by simp
  show ?case by (rule exI, rule exI, rule conjI, rule 3, rule exI, rule conjI, rule 4, rule 5)
qed

text \<open>The class being defined, with the entries so far.\<close>

definition open_class ::
  "'c lib \<Rightarrow> nat \<Rightarrow> nat list \<Rightarrow> string \<Rightarrow> nat \<Rightarrow> ('c, 'f) world \<Rightarrow> mdef list \<Rightarrow> ('c, 'f) pstate \<Rightarrow> bool" where
  "open_class L p cs name c w0 ds s \<longleftrightarrow> mallocs (wld s) = [] \<and> extends w0 (wld s)
     \<and> (\<exists>pp. progs s p = Some pp \<and> curclass pp = Some c \<and> lclasses pp = cs) \<and> class_of L (wld s) (fresh w0) name ds c"

lemma open_class_method:
  assumes o: "open_class L p cs name c w0 ds s" and f: "fits L d mp" "fresh (wld s) = m"
    and s': "progs s' p = Some pp'" "curclass pp' = Some c" "lclasses pp' = cs"
      "classes (wld s) c = Some cls" "classes (wld s') = (classes (wld s))(c \<mapsto> cls\<lparr>cmethods := cmethods cls @ [m]\<rparr>)"
      "methods (wld s') = (methods (wld s))(m \<mapsto> mp)" "fresh (wld s') = m + 1" "mallocs (wld s') = []" "store (wld s') = store (wld s)"
  shows "open_class L p cs name c w0 (ds @ [d]) s'"
proof -
  from o have w0: "extends w0 (wld s)" "fresh w0 \<le> c" "c < m" "methods_of L (wld s) (fresh w0) ds (cmethods cls)"
    "cname cls = name" "basename cls = []" "baseclass cls = None" "cfields cls = []" "vtable cls = None" "mallocs w0 = []"
    using f(2) s'(4) by (auto simp: open_class_def class_of_def extends_def)
  have e: "extends w0 (wld s')"
    using w0(1-3,10) s'(5-9) f(2) by (auto simp: extends_def)
  have "methods_of L (wld s') (fresh w0) ds (cmethods cls)"
    using w0(4) by (rule methods_of_keeps) (use s'(6,7) f(2) in simp_all)
  then have "methods_of L (wld s') (fresh w0) (ds @ [d]) (cmethods cls @ [m])"
    unfolding methods_of_def by (rule list_all2_appendI) (use f(1) s'(6,7) w0(2,3) in simp)
  then show ?thesis using e s' w0 by (auto simp: open_class_def class_of_def)
qed

lemma define_one_ok:
  assumes L: "lib_laws L" and o: "open_class L p cs name c w0 ds s"
  shows "\<exists>s'. define_one L p d s = Some s' \<and> open_class L p cs name c w0 (ds @ [d]) s'"
proof -
  from o obtain pp cls where p: "progs s p = Some pp" "curclass pp = Some c" "lclasses pp = cs" "classes (wld s) c = Some cls"
    "mallocs (wld s) = []" by (auto simp: open_class_def class_of_def)
  let ?m = "fresh (wld s)"
  have arr: "mpc (new_method L k st acc c) = 0" for k st acc by (simp add: new_method_def)
  show ?thesis
  proof (cases d)
    case (Ctor st args)
    let ?k = "''@@constructor''" and ?acc = ACC_PRIVATE
    let ?w = "(wld s)\<lparr>live := live (wld s) + 1 + 1 + 1 + 1 + 1, fresh := ?m + 1,
      methods := (methods (wld s))(?m \<mapsto> new_method L ?k st ?acc c),
      classes := (classes (wld s))(c \<mapsto> cls\<lparr>cmethods := cmethods cls @ [?m]\<rparr>)\<rparr>"
    let ?s = "set_prog p (pp\<lparr>curmethod := Some ?m\<rparr>) (s\<lparr>wld := ?w\<rparr>)"
    have 1: "programDefineMethod L p ?k st ?acc s = Some (Some ?m, ?s)"
      using p method_constructed [OF L p(5,4), of ?k st ?acc] by (simp add: programDefineMethod_def)
    from add_args_ok [of ?s ?m "new_method L ?k st ?acc c" args] p(5) obtain mp' k vs where
      2: "add_args (Some ?m) args ?s = Some (?s\<lparr>wld := (wld ?s)\<lparr>live := k, methods := (methods (wld ?s))(?m \<mapsto> mp')\<rparr>\<rparr>)"
      "mp' = (new_method L ?k st ?acc c)\<lparr>margs := vs, msig := msig (new_method L ?k st ?acc c) @ map (\<lambda>_. CHR ''v'') args\<rparr>"
      "map vname vs = args" by (auto simp: set_prog_def new_method_def)
    have "fits L d mp'" using Ctor 2(2,3) by (simp add: new_method_def)
    from open_class_method [OF o this refl _ _ _ p(4)] 1 2(1) p Ctor show ?thesis
      by (fastforce simp: set_prog_def)
  next
    case (Native meth k st ret args)
    let ?acc = ACC_PUBLIC and ?mp = "(new_method L k st ACC_PUBLIC c)\<lparr>nativemethod := Some meth, misnative := True, hasretval := ret\<rparr>"
    let ?w = "(wld s)\<lparr>live := live (wld s) + 1 + 1 + 1 + 1 + 1, fresh := ?m + 1,
      classes := (classes (wld s))(c \<mapsto> cls\<lparr>cmethods := cmethods cls @ [?m]\<rparr>), methods := (methods (wld s))(?m \<mapsto> ?mp)\<rparr>"
    let ?s = "set_prog p (pp\<lparr>curmethod := Some ?m\<rparr>) (s\<lparr>wld := ?w\<rparr>)"
    have 1: "programDefineNativeMethod L p meth k st ?acc ret s = Some (Some ?m, ?s)"
      using p method_constructed [OF L p(5,4), of k st ?acc]
      by (simp add: programDefineNativeMethod_def jsclassAddNativeMethod_def)
    from add_args_ok [of ?s ?m ?mp args] p(5) obtain mp' j vs where
      2: "add_args (Some ?m) args ?s = Some (?s\<lparr>wld := (wld ?s)\<lparr>live := j, methods := (methods (wld ?s))(?m \<mapsto> mp')\<rparr>\<rparr>)"
      "mp' = ?mp\<lparr>margs := vs, msig := msig ?mp @ map (\<lambda>_. CHR ''v'') args\<rparr>"
      "map vname vs = args" by (auto simp: set_prog_def new_method_def)
    have "fits L d mp'" using Native 2(2,3) by (simp add: new_method_def)
    from open_class_method [OF o this refl _ _ _ p(4)] 1 2(1) p Native show ?thesis
      by (fastforce simp: set_prog_def)
  qed
qed

lemma define_methods_ok:
  "lib_laws L \<Longrightarrow> open_class L p cs name c w0 es s \<Longrightarrow>
    \<exists>s'. foldM (define_one L p) ds s = Some s' \<and> open_class L p cs name c w0 (es @ ds) s'"
proof (induction ds arbitrary: es s)
  case (Cons d ds)
  from define_one_ok [OF Cons.prems, of d] obtain s1 where
    "define_one L p d s = Some s1" "open_class L p cs name c w0 (es @ [d]) s1" by blast
  with Cons.IH [OF Cons.prems(1) this(2)] show ?case by simp
qed simp

lemma define_all_ok:
  assumes "lib_laws L" "tables_ok L" "mallocs (wld s) = []" "progs s p = Some pp"
  shows "\<exists>s' pp' cs. define_all E L p xs s = Some (True, s') \<and> extends (wld s) (wld s') \<and> progs s' p = Some pp'
    \<and> lclasses pp' = lclasses pp @ cs \<and> list_all2 (\<lambda>(name, ds). class_of L (wld s') (fresh (wld s)) name ds) xs cs"
  using assms
proof (induction xs arbitrary: s pp)
  case Nil
  then show ?case using extends_refl by auto
next
  case (Cons x xs)
  obtain name ds where x: "x = (name, ds)" by fastforce
  let ?c = "fresh (wld s)"
  obtain s1 pp1 jsp where
    s1: "programDefineClass E L p name [] None s = Some (Some ?c, s1)" "progs s1 = (progs s)(p \<mapsto> pp1)" "curclass pp1 = Some ?c"
      "lclasses pp1 = lclasses pp @ [?c]" "classes (wld s1) = (classes (wld s))(?c \<mapsto> jsp)" "methods (wld s1) = methods (wld s)"
      "store (wld s1) = store (wld s)" "mallocs (wld s1) = []" "fresh (wld s1) = ?c + 1"
    and jsp: "cname jsp = name" "basename jsp = []" "baseclass jsp = None" "cfields jsp = []" "vtable jsp = None" "cmethods jsp = []"
    using program_class_defined [OF Cons.prems, of E name "[]"] unfolding Let_def by blast
  have "open_class L p (lclasses pp @ [?c]) name ?c (wld s) [] s1"
    using s1 jsp Cons.prems(3) by (auto simp: open_class_def class_of_def extends_def methods_of_def)
  from define_methods_ok [OF Cons.prems(1) this, of ds] obtain s2 where
    s2: "foldM (define_one L p) ds s1 = Some s2" "open_class L p (lclasses pp @ [?c]) name ?c (wld s) ds s2" by auto
  then obtain pp2 where p2: "progs s2 p = Some pp2" "lclasses pp2 = lclasses pp @ [?c]" "mallocs (wld s2) = []"
    "extends (wld s) (wld s2)" "class_of L (wld s2) ?c name ds ?c" by (auto simp: open_class_def)
  from Cons.IH [OF Cons.prems(1,2) p2(3,1)] obtain s3 pp3 cs where
    s3: "define_all E L p xs s2 = Some (True, s3)" "extends (wld s2) (wld s3)" "progs s3 p = Some pp3"
      "lclasses pp3 = lclasses pp2 @ cs" "list_all2 (\<lambda>(name, ds). class_of L (wld s3) (fresh (wld s2)) name ds) xs cs" by blast
  have "fresh (wld s) \<le> fresh (wld s2)" using p2(4) by (simp add: extends_def)
  then have "list_all2 (\<lambda>(name, ds). class_of L (wld s3) ?c name ds) xs cs"
    using s3(5) class_of_low by (fastforce elim!: list_all2_mono)
  moreover have "class_of L (wld s3) ?c name ds ?c" by (rule class_of_keeps [OF p2(5) s3(2)])
  moreover have "define_all E L p (x # xs) s = Some (True, s3)" using x s1(1) s2(1) s3(1) by simp
  ultimately show ?case using extends_trans [OF p2(4) s3(2)] s3(3,4) p2(2) x
    by (intro exI [of _ s3] exI [of _ pp3] exI [of _ "?c # cs"]) simp
qed

subsection \<open>Preparing classes from tables\<close>

text \<open>An interpreter between calls.\<close>

definition idle :: "('c, 'f) env \<Rightarrow> ('c, 'f) qinterp \<Rightarrow> bool" where
  "idle E q \<longleftrightarrow> ready E q \<and> cache_ok q \<and> nstack q = 0 \<and> frames q = []"

lemma quiet_idle: "quiet E q q' \<Longrightarrow> idle E q \<Longrightarrow> idle E q'"
  by (auto simp: quiet_def idle_def)

lemma class_of_world:
  "class_of L w k name ds c \<Longrightarrow> fresh w \<le> fresh w' \<Longrightarrow> methods w' = methods w \<Longrightarrow> classes w' c = classes w c \<Longrightarrow>
    class_of L w' k name ds c"
  using methods_of_keeps [of L w k ds _ w'] by (auto simp: class_of_def)

lemma static_ctor_found:
  assumes "class_of L w k name (Ctor True [] # ds) c"
  obtains jsp m mp where "classes w c = Some jsp" "cname jsp = name" "basename jsp = []"
    "jsclassFindMethod (methods w) (jsp\<lparr>constdata := d\<rparr>) ''@@constructor:Sv'' = Some m" "methods w m = Some mp"
    "method_of L ''@@constructor:Sv'' False [] mp"
proof -
  from assms obtain jsp m ms mp where "classes w c = Some jsp" "cname jsp = name" "basename jsp = []" "vtable jsp = None"
    "cmethods jsp = m # ms" "methods w m = Some mp" "fits L (Ctor True []) mp"
    by (auto simp: class_of_def methods_of_def list_all2_Cons1)
  then show thesis by (intro that [of jsp m mp]) (simp_all add: jsclassFindMethod_def method_of_def)
qed

lemma prepare_tables:
  assumes L: "lib_laws (lb E)" "tables_ok (lb E)" "name_laws E"
  shows "idle E q \<Longrightarrow> list_all2 (\<lambda>(name, ds). class_of (lb E) (qworld q) k name ds) xs cs \<Longrightarrow>
    \<forall>(name, ds) \<in> set xs. CHR ''.'' \<notin> set name \<and> (\<exists>es. ds = Ctor True [] # es) \<Longrightarrow>
    \<exists>q'. prepare_classes E (interp (Suc (Suc n)) E) p cs q = Some (True, q') \<and> idle E q'
      \<and> list_all2 (\<lambda>(name, ds). class_of (lb E) (qworld q') k name ds) xs cs
      \<and> (\<forall>name ds c. class_of (lb E) (qworld q) k name ds c \<longrightarrow> class_of (lb E) (qworld q') k name ds c)
      \<and> qclasses q' = qclasses q ++ map_of (rev (zip (map fst xs) cs)) \<and> programs q' = programs q \<and> progs (ps q') = progs (ps q)"
proof (induction xs arbitrary: cs q)
  case (Cons x xs)
  obtain name ds where x: "x = (name, ds)" by fastforce
  from Cons.prems(2) x obtain c cs' where c: "cs = c # cs'" "class_of (lb E) (qworld q) k name ds c"
    "list_all2 (\<lambda>(name, ds). class_of (lb E) (qworld q) k name ds) xs cs'"
    by (auto simp: list_all2_Cons1)
  from Cons.prems(3) x obtain es where es: "ds = Ctor True [] # es" "CHR ''.'' \<notin> set name" by auto
  from static_ctor_found [OF c(2) [unfolded es(1)], of "Some p"] obtain jsp m mp where j: "classes (qworld q) c = Some jsp"
    "cname jsp = name" "basename jsp = []"
    "jsclassFindMethod (methods (qworld q)) (jsp\<lparr>constdata := Some p\<rparr>) ''@@constructor:Sv'' = Some m"
    "methods (qworld q) m = Some mp" "method_of (lb E) ''@@constructor:Sv'' False [] mp" by blast
  have t: "ht_add (lb E) (qclasses q) name c = Some ((qclasses q)(name \<mapsto> c))"
    using L(1,2) unfolding lib_laws_def tables_ok_def by (metis not_None_eq)
  let ?q = "set_world (set_class c (jsp\<lparr>constdata := Some p\<rparr>) (qworld q)) (q\<lparr>qclasses := (qclasses q)(name \<mapsto> c)\<rparr>)"
  have w: "qworld ?q = set_class c (jsp\<lparr>constdata := Some p\<rparr>) (qworld q)" by (simp add: qworld_def set_world_def)
  have "idle E ?q" using Cons.prems(1)
    by (simp add: idle_def ready_def cache_ok_def var_at_def qmem_def qworld_def set_class_def set_world_def)
  then have r: "ready E ?q" "cache_ok ?q" "nstack ?q = 0" by (simp_all add: idle_def)
  have "qclasses ?q name = Some c" "classes (qworld ?q) c = Some (jsp\<lparr>constdata := Some p\<rparr>)" "methods (qworld ?q) = methods (qworld q)"
    unfolding w by (simp_all add: set_world_def set_class_def)
  with run_void [of E "''@@constructor''" "[]" mp name ?q c "jsp\<lparr>constdata := Some p\<rparr>" m n False] j r es(2) L(1,3) obtain q1 where
    q1: "qinterpRun E (interp (Suc (Suc n)) E) name ''@@constructor'' 0 False ?q = Some (IERR_NONE, None, q1)" "quiet E ?q q1"
    by (auto simp: void_code_def)
  have w1: "methods (qworld q1) = methods (qworld q)" "classes (qworld q1) = (classes (qworld q))(c \<mapsto> jsp\<lparr>constdata := Some p\<rparr>)"
    "qclasses q1 = (qclasses q)(name \<mapsto> c)" "programs q1 = programs q" "progs (ps q1) = progs (ps q)" "fresh (qworld q) \<le> fresh (qworld q1)"
    using q1(2) unfolding quiet_def same_code_def w by (simp_all add: set_class_def set_world_def)
  have keep: "class_of (lb E) (qworld q1) k nm es d" if "class_of (lb E) (qworld q) k nm es d" for nm es d
  proof (cases "d = c")
    case True
    have "methods_of (lb E) (qworld q1) k es (cmethods jsp)"
      using that True j(1) methods_of_keeps [of "lb E" "qworld q" k es _ "qworld q1"] w1(1,6) by (auto simp: class_of_def)
    with that True j(1) w1 show ?thesis by (auto simp: class_of_def)
  next
    case False
    with that w1 show ?thesis by (intro class_of_world [OF that]) simp_all
  qed
  have i1: "idle E q1" using quiet_idle [OF q1(2) \<open>idle E ?q\<close>] .
  have l1: "list_all2 (\<lambda>(name, ds). class_of (lb E) (qworld q1) k name ds) xs cs'"
    using c(3) keep by (fastforce elim!: list_all2_mono)
  have "\<forall>(name, ds) \<in> set xs. CHR ''.'' \<notin> set name \<and> (\<exists>es. ds = Ctor True [] # es)" using Cons.prems(3) by simp
  from Cons.IH [OF i1 l1 this] obtain q2 where q2: "prepare_classes E (interp (Suc (Suc n)) E) p cs' q1 = Some (True, q2)" "idle E q2"
    "list_all2 (\<lambda>(name, ds). class_of (lb E) (qworld q2) k name ds) xs cs'"
    "\<forall>name ds c. class_of (lb E) (qworld q1) k name ds c \<longrightarrow> class_of (lb E) (qworld q2) k name ds c"
    "qclasses q2 = qclasses q1 ++ map_of (rev (zip (map fst xs) cs'))" "programs q2 = programs q1" "progs (ps q2) = progs (ps q1)"
    by blast
  have "prepare_classes E (interp (Suc (Suc n)) E) p cs q = Some (True, q2)"
    using c(1) j(1-3) t q1(1) q2(1) w by (simp add: qworld_def)
  moreover have "qclasses q2 = qclasses q ++ map_of (rev (zip (map fst (x # xs)) cs))"
    using q2(5) w1(3) c(1) x by (auto simp: fun_eq_iff map_add_def split: option.splits)
  moreover have "list_all2 (\<lambda>(name, ds). class_of (lb E) (qworld q2) k name ds) (x # xs) cs"
    using q2(3,4) keep [OF c(2)] x c(1) by simp
  ultimately show ?case using q2(2,4,6,7) keep w1(4,5) by (intro exI [of _ q2]) simp
qed auto

subsection \<open>Construction\<close>

definition all_classes :: "bool \<Rightarrow> (string \<times> mdef list) list" where
  "all_classes con = intrinsic_classes con @ lib_classes"

lemmas table_defs = all_classes_def intrinsic_classes_def lib_classes_def object_methods_def array_constructors_def
  array_accessors_def vector_methods_def console_methods_def stringbuffer_methods_def datetime_methods_def
  math_methods_def hashtable_methods_def socket_methods_def des_methods_def httprequest_methods_def

lemma all_classes_ok:
  "\<forall>(name, ds) \<in> set (all_classes con). CHR ''.'' \<notin> set name \<and> (\<exists>es. ds = Ctor True [] # es)"
  "distinct (map fst (all_classes con))"
  by (cases con; simp add: table_defs)+

lemma define_all_append:
  "define_all E L p (xs @ ys) s = do { (ok, s) \<leftarrow> define_all E L p xs s; if ok then define_all E L p ys s else Some (False, s) }"
  by (induction xs arbitrary: s) (auto split: prod.splits Option.bind_splits)

lemma table_lookup:
  "list_all2 (\<lambda>(name, ds) c. R name ds c) xs cs \<Longrightarrow> distinct (map fst xs) \<Longrightarrow> (name, ds) \<in> set xs \<Longrightarrow>
    \<exists>c. map_of (rev (zip (map fst xs) cs)) name = Some c \<and> R name ds c"
proof (induction rule: list_all2_induct)
  case (Cons x xs c cs)
  have d: "dom (map_of (rev (zip (map fst xs) cs))) = set (map fst xs)"
    using list_all2_lengthD [OF Cons(2)] by (simp add: dom_map_of_conv_image_fst map_fst_zip flip: set_map)
  show ?case
  proof (cases "(name, ds) \<in> set xs")
    case True
    with Cons show ?thesis by (cases x) (auto simp: map_add_def)
  next
    case False
    with Cons.prems have "x = (name, ds)" by simp
    moreover from this Cons.prems(1) have "name \<notin> dom (map_of (rev (zip (map fst xs) cs)))" unfolding d by simp
    ultimately show ?thesis using Cons(1) by (auto simp: map_add_def dom_def)
  qed
qed simp

lemma construct_ok:
  assumes L: "lib_laws (lb E)" "tables_ok (lb E)" "name_laws E" "0 < cstack (ex E)" "mallocs (wld s) = []"
  shows "\<exists>q. qinterpConstruct E (interp (Suc (Suc n)) E) con s = Some (Some q, ps q) \<and> idle E q \<and> programs q = [fresh (wld s)]
    \<and> (\<forall>(name, ds) \<in> set (all_classes con). \<exists>c. qclasses q name = Some c
          \<and> class_of (lb E) (qworld q) (fresh (wld s)) name ds c)"
proof -
  let ?run = "interp (Suc (Suc n)) E" and ?p = "fresh (wld s)"
  let ?s = "s\<lparr>wld := (wld s)\<lparr>live := live (wld s) + 1 + 1 + 1 + 1 + 1 + 1\<rparr>\<rparr>"
  let ?q = "new_qinterp ?s"
  have q: "mallocs (wld (ps ?q)) = []" "fresh (wld (ps ?q)) = ?p" "var_at ?q Tempdata1 = Some void_variant" "nstack ?q = 0"
    "frames ?q = []" "stkframecache ?q = []" "programs ?q = []" "qclasses ?q = Map.empty"
    using L(5) by (simp_all add: new_qinterp_def set_var_def set_mem_def set_world_def qworld_def var_at_def qmem_def)
  obtain s1 pp where s1: "programConstruct (ps ?q) = (Some ?p, s1)" "mallocs (wld s1) = []" "progs s1 ?p = Some pp" "lclasses pp = []"
    "store (wld s1) = store (wld (ps ?q))" "fresh (wld s1) = ?p + 1"
    using q(1,2) by (auto simp: programConstruct_def no_failure new_address_def set_prog_def Let_def)
  from define_all_ok [OF L(1,2) s1(2,3), of "ex E" "all_classes con"] obtain s2 pp2 cs where
    s2: "define_all (ex E) (lb E) ?p (all_classes con) s1 = Some (True, s2)" "extends (wld s1) (wld s2)" "progs s2 ?p = Some pp2"
      "lclasses pp2 = cs" "list_all2 (\<lambda>(name, ds). class_of (lb E) (wld s2) (fresh (wld s1)) name ds) (all_classes con) cs"
    using s1(4) by auto
  from s2(1) obtain s3 where
    s3: "define_all (ex E) (lb E) ?p (intrinsic_classes con) s1 = Some (True, s3)" "libPrepare E ?p s3 = Some (True, s2)"
    unfolding all_classes_def define_all_append
    by (auto simp: libPrepare_def bind_eq_Some_conv split: if_splits)
  let ?q2 = "?q\<lparr>ps := s2\<rparr>"
  have w2: "qworld ?q2 = wld s2" by (simp add: qworld_def)
  have "ready E ?q2" "cache_ok ?q2"
    using L(4) q s2(2) s1(2,5)
    by (auto simp: ready_def cache_ok_def w2 var_at_def qmem_def extends_def scalar_def void_variant_def qworld_def)
  then have i2: "idle E ?q2" using q by (simp add: idle_def)
  have "list_all2 (\<lambda>(name, ds). class_of (lb E) (qworld ?q2) (fresh (wld s1)) name ds) (all_classes con) cs"
    unfolding w2 by (rule s2(5))
  from prepare_tables [OF L(1-3) i2 this all_classes_ok(1), of n ?p] obtain q3 where
    q3: "prepare_classes E ?run ?p cs ?q2 = Some (True, q3)" "idle E q3"
      "list_all2 (\<lambda>(name, ds). class_of (lb E) (qworld q3) (fresh (wld s1)) name ds) (all_classes con) cs"
      "qclasses q3 = qclasses ?q2 ++ map_of (rev (zip (map fst (all_classes con)) cs))" "programs q3 = programs ?q2" by blast
  have "mallocs (qworld q3) = []" using q3(2) by (simp add: idle_def ready_def)
  then have g: "onworld grow q3 = (True, q3)" by (rule onworld_grow)
  let ?q4 = "q3\<lparr>programs := [?p]\<rparr>"
  have "qinterpPrepare E ?run ?p ?q2 = Some (True, ?q4)"
    using s2(3,4) q3(1,5) g q(7) by (simp add: qinterpPrepare_def)
  then have "qinterpLoadIntrinsics E ?run con ?q = Some (True, ?q4)"
    using s1(1) s3 by (simp add: qinterpLoadIntrinsics_def)
  then have "qinterpConstruct E ?run con s = Some (Some ?q4, ps ?q4)"
    using L(5) by (simp add: qinterpConstruct_def no_failure Let_def)
  moreover have "idle E ?q4" using q3(2) by (simp add: idle_def ready_def cache_ok_def qworld_def var_at_def qmem_def)
  moreover have "\<exists>c. qclasses ?q4 name = Some c \<and> class_of (lb E) (qworld ?q4) ?p name ds c"
    if m: "(name, ds) \<in> set (all_classes con)" for name ds
  proof -
    from table_lookup [OF q3(3) all_classes_ok(2) m] obtain c where
      c: "map_of (rev (zip (map fst (all_classes con)) cs)) name = Some c" "class_of (lb E) (qworld q3) (fresh (wld s1)) name ds c"
      by blast
    then have "class_of (lb E) (qworld q3) ?p name ds c" using s1(6) class_of_low by fastforce
    with c(1) q3(4) q(8) show ?thesis by (auto simp: qworld_def)
  qed
  ultimately show ?thesis by (intro exI [of _ ?q4]) auto
qed

subsection \<open>Preparing a compiled class\<close>

lemma add_methods_ok:
  assumes "lib_laws L" "tables_ok L"
  shows "\<forall>m \<in> set xs. ms m \<noteq> None \<Longrightarrow> add_methods L ms xs vt = (True, vt ++ own_table ms xs)"
proof -
  have "fst (add_methods L ms xs vt)" if "\<forall>m \<in> set xs. ms m \<noteq> None" for vt
    using that
  proof (induction xs arbitrary: vt)
    case (Cons m xs)
    then obtain mp where "ms m = Some mp" by auto
    moreover obtain t where "ht_add L vt (msig mp) m = Some t" using assms(2) unfolding tables_ok_def by blast
    ultimately show ?case using Cons by simp
  qed simp
  then show "\<forall>m \<in> set xs. ms m \<noteq> None \<Longrightarrow> add_methods L ms xs vt = (True, vt ++ own_table ms xs)"
    using add_methods_table [OF assms(1), of ms xs vt] by (metis prod.collapse)
qed

definition with_vtable :: "('c, 'f) world \<Rightarrow> nat \<Rightarrow> (string \<rightharpoonup> nat) \<Rightarrow> jsclass \<Rightarrow> jsclass" where
  "with_vtable w c vt jsp = jsp\<lparr>vtable := Some (vt ++ own_table (methods w) (cmethods jsp))\<rparr>"

lemma fill_vtab_built:
  assumes "lib_laws L" "tables_ok L" "classes w c = Some jsp" "cfields jsp = []" "\<forall>m \<in> set (cmethods jsp). methods w m \<noteq> None"
  shows "fill_vtab L c vt w = Some (True, set_class c (with_vtable w c vt jsp) w)"
  using assms add_methods_ok [OF assms(1,2,5), of vt] by (simp add: fill_vtab_def with_vtable_def)

lemma vtab_built:
  assumes L: "lib_laws L" "tables_ok L" "mallocs w = []"
    and c: "classes w c = Some jsp" "cfields jsp = []" "\<forall>m \<in> set (cmethods jsp). methods w m \<noteq> None" "baseclass jsp = Some b"
    and b: "classes w b = Some base" "cfields base = []" "\<forall>m \<in> set (cmethods base). methods w m \<noteq> None" "baseclass base = None"
      "vtable base = None" "b \<noteq> c"
  shows "\<exists>vt k. jsclassInitVtab (Suc (Suc d)) L c w = Some (True, w\<lparr>live := k, classes := (classes w)
    (b \<mapsto> with_vtable w b Map.empty base, c \<mapsto> with_vtable w c vt jsp)\<rparr>)"
proof -
  let ?w1 = "w\<lparr>live := live w + 1\<rparr>"
  let ?w2 = "set_class b (with_vtable ?w1 b Map.empty base) ?w1"
  have "jsclassInitVtab (Suc d) L b w = Some (True, ?w2)"
    using L b fill_vtab_built [of L ?w1 b base Map.empty] by (simp add: no_failure)
  moreover have "fill_vtab L c vt (?w2\<lparr>live := live ?w2 + 1\<rparr>)
      = Some (True, set_class c (with_vtable (?w2\<lparr>live := live ?w2 + 1\<rparr>) c vt jsp) (?w2\<lparr>live := live ?w2 + 1\<rparr>))" for vt
    by (rule fill_vtab_built) (use L c b(6) in \<open>simp_all add: set_class_def\<close>)
  ultimately have "jsclassInitVtab (Suc (Suc d)) L c w = Some (True, set_class c
      (with_vtable (?w2\<lparr>live := live ?w2 + 1\<rparr>) c (own_table (methods w) (cmethods base)) jsp) (?w2\<lparr>live := live ?w2 + 1\<rparr>))"
    using L(3) c(1,4) b by (simp add: no_failure set_class_def with_vtable_def del: jsclassInitVtab.simps(2) add: jsclassInitVtab.simps(2) [of "Suc d"])
  then show ?thesis using b(6) by (auto simp: set_class_def with_vtable_def fun_upd_twist)
qed

lemma found_in_vtable:
  assumes "cmethods jsp = [m, m + 1, m + 2]" "methods w m = Some mp0" "methods w (m + 1) = Some mp1" "methods w (m + 2) = Some mp2"
    "msig mp2 \<noteq> msig mp1"
  shows "jsclassFindMethod (methods w) (with_vtable w c vt jsp) (msig mp2) = Some (m + 2)"
    "jsclassFindMethod (methods w) (with_vtable w c vt jsp) (msig mp1) = Some (m + 1)"
  using assms by (auto simp: jsclassFindMethod_def with_vtable_def own_table_def)

lemma prepare_with_base:
  assumes "classes (qworld q) c = Some jsp" "ht_add (lb E) (qclasses q) (cname jsp) c = Some t" "basename jsp \<noteq> []"
    "link_base E p c (basename jsp) (q\<lparr>qclasses := t\<rparr>) = Some (True, q1)" "classes (qworld q1) c = Some j1"
    "qinterpRun E run (cname j1) ''@@constructor'' 0 False
       (set_world (set_class c (j1\<lparr>constdata := Some p\<rparr>) (qworld q1)) q1) = Some (err, r, q2)"
  shows "prepare_classes E run p (c # cs) q = (if err \<noteq> IERR_NONE then Some (False, q2) else prepare_classes E run p cs q2)"
  using assms by simp

lemma compiled_prepares:
  assumes L: "lib_laws (lb E)" "tables_ok (lb E)" "name_laws E" "1 < cstack (ex E)"
    and q: "idle E q" "qclasses q ''Object'' = Some ob" "class_of (lb E) (qworld q) k ''Object'' ds ob"
    and c: "compiled (lb E) A f e p c (ps q) S'" "A \<noteq> ''Object''" "CHR ''.'' \<notin> set A" "is_name f"
  shows "\<exists>q'. qinterpPrepare E (interp (Suc (Suc n)) E) p (q\<lparr>ps := S'\<rparr>) = Some (True, q') \<and> idle E q' \<and> qclasses q' A = Some c
    \<and> (\<exists>jsp m mp. classes (qworld q') c = Some jsp \<and> jsclassFindMethod (methods (qworld q')) jsp (f @ '':Sv'') = Some m
        \<and> methods (qworld q') m = Some mp \<and> method_of (lb E) (f @ '':Sv'') True (method_code e) mp)"
proof -
  let ?run = "interp (Suc (Suc n)) E" and ?W = "wld S'"
  from c(1) obtain pp cls m mp0 mp1 mp2 where P: "progs S' p = Some pp" "pclasses pp = [A \<mapsto> c]" "lclasses pp = [c]" "intrinsics pp = None"
    and C: "classes ?W = (classes (qworld q))(c \<mapsto> cls)" "cname cls = A" "basename cls = ''Object''" "cfields cls = []"
      "vtable cls = None" "cmethods cls = [m, m + 1, m + 2]"
    and M: "methods ?W = (methods (qworld q))(m \<mapsto> mp0, m + 1 \<mapsto> mp1, m + 2 \<mapsto> mp2)"
      "method_of (lb E) ''@@constructor:Sv'' False [instr0 OP_VRET] mp1" "method_of (lb E) (f @ '':Sv'') True (method_code e) mp2"
    and W: "store ?W = store (qworld q)" "mallocs ?W = []" "fresh (qworld q) \<le> c" "fresh (qworld q) \<le> m"
      "fresh (qworld q) \<le> fresh ?W" unfolding compiled_def qworld_def by (elim exE conjE) (auto)
  from q(3) obtain osp where O: "classes (qworld q) ob = Some osp" "ob < fresh (qworld q)" "baseclass osp = None" "cfields osp = []"
    "vtable osp = None" "\<forall>x \<in> set (cmethods osp). methods (qworld q) x \<noteq> None"
    using methods_of_defined by (fastforce simp: class_of_def)
  have t: "ht_add (lb E) (qclasses q) A c = Some ((qclasses q)(A \<mapsto> c))"
    using L(1,2) unfolding lib_laws_def tables_ok_def by (metis not_None_eq)
  let ?q = "q\<lparr>qclasses := (qclasses q)(A \<mapsto> c), ps := S'\<rparr>"
  have wq: "qworld ?q = ?W" by (simp add: qworld_def)
  let ?cls1 = "cls\<lparr>baseclass := Some ob\<rparr>"
  let ?W1 = "?W\<lparr>classes := (classes ?W)(c \<mapsto> ?cls1)\<rparr>"
  have cb: "ob \<noteq> c" using O(2) W(3) by simp
  have d: "\<forall>x \<in> set (cmethods ?cls1). methods ?W1 x \<noteq> None" "\<forall>x \<in> set (cmethods osp). methods ?W1 x \<noteq> None"
    using C(6) M(1) O(6) by auto
  have a1: "mallocs ?W1 = []" using W(2) by simp
  have a2: "classes ?W1 c = Some ?cls1" by simp
  have a3: "classes ?W1 ob = Some osp" by (simp add: C(1) O(1) cb)
  have a4: "cfields ?cls1 = []" by (simp add: C(4))
  note W1 = a1 a2 a3 a4
  define dd where "dd = cstack (ex E) - 2"
  have dd: "cstack (ex E) = Suc (Suc dd)" using L(4) by (simp add: dd_def)
  have "\<exists>vt k. jsclassInitVtab (Suc (Suc dd)) (lb E) c ?W1 = Some (True, ?W1\<lparr>live := k, classes := (classes ?W1)
    (ob \<mapsto> with_vtable ?W1 ob Map.empty osp, c \<mapsto> with_vtable ?W1 c vt ?cls1)\<rparr>)"
    by (rule vtab_built [where w = ?W1 and jsp = ?cls1 and b = ob and base = osp and c = c and L = "lb E" and d = dd,
        OF L(1,2) W1(1,2,4) d(1) _ W1(3) O(4) d(2) O(3,5) cb]) simp
  then obtain vt l where v: "jsclassInitVtab (cstack (ex E)) (lb E) c ?W1 = Some (True, ?W1\<lparr>live := l, classes := (classes ?W1)
    (ob \<mapsto> with_vtable ?W1 ob Map.empty osp, c \<mapsto> with_vtable ?W1 c vt ?cls1)\<rparr>)" unfolding dd by blast
  let ?W2 = "?W1\<lparr>live := l, classes := (classes ?W1)(ob \<mapsto> with_vtable ?W1 ob Map.empty osp, c \<mapsto> with_vtable ?W1 c vt ?cls1)\<rparr>"
  have "programFindClass (cstack (ex E)) ''Object'' p S' = Some (None, S')"
    using P W(2) c(2) unfolding dd by (simp add: no_failure free_blocks_def Let_def)
  moreover have "set_base c None ?q = Some (set_world (?W\<lparr>classes := (classes ?W)(c \<mapsto> cls\<lparr>baseclass := None\<rparr>)\<rparr>) ?q)"
    using C(1) by (simp add: set_base_def wq set_class_def)
  moreover have "set_base c (Some ob) (set_world (?W\<lparr>classes := (classes ?W)(c \<mapsto> cls\<lparr>baseclass := None\<rparr>)\<rparr>) ?q)
      = Some (set_world ?W1 ?q)"
    by (simp add: set_base_def set_class_def qworld_def set_world_def)
  moreover have "qinterpFindClass ?q ''Object'' = Some ob" "qinterpFindClass (set_world u ?q) ''Object'' = Some ob" for u
    using q(2) c(2) by (simp_all add: qinterpFindClass_def set_world_def)
  moreover have "set_world ?W2 (set_world ?W1 ?q) = set_world ?W2 ?q" "qworld (set_world ?W1 ?q) = ?W1"
    by (simp_all add: set_world_def qworld_def)
  ultimately have lk: "link_base E p c ''Object'' ?q = Some (True, set_world ?W2 ?q)"
    using v by (simp add: link_base_def) 
  let ?cls3 = "(with_vtable ?W1 c vt ?cls1)\<lparr>constdata := Some p\<rparr>"
  let ?W3 = "set_class c ?cls3 ?W2"
  let ?q3 = "set_world ?W3 ?q"
  have w3: "qworld ?q3 = ?W3" by (simp add: qworld_def set_world_def)
  have i3: "idle E ?q3"
    using q(1) W(1,2,5)
    by (simp add: idle_def ready_def cache_ok_def var_at_def qmem_def w3) (fastforce simp: set_world_def set_class_def)
  have f: "methods ?W3 = methods ?W1" "classes ?W3 c = Some ?cls3" by (simp_all add: set_class_def)
  have "hd (f @ '':Sv'') \<noteq> CHR ''@''" using c(4) by (auto simp: is_name_def ctype_defs schar_def)
  then have ne: "f @ '':Sv'' \<noteq> ''@@constructor:Sv''" by auto
  have sg: "msig mp1 = ''@@constructor:Sv''" "msig mp2 = f @ '':Sv''" using M(2,3) by (simp_all add: method_of_def)
  have mm: "methods ?W1 m = Some mp0" "methods ?W1 (m + 1) = Some mp1" "methods ?W1 (m + 2) = Some mp2" using M(1) by simp_all
  have cd: "jsclassFindMethod ms (j\<lparr>constdata := d\<rparr>) sig = jsclassFindMethod ms j sig" for ms :: "nat \<Rightarrow> 'a jsmethod option" and j d sig
    by (cases "vtable j") (simp_all add: jsclassFindMethod_def)
  have fm: "jsclassFindMethod (methods ?W3) ?cls3 (f @ '':Sv'') = Some (m + 2)"
    "jsclassFindMethod (methods ?W3) ?cls3 ''@@constructor:Sv'' = Some (m + 1)"
    unfolding f(1) cd
    using found_in_vtable [OF _ mm, of ?cls1 c vt] C(6) sg ne by simp_all
  have k1: "method_of (lb E) (''@@constructor'' @ '':Sv'') False [instr0 OP_VRET] mp1" using M(2) by simp
  have k2: "void_code [instr0 OP_VRET]" by (simp add: void_code_def)
  have k3: "qclasses ?q3 A = Some c" by (simp add: set_world_def)
  have k4: "classes (qworld ?q3) c = Some ?cls3" unfolding w3 by (rule f(2))
  have k5: "methods (qworld ?q3) (m + 1) = Some mp1" unfolding w3 f(1) by (rule mm(2))
  have k6: "jsclassFindMethod (methods (qworld ?q3)) ?cls3 (''@@constructor'' @ '':Sv'') = Some (m + 1)"
    unfolding w3 using fm(2) by simp
  from i3 have k7: "ready E ?q3" "cache_ok ?q3" "nstack ?q3 = 0" by (simp_all only: idle_def)
  from run_void [OF k1 k2 L(1,3) c(3) k7(1,2) k3 k4 k6 k5 k7(3), of n False] obtain q4 where
    q4: "qinterpRun E ?run A ''@@constructor'' 0 False ?q3 = Some (IERR_NONE, None, q4)" "quiet E ?q3 q4" by blast
  have i4: "idle E q4" by (rule quiet_idle [OF q4(2) i3])
  then have g: "onworld grow q4 = (True, q4)" by (intro onworld_grow) (simp add: idle_def ready_def)
  have h1: "classes (qworld (q\<lparr>ps := S'\<rparr>)) c = Some cls" using C(1) by (simp add: qworld_def)
  have h2: "ht_add (lb E) (qclasses (q\<lparr>ps := S'\<rparr>)) (cname cls) c = Some ((qclasses q)(A \<mapsto> c))" using t C(2) by simp
  have sw: "(q\<lparr>ps := S'\<rparr>)\<lparr>qclasses := (qclasses q)(A \<mapsto> c)\<rparr> = ?q" by simp
  have h3: "link_base E p c (basename cls) ((q\<lparr>ps := S'\<rparr>)\<lparr>qclasses := (qclasses q)(A \<mapsto> c)\<rparr>) = Some (True, set_world ?W2 ?q)"
    unfolding sw C(3) by (rule lk)
  have h4: "qworld (set_world ?W2 ?q) = ?W2" "set_world ?W3 (set_world ?W2 ?q) = ?q3" by (simp_all add: set_world_def qworld_def)
  have h5: "classes (qworld (set_world ?W2 ?q)) c = Some (with_vtable ?W1 c vt ?cls1)" unfolding h4(1) by simp
  have h6: "cname (with_vtable ?W1 c vt ?cls1) = A" using C(2) by (simp add: with_vtable_def)
  have "prepare_classes E ?run p [c] (q\<lparr>ps := S'\<rparr>) = Some (True, q4)"
    using prepare_with_base [OF h1 h2 _ h3 h5, of ?run IERR_NONE None q4 "[]"] C(3) q4(1) unfolding h6 h4 by simp
  then have "qinterpPrepare E ?run p (q\<lparr>ps := S'\<rparr>) = Some (True, q4\<lparr>programs := programs q4 @ [p]\<rparr>)"
    using P(1,3) g by (simp add: qinterpPrepare_def)
  moreover have "idle E (q4\<lparr>programs := programs q4 @ [p]\<rparr>)"
    using i4 by (simp add: idle_def ready_def cache_ok_def qworld_def var_at_def qmem_def)
  moreover have "qclasses q4 A = Some c" "classes (qworld q4) = classes ?W3" "methods (qworld q4) = methods ?W3"
    using q4(2) unfolding quiet_def same_code_def w3 by (simp_all add: set_world_def)
  ultimately show ?thesis
    using fm(1) f mm(3) M(3) by (intro exI [of _ "q4\<lparr>programs := programs q4 @ [p]\<rparr>"]) (simp add: qworld_def)
qed

subsection \<open>The whole way\<close>

text \<open>C2. A new interpreter knows every class of the tables: with no allocation failing,
  \<open>qinterpConstruct\<close> returns an interpreter with empty stack and no frames, whose only program
  is the intrinsics; each class of the tables is found under its name and has no base class, and its
  methods are those of its table in order: signature, names of arguments, native function.\<close>
theorem construct_loads:
  assumes "lib_laws (lb E)" and "tables_ok (lb E)" and "name_laws E" and "0 < cstack (ex E)" and "mallocs (wld s) = []"
  shows "\<exists>q p. qinterpConstruct E (interp (Suc (Suc n)) E) con s = Some (Some q, ps q) \<and> nstack q = 0 \<and> frames q = []
    \<and> programs q = [p] \<and> qinterpGetIntrinsics q = Some p
    \<and> (\<forall>(name, ds) \<in> set (intrinsic_classes con @ lib_classes). \<exists>c jsp. qinterpFindClass q name = Some c
        \<and> classes (qworld q) c = Some jsp \<and> cname jsp = name \<and> baseclass jsp = None
        \<and> list_all2 (\<lambda>d m. \<exists>mp. methods (qworld q) m = Some mp \<and> fits (lb E) d mp) ds (cmethods jsp))"
proof -
  from construct_ok [OF assms, of n con] obtain q where
    q: "qinterpConstruct E (interp (Suc (Suc n)) E) con s = Some (Some q, ps q)" "idle E q" "programs q = [fresh (wld s)]"
      "\<forall>(name, ds) \<in> set (all_classes con). \<exists>c. qclasses q name = Some c \<and> class_of (lb E) (qworld q) (fresh (wld s)) name ds c"
    by blast
  have "class_of L w k name ds c \<Longrightarrow> \<exists>jsp. classes w c = Some jsp \<and> cname jsp = name \<and> baseclass jsp = None
      \<and> list_all2 (\<lambda>d m. \<exists>mp. methods w m = Some mp \<and> fits L d mp) ds (cmethods jsp)"
    for L :: "'a lib" and w :: "('a, 'b) world" and k name ds c
    unfolding class_of_def methods_of_def by (fastforce elim!: list_all2_mono)
  with q(4) have "\<forall>(name, ds) \<in> set (all_classes con). \<exists>c jsp. qinterpFindClass q name = Some c
        \<and> classes (qworld q) c = Some jsp \<and> cname jsp = name \<and> baseclass jsp = None
        \<and> list_all2 (\<lambda>d m. \<exists>mp. methods (qworld q) m = Some mp \<and> fits (lb E) d mp) ds (cmethods jsp)"
    unfolding qinterpFindClass_def by fastforce
  with q(1-3) show ?thesis
    unfolding all_classes_def by (intro exI [of _ q] exI [of _ "fresh (wld s)"]) (simp add: idle_def qinterpGetIntrinsics_def)
qed

lemma laws_a: "lib_laws (lb env_a)" "stores_ok (i16 (lb env_a))" "tables_ok (lb env_a)" "name_laws env_a" "1 < cstack (ex env_a)"
proof -
  show "lib_laws (lb env_a)" "stores_ok (i16 (lb env_a))" using fun_lib_laws fun_i16_ok by (simp_all add: env_a_def)
  show "tables_ok (lb env_a)" "1 < cstack (ex env_a)" by (simp_all add: env_a_def tables_ok_def fun_lib_def int_ext_def)
  have "takeWhile (\<lambda>c. c \<noteq> CHR ''.'') (A @ CHR ''.'' # t) = A" if "CHR ''.'' \<notin> set A" for A t
    using that by (induction A) auto
  then show "name_laws env_a" by (simp add: name_laws_def env_a_def)
qed

theorem construct_loads_witness:
  "\<exists>q c. qinterpConstruct env_a (interp 2 env_a) True pstate_a = Some (Some q, ps q) \<and> qinterpFindClass q ''Object'' = Some c"
proof -
  have "0 < cstack (ex env_a)" using laws_a(5) by simp
  moreover have "mallocs (wld pstate_a) = []" by (simp add: pstate_a_def world_a_def)
  ultimately obtain q p where "qinterpConstruct env_a (interp (Suc (Suc 0)) env_a) True pstate_a = Some (Some q, ps q)"
    "\<forall>(name, ds) \<in> set (intrinsic_classes True @ lib_classes). \<exists>c jsp. qinterpFindClass q name = Some c
        \<and> classes (qworld q) c = Some jsp \<and> cname jsp = name \<and> baseclass jsp = None
        \<and> list_all2 (\<lambda>d m. \<exists>mp. methods (qworld q) m = Some mp \<and> fits (lb env_a) d mp) ds (cmethods jsp)"
    using construct_loads [OF laws_a(1,3,4), of pstate_a 0 True] by blast
  moreover have "(''Object'', object_methods) \<in> set (intrinsic_classes True @ lib_classes)" by (simp add: intrinsic_classes_def)
  with calculation(2) have "\<exists>c. qinterpFindClass q ''Object'' = Some c" by fast
  ultimately show ?thesis by (auto simp: eval_nat_numeral)
qed

text \<open>C1. From source text to a value. With no allocation failing: an interpreter is constructed, the
  source text of a class with a static method that returns an expression is parsed, the program is
  prepared and the method is run. Every step succeeds, with fuel for the parser that grows with the
  expression and fuel for the interpreter that grows with its code, and the variant handed out
  holds the value of the expression as \<open>eval\<close> defines it.\<close>
theorem program_runs:
  assumes "source_ok A f e" and "eval e = Some v" and "A \<noteq> ''Object''"
    and "lib_laws (lb E)" and "stores_ok (i16 (lb E))" and "tables_ok (lb E)" and "name_laws E" and "1 < cstack (ex E)"
    and "mallocs (wld s) = []" and "run = interp (length (code_of e) + 3 + n) E"
  shows "\<exists>q p S' q1 l q2. qinterpConstruct E run con s = Some (Some q, ps q)
    \<and> parseChar (fuel e + 7 + k) (lb E) (ex E) depth note True True (source A f e) None (ps q) = Some (Some p, S')
    \<and> qinterpPrepare E run p (q\<lparr>ps := S'\<rparr>) = Some (True, q1)
    \<and> qinterpRun E run A f 0 True q1 = Some (IERR_NONE, Some l, q2) \<and> var_at q2 l = Some v"
proof -
  let ?n = "length (code_of e) + 1 + n"
  have r: "run = interp (Suc (Suc ?n)) E" using assms(10) by (simp add: eval_nat_numeral)
  have A: "CHR ''.'' \<notin> set A" "is_name f" "exp_ok e"
    using assms(1) by (auto simp: source_ok_def is_name_def isident_def ctype_defs schar_def)
  have "0 < cstack (ex E)" using assms(8) by simp
  from construct_ok [OF assms(4,6,7) this assms(9), of ?n con] obtain q where
    q: "qinterpConstruct E run con s = Some (Some q, ps q)" "idle E q" "\<forall>(name, ds) \<in> set (all_classes con). \<exists>c.
        qclasses q name = Some c \<and> class_of (lb E) (qworld q) (fresh (wld s)) name ds c" unfolding r by blast
  have "(''Object'', object_methods) \<in> set (all_classes con)" by (simp add: all_classes_def intrinsic_classes_def)
  with q(3) obtain ob where ob: "qclasses q ''Object'' = Some ob"
    "class_of (lb E) (qworld q) (fresh (wld s)) ''Object'' object_methods ob" by blast
  have "mallocs (wld (ps q)) = []" using q(2) by (simp add: idle_def ready_def qworld_def)
  from source_compiles [OF assms(1,4,5,6) this, of k "ex E" depth "note"] obtain p c S' where
    p: "parseChar (fuel e + 7 + k) (lb E) (ex E) depth note True True (source A f e) None (ps q) = Some (Some p, S')"
      "compiled (lb E) A f e p c (ps q) S'" by blast
  from compiled_prepares [OF assms(4,6,7,8) q(2) ob p(2) assms(3) A(1,2), of ?n] obtain q1 jsp m mp where
    q1: "qinterpPrepare E run p (q\<lparr>ps := S'\<rparr>) = Some (True, q1)" "idle E q1" "qclasses q1 A = Some c"
      "classes (qworld q1) c = Some jsp" "jsclassFindMethod (methods (qworld q1)) jsp (f @ '':Sv'') = Some m"
      "methods (qworld q1) m = Some mp" "method_of (lb E) (f @ '':Sv'') True (method_code e) mp" unfolding r by blast
  have "ready E q1" "cache_ok q1" "nstack q1 = 0" using q1(2) by (simp_all add: idle_def)
  from run_value [OF A(3) assms(2) q1(7) assms(4,7) A(1) this(1,2) q1(3-6) this(3), of n] obtain l q2 where
    "qinterpRun E run A f 0 True q1 = Some (IERR_NONE, Some l, q2)" "var_at q2 l = Some v" unfolding assms(10) by blast
  with q(1) p(1) q1(1) show ?thesis by blast
qed

theorem program_runs_witness:
  "\<exists>q p S' q1 l q2. qinterpConstruct env_a (interp 6 env_a) True pstate_a = Some (Some q, ps q)
    \<and> parseChar 15 fun_lib int_ext 1 (\<lambda>m k v. Some (m(k \<mapsto> v))) True True
        ''class A { public static f ( ) { return 7 - 9 ; } } '' None (ps q) = Some (Some p, S')
    \<and> qinterpPrepare env_a (interp 6 env_a) p (q\<lparr>ps := S'\<rparr>) = Some (True, q1)
    \<and> qinterpRun env_a (interp 6 env_a) ''A'' ''f'' 0 True q1 = Some (IERR_NONE, Some l, q2)
    \<and> var_at q2 l = Some (mk TYPE_INT (DI (-2)))"
proof -
  let ?e = "Op T_MINUS (Lit ''7'') (Lit ''9'')"
  have t: "toks 0 ?e = [(T_INT, ''7''), (T_MINUS, []), (T_INT, ''9'')]"
    by (simp add: parens_def prec_def op_tables)
  have ok: "source_ok ''A'' ''f'' ?e"
    unfolding source_ok_def t
    by (simp add: opcode_of_def op_tables token_ok_def is_name_def keyword_def keyword_table_def Lexer_Spec.operators_def
        isdigit_def isident_def ctype_defs schar_def LEX_TOKE_BUF_def)
  have src: "source ''A'' ''f'' ?e = ''class A { public static f ( ) { return 7 - 9 ; } } ''"
    unfolding source_def class_toks_def method_toks_def t
    by (simp add: spell_def spellings_def keyword_table_def Lexer_Spec.operators_def)
  have ev: "eval ?e = Some (mk TYPE_INT (DI (-2)) :: (loc, int) variant)"
    by (simp add: binary_value_def number_def opcode_of_def op_tables int_operators_def int_result_def atoi_def rint_def
        isdigit_def isspace_def schar_def)
  have m: "mallocs (wld pstate_a) = []" "''A'' \<noteq> ''Object''" by (simp_all add: pstate_a_def world_a_def)
  have env: "lb env_a = fun_lib" "ex env_a = int_ext" by (simp_all add: env_a_def)
  have k: "fuel ?e + 7 + 3 = 15" "length (code_of ?e) + 3 + 0 = 6" by simp_all
  show ?thesis
    using program_runs [OF ok ev m(2) laws_a m(1) refl, of 0 True 3 1 "\<lambda>m k v. Some (m(k \<mapsto> v))"]
    unfolding src env k .
qed

subsection \<open>A class named Object\<close>

lemma own_base_recurses:
  "classes w c = Some jsp \<Longrightarrow> baseclass jsp = Some c \<Longrightarrow> vtable jsp = None \<Longrightarrow> jsclassInitVtab d L c w = None"
  by (induction d) simp_all

text \<open>C3. A class named Object overflows the C stack: the compiler accepts it, with the default base
  class, which is Object; \<open>qinterpPrepare\<close> looks the base class up in the program first, finds the
  class itself, and \<open>jsclassInitVtab\<close> recurses into the base class for ever, whatever the depth
  of the stack.\<close>
theorem object_overflows:
  assumes "source_ok ''Object'' f e" and "lib_laws (lb E)" and "stores_ok (i16 (lb E))" and "tables_ok (lb E)"
    and "mallocs (qworld q) = []"
  shows "\<exists>p S'. parseChar (fuel e + 7 + k) (lb E) (ex E) depth note True True (source ''Object'' f e) None (ps q) = Some (Some p, S')
    \<and> qinterpPrepare E run p (q\<lparr>ps := S'\<rparr>) = None"
proof -
  have "mallocs (wld (ps q)) = []" using assms(5) by (simp add: qworld_def)
  from source_compiles [OF assms(1-4) this, of k "ex E" depth "note"] obtain p c S' where
    p: "parseChar (fuel e + 7 + k) (lb E) (ex E) depth note True True (source ''Object'' f e) None (ps q) = Some (Some p, S')"
    and c: "compiled (lb E) ''Object'' f e p c (ps q) S'" by blast
  from c obtain pp cls where P: "progs S' p = Some pp" "pclasses pp = [''Object'' \<mapsto> c]" "lclasses pp = [c]"
    "classes (wld S') c = Some cls" "cname cls = ''Object''" "basename cls = ''Object''" "vtable cls = None" "mallocs (wld S') = []"
    unfolding compiled_def by (elim exE conjE) auto
  obtain t where t: "ht_add (lb E) (qclasses q) ''Object'' c = Some t" using assms(4) unfolding tables_ok_def by blast
  let ?W = "wld S'"
  let ?W1 = "?W\<lparr>classes := (classes ?W)(c \<mapsto> cls\<lparr>baseclass := Some c\<rparr>)\<rparr>"
  have "jsclassInitVtab d (lb E) c ?W1 = None" for d
    by (rule own_base_recurses [where jsp = "cls\<lparr>baseclass := Some c\<rparr>"]) (use P(7) in simp_all)
  moreover have "programFindClass (Suc d) ''Object'' p S' = Some (Some c, S')" for d
    using P by (simp add: no_failure free_blocks_def Let_def)
  then have "programFindClass (cstack (ex E)) ''Object'' p S' = None
      \<or> programFindClass (cstack (ex E)) ''Object'' p S' = Some (Some c, S')" by (cases "cstack (ex E)") simp_all
  ultimately have "link_base E p c ''Object'' ((q\<lparr>ps := S'\<rparr>)\<lparr>qclasses := t\<rparr>) = None"
    using P(4) by (elim disjE) (simp_all add: link_base_def set_base_def qworld_def set_world_def set_class_def)
  then have "qinterpPrepare E run p (q\<lparr>ps := S'\<rparr>) = None"
    using P t by (simp add: qinterpPrepare_def qworld_def)
  with p show ?thesis by blast
qed

theorem object_overflows_witness:
  "\<exists>p S'. parseChar 8 fun_lib int_ext 1 (\<lambda>m k v. Some (m(k \<mapsto> v))) True True
        ''class Object { public static f ( ) { return 7 ; } } '' None pstate_a = Some (Some p, S')
    \<and> qinterpPrepare env_a (interp 9 env_a) p (qinterp_a\<lparr>ps := S'\<rparr>) = None"
proof -
  let ?e = "Lit ''7''" and ?q = "qinterp_a\<lparr>ps := pstate_a\<rparr>"
  have ok: "source_ok ''Object'' ''f'' ?e"
    by (simp add: source_ok_def token_ok_def is_name_def keyword_def keyword_table_def Lexer_Spec.operators_def
        isdigit_def isident_def ctype_defs schar_def LEX_TOKE_BUF_def)
  have src: "source ''Object'' ''f'' ?e = ''class Object { public static f ( ) { return 7 ; } } ''"
    unfolding source_def class_toks_def method_toks_def
    by (simp add: spell_def spellings_def keyword_table_def Lexer_Spec.operators_def)
  have m: "mallocs (qworld ?q) = []" by (simp add: qworld_def pstate_a_def world_a_def)
  have env: "lb env_a = fun_lib" "ex env_a = int_ext" by (simp_all add: env_a_def)
  have k: "fuel ?e + 7 + 0 = 8" "ps ?q = pstate_a" "?q\<lparr>ps := S'\<rparr> = qinterp_a\<lparr>ps := S'\<rparr>" for S' by simp_all
  show ?thesis
    using object_overflows [OF ok laws_a(1-3) m, of 0 1 "\<lambda>m k v. Some (m(k \<mapsto> v))" "interp 9 env_a"]
    unfolding src env k .
qed

end
