(* ===== verification/Natives.thy ===== *)
theory Natives
  imports Embed
begin

section \<open>Native functions, jspp/src/native.c and jspp/src/intrinsics.c\<close>

text \<open>
  A native function reads its arguments from the locals of the frame, \<open>this\<close> first, and writes
  its result to the place ret. What it keeps between calls is the native data of the instance.
  The variants in that data are the instance's own, at places \<open>Elem a\<close>.

  The spl library holds the data. Its functions are not under src/, so they are fields of \<open>nlib\<close>,
  over lists for its vectors, over the entries for its hash tables: \<open>v_get\<close> and \<open>v_set\<close> for
  \<open>vectorElementAt\<close> and \<open>vectorSetElementAt\<close>, where None is the null pointer or exhausted memory.
  So are the clock and the random numbers, by how often they were asked before, and \<open>exp\<close>.

  A step is None where the C code reads the native data of an instance that has none or has
  another kind, an uninitialised \<open>magic\<close>, or an argument that is not there. None is also the step
  that leaves a half-made holder on the instance, with a finalizer that was never set.
\<close>

record 'f nlib =
  v_get :: "loc option list \<Rightarrow> int \<Rightarrow> loc option"
  v_set :: "loc option list \<Rightarrow> loc option \<Rightarrow> int \<Rightarrow> loc option list option"
  h_add :: "(string \<times> loc) list \<Rightarrow> string \<Rightarrow> loc \<Rightarrow> (string \<times> loc) list option"
  h_get :: "(string \<times> loc) list \<Rightarrow> string \<Rightarrow> loc option"
  sb_new :: "int32 \<Rightarrow> string option"
  sb_append :: "string \<Rightarrow> string \<Rightarrow> string option"
  sb_string :: "string \<Rightarrow> string option"
  clock :: "nat \<Rightarrow> int"
  uniform :: "nat \<Rightarrow> 'f"
  fl_exp :: "'f \<Rightarrow> 'f"

text \<open>
  What the code relies on: reading a vector gives its elements, and null outside; writing one
  extends it with nulls where it is too short, and needs no memory where it is not; a hash table maps a key to the value that was added
  last, and a string buffer is what was appended.
\<close>

definition nlib_laws :: "'f nlib \<Rightarrow> bool" where
  "nlib_laws N \<longleftrightarrow>
     (\<forall>xs k. v_get N xs k = (if 0 \<le> k \<and> k < int (length xs) then xs ! nat k else None))
     \<and> (\<forall>xs l k ys. 0 \<le> k \<longrightarrow> v_set N xs l k = Some ys \<longrightarrow>
          ys = (xs @ replicate (Suc (nat k) - length xs) None)[nat k := l])
     \<and> (\<forall>xs l k. 0 \<le> k \<and> k < int (length xs) \<longrightarrow> v_set N xs l k \<noteq> None)
     \<and> (\<forall>t s l t'. h_add N t s l = Some t' \<longrightarrow> map_of t' = (map_of t)(s \<mapsto> l))
     \<and> (\<forall>t s. h_get N t s = map_of t s)
     \<and> (\<forall>k s. sb_new N k = Some s \<longrightarrow> s = [])
     \<and> (\<forall>s t u. sb_append N s t = Some u \<longrightarrow> u = s @ t)
     \<and> (\<forall>s t. sb_string N s = Some t \<longrightarrow> t = s)"

type_synonym ('c, 'f) native_fn = "loc \<Rightarrow> ('c, 'f) qinterp \<Rightarrow> (InterpErrors \<times> ('c, 'f) qinterp) option"

subsection \<open>Access for native functions\<close>

definition getArgumentN :: "('c, 'f) qinterp \<Rightarrow> int \<Rightarrow> loc option" where
  "getArgumentN q n = do { sf \<leftarrow> cur q; elem (map (Local (fid sf)) [0..<nlocals sf]) n }"

definition findField ::
  "('c, 'f) env \<Rightarrow> nat \<Rightarrow> string \<Rightarrow> ('c, 'f) qinterp \<Rightarrow> (loc option \<times> ('c, 'f) qinterp) option" where
  "findField E inst name q = do {
     x \<leftarrow> insts (qmem q) inst;
     jsp \<leftarrow> classes (qworld q) (myclass x);
     (case jsclassFindField jsp name of
        None \<Rightarrow> Some (None, q)
      | Some vdp \<Rightarrow>
          if visnative vdp then do {
            f \<leftarrow> nativefield vdp;
            (err, q) \<leftarrow> call_field E f vdp Tempdata1 q;
            Some (if err \<noteq> IERR_NONE then None else Some Tempdata1, q) }
          else do {
            l \<leftarrow> elem (if visstatic vdp then staticlocations jsp else ifields x) (voffset vdp);
            Some (Some l, q) }) }"

text \<open>The instance in a variant, read without a test of its tag, and the change of an instance.\<close>

definition inst_of :: "('c, 'f) qinterp \<Rightarrow> loc \<Rightarrow> nat option" where
  "inst_of q l = do { v \<leftarrow> var_at q l; as_inst (data v) }"

definition upd_inst ::
  "nat \<Rightarrow> (loc jsinst \<Rightarrow> loc jsinst) \<Rightarrow> ('c, 'f) qinterp \<Rightarrow> ('c, 'f) qinterp option" where
  "upd_inst i f q = do {
     x \<leftarrow> insts (qmem q) i;
     Some (set_mem ((qmem q)\<lparr>insts := (insts (qmem q))(i \<mapsto> f x)\<rparr>) q) }"

definition set_native :: "nat \<Rightarrow> loc native \<Rightarrow> ('c, 'f) qinterp \<Rightarrow> ('c, 'f) qinterp option" where
  "set_native i d = upd_inst i (\<lambda>x. x\<lparr>nativedata := d\<rparr>)"

definition set_magic :: "nat \<Rightarrow> nat \<Rightarrow> ('c, 'f) qinterp \<Rightarrow> ('c, 'f) qinterp option" where
  "set_magic i m = upd_inst i (\<lambda>x. x\<lparr>magic := Some m\<rparr>)"

definition native_of :: "('c, 'f) qinterp \<Rightarrow> nat \<Rightarrow> loc native option" where
  "native_of q i = map_option nativedata (insts (qmem q) i)"

definition magic_of :: "('c, 'f) qinterp \<Rightarrow> nat \<Rightarrow> nat option" where
  "magic_of q i = do { x \<leftarrow> insts (qmem q) i; magic x }"

text \<open>A new variant for the native data: a copy of the one at l.\<close>

definition dup_elem ::
  "('c, 'f) env \<Rightarrow> loc \<Rightarrow> ('c, 'f) qinterp \<Rightarrow> (loc option \<times> ('c, 'f) qinterp) option" where
  "dup_elem E l q = do {
     let (ok, q) = onworld take_block q;
     let (a, q) = (if ok then let (a, q) = onworld new_address q in (Some (Elem a), q) else (None, q));
     (r, q) \<leftarrow> onmem (varConstructDup (ex E) a l) q;
     Some (r, if ok \<and> r = None then qfree 1 q else q) }"

text \<open>What \<open>printf("%s")\<close> and the other readers of C strings see of a string.\<close>

definition c_str :: "string \<Rightarrow> string" where
  "c_str s = takeWhile (\<lambda>c. c \<noteq> CHR 0x00) s"

text \<open>\<open>malloc\<close> of a holder for an instance: the pointer is overwritten, also by null.\<close>

definition new_holder :: "nat \<Rightarrow> ('c, 'f) qinterp \<Rightarrow> (bool \<times> ('c, 'f) qinterp) option" where
  "new_holder i q = (let (ok, q) = onworld take_block q in do { q \<leftarrow> set_native i NoNative q; Some (ok, q) })"

definition refused :: "InterpErrors \<Rightarrow> ('c, 'f) qinterp \<Rightarrow> (InterpErrors \<times> ('c, 'f) qinterp) option" where
  "refused e q = Some (e, q)"

subsection \<open>Object\<close>

definition object_cast :: "('c, 'f) env \<Rightarrow> jstype \<Rightarrow> ('c, 'f) native_fn" where
  "object_cast E ty ret q = do {
     vararg \<leftarrow> getArgumentN q 0;
     (ok, q) \<leftarrow> onmem (varAssign (ex E) ret vararg) q;
     if \<not> ok then refused IERR_OUT_OF_MEM q
     else do {
       (ok, q) \<leftarrow> onmem (varCast (ex E) ret ty) q;
       Some (if ok then IERR_NONE else IERR_TYPE_MISMATCH, q) } }"

definition object_parseInt :: "('c, 'f) env \<Rightarrow> ('c, 'f) native_fn" where
  "object_parseInt E = object_cast E TYPE_INT"

definition object_parseFloat :: "('c, 'f) env \<Rightarrow> ('c, 'f) native_fn" where
  "object_parseFloat E = object_cast E TYPE_FLOAT"

definition object_toString :: "('c, 'f) env \<Rightarrow> ('c, 'f) native_fn" where
  "object_toString E = object_cast E TYPE_STRING"

definition object_toStringI :: "('c, 'f) env \<Rightarrow> ('c, 'f) native_fn" where
  "object_toStringI E = object_cast E TYPE_STRING"

text \<open>The name that could not be allocated is stored as a null string.\<close>

definition object_typename :: "('c, 'f) env \<Rightarrow> ('c, 'f) native_fn" where
  "object_typename E ret q = do {
     vararg \<leftarrow> getArgumentN q 0;
     name \<leftarrow> varTypeName (cstack (ex E)) (ex E)
       (\<lambda>c. case classes (qworld q) c of None \<Rightarrow> [] | Some jsp \<Rightarrow> cname jsp) (qmem q) vararg;
     q \<leftarrow> domem (VARCLEAR (ex E) ret) q;
     (_, q) \<leftarrow> onmem (put ret TYPE_STRING (case name of None \<Rightarrow> DNull | Some s \<Rightarrow> DS s)) q;
     Some (IERR_NONE, q) }"

definition object_length :: "('c, 'f) env \<Rightarrow> ('c, 'f) native_fn" where
  "object_length E ret q = do {
     vararg \<leftarrow> getArgumentN q 0;
     v \<leftarrow> var_at q vararg;
     n \<leftarrow> (if vtype v = TYPE_STRING then map_option (\<lambda>s. of_nat (length s)) (as_str (data v)) else Some 4);
     (_, q) \<leftarrow> onmem (varAssignInt (ex E) ret n) q;
     Some (IERR_NONE, q) }"

subsection \<open>Array\<close>

abbreviation (input) ARRAY_MAGIC :: nat where "ARRAY_MAGIC \<equiv> 104"

text \<open>
  The arguments from x on as ints; with \<open>neg\<close> false a negative one is refused. What was read
  before an error is kept.
\<close>

primrec read_ints ::
  "('c, 'f) env \<Rightarrow> bool \<Rightarrow> ('c, 'f) qinterp \<Rightarrow> nat \<Rightarrow> nat \<Rightarrow> (InterpErrors \<times> int32 list) option" where
  "read_ints E neg q x 0 = Some (IERR_NONE, [])"
| "read_ints E neg q x (Suc k) = do {
     l \<leftarrow> getArgumentN q (int x);
     r \<leftarrow> varGetInt (ex E) (qmem q) l;
     (case r of
        None \<Rightarrow> Some (IERR_TYPE_MISMATCH, [])
      | Some n \<Rightarrow>
          if \<not> neg \<and> n <s 0 then Some (IERR_INDEX_OUT_OF_BOUNDS, [])
          else do { (err, ns) \<leftarrow> read_ints E neg q (Suc x) k; Some (err, n # ns) }) }"

text \<open>
  Making the data of an array: a holder, the data, its vector, the lengths of the dimensions, and
  the last element, which extends the vector. A failed length leaves the array without elements.
  There is room for ten lengths.
\<close>

definition array_elements :: "int32 list \<Rightarrow> int32" where
  "array_elements lens = fold (*) lens 1"

definition array_make ::
  "'f nlib \<Rightarrow> nat \<Rightarrow> nat \<Rightarrow> (('c, 'f) qinterp \<Rightarrow> (InterpErrors \<times> int32 list) option) \<Rightarrow> ('c, 'f) qinterp
     \<Rightarrow> (InterpErrors \<times> ('c, 'f) qinterp) option" where
  "array_make N inst dims lengths q = do {
     (ok, q) \<leftarrow> new_holder inst q;
     if \<not> ok then refused IERR_OUT_OF_MEM q
     else
       (let (ok, q) = onworld take_block q in if \<not> ok then None else
        let (ok, q) = onworld take_block q in if \<not> ok then refused IERR_OUT_OF_MEM (qfree 2 q) else
        do {
          (err, lens) \<leftarrow> lengths q;
          if length lens > 10 then None
          else if err \<noteq> IERR_NONE then do {
            q \<leftarrow> set_native inst (ArrayData dims lens []) q;
            refused err q }
          else
            (case v_set N [] None (sint (array_elements lens - 1)) of
               None \<Rightarrow> refused IERR_OUT_OF_MEM (qfree 3 q)
             | Some xs \<Rightarrow> do {
                 q \<leftarrow> set_native inst (ArrayData dims lens xs) q;
                 q \<leftarrow> set_magic inst ARRAY_MAGIC q;
                 Some (IERR_NONE, q) }) }) }"

definition array_arrayX :: "'f nlib \<Rightarrow> ('c, 'f) env \<Rightarrow> ('c, 'f) native_fn" where
  "array_arrayX N E ret q = do {
     varthis \<leftarrow> getArgumentN q 0;
     n \<leftarrow> getArgumentCount q;
     inst \<leftarrow> inst_of q varthis;
     array_make N inst (n - 1) (\<lambda>q. read_ints E False q 1 (n - 1)) q }"

text \<open>The interface for C code: the lengths are C arguments.\<close>

fun check_lengths :: "int32 list \<Rightarrow> InterpErrors \<times> int32 list" where
  "check_lengths [] = (IERR_NONE, [])"
| "check_lengths (len # lens) =
     (if len <s 0 then (IERR_INDEX_OUT_OF_BOUNDS, [])
      else case check_lengths lens of (err, ns) \<Rightarrow> (err, len # ns))"

definition arrayHelperConstruct ::
  "'f nlib \<Rightarrow> nat \<Rightarrow> int32 list \<Rightarrow> ('c, 'f) qinterp \<Rightarrow> (InterpErrors \<times> ('c, 'f) qinterp) option" where
  "arrayHelperConstruct N inst lens = array_make N inst (length lens) (\<lambda>q. Some (check_lengths lens))"

text \<open>The element that indexes name, and its variant, which is made when there is none yet.\<close>

definition array_element :: "int32 list \<Rightarrow> int32 list \<Rightarrow> int32" where
  "array_element indexes lens = fold (\<lambda>(i, len) element. element + i * len) (zip indexes lens) 0"

definition array_cell ::
  "'f nlib \<Rightarrow> ('c, 'f) env \<Rightarrow> nat \<Rightarrow> int \<Rightarrow> ('c, 'f) qinterp \<Rightarrow> (loc option \<times> ('c, 'f) qinterp) option" where
  "array_cell N E inst element q = do {
     d \<leftarrow> native_of q inst;
     (case d of
        ArrayData dims lens xs \<Rightarrow>
          (case v_get N xs element of
             Some l \<Rightarrow> Some (Some l, q)
           | None \<Rightarrow>
               (let (ok, q) = onworld take_block q in if \<not> ok then Some (None, q) else
                let (a, q) = onworld new_address q
                in do {
                  q \<leftarrow> domem (\<lambda>st. Some (snd (varConstruct (Some (Elem a)) st))) q;
                  (_, q) \<leftarrow> onmem (varCast (ex E) (Elem a) TYPE_NULL) q;
                  q \<leftarrow> (case v_set N xs (Some (Elem a)) element of
                          None \<Rightarrow> Some q
                        | Some ys \<Rightarrow> set_native inst (ArrayData dims lens ys) q);
                  Some (Some (Elem a), q) }))
      | _ \<Rightarrow> None) }"

definition arrayHelperSet ::
  "'f nlib \<Rightarrow> ('c, 'f) env \<Rightarrow> nat \<Rightarrow> loc \<Rightarrow> int32 list \<Rightarrow> ('c, 'f) qinterp
     \<Rightarrow> (InterpErrors \<times> ('c, 'f) qinterp) option" where
  "arrayHelperSet N E inst vardata indexes q = do {
     d \<leftarrow> native_of q inst;
     (case d of
        ArrayData dims lens xs \<Rightarrow>
          (let (ok, q) = onworld take_block q in if \<not> ok then refused IERR_OUT_OF_MEM q else
           let q = qfree 1 q in
           if length indexes \<noteq> dims then refused IERR_WRONG_ARRAY_INDEXS q
           else if length lens < dims then None
           else do {
             (cell, q) \<leftarrow> array_cell N E inst (sint (array_element indexes lens)) q;
             (case cell of
                None \<Rightarrow> refused IERR_OUT_OF_MEM q
              | Some l \<Rightarrow> do { (_, q) \<leftarrow> onmem (varAssign (ex E) l vardata) q; Some (IERR_NONE, q) }) })
      | _ \<Rightarrow> None) }"

text \<open>The test that \<open>this\<close> is an array, and its data.\<close>

definition array_this :: "('c, 'f) qinterp \<Rightarrow> ((nat \<times> nat \<times> int32 list) option) option" where
  "array_this q = do {
     varthis \<leftarrow> getArgumentN q 0;
     v \<leftarrow> var_at q varthis;
     if vtype v \<noteq> TYPE_INST then Some None
     else do {
       i \<leftarrow> as_inst (data v);
       m \<leftarrow> magic_of q i;
       if m \<noteq> ARRAY_MAGIC then Some None
       else do {
         d \<leftarrow> native_of q i;
         (case d of ArrayData dims lens xs \<Rightarrow> Some (Some (i, dims, lens)) | _ \<Rightarrow> None) } } }"

definition array_itemX :: "'f nlib \<Rightarrow> ('c, 'f) env \<Rightarrow> ('c, 'f) native_fn" where
  "array_itemX N E ret q = do {
     n \<leftarrow> getArgumentCount q;
     let (ok, q) = onworld take_block q;
     if \<not> ok then refused IERR_OUT_OF_MEM q
     else do {
       this \<leftarrow> array_this q;
       let q = qfree 1 q;
       (case this of
          None \<Rightarrow> refused IERR_TYPE_MISMATCH q
        | Some (inst, dims, lens) \<Rightarrow>
            if n - 1 \<noteq> dims then refused IERR_WRONG_ARRAY_INDEXS q
            else do {
              (err, indexes) \<leftarrow> read_ints E True q 1 (n - 1);
              if err \<noteq> IERR_NONE then refused err q
              else if length lens < dims then None
              else do {
                (cell, q) \<leftarrow> array_cell N E inst (sint (array_element indexes lens)) q;
                (case cell of
                   None \<Rightarrow> refused IERR_OUT_OF_MEM q
                 | Some l \<Rightarrow> do { (_, q) \<leftarrow> onmem (varRef (ex E) ret l) q; Some (IERR_NONE, q) }) } }) } }"

definition return_int ::
  "('c, 'f) env \<Rightarrow> loc \<Rightarrow> int32 \<Rightarrow> ('c, 'f) qinterp \<Rightarrow> (InterpErrors \<times> ('c, 'f) qinterp) option" where
  "return_int E ret k q = do {
     q \<leftarrow> domem (varClear (ex E) ret) q;
     q \<leftarrow> domem (wr ret (mk TYPE_INT (DI k))) q;
     Some (IERR_NONE, q) }"

text \<open>A negative dimension is not refused, and reads in front of the lengths.\<close>

definition array_length :: "('c, 'f) env \<Rightarrow> ('c, 'f) native_fn" where
  "array_length E ret q = do {
     this \<leftarrow> array_this q;
     (case this of
        None \<Rightarrow> refused IERR_TYPE_MISMATCH q
      | Some (inst, dims, lens) \<Rightarrow> do {
          n \<leftarrow> getArgumentCount q;
          dim \<leftarrow> (if n = 2 then do { l \<leftarrow> getArgumentN q 1; varGetInt (ex E) (qmem q) l } else Some (Some 0));
          (case dim of
             None \<Rightarrow> refused IERR_TYPE_MISMATCH q
           | Some dim \<Rightarrow>
               if sint dim \<ge> int dims then refused IERR_INDEX_OUT_OF_BOUNDS q
               else do { len \<leftarrow> elem lens (sint dim); return_int E ret len q }) }) }"

definition array_dims :: "('c, 'f) env \<Rightarrow> ('c, 'f) native_fn" where
  "array_dims E ret q = do {
     this \<leftarrow> array_this q;
     (case this of
        None \<Rightarrow> refused IERR_TYPE_MISMATCH q
      | Some (inst, dims, lens) \<Rightarrow> return_int E ret (of_nat dims) q) }"

subsection \<open>Vector\<close>

abbreviation (input) VECTOR_MAGIC :: nat where "VECTOR_MAGIC \<equiv> 248"

definition vector_vector :: "('c, 'f) native_fn" where
  "vector_vector ret q = do {
     varthis \<leftarrow> getArgumentN q 0;
     inst \<leftarrow> inst_of q varthis;
     (ok, q) \<leftarrow> new_holder inst q;
     if \<not> ok then refused IERR_OUT_OF_MEM q
     else
       (let (ok, q) = onworld take_block q in if \<not> ok then refused IERR_OUT_OF_MEM (qfree 1 q) else
        do {
          q \<leftarrow> set_native inst (VectorData []) q;
          q \<leftarrow> set_magic inst VECTOR_MAGIC q;
          Some (IERR_NONE, q) }) }"

text \<open>The vector of \<open>this\<close>; its magic is not tested.\<close>

definition vector_this :: "('c, 'f) qinterp \<Rightarrow> (nat \<times> loc option list) option" where
  "vector_this q = do {
     varthis \<leftarrow> getArgumentN q 0;
     i \<leftarrow> inst_of q varthis;
     d \<leftarrow> native_of q i;
     (case d of VectorData xs \<Rightarrow> Some (i, xs) | _ \<Rightarrow> None) }"

definition return_nothing ::
  "('c, 'f) env \<Rightarrow> loc \<Rightarrow> ('c, 'f) qinterp \<Rightarrow> (InterpErrors \<times> ('c, 'f) qinterp) option" where
  "return_nothing E ret q = do { q \<leftarrow> domem (varClear (ex E) ret) q; Some (IERR_NONE, q) }"

text \<open>A copy that cannot be added is left behind.\<close>

definition vector_add :: "('c, 'f) env \<Rightarrow> ('c, 'f) native_fn" where
  "vector_add E ret q = do {
     (inst, xs) \<leftarrow> vector_this q;
     varitem \<leftarrow> getArgumentN q 1;
     (newvar, q) \<leftarrow> dup_elem E varitem q;
     if newvar = None then refused IERR_OUT_OF_MEM q
     else
       (let (ok, q) = onworld grow q in if \<not> ok then refused IERR_OUT_OF_MEM q else
        do {
          q \<leftarrow> set_native inst (VectorData (xs @ [newvar])) q;
          return_nothing E ret q }) }"

definition vector_size :: "('c, 'f) env \<Rightarrow> ('c, 'f) native_fn" where
  "vector_size E ret q = do {
     (inst, xs) \<leftarrow> vector_this q;
     (_, q) \<leftarrow> onmem (varAssignInt (ex E) ret (of_nat (length xs))) q;
     Some (IERR_NONE, q) }"

definition vector_elementat :: "'f nlib \<Rightarrow> ('c, 'f) env \<Rightarrow> ('c, 'f) native_fn" where
  "vector_elementat N E ret q = do {
     (inst, xs) \<leftarrow> vector_this q;
     varidx \<leftarrow> getArgumentN q 1;
     idx \<leftarrow> varGetInt (ex E) (qmem q) varidx;
     (case idx of
        None \<Rightarrow> refused IERR_TYPE_MISMATCH q
      | Some k \<Rightarrow>
          (case v_get N xs (sint k) of
             None \<Rightarrow> refused IERR_INDEX_OUT_OF_BOUNDS q
           | Some item \<Rightarrow> do { (_, q) \<leftarrow> onmem (varRef (ex E) ret item) q; Some (IERR_NONE, q) })) }"

text \<open>The old element is destroyed without a test that there is one.\<close>

definition vector_setelementat :: "'f nlib \<Rightarrow> ('c, 'f) env \<Rightarrow> ('c, 'f) native_fn" where
  "vector_setelementat N E ret q = do {
     (inst, xs) \<leftarrow> vector_this q;
     varidx \<leftarrow> getArgumentN q 1;
     varitem \<leftarrow> getArgumentN q 2;
     idx \<leftarrow> varGetInt (ex E) (qmem q) varidx;
     (case idx of
        None \<Rightarrow> refused IERR_TYPE_MISMATCH q
      | Some k \<Rightarrow> do {
          (newvar, q) \<leftarrow> dup_elem E varitem q;
          if newvar = None then refused IERR_OUT_OF_MEM q
          else do {
            oldvar \<leftarrow> v_get N xs (sint k);
            q \<leftarrow> domem (varDestruct (ex E) oldvar) q;
            let q = qfree 1 q;
            (case v_set N xs newvar (sint k) of
               None \<Rightarrow> refused IERR_OUT_OF_MEM q
             | Some ys \<Rightarrow> do {
                 q \<leftarrow> set_native inst (VectorData ys) q;
                 return_nothing E ret q }) } }) }"

primrec destroy_elems :: "('c, 'f) env \<Rightarrow> loc option list \<Rightarrow> ('c, 'f) qinterp \<Rightarrow> ('c, 'f) qinterp option" where
  "destroy_elems E [] q = Some q"
| "destroy_elems E (v # vs) q = do {
     l \<leftarrow> v;
     q \<leftarrow> domem (varDestruct (ex E) l) q;
     destroy_elems E vs (qfree 1 q) }"

definition vector_clear :: "('c, 'f) env \<Rightarrow> ('c, 'f) native_fn" where
  "vector_clear E ret q = do {
     (inst, xs) \<leftarrow> vector_this q;
     q \<leftarrow> destroy_elems E xs q;
     q \<leftarrow> set_native inst (VectorData []) q;
     return_nothing E ret q }"

subsection \<open>Console\<close>

definition console_put :: "('c, 'f) env \<Rightarrow> string \<Rightarrow> ('c, 'f) native_fn" where
  "console_put E eol ret q = do {
     vararg \<leftarrow> getArgumentN q 0;
     str \<leftarrow> varToString (ex E) (qmem q) vararg;
     (case str of
        None \<Rightarrow> refused IERR_OUT_OF_MEM q
      | Some s \<Rightarrow>
          Some (IERR_NONE, set_world ((qworld q)\<lparr>stdout := stdout (qworld q) @ c_str s @ eol\<rparr>) q)) }"

definition console_writeln :: "('c, 'f) env \<Rightarrow> ('c, 'f) native_fn" where
  "console_writeln E = console_put E [CHR 0x0A]"

definition console_write :: "('c, 'f) env \<Rightarrow> ('c, 'f) native_fn" where
  "console_write E = console_put E []"

text \<open>
  \<open>gets\<close> reads a line into a buffer of 255 bytes, whatever the length of the line, and writes
  nothing at the end of the input.
\<close>

definition console_readln :: "('c, 'f) env \<Rightarrow> ('c, 'f) native_fn" where
  "console_readln E ret q =
     (let inp = stdin (qworld q);
          line = takeWhile (\<lambda>c. c \<noteq> CHR 0x0A) inp
      in if inp = [] \<or> length line \<ge> 255 then None
         else do {
           let q = set_world ((qworld q)\<lparr>stdin := drop (Suc (length line)) inp\<rparr>) q;
           (_, q) \<leftarrow> onmem (varAssignChar (ex E) ret (c_str line)) q;
           Some (IERR_NONE, q) })"

subsection \<open>StringBuffer\<close>

abbreviation (input) STRBUF_MAGIC :: nat where "STRBUF_MAGIC \<equiv> 248"

definition stringbuffer_stringbuffer :: "'f nlib \<Rightarrow> ('c, 'f) env \<Rightarrow> ('c, 'f) native_fn" where
  "stringbuffer_stringbuffer N E ret q = do {
     varthis \<leftarrow> getArgumentN q 0;
     inst \<leftarrow> inst_of q varthis;
     n \<leftarrow> getArgumentCount q;
     bufsize \<leftarrow> (if n = 2 then do { l \<leftarrow> getArgumentN q 1; varGetInt (ex E) (qmem q) l } else Some (Some 20));
     (case bufsize of
        None \<Rightarrow> refused IERR_TYPE_MISMATCH q
      | Some k \<Rightarrow> do {
          (ok, q) \<leftarrow> new_holder inst q;
          if \<not> ok then refused IERR_OUT_OF_MEM q
          else
            (case sb_new N k of
               None \<Rightarrow> refused IERR_OUT_OF_MEM (qfree 1 q)
             | Some s \<Rightarrow> do {
                 q \<leftarrow> set_native inst (StrbufData s) q;
                 q \<leftarrow> set_magic inst STRBUF_MAGIC q;
                 Some (IERR_NONE, q) }) }) }"

definition strbuf_this :: "('c, 'f) qinterp \<Rightarrow> (nat \<times> string) option" where
  "strbuf_this q = do {
     varthis \<leftarrow> getArgumentN q 0;
     i \<leftarrow> inst_of q varthis;
     d \<leftarrow> native_of q i;
     (case d of StrbufData s \<Rightarrow> Some (i, s) | _ \<Rightarrow> None) }"

definition stringbuffer_append :: "'f nlib \<Rightarrow> ('c, 'f) env \<Rightarrow> ('c, 'f) native_fn" where
  "stringbuffer_append N E ret q = do {
     (inst, sbuf) \<leftarrow> strbuf_this q;
     vararg \<leftarrow> getArgumentN q 1;
     str \<leftarrow> varToString (ex E) (qmem q) vararg;
     (case str of
        None \<Rightarrow> refused IERR_OUT_OF_MEM q
      | Some s \<Rightarrow>
          (case sb_append N sbuf (c_str s) of
             None \<Rightarrow> refused IERR_OUT_OF_MEM q
           | Some sbuf \<Rightarrow> do { q \<leftarrow> set_native inst (StrbufData sbuf) q; Some (IERR_NONE, q) })) }"

definition stringbuffer_tostring :: "'f nlib \<Rightarrow> ('c, 'f) env \<Rightarrow> ('c, 'f) native_fn" where
  "stringbuffer_tostring N E ret q = do {
     (inst, sbuf) \<leftarrow> strbuf_this q;
     (case sb_string N sbuf of
        None \<Rightarrow> refused IERR_OUT_OF_MEM q
      | Some s \<Rightarrow> do {
          (ok, q) \<leftarrow> onmem (varAssignString (ex E) ret s) q;
          Some (if ok then IERR_NONE else IERR_OUT_OF_MEM, q) }) }"

subsection \<open>Math and Hashtable\<close>

definition ask :: "('c, 'f) qinterp \<Rightarrow> nat \<times> ('c, 'f) qinterp" where
  "ask q = (asked (qworld q), set_world ((qworld q)\<lparr>asked := asked (qworld q) + 1\<rparr>) q)"

definition math_rand :: "'f nlib \<Rightarrow> ('c, 'f) env \<Rightarrow> ('c, 'f) native_fn" where
  "math_rand N E ret q =
     (let (k, q) = ask q in do {
        (_, q) \<leftarrow> onmem (varAssignFloat (ex E) ret (uniform N k)) q;
        Some (IERR_NONE, q) })"

definition math_exp :: "'f nlib \<Rightarrow> ('c, 'f) env \<Rightarrow> ('c, 'f) native_fn" where
  "math_exp N E ret q = do {
     vararg \<leftarrow> getArgumentN q 0;
     farg \<leftarrow> varGetFloat (ex E) (qmem q) vararg;
     (case farg of
        None \<Rightarrow> refused IERR_TYPE_MISMATCH q
      | Some f \<Rightarrow> do { (_, q) \<leftarrow> onmem (varAssignFloat (ex E) ret (fl_exp N f)) q; Some (IERR_NONE, q) }) }"

abbreviation (input) HASHTABLE_MAJIC :: nat where "HASHTABLE_MAJIC \<equiv> 178"

definition hashtable_hashtable :: "('c, 'f) native_fn" where
  "hashtable_hashtable ret q = do {
     varthis \<leftarrow> getArgumentN q 0;
     inst \<leftarrow> inst_of q varthis;
     (ok, q) \<leftarrow> new_holder inst q;
     if \<not> ok then refused IERR_OUT_OF_MEM q
     else
       (let (ok, q) = onworld take_block q in if \<not> ok then refused IERR_OUT_OF_MEM (qfree 1 q) else
        do {
          q \<leftarrow> set_native inst (HashData []) q;
          q \<leftarrow> set_magic inst HASHTABLE_MAJIC q;
          Some (IERR_NONE, q) }) }"

definition hashtable_this :: "('c, 'f) qinterp \<Rightarrow> (nat \<times> (string \<times> loc) list) option" where
  "hashtable_this q = do {
     varthis \<leftarrow> getArgumentN q 0;
     i \<leftarrow> inst_of q varthis;
     d \<leftarrow> native_of q i;
     (case d of HashData t \<Rightarrow> Some (i, t) | _ \<Rightarrow> None) }"

text \<open>A value that is replaced stays allocated.\<close>

definition hashtable_put :: "'f nlib \<Rightarrow> ('c, 'f) env \<Rightarrow> ('c, 'f) native_fn" where
  "hashtable_put N E ret q = do {
     (inst, ht) \<leftarrow> hashtable_this q;
     varkey \<leftarrow> getArgumentN q 1;
     varval \<leftarrow> getArgumentN q 2;
     (vardup, q) \<leftarrow> dup_elem E varval q;
     (case vardup of
        None \<Rightarrow> refused IERR_OUT_OF_MEM q
      | Some l \<Rightarrow> do {
          strkey \<leftarrow> varToString (ex E) (qmem q) varkey;
          (case Option.bind strkey (\<lambda>s. h_add N ht s l) of
             None \<Rightarrow> do { q \<leftarrow> domem (varDestruct (ex E) l) q; refused IERR_OUT_OF_MEM (qfree 1 q) }
           | Some ht \<Rightarrow> do { q \<leftarrow> set_native inst (HashData ht) q; Some (IERR_NONE, q) }) }) }"

definition hashtable_get :: "'f nlib \<Rightarrow> ('c, 'f) env \<Rightarrow> ('c, 'f) native_fn" where
  "hashtable_get N E ret q = do {
     (inst, ht) \<leftarrow> hashtable_this q;
     varkey \<leftarrow> getArgumentN q 1;
     strkey \<leftarrow> varToString (ex E) (qmem q) varkey;
     (case strkey of
        None \<Rightarrow> refused IERR_OUT_OF_MEM q
      | Some s \<Rightarrow> do {
          (_, q) \<leftarrow> onmem (varAssign (ex E) ret (case h_get N ht s of None \<Rightarrow> Null | Some l \<Rightarrow> l)) q;
          Some (IERR_NONE, q) }) }"

text \<open>The table is freed, the variants in it are not.\<close>

definition hashtable_clear :: "('c, 'f) native_fn" where
  "hashtable_clear ret q = do {
     (inst, ht) \<leftarrow> hashtable_this q;
     let (ok, q) = onworld take_block (qfree 1 q);
     if \<not> ok then None
     else do { q \<leftarrow> set_native inst (HashData []) q; Some (IERR_NONE, q) } }"

subsection \<open>Instances made and methods called from C\<close>

definition buildInstanceSig :: "string \<Rightarrow> nat \<Rightarrow> ('c, 'f) qinterp \<Rightarrow> string option \<times> ('c, 'f) qinterp" where
  "buildInstanceSig name count q =
     (let (ok, q) = onworld take_block q in if \<not> ok then (None, q) else
      let (ok, q) = onworld grow q in if \<not> ok then (None, qfree 1 q) else
      let (ok, q) = onworld grow q in if \<not> ok then (None, qfree 1 q) else
      (Some (name @ '':Iv'' @ replicate (count + 1) (CHR ''v'')), q))"

definition destroy_this :: "('c, 'f) env \<Rightarrow> loc \<Rightarrow> ('c, 'f) qinterp \<Rightarrow> ('c, 'f) qinterp option" where
  "destroy_this E varthis q = do { q \<leftarrow> domem (varDestruct (ex E) varthis) q; Some (qfree 1 q) }"

text \<open>
  The constructors of the class and its bases, the class's own first; d bounds the bases. One
  that is not there for the arguments is tried without, and may be missing. A signature that
  cannot be built ends the loop, with an error for the first one and the default ones only. The
  result says whether the loop came to its end.
\<close>

primrec run_constructors ::
  "nat \<Rightarrow> ('c, 'f) env \<Rightarrow> ('c, 'f) run \<Rightarrow> loc \<Rightarrow> nat \<Rightarrow> nat \<Rightarrow> nat \<Rightarrow> string \<Rightarrow> ('c, 'f) qinterp
     \<Rightarrow> ((InterpErrors \<times> bool) \<times> ('c, 'f) qinterp) option" where
  "run_constructors 0 E run varthis inst argc jsp sig q = None"
| "run_constructors (Suc d) E run varthis inst argc jsp sig q = do {
     (err, q) \<leftarrow> callInstMethod E run inst sig True q;
     let give_up = (\<lambda>err q. do { q \<leftarrow> destroy_this E varthis (qfree 1 q); Some ((err, False), q) });
     let next_class = (\<lambda>q. do {
       let q = qfree 1 q;
       base \<leftarrow> base_of q jsp;
       (case base of
          None \<Rightarrow> Some ((IERR_NONE, True), q)
        | Some b \<Rightarrow> do {
            cls \<leftarrow> classes (qworld q) b;
            (case buildInstanceSig (cname cls) argc q of
               (None, q) \<Rightarrow> Some ((IERR_NONE, True), q)
             | (Some sig, q) \<Rightarrow> run_constructors d E run varthis inst argc b sig q) }) });
     if err = IERR_NONE then next_class q
     else if err = IERR_UNKNOWN_METHOD \<and> argc > 0 then do {
       cls \<leftarrow> classes (qworld q) jsp;
       (case buildInstanceSig (cname cls) 0 (qfree 1 q) of
          (None, q) \<Rightarrow> Some ((IERR_OUT_OF_MEM, False), q)
        | (Some sig, q) \<Rightarrow> do {
            (err, q) \<leftarrow> callInstMethod E run inst sig True q;
            if err \<noteq> IERR_NONE then give_up err q else next_class q }) }
     else if err = IERR_UNKNOWN_METHOD then next_class q
     else give_up err q }"

fun push_all :: "('c, 'f) env \<Rightarrow> loc list \<Rightarrow> ('c, 'f) qinterp \<Rightarrow> (bool \<times> ('c, 'f) qinterp) option" where
  "push_all E [] q = Some (True, q)"
| "push_all E (l # ls) q = do { (ok, q) \<leftarrow> stackPush E l q; if ok then push_all E ls q else Some (False, q) }"

text \<open>
  \<open>varthis\<close> gets the instance without a reference of its own, and is void again before it is
  destroyed; on the error paths it is not, and gives up a reference it does not have.
\<close>

definition createJSClassInstance ::
  "('c, 'f) env \<Rightarrow> ('c, 'f) run \<Rightarrow> string \<Rightarrow> loc list \<Rightarrow> ('c, 'f) qinterp
     \<Rightarrow> ((InterpErrors \<times> nat option) \<times> ('c, 'f) qinterp) option" where
  "createJSClassInstance E run classname args q =
     (let (ok, q) = onworld take_block q in if \<not> ok then Some ((IERR_OUT_OF_MEM, None), q) else
      let (a, q) = onworld new_address q; varthis = Var a; q = set_var varthis void_variant q
      in case qinterpFindClass q classname of
           None \<Rightarrow> do { q \<leftarrow> destroy_this E varthis q; Some ((IERR_CLASS_NOT_FOUND, None), q) }
         | Some jsp \<Rightarrow> do {
             (inst, w) \<leftarrow> jsinstConstruct (cstack (ex E)) jsp (qworld q);
             let q = set_world w q;
             (case inst of
                None \<Rightarrow> do { q \<leftarrow> destroy_this E varthis q; Some ((IERR_OUT_OF_MEM, None), q) }
              | Some i \<Rightarrow> do {
                  (ok, q) \<leftarrow> callInternalConstructors (cstack (ex E)) E run jsp i q;
                  if \<not> ok then do { q \<leftarrow> destroy_this E varthis q; Some ((IERR_INTERNAL_ERROR2, Some i), q) }
                  else do {
                    q \<leftarrow> domem (wr varthis (mk TYPE_INST (DInst i))) q;
                    (_, q) \<leftarrow> stackPush E varthis q;
                    (ok, q) \<leftarrow> push_all E args q;
                    if \<not> ok then do { q \<leftarrow> destroy_this E varthis q; Some ((IERR_OUT_OF_MEM, Some i), q) }
                    else do {
                      cls \<leftarrow> classes (qworld q) jsp;
                      (case buildInstanceSig (cname cls) (length args) q of
                         (None, q) \<Rightarrow> Some ((IERR_OUT_OF_MEM, Some i), q)
                       | (Some sig, q) \<Rightarrow> do {
                           ((err, fin), q) \<leftarrow>
                             run_constructors (cstack (ex E)) E run varthis i (length args) jsp sig q;
                           if \<not> fin then Some ((err, Some i), q)
                           else do {
                             v \<leftarrow> var_at q varthis;
                             q \<leftarrow> destroy_this E varthis (set_var varthis (v\<lparr>vtype := TYPE_VOID\<rparr>) q);
                             q \<leftarrow> domem (jsinstDeref (cstack (ex E)) i) q;
                             Some ((IERR_NONE, Some i), q) } }) } } }) })"

text \<open>
  \<open>qinterpCall\<close> pushes bitwise copies of \<open>this\<close> and the arguments, calls the method, hands out a
  copy of the result and empties the stack.
\<close>

fun push_copies :: "loc list \<Rightarrow> string \<Rightarrow> ('c, 'f) qinterp \<Rightarrow> ((bool \<times> string) \<times> ('c, 'f) qinterp) option" where
  "push_copies [] sig q = Some ((True, sig), q)"
| "push_copies (l # ls) sig q = do {
     v \<leftarrow> var_at q l;
     let (ok, q) = onworld grow q;
     if \<not> ok then Some ((False, sig), q)
     else (let (sig, q) = onworld (append_to sig ''v'') (push_raw v q) in push_copies ls sig q) }"

definition qinterpCall ::
  "('c, 'f) env \<Rightarrow> ('c, 'f) run \<Rightarrow> nat \<Rightarrow> string \<Rightarrow> loc list \<Rightarrow> ('c, 'f) qinterp
     \<Rightarrow> ((InterpErrors \<times> loc option) \<times> ('c, 'f) qinterp) option" where
  "qinterpCall E run inst methodname args q =
     (let (ok, q) = onworld take_block q;
          (a, q) = onworld new_address q; varthis = Var a;
          q = (if ok then set_var varthis void_variant q else q)
      in do {
        q \<leftarrow> domem (jsinstRef inst) q;
        if \<not> ok then Some ((IERR_OUT_OF_MEM, None), q)
        else
          (let (ok, q) = onworld take_block q;
               stop = (\<lambda>q. do { q \<leftarrow> destroy_this E varthis q; Some ((IERR_OUT_OF_MEM, None), q) })
           in if \<not> ok then stop q else
           let (strname, q) = onworld (append_to methodname '':Ivv'') q in do {
             (_, q) \<leftarrow> onmem (varAssignInst (ex E) varthis (Some inst)) q;
             v \<leftarrow> var_at q varthis;
             let (ok, q) = onworld grow q;
             if \<not> ok then do { q \<leftarrow> destroy_this E varthis q; Some ((IERR_OUT_OF_MEM, None), qfree 1 q) }
             else do {
               ((ok, strname), q) \<leftarrow> push_copies args strname (push_raw v q);
               if \<not> ok then do { q \<leftarrow> destroy_this E varthis q; Some ((IERR_OUT_OF_MEM, None), qfree 1 q) }
               else do {
                 (err, q) \<leftarrow> callInstMethod E run inst strname False q;
                 let q = qfree 1 q;
                 (r, q) \<leftarrow> (if nstack q = 0 then Some (None, q) else take_top E q);
                 q \<leftarrow> trim_with (varClear (ex E)) 0 (nstack q) q;
                 x \<leftarrow> insts (qmem q) inst;
                 q \<leftarrow> (if refcount x = 1 then domem (jsinstRef inst) q else Some q);
                 q \<leftarrow> destroy_this E varthis q;
                 Some ((err, r), q) } } }) })"

subsection \<open>DateTime\<close>

abbreviation (input) DATETIME_MAGIC :: nat where "DATETIME_MAGIC \<equiv> 168"

definition datetime_datetime :: "'f nlib \<Rightarrow> ('c, 'f) native_fn" where
  "datetime_datetime N ret q = do {
     varthis \<leftarrow> getArgumentN q 0;
     inst \<leftarrow> inst_of q varthis;
     (ok, q) \<leftarrow> new_holder inst q;
     if \<not> ok then refused IERR_OUT_OF_MEM q
     else
       (let (ok, q) = onworld take_block q in if \<not> ok then refused IERR_OUT_OF_MEM (qfree 1 q) else
        let (k, q) = ask q in do {
          q \<leftarrow> set_native inst (TimeData (clock N k)) q;
          q \<leftarrow> set_magic inst DATETIME_MAGIC q;
          Some (IERR_NONE, q) }) }"

definition datetime_now :: "('c, 'f) env \<Rightarrow> ('c, 'f) run \<Rightarrow> ('c, 'f) native_fn" where
  "datetime_now E run ret q =
     (let (ok, q) = onworld take_block q in if \<not> ok then refused IERR_OUT_OF_MEM q else do {
        ((err, inst), q) \<leftarrow> createJSClassInstance E run ''DateTime'' [] q;
        let q = qfree 1 q;
        if err \<noteq> IERR_NONE then refused err q
        else do { (_, q) \<leftarrow> onmem (varAssignInst (ex E) ret inst) q; Some (IERR_NONE, q) } })"

definition time_of :: "('c, 'f) qinterp \<Rightarrow> nat \<Rightarrow> int option" where
  "time_of q i = do { d \<leftarrow> native_of q i; (case d of TimeData t \<Rightarrow> Some t | _ \<Rightarrow> None) }"

text \<open>The times are in seconds.\<close>

definition datetime_diffms :: "('c, 'f) env \<Rightarrow> ('c, 'f) native_fn" where
  "datetime_diffms E ret q = do {
     varthis \<leftarrow> getArgumentN q 0;
     vararg \<leftarrow> getArgumentN q 1;
     inst \<leftarrow> inst_of q varthis;
     t \<leftarrow> time_of q inst;
     v \<leftarrow> var_at q vararg;
     if vtype v \<noteq> TYPE_INST then refused IERR_TYPE_MISMATCH q
     else do {
       arginst \<leftarrow> as_inst (data v);
       m \<leftarrow> magic_of q arginst;
       if m \<noteq> DATETIME_MAGIC then refused IERR_TYPE_MISMATCH q
       else do {
         u \<leftarrow> time_of q arginst;
         (_, q) \<leftarrow> onmem (varAssignInt (ex E) ret (word_of_int (t - u))) q;
         Some (IERR_NONE, q) } } }"

definition datetime_tomilliseconds :: "('c, 'f) env \<Rightarrow> ('c, 'f) native_fn" where
  "datetime_tomilliseconds E ret q = do {
     varthis \<leftarrow> getArgumentN q 0;
     inst \<leftarrow> inst_of q varthis;
     t \<leftarrow> time_of q inst;
     (_, q) \<leftarrow> onmem (varAssignInt (ex E) ret (word_of_int t)) q;
     Some (IERR_NONE, q) }"

subsection \<open>The native functions by their numbers\<close>

definition intrinsics_table ::
  "'f nlib \<Rightarrow> ('c, 'f) env \<Rightarrow> ('c, 'f) run \<Rightarrow> ('c, 'f) native_fn list" where
  "intrinsics_table N E run = [
     object_parseInt E, object_parseFloat E, object_toString E, object_toStringI E, object_typename E,
     object_length E,
     array_arrayX N E, array_length E, array_dims E, array_itemX N E,
     vector_vector, vector_add E, vector_size E, vector_elementat N E, vector_setelementat N E,
     vector_clear E,
     console_writeln E, console_write E, console_readln E,
     stringbuffer_stringbuffer N E, stringbuffer_append N E, stringbuffer_tostring N E,
     datetime_datetime N, datetime_diffms E, datetime_now E run, datetime_tomilliseconds E,
     math_rand N E, math_exp N E,
     hashtable_hashtable, hashtable_put N E, hashtable_get N E, hashtable_clear]"

text \<open>
  The environment with these functions. A native function may call the interpreter, which may
  call native functions: d bounds how deep. The functions of the native libraries are those of E.
\<close>

primrec with_intrinsics :: "'f nlib \<Rightarrow> nat \<Rightarrow> ('c, 'f) env \<Rightarrow> ('c, 'f) env" where
  "with_intrinsics N 0 E = E\<lparr>call_native := (\<lambda>f m ret q. None)\<rparr>"
| "with_intrinsics N (Suc d) E = E\<lparr>call_native := (\<lambda>f m ret q.
     let E' = with_intrinsics N d E; table = intrinsics_table N E' (interp d E')
     in if f < length table then (table ! f) ret q else call_native E f m ret q)\<rparr>"

text \<open>An instance of the library that satisfies its laws, with floats that are ints.\<close>

definition fun_nlib :: "int nlib" where
  "fun_nlib = \<lparr>
     v_get = (\<lambda>xs k. if 0 \<le> k \<and> k < int (length xs) then xs ! nat k else None),
     v_set = (\<lambda>xs l k. if 0 \<le> k then Some ((xs @ replicate (Suc (nat k) - length xs) None)[nat k := l]) else None),
     h_add = (\<lambda>t s l. Some ((s, l) # t)), h_get = map_of, sb_new = (\<lambda>k. Some []),
     sb_append = (\<lambda>s t. Some (s @ t)), sb_string = Some, clock = int, uniform = int, fl_exp = (\<lambda>x. x)\<rparr>"

lemma fun_nlib_laws: "nlib_laws fun_nlib"
  by (auto simp: nlib_laws_def fun_nlib_def split: if_splits)

end
