(* ===== verification/Natives_Frames.thy ===== *)
theory Natives_Frames
  imports Natives Interp_Frames
begin

section \<open>The native functions keep the frames\<close>

text \<open>
  Every native function of the intrinsic classes leaves the frames as they were, the one that
  makes an instance because the calls do. So the contract of native methods, which the balance of
  calls and returns rests on, holds for an environment with the intrinsic functions, and only the
  functions of other libraries have to promise it.
\<close>

lemma set_world_frames [simp]: "frames (set_world w q) = frames q" "frames (set_var l v q) = frames q"
  by (simp_all add: set_world_def set_var_def set_mem_def)

lemma ask_kept [kept]: "ask q = (k, q') \<Longrightarrow> frames q' = frames q"
  by (auto simp: ask_def)

lemma set_native_kept [kept]: "set_native i d q = Some q' \<Longrightarrow> frames q' = frames q"
  by (auto simp: set_native_def upd_inst_def opened set_mem_def)

lemma set_magic_kept [kept]: "set_magic i d q = Some q' \<Longrightarrow> frames q' = frames q"
  by (auto simp: set_magic_def upd_inst_def opened set_mem_def)

lemma new_holder_kept [kept]: "new_holder i q = Some (b, q') \<Longrightarrow> frames q' = frames q"
  by (auto simp: new_holder_def opened dest!: kept)

lemma dup_elem_kept [kept]: "dup_elem E l q = Some (r, q') \<Longrightarrow> frames q' = frames q"
  by (auto simp: dup_elem_def opened dest!: kept split: if_splits prod.splits)

lemma refused_kept [kept]: "refused e q = Some (e', q') \<Longrightarrow> q' = q"
  by (simp add: refused_def)

lemma returns_kept [kept]: "return_int E ret k q = Some (e, q') \<Longrightarrow> frames q' = frames q"
  "return_nothing E ret q = Some (e, q') \<Longrightarrow> frames q' = frames q"
  by (auto simp: return_int_def return_nothing_def opened dest!: kept)

lemma object_kept [kept]:
  "object_parseInt E ret q = Some (e, q') \<Longrightarrow> frames q' = frames q"
  "object_parseFloat E ret q = Some (e, q') \<Longrightarrow> frames q' = frames q"
  "object_toString E ret q = Some (e, q') \<Longrightarrow> frames q' = frames q"
  "object_toStringI E ret q = Some (e, q') \<Longrightarrow> frames q' = frames q"
  "object_typename E ret q = Some (e, q') \<Longrightarrow> frames q' = frames q"
  "object_length E ret q = Some (e, q') \<Longrightarrow> frames q' = frames q"
  by (auto simp: object_parseInt_def object_parseFloat_def object_toString_def object_toStringI_def
      object_cast_def object_typename_def object_length_def opened dest!: kept split: if_splits)

lemma array_make_kept [kept]: "array_make N i dims lens q = Some (e, q') \<Longrightarrow> frames q' = frames q"
  by (auto simp: array_make_def opened dest!: kept)

lemma array_cell_kept [kept]:
  assumes "array_cell N E i k q = Some (r, q')" shows "frames q' = frames q"
proof -
  from assms obtain d where "native_of q i = Some d" by (auto simp: array_cell_def bind_eq_Some_conv)
  with assms show ?thesis by (cases d) (auto simp: array_cell_def opened dest!: kept)
qed

lemma array_kept [kept]:
  "array_arrayX N E ret q = Some (e, q') \<Longrightarrow> frames q' = frames q"
  "array_itemX N E ret q = Some (e, q') \<Longrightarrow> frames q' = frames q"
  "array_length E ret q = Some (e, q') \<Longrightarrow> frames q' = frames q"
  "array_dims E ret q = Some (e, q') \<Longrightarrow> frames q' = frames q"
  by (auto simp: array_arrayX_def array_itemX_def array_length_def array_dims_def opened
      dest!: kept split: option.splits if_splits)

lemma destroy_elems_kept [kept]: "destroy_elems E xs q = Some q' \<Longrightarrow> frames q' = frames q"
  by (induction xs arbitrary: q) (auto simp: opened dest!: domem_kept)

lemma vector_kept [kept]:
  "vector_vector ret q = Some (e, q') \<Longrightarrow> frames q' = frames q"
  "vector_add E ret q = Some (e, q') \<Longrightarrow> frames q' = frames q"
  "vector_size E ret q = Some (e, q') \<Longrightarrow> frames q' = frames q"
  "vector_elementat N E ret q = Some (e, q') \<Longrightarrow> frames q' = frames q"
  "vector_setelementat N E ret q = Some (e, q') \<Longrightarrow> frames q' = frames q"
  "vector_clear E ret q = Some (e, q') \<Longrightarrow> frames q' = frames q"
  by (auto simp: vector_vector_def vector_add_def vector_size_def vector_elementat_def vector_setelementat_def
      vector_clear_def opened dest!: kept split: option.splits if_splits)

lemma console_kept [kept]:
  "console_writeln E ret q = Some (e, q') \<Longrightarrow> frames q' = frames q"
  "console_write E ret q = Some (e, q') \<Longrightarrow> frames q' = frames q"
  "console_readln E ret q = Some (e, q') \<Longrightarrow> frames q' = frames q"
  by (auto simp: console_writeln_def console_write_def console_put_def console_readln_def opened
      dest!: kept split: option.splits if_splits)

lemma stringbuffer_kept [kept]:
  "stringbuffer_stringbuffer N E ret q = Some (e, q') \<Longrightarrow> frames q' = frames q"
  "stringbuffer_append N E ret q = Some (e, q') \<Longrightarrow> frames q' = frames q"
  "stringbuffer_tostring N E ret q = Some (e, q') \<Longrightarrow> frames q' = frames q"
  by (auto simp: stringbuffer_stringbuffer_def stringbuffer_append_def stringbuffer_tostring_def opened
      dest!: kept split: option.splits if_splits)

lemma hashtable_kept [kept]:
  "hashtable_hashtable ret q = Some (e, q') \<Longrightarrow> frames q' = frames q"
  "hashtable_put N E ret q = Some (e, q') \<Longrightarrow> frames q' = frames q"
  "hashtable_get N E ret q = Some (e, q') \<Longrightarrow> frames q' = frames q"
  "hashtable_clear ret q = Some (e, q') \<Longrightarrow> frames q' = frames q"
  by (auto simp: hashtable_hashtable_def hashtable_put_def hashtable_get_def hashtable_clear_def opened
      dest!: kept split: option.splits if_splits)

lemma math_kept [kept]:
  "math_rand N E ret q = Some (e, q') \<Longrightarrow> frames q' = frames q"
  "math_exp N E ret q = Some (e, q') \<Longrightarrow> frames q' = frames q"
  by (auto simp: math_rand_def math_exp_def opened dest!: kept split: option.splits prod.splits)

lemma datetime_kept [kept]:
  "datetime_datetime N ret q = Some (e, q') \<Longrightarrow> frames q' = frames q"
  "datetime_diffms E ret q = Some (e, q') \<Longrightarrow> frames q' = frames q"
  "datetime_tomilliseconds E ret q = Some (e, q') \<Longrightarrow> frames q' = frames q"
  by (auto simp: datetime_datetime_def datetime_diffms_def datetime_tomilliseconds_def opened
      dest!: kept split: option.splits prod.splits if_splits)

subsection \<open>Making instances\<close>

lemma buildInstanceSig_kept [kept]: "buildInstanceSig name k q = (sig, q') \<Longrightarrow> frames q' = frames q"
  by (auto simp: buildInstanceSig_def Let_def dest!: onworld_kept split: prod.splits if_splits)

lemma destroy_this_kept [kept]: "destroy_this E l q = Some q' \<Longrightarrow> frames q' = frames q"
  by (auto simp: destroy_this_def opened dest!: kept)

lemma push_all_kept [kept]: "push_all E ls q = Some (b, q') \<Longrightarrow> frames q' = frames q"
  by (induction ls arbitrary: q) (auto simp: opened dest!: stackPush_kept split: if_splits)

lemma run_constructors_frames:
  assumes "run_kept run" "natives_kept E"
  shows "run_constructors d E run varthis i n jsp sig q = Some ((e, fin), q') \<Longrightarrow> frames q' = frames q"
proof (induction d arbitrary: jsp sig q e fin q')
  case (Suc d)
  then show ?case
    by (auto simp: opened split: if_splits option.splits
        dest!: Suc.IH destroy_this_kept buildInstanceSig_kept callInstMethod_frames [OF assms])
qed simp

lemma createJSClassInstance_frames:
  assumes "run_kept run" "natives_kept E" "createJSClassInstance E run name args q = Some (r, q')"
  shows "frames q' = frames q"
  using assms(3)
  by (auto simp: createJSClassInstance_def opened split: if_splits option.splits
      dest!: kept callInternalConstructors_frames [OF assms(1,2)] run_constructors_frames [OF assms(1,2)])

lemma push_copies_kept [kept]: "push_copies ls sig q = Some ((b, s), q') \<Longrightarrow> frames q' = frames q"
  by (induction ls arbitrary: sig q) (auto simp: opened dest!: onworld_kept split: if_splits)

lemma take_top_kept [kept]: "take_top E q = Some (r, q') \<Longrightarrow> frames q' = frames q"
  by (auto simp: take_top_def opened dest!: kept split: if_splits prod.splits)

lemma qinterpCall_frames:
  assumes "run_kept run" "natives_kept E" "qinterpCall E run i name args q = Some (r, q')"
  shows "frames q' = frames q"
  using assms(3)
  by (auto simp: qinterpCall_def opened split: if_splits
      dest!: kept callInstMethod_frames [OF assms(1,2)])

lemma datetime_now_frames:
  assumes "run_kept run" "natives_kept E" "datetime_now E run ret q = Some (e, q')"
  shows "frames q' = frames q"
  using assms(3)
  by (auto simp: datetime_now_def opened split: if_splits
      dest!: kept createJSClassInstance_frames [OF assms(1,2)])

lemma table_frames:
  assumes "run_kept run" "natives_kept E" "g \<in> set (intrinsics_table N E run)" "g ret q = Some (e, q')"
  shows "frames q' = frames q"
  using assms(3,4) unfolding intrinsics_table_def
  by (auto dest: kept datetime_now_frames [OF assms(1,2)])

subsection \<open>The environment with the intrinsic functions\<close>

lemma table_length [simp]: "length (intrinsics_table N E run) = 32"
  by (simp add: intrinsics_table_def)

lemma with_intrinsics_parts [simp]:
  "ex (with_intrinsics N d E) = ex E" "lb (with_intrinsics N d E) = lb E"
  "call_field (with_intrinsics N d E) = call_field E" "st_index (with_intrinsics N d E) = st_index E"
  "st_left (with_intrinsics N d E) = st_left E" "st_subend (with_intrinsics N d E) = st_subend E"
  "st_replace (with_intrinsics N d E) = st_replace E"
  by (cases d; simp add: Let_def)+

lemma call_intrinsic:
  "f < 32 \<Longrightarrow> call_native (with_intrinsics N (Suc d) E) f m ret q =
     (intrinsics_table N (with_intrinsics N d E) (interp d (with_intrinsics N d E)) ! f) ret q"
  by (simp add: Let_def)

lemma natives_kept_with: "natives_kept E \<Longrightarrow> natives_kept (with_intrinsics N d E)"
proof (induction d)
  case 0
  then show ?case by (simp add: natives_kept_def run_kept_def)
next
  case (Suc d)
  let ?E = "with_intrinsics N d E"
  have k: "natives_kept ?E" using Suc by blast
  have r: "run_kept (interp d ?E)" unfolding interp_def by (rule interp_run_kept [OF interp_loop_kept [OF k]])
  have "skel (frames q') = skel (frames q)"
    if "call_native (with_intrinsics N (Suc d) E) f m ret q = Some (e, q')" for f m ret q e q'
  proof (cases "f < 32")
    case True
    then have "intrinsics_table N ?E (interp d ?E) ! f \<in> set (intrinsics_table N ?E (interp d ?E))" by simp
    from table_frames [OF r k this that [unfolded call_intrinsic [OF True]]] show ?thesis by simp
  next
    case False
    with that Suc.prems show ?thesis by (simp add: Let_def natives_kept_def run_kept_def)
  qed
  with Suc.prems show ?case unfolding natives_kept_def run_kept_def with_intrinsics_parts by blast
qed

end
