(* ===== verification/Native_Calls.thy ===== *)
theory Native_Calls
  imports Life Natives_Frames
begin

section \<open>Calling a native function\<close>

text \<open>
  A call of a native method from the stack to its result: the argument moves into the frame of
  the call, the function runs there and writes the result of the frame, which is pushed when the
  frame is left. With the functions of the intrinsic classes in the environment such calls return,
  from an interpreter as \<open>qinterpConstruct\<close> makes it on.
\<close>

subsection \<open>What a native function of one argument computes\<close>

text \<open>
  The function f gives w for the argument v: in a frame with one local, v, and a result that owns
  nothing, it writes w to the result and changes nothing else.
\<close>

definition gives :: "('c, 'f) env \<Rightarrow> nat \<Rightarrow> (loc, 'f) variant \<Rightarrow> (loc, 'f) variant \<Rightarrow> bool" where
  "gives E f v w \<longleftrightarrow> (\<forall>m ret q sf u. ready E q \<and> cur q = Some sf \<and> nlocals sf = 1
     \<and> var_at q (Local (fid sf) 0) = Some v \<and> var_at q ret = Some u \<and> scalar u \<and> ret \<noteq> Local (fid sf) 0
     \<longrightarrow> call_native E f m ret q = Some (IERR_NONE, set_var ret w q))"

lemma argument_at:
  assumes "cur q = Some sf" "nlocals sf = 1"
  shows "getArgumentN q 0 = Some (Local (fid sf) 0)"
  using assms by (simp add: getArgumentN_def elem_def)

lemma VARCLEAR_number: "vars st l = Some u \<Longrightarrow> scalar u \<Longrightarrow> VARCLEAR X l st = Some st"
  by (auto simp: VARCLEAR_def scalar_def)

lemma set_var_mem: "set_mem ((qmem q)\<lparr>vars := (vars (qmem q))(l \<mapsto> v)\<rparr>) q = set_var l v q"
  by (simp add: set_var_def)

lemma intrinsic_gives:
  assumes "f < 32"
    and "\<And>ret q sf u run. ready E q \<Longrightarrow> cur q = Some sf \<Longrightarrow> nlocals sf = 1 \<Longrightarrow> var_at q (Local (fid sf) 0) = Some v
      \<Longrightarrow> var_at q ret = Some u \<Longrightarrow> scalar u \<Longrightarrow> ret \<noteq> Local (fid sf) 0
      \<Longrightarrow> (intrinsics_table N (with_intrinsics N d E) run ! f) ret q = Some (IERR_NONE, set_var ret w q)"
  shows "gives (with_intrinsics N (Suc d) E) f v w"
  unfolding gives_def call_intrinsic [OF assms(1)]
  by (intro allI impI, elim conjE, rule assms(2)) (simp_all add: ready_def)

lemma length_value:
  fixes v :: "(loc, 'f) variant" and E :: "('c, 'f) env"
  assumes "vtype v = TYPE_STRING \<and> data v = DS s \<and> n = of_nat (length s) \<or> vtype v \<noteq> TYPE_STRING \<and> n = 4"
  shows "gives (with_intrinsics N (Suc d) E) fn_object_length v (mk TYPE_INT (DI n))"
proof (rule intrinsic_gives)
  fix ret sf u run and q :: "('c, 'f) qinterp"
  assume q: "cur q = Some sf" "nlocals sf = 1" "var_at q (Local (fid sf) 0) = Some v" "var_at q ret = Some u" "scalar u"
  have "onmem (varAssignInt X ret n) q = Some (True, set_var ret (mk TYPE_INT (DI n)) q)" for X :: "'f ext"
    using q(4,5) VARCLEAR_number [of "qmem q" ret u X]
    by (simp add: onmem_def varAssignInt_def put_def wr_def var_at_def set_var_def)
  moreover have "intrinsics_table N (with_intrinsics N d E) run ! fn_object_length = object_length (with_intrinsics N d E)"
    by (simp add: intrinsics_table_def)
  ultimately show "(intrinsics_table N (with_intrinsics N d E) run ! fn_object_length) ret q
      = Some (IERR_NONE, set_var ret (mk TYPE_INT (DI n)) q)"
    using assms q(3) argument_at [OF q(1,2)] by (auto simp: object_length_def)
qed simp

lemma cast_number:
  assumes "vars st l = Some (mk t (DI k))" "t \<in> {TYPE_INT, TYPE_BOOL}" "0 < cstack X"
  shows "varCast X l TYPE_INT st = Some (True, st\<lparr>vars := (vars st)(l \<mapsto> mk TYPE_INT (DI k))\<rparr>)"
proof -
  obtain n where "cstack X = Suc n" using assms(3) by (cases "cstack X") auto
  moreover have "st\<lparr>vars := (vars st)(l \<mapsto> mk TYPE_INT (DI k))\<rparr> = st" if "t = TYPE_INT"
    using assms(1) that by (cases st) auto
  ultimately show ?thesis
    using assms(1,2) by (auto simp: varCast_def cast_at_def cast_int_def put_def wr_def)
qed

lemma cast_decimal:
  assumes "vars st l = Some (mk TYPE_STRING (DS s))" "s_isint X s" "0 < cstack X"
  shows "varCast X l TYPE_INT st = Some (True, st\<lparr>vars := (vars st)(l \<mapsto> mk TYPE_INT (DI (atoi s)))\<rparr>)"
proof -
  obtain n where "cstack X = Suc n" using assms(3) by (cases "cstack X") auto
  then show ?thesis using assms(1,2) by (auto simp: varCast_def cast_at_def cast_int_def put_def wr_def)
qed

lemma parseInt_with:
  fixes E :: "('c, 'f) env"
  assumes "\<And>st ret l u. vars st l = Some v \<Longrightarrow> vars st ret = Some u \<Longrightarrow> scalar u \<Longrightarrow>
      varAssign (ex E) ret l st = Some (True, st\<lparr>vars := (vars st)(ret \<mapsto> v)\<rparr>)"
    and "\<And>st ret. vars st ret = Some v \<Longrightarrow> 0 < cstack (ex E) \<Longrightarrow>
      varCast (ex E) ret TYPE_INT st = Some (True, st\<lparr>vars := (vars st)(ret \<mapsto> w)\<rparr>)"
  shows "gives (with_intrinsics N (Suc d) E) fn_object_parseInt v w"
proof (rule intrinsic_gives)
  fix ret sf u run and q :: "('c, 'f) qinterp"
  assume q: "ready E q" "cur q = Some sf" "nlocals sf = 1" "var_at q (Local (fid sf) 0) = Some v" "var_at q ret = Some u" "scalar u"
  have "onmem (varAssign (ex E) ret (Local (fid sf) 0)) q = Some (True, set_var ret v q)"
    using assms(1) [of "qmem q" "Local (fid sf) 0" ret u] q(4-6) by (simp add: onmem_def var_at_def set_var_def)
  moreover have "onmem (varCast (ex E) ret TYPE_INT) (set_var ret v q) = Some (True, set_var ret w q)"
    using assms(2) [of "qmem (set_var ret v q)" ret] q(1)
    by (simp add: onmem_def ready_def) (simp add: set_var_def set_mem_def set_world_def qworld_def qmem_def)
  moreover have "intrinsics_table N (with_intrinsics N d E) run ! fn_object_parseInt = object_parseInt (with_intrinsics N d E)"
    by (simp add: intrinsics_table_def)
  ultimately show "(intrinsics_table N (with_intrinsics N d E) run ! fn_object_parseInt) ret q = Some (IERR_NONE, set_var ret w q)"
    using argument_at [OF q(2,3)] by (simp add: object_parseInt_def object_cast_def)
qed simp

lemma parseInt_number:
  assumes "t \<in> {TYPE_INT, TYPE_BOOL}"
  shows "gives (with_intrinsics N (Suc d) E) fn_object_parseInt (mk t (DI k)) (mk TYPE_INT (DI k))"
  by (rule parseInt_with, rule assign_int_like) (use assms in \<open>auto simp: int_like_def cast_number\<close>)

lemma parseInt_decimal:
  assumes "s_dup (ex E) s = Some s" "s_isint (ex E) s"
  shows "gives (with_intrinsics N (Suc d) E) fn_object_parseInt (mk TYPE_STRING (DS s)) (mk TYPE_INT (DI (atoi s)))"
proof (rule parseInt_with)
  show "varAssign (ex E) ret l st = Some (True, st\<lparr>vars := (vars st)(ret \<mapsto> mk TYPE_STRING (DS s))\<rparr>)"
    if "vars st l = Some (mk TYPE_STRING (DS s))" "vars st ret = Some u" "scalar u" for st ret l u
    using that assms(1) by (simp add: varAssign_def VARCLEAR_number put_def wr_def)
qed (use assms(2) in \<open>simp add: cast_decimal\<close>)

subsection \<open>The call\<close>

lemma VARCLEAR_clearable:
  assumes "vars st l = Some v" "clearable v"
  shows "\<exists>w. VARCLEAR X l st = Some (st\<lparr>vars := (vars st)(l \<mapsto> w)\<rparr>)"
proof -
  have "st\<lparr>vars := (vars st)(l \<mapsto> v)\<rparr> = st" using assms(1) by (cases st) auto
  then have "st = st\<lparr>vars := (vars st)(l \<mapsto> v)\<rparr>" by simp
  then show ?thesis using assms varClear_at [OF assms, of X] by (auto simp: VARCLEAR_def)
qed

lemma leaveFrame_locals:
  assumes "cur q = Some sf" "pop_locals (VARCLEAR (ex E)) (nlocals sf) q = Some q'" "cur q' = Some sf'" "nlocals sf' = 0"
  shows "leaveFrame E False q = leaveFrame E False q'"
  using assms by (simp add: leaveFrame_def)

text \<open>The argument moves from the stack to the first local, which is there until the frame is left.\<close>

lemma move_argument:
  assumes "stk q = Some v # base" "cur q = Some sf" "nlocals sf = 0" "vtype v \<noteq> TYPE_PTR" "args = [a]"
  shows "push_args E False args 0 0 (length args) q
    = Some (set_cur (sf\<lparr>nlocals := 1\<rparr>) (set_var (Local (fid sf) 0) v (drop_top q)))"
proof -
  from assms(1) obtain n where n: "nstack q = Suc n" "var_at q (Stk n) = Some v" by (auto simp: stk_Cons)
  then have "domem (varDeref (ex E) (Stk n)) q = Some q"
    using assms(4) by (simp add: domem_def varDeref_def var_at_def set_mem_def set_world_def qworld_def qmem_def)
  then show ?thesis using n assms by (simp add: elem_def stackPeekN_def)
qed

lemma drop_top_stk:
  assumes "stk q = Some v # base"
  shows "stk (drop_top q) = base" "stack_only q (drop_top q)" "Suc (nstack (drop_top q)) = nstack q"
proof -
  from assms obtain n where n: "nstack q = Suc n" "map (\<lambda>k. var_at q (Stk k)) (rev [0..<n]) = base" by (auto simp: stk_Cons)
  then show "stk (drop_top q) = base" "Suc (nstack (drop_top q)) = nstack q"
    by (simp_all add: drop_top_def stk_def flip: n(2))
  show "stack_only q (drop_top q)" using n by (auto simp: drop_top_def stack_only_def)
qed

lemma enter_method_gives:
  assumes m: "fmethod sf = Some m" "methods (qworld q) m = Some mp" "misnative mp" "nativemethod mp = Some f" "hasretval mp"
      "length (margs mp) = 1"
    and q: "ready E q" "cache_ok q" "cur q = Some sf" "ferr sf = IERR_NONE" "nlocals sf = 0" "blockframes sf = []"
      "stackcount sf = int (nstack q)" "stk q = Some v # base"
    and u: "var_at q (Retval (fid sf)) = Some u" "scalar u"
    and v: "clearable v" "vtype v \<noteq> TYPE_PTR" and g: "gives E f v w" "int_like w"
  shows "\<exists>q'. enter_method E run False m q = Some (IERR_NONE, q') \<and> stk q' = Some w # base \<and> frames q' = tl (frames q)
    \<and> keeps (held (tl (frames q))) q q' \<and> ready E q' \<and> cache_ok q'"
proof -
  let ?b = "\<lparr>localcount = 0, breakpc = getBreak sf, blockcount = getBreakBlockCount sf, catchpc = -1\<rparr>"
  let ?sf = "sf\<lparr>blockframes := [?b], nlocals := 1\<rparr>" and ?r = "Retval (fid sf)" and ?l = "Local (fid sf) 0"
  define q1 where "q1 = drop_top q"
  note d = drop_top_stk [OF q(8), folded q1_def]
  have f1: "frames q1 = frames q" "fresh (qworld q1) = fresh (qworld q)" "stkframecache q1 = stkframecache q"
    "methods (qworld q1) = methods (qworld q)" using d(2) by (simp_all add: stack_only_def)
  have e: "enterBlock 0 q = Some (True, set_cur (sf\<lparr>blockframes := [?b]\<rparr>) q)" using enterBlock_0 [OF q(1,3)] q(6) by simp
  obtain a where a: "margs mp = [a]" using m(6) by (auto simp: length_Suc_conv)
  let ?q2 = "set_cur ?sf (set_var ?l v q1)"
  have "drop_top (set_cur s q) = set_cur s (drop_top q)" for s by (simp add: drop_top_def) (simp add: set_cur_def)
  then have p: "push_args E False (margs mp) 0 0 (Suc 0) (set_cur (sf\<lparr>blockframes := [?b]\<rparr>) q) = Some ?q2"
    using move_argument [of "set_cur (sf\<lparr>blockframes := [?b]\<rparr>) q" v base _ "margs mp" a E] q(5,8) v(2) a by (simp add: q1_def)
  have r1: "var_at q1 ?r = Some u" using d(2) u(1) by (simp add: stack_only_def)
  then obtain u' where u': "varClear (ex E) ?r (qmem ?q2) = Some ((qmem ?q2)\<lparr>vars := (vars (qmem ?q2))(?r \<mapsto> u')\<rparr>)" "scalar u'"
    using varClear_at [of "qmem ?q2" ?r u "ex E"] scalar_clearable [OF u(2)] u(2)
    by (fastforce simp: var_at_def scalar_def void_variant_def)
  let ?q3 = "set_cur ?sf (set_var ?r u' (set_var ?l v q1))"
  have cl: "domem (varClear (ex E) ?r) ?q2 = Some ?q3" using u'(1) by (simp add: domem_def set_var_def)
  have tm: "var_at q1 Tempdata1 = var_at q Tempdata1" "mallocs (qworld q1) = mallocs (qworld q)"
    using d(2) q(8) by (auto simp: stack_only_def q1_def drop_top_def)
  have r3: "ready E ?q3" "cur ?q3 = Some ?sf" "nlocals ?sf = 1" "var_at ?q3 (Local (fid ?sf) 0) = Some v" "var_at ?q3 ?r = Some u'"
    "?r \<noteq> Local (fid ?sf) 0" using q(1) tm by (simp_all add: ready_def)
  then have x: "call_native E f m ?r ?q3 = Some (IERR_NONE, set_var ?r w ?q3)"
    using g(1) u'(2) unfolding gives_def by blast
  let ?q4 = "set_cur ?sf (set_var ?r w (set_var ?r u' (set_var ?l v q1)))"
  let ?sf5 = "?sf\<lparr>blockframes := []\<rparr>"
  have l: "leaveBlock E ?q4 = Some (set_cur ?sf5 ?q4)"
    by (subst leaveBlock_empty [where sf = ?sf]) (simp_all add: localCount_def)
  let ?q5 = "set_cur ?sf5 ?q4" and ?sf6 = "?sf5\<lparr>nlocals := 0\<rparr>"
  have "vars (qmem ?q5) ?l = Some v" by simp
  from VARCLEAR_clearable [OF this v(1), of "ex E"] obtain v' where
    "VARCLEAR (ex E) ?l (qmem ?q5) = Some ((qmem ?q5)\<lparr>vars := (vars (qmem ?q5))(?l \<mapsto> v')\<rparr>)" by blast
  then have "domem (VARCLEAR (ex E) ?l) ?q5 = Some (set_var ?l v' ?q5)" by (simp add: domem_def set_var_def)
  moreover define q6 where "q6 = set_cur (?sf5\<lparr>nlocals := 0\<rparr>) (del_var ?l (set_var ?l v' ?q5))"
  ultimately have pl: "pop_locals (VARCLEAR (ex E)) (nlocals ?sf5) ?q5 = Some q6" by (simp add: Let_def)
  have c5: "cur q6 = Some ?sf6" "cur ?q5 = Some ?sf5" "nlocals ?sf6 = 0" by (simp_all add: q6_def)
  note lf = leaveFrame_locals [OF c5(2) pl c5(1,3)]
  have v6: "var_at q6 z = (if z = ?l then None else if z = ?r then Some w else var_at q1 z)" for z by (simp add: q6_def)
  have w6: "frames q6 = ?sf6 # tl (frames q)" "nstack q6 = nstack q1" "stkframecache q6 = stkframecache q"
    "methods (qworld q6) = methods (qworld q)" "fresh (qworld q6) = fresh (qworld q)" "classes (qworld q6) = classes (qworld q)"
    "qclasses q6 = qclasses q" "progs (ps q6) = progs (ps q)" "mallocs (qworld q6) = mallocs (qworld q)"
    using f1 d(2) tm(2) by (simp_all add: q6_def stack_only_def)
  have "stk q6 = stk q1" using w6(2) by (simp add: stk_def v6)
  then have s6: "stk q6 = base" using d(1) by simp
  have k6: "keeps (held (tl (frames q))) q q6"
  proof -
    have "fid sf \<notin> fid ` set (tl (frames q))" using q(2,3) by (auto simp: cache_ok_def cur_frames)
    then have "l \<noteq> ?r \<and> l \<noteq> ?l \<and> l \<noteq> Tempdata1 \<and> l \<notin> range Stk" if "l \<in> held (tl (frames q))" for l
      using that held_scratch [of "fid sf" "tl (frames q)"] by (auto simp: held_def const_places_def scratch_def)
    then have "var_at q6 l = var_at q l" if "l \<in> held (tl (frames q))" for l
      using that d(2) unfolding v6 stack_only_def by (metis rangeI)
    then show ?thesis using w6 by (simp add: keeps_def same_code_def)
  qed
  obtain rest where fr: "frames q = sf # rest" using q(3) by (auto simp: cur_frames)
  have c6: "cache_ok q6"
  proof -
    have "var_at q1 (Retval x) = var_at q (Retval x)" for x using d(2) by (simp add: stack_only_def)
    then show ?thesis using q(2) w6 fr by (auto simp: cache_ok_def v6)
  qed
  have r6: "ready E q6" using q(1) w6(9) tm(1) by (simp add: ready_def v6)
  have c: "cur q6 = Some ?sf6" using w6(1) by (simp add: cur_frames)
  have "\<exists>q'. leaveFrame E False q6 = Some q' \<and> stk q' = Some w # stk q6 \<and> frames q' = tl (frames q6) \<and> keeps (held (frames q6)) q6 q'
    \<and> ready E q' \<and> cache_ok q'"
    by (rule leaveFrame_result [OF r6 c6 c, where mp = mp and m = m])
      (use m q w6 d(3) g(2) in \<open>simp_all add: v6\<close>)
  then obtain q7 where q7: "leaveFrame E False q6 = Some q7" "stk q7 = Some w # base" "frames q7 = tl (frames q)"
    "keeps (held (frames q6)) q6 q7" "ready E q7" "cache_ok q7" using s6 w6(1) by auto
  have "enter_method E run False m q = Some (IERR_NONE, q7)"
    using e m q(5) f1(4) p cl x l lf q7(1) by (simp add: enter_method_def exec_method_def del: push_args.simps)
  moreover have "keeps (held (tl (frames q))) q6 q7" by (rule keeps_mono [OF q7(4)]) (auto simp: w6(1))
  ultimately show ?thesis using keeps_trans [OF k6] q7 by blast
qed

text \<open>The method a name stands for: static, with one argument and a result, done by the function f.\<close>

definition native_method :: "('c, 'f) env \<Rightarrow> ('c, 'f) qinterp \<Rightarrow> string \<Rightarrow> nat \<Rightarrow> bool" where
  "native_method E q name f \<longleftrightarrow> (\<exists>c jsp m mp. qclasses q (st_left E name (st_index E name ''.'')) = Some c
     \<and> classes (qworld q) c = Some jsp
     \<and> jsclassFindMethod (methods (qworld q)) jsp (st_subend E name (st_index E name ''.'' + 1)) = Some m
     \<and> methods (qworld q) m = Some mp \<and> misnative mp \<and> nativemethod mp = Some f \<and> hasretval mp \<and> length (margs mp) = 1)"

lemma native_method_code: "native_method E q name f \<Longrightarrow> same_code q q' \<Longrightarrow> native_method E q' name f"
  by (simp add: native_method_def same_code_def)

lemma native_call_value:
  assumes n: "native_method E q name f" and g: "gives E f v w" "int_like w" and v: "clearable v" "vtype v \<noteq> TYPE_PTR"
    and q: "ready E q" "cache_ok q" "stk q = Some v # base"
  shows "\<exists>q'. callStaticMethod E run name q = Some (IERR_NONE, q') \<and> stk q' = Some w # base \<and> frames q' = frames q
    \<and> keeps (held (frames q)) q q' \<and> ready E q' \<and> cache_ok q'"
proof -
  obtain c jsp m mp where s: "qclasses q (st_left E name (st_index E name ''.'')) = Some c" "classes (qworld q) c = Some jsp"
    "jsclassFindMethod (methods (qworld q)) jsp (st_subend E name (st_index E name ''.'' + 1)) = Some m"
    "methods (qworld q) m = Some mp" "misnative mp" "nativemethod mp = Some f" "hasretval mp" "length (margs mp) = 1"
    using n by (auto simp: native_method_def)
  from enterFrame_ok [OF q(1,2)] obtain q1 fr u where q1:
    "enterFrame c q = Some (True, q1)" "stk q1 = stk q" "nstack q1 = nstack q" "ready E q1" "cache_ok q1" "keeps (held (frames q)) q q1"
    "frames q1 = \<lparr>fid = fr, ctx = c, fmethod = None, nlocals = 0, blockframes = [], ferr = IERR_NONE,
        stackcount = int (nstack q), fpc = 0\<rparr> # frames q" "var_at q1 (Retval fr) = Some u" "scalar u" by blast
  let ?sf = "\<lparr>fid = fr, ctx = c, fmethod = Some m, nlocals = 0, blockframes = [], ferr = IERR_NONE,
        stackcount = int (nstack q), fpc = 0\<rparr>"
  let ?q = "set_cur ?sf q1"
  have w: "methods (qworld q1) = methods (qworld q)" "classes (qworld q1) = classes (qworld q)"
    using q1(6) by (simp_all add: keeps_def same_code_def)
  have M: "mallocs (qworld q) = []" "mallocs (qworld q1) = []" using q(1) q1(4) by (simp_all add: ready_def)
  obtain sf1 where c1: "cur q1 = Some sf1" "set_cur (sf1\<lparr>fmethod := Some m\<rparr>) q1 = ?q" "fid sf1 = fr" using q1(7) by (simp add: cur_def)
  have "callStaticMethod E run name q = enter_method E run False m ?q"
    using s(1-3) q1(1) c1 w M
    by (simp add: callStaticMethod_def borrow find_method_def set_method_of_frame_def Let_def)
  moreover have "\<exists>q'. enter_method E run False m ?q = Some (IERR_NONE, q') \<and> stk q' = Some w # base
      \<and> frames q' = tl (frames ?q) \<and> keeps (held (tl (frames ?q))) ?q q' \<and> ready E q' \<and> cache_ok q'"
    by (rule enter_method_gives [OF _ _ s(5-8) _ _ _ _ _ _ _ _ _ _ v g, where sf = ?sf])
      (use q1 q s w c1 in \<open>simp_all add: cache_ok_set_cur\<close>)
  ultimately show ?thesis using q1 keeps_trans [OF q1(6)] by auto
qed

subsection \<open>From the construction on\<close>

lemma table_method:
  assumes "list_all2 (\<lambda>d m. \<exists>mp. ms m = Some mp \<and> fits L d mp) ds xs" "k < length ds" "ds ! k = Native f name st ret args"
    "\<forall>j < k. \<forall>m mp. fits L (ds ! j) mp \<longrightarrow> msig mp \<noteq> name @ (if st then '':Sv'' else '':Iv'') @ map (\<lambda>_. CHR ''v'') args"
  shows "\<exists>m mp. find (\<lambda>m. map_option msig (ms m) = Some (name @ (if st then '':Sv'' else '':Iv'') @ map (\<lambda>_. CHR ''v'') args)) xs = Some m
    \<and> ms m = Some mp \<and> fits L (Native f name st ret args) mp"
  using assms
proof (induction ds arbitrary: xs k)
  case (Cons d ds)
  from Cons.prems(1) obtain m xs' mp where x: "xs = m # xs'" "ms m = Some mp" "fits L d mp"
    "list_all2 (\<lambda>d m. \<exists>mp. ms m = Some mp \<and> fits L d mp) ds xs'" by (auto simp: list_all2_Cons1)
  show ?case
  proof (cases k)
    case 0
    with x Cons.prems(3) show ?thesis by auto
  next
    case (Suc j)
    have "\<forall>i < j. \<forall>m mp. fits L (ds ! i) mp \<longrightarrow> msig mp \<noteq> name @ (if st then '':Sv'' else '':Iv'') @ map (\<lambda>_. CHR ''v'') args"
      using Cons.prems(4) Suc by fastforce
    moreover have "msig mp \<noteq> name @ (if st then '':Sv'' else '':Iv'') @ map (\<lambda>_. CHR ''v'') args"
      using Cons.prems(4) x(3) Suc by fastforce
    ultimately show ?thesis using Cons.IH [OF x(4), of j] Cons.prems(2,3) Suc x(1,2) by simp
  qed
qed simp

lemma object_native:
  assumes L: "name_laws E" and c: "qclasses q ''Object'' = Some c" "class_of (lb E) (qworld q) k ''Object'' object_methods c"
  shows "native_method E q ''Object.parseInt:Svv'' fn_object_parseInt" "native_method E q ''Object.length:Svv'' fn_object_length"
proof -
  from c(2) obtain jsp where j0: "classes (qworld q) c = Some jsp" "vtable jsp = None"
    "methods_of (lb E) (qworld q) k object_methods (cmethods jsp)" by (auto simp: class_of_def)
  have "list_all2 (\<lambda>d m. \<exists>mp. methods (qworld q) m = Some mp \<and> fits (lb E) d mp) object_methods (cmethods jsp)"
    using j0(3) unfolding methods_of_def by (rule list_all2_mono) blast
  note j = j0(1,2) this
  have f: "\<exists>m mp. find (\<lambda>m. map_option msig (methods (qworld q) m) = Some sig) (cmethods jsp) = Some m \<and> methods (qworld q) m = Some mp
      \<and> misnative mp \<and> nativemethod mp = Some f \<and> hasretval mp \<and> length (margs mp) = 1"
    if "(sig, f) = (''parseInt:Svv'', fn_object_parseInt) \<or> (sig, f) = (''length:Svv'', fn_object_length)" for sig f
    using that
  proof (elim disjE)
    assume "(sig, f) = (''parseInt:Svv'', fn_object_parseInt)"
    moreover have "\<forall>j < 2. \<forall>m mp. fits (lb E) (object_methods ! j) mp \<longrightarrow> msig mp \<noteq> ''parseInt:Svv''"
      by (simp add: object_methods_def numeral_2_eq_2 less_Suc_eq)
    ultimately show ?thesis
      using table_method [OF j(3), of 2 fn_object_parseInt "''parseInt''" True True "[''val'']"]
      by (auto simp: object_methods_def dest: arg_cong [of _ _ length])
  next
    assume "(sig, f) = (''length:Svv'', fn_object_length)"
    moreover have "\<forall>j < 7. \<forall>m mp. fits (lb E) (object_methods ! j) mp \<longrightarrow> msig mp \<noteq> ''length:Svv''"
      by (simp add: object_methods_def numeral_eq_Suc less_Suc_eq)
    ultimately show ?thesis
      using table_method [OF j(3), of 7 fn_object_length "''length''" True True "[''obj'']"]
      by (auto simp: object_methods_def dest: arg_cong [of _ _ length])
  qed
  have "CHR ''.'' \<notin> set ''Object''" by simp
  from name_parts [OF L this] have "native_method E q (''Object.'' @ sig) f"
    if "(sig, f) = (''parseInt:Svv'', fn_object_parseInt) \<or> (sig, f) = (''length:Svv'', fn_object_length)" for sig f
    using f [OF that] c(1) j(1,2) by (simp add: native_method_def jsclassFindMethod_def)
  from this [of "''parseInt:Svv''" fn_object_parseInt] this [of "''length:Svv''" fn_object_length]
  show "native_method E q ''Object.parseInt:Svv'' fn_object_parseInt" "native_method E q ''Object.length:Svv'' fn_object_length"
    by simp_all
qed

lemma push_raw_cache: "cache_ok q \<Longrightarrow> cache_ok (push_raw v q)"
  by (rule stack_only_cache [OF push_raw_only])

text \<open>C6. Native functions run and return. With no allocation failing, an interpreter is constructed
  with the 32 functions of the intrinsic classes in its environment. Calling \<open>Object.length\<close> with a
  string on its stack returns without an error and replaces the string by its length, an int;
  calling \<open>Object.parseInt\<close> with the decimal of an int replaces it by that int; no frame is left
  behind. And whatever else is called from C in that environment, a static method, a method of an
  instance, or the constructors of a new one, when it returns it leaves the frames exactly as
  they were, if the functions of other libraries keep them.\<close>
theorem natives_run:
  assumes "lib_laws (lb E0)" and "tables_ok (lb E0)" and "name_laws E0" and "0 < cstack (ex E0)" and "mallocs (wld s) = []"
    and "natives_kept E0" and "E = with_intrinsics N (Suc d) E0" and "run = interp (Suc (Suc n)) E"
    and "s_dup (ex E0) t = Some t" and "s_isint (ex E0) t"
  shows "\<exists>q q1 q2. qinterpConstruct E run con s = Some (Some q, ps q)
    \<and> callStaticMethod E run ''Object.length:Svv'' (push_raw (mk TYPE_STRING (DS t)) q) = Some (IERR_NONE, q1)
    \<and> stk q1 = [Some (mk TYPE_INT (DI (of_nat (length t))))] \<and> frames q1 = []
    \<and> callStaticMethod E run ''Object.parseInt:Svv'' (push_raw (mk TYPE_STRING (DS t)) q) = Some (IERR_NONE, q2)
    \<and> stk q2 = [Some (mk TYPE_INT (DI (atoi t)))] \<and> frames q2 = []
    \<and> (\<forall>name p e p'. callStaticMethod E run name p = Some (e, p') \<longrightarrow> frames p' = frames p)
    \<and> (\<forall>i name args p r p'. qinterpCall E run i name args p = Some (r, p') \<longrightarrow> frames p' = frames p)
    \<and> (\<forall>name args p r p'. createJSClassInstance E run name args p = Some (r, p') \<longrightarrow> frames p' = frames p)"
proof -
  have L: "lib_laws (lb E)" "tables_ok (lb E)" "name_laws E" "0 < cstack (ex E)"
    using assms(1-4) unfolding assms(7) name_laws_def by simp_all
  from construct_ok [OF L assms(5), of n con] obtain q where
    q: "qinterpConstruct E run con s = Some (Some q, ps q)" "idle E q" "\<forall>(name, ds) \<in> set (all_classes con). \<exists>c.
        qclasses q name = Some c \<and> class_of (lb E) (qworld q) (fresh (wld s)) name ds c" unfolding assms(8) by blast
  let ?v = "mk TYPE_STRING (DS t)" and ?q = "push_raw (mk TYPE_STRING (DS t)) q"
  have "(''Object'', object_methods) \<in> set (all_classes con)" by (simp add: all_classes_def intrinsic_classes_def)
  with q(3) obtain c where c: "qclasses q ''Object'' = Some c"
    "class_of (lb E) (qworld q) (fresh (wld s)) ''Object'' object_methods c" by blast
  have k: "same_code q ?q" using push_raw_only [of q ?v] by (simp add: stack_only_def same_code_def)
  note m = object_native [OF L(3) c, THEN native_method_code, OF k]
  have v: "clearable ?v" "vtype ?v \<noteq> TYPE_PTR" by (simp_all add: clearable_def)
  have r: "ready E ?q" "cache_ok ?q" "stk ?q = [Some ?v]" "frames ?q = []"
    using q(2) push_raw_ready push_raw_cache push_raw_stk [of ?v q] by (auto simp: idle_def stk_def)
  have w: "int_like (mk TYPE_INT (DI k))" for k by (simp add: int_like_def)
  have "gives E fn_object_length ?v (mk TYPE_INT (DI (of_nat (length t))))" unfolding assms(7) by (rule length_value) simp
  from native_call_value [OF m(2) this w v r(1-3), of run] r(4) obtain q1 where
    q1: "callStaticMethod E run ''Object.length:Svv'' ?q = Some (IERR_NONE, q1)"
      "stk q1 = [Some (mk TYPE_INT (DI (of_nat (length t))))]" "frames q1 = []" by auto
  have "gives E fn_object_parseInt ?v (mk TYPE_INT (DI (atoi t)))" unfolding assms(7) by (rule parseInt_decimal [OF assms(9,10)])
  from native_call_value [OF m(1) this w v r(1-3), of run] r(4) obtain q2 where
    q2: "callStaticMethod E run ''Object.parseInt:Svv'' ?q = Some (IERR_NONE, q2)"
      "stk q2 = [Some (mk TYPE_INT (DI (atoi t)))]" "frames q2 = []" by auto
  have "natives_kept E" unfolding assms(7) by (rule natives_kept_with [OF assms(6)])
  then have "run_kept run" unfolding assms(8) interp_def by (rule interp_run_kept [OF interp_loop_kept])
  note b = callStaticMethod_frames [OF this \<open>natives_kept E\<close>] qinterpCall_frames [OF this \<open>natives_kept E\<close>]
    createJSClassInstance_frames [OF this \<open>natives_kept E\<close>]
  show ?thesis
    by (rule exI [of _ q], rule exI [of _ q1], rule exI [of _ q2]) (intro conjI allI impI q(1) q1 q2; erule b)
qed

theorem natives_run_witness:
  "\<exists>q q1 q2. qinterpConstruct (with_intrinsics fun_nlib 1 env_a) (interp 2 (with_intrinsics fun_nlib 1 env_a)) True pstate_a = Some (Some q, ps q)
    \<and> callStaticMethod (with_intrinsics fun_nlib 1 env_a) (interp 2 (with_intrinsics fun_nlib 1 env_a)) ''Object.length:Svv''
        (push_raw (mk TYPE_STRING (DS ''-42'')) q) = Some (IERR_NONE, q1)
    \<and> stk q1 = [Some (mk TYPE_INT (DI 3))]
    \<and> callStaticMethod (with_intrinsics fun_nlib 1 env_a) (interp 2 (with_intrinsics fun_nlib 1 env_a)) ''Object.parseInt:Svv''
        (push_raw (mk TYPE_STRING (DS ''-42'')) q) = Some (IERR_NONE, q2)
    \<and> stk q2 = [Some (mk TYPE_INT (DI (-42)))]"
proof -
  have E: "with_intrinsics fun_nlib 1 env_a = with_intrinsics fun_nlib (Suc 0) env_a"
    "interp 2 (with_intrinsics fun_nlib 1 env_a) = interp (Suc (Suc 0)) (with_intrinsics fun_nlib 1 env_a)"
    by (simp_all only: One_nat_def numeral_2_eq_2)
  have t: "s_dup (ex env_a) ''-42'' = Some ''-42''" "s_isint (ex env_a) ''-42''" "0 < cstack (ex env_a)" "mallocs (wld pstate_a) = []"
    by (simp_all add: env_a_def int_ext_def isdigit_def schar_def pstate_a_def world_a_def)
  have "atoi ''-42'' = (-42 :: int32)" "of_nat (length ''-42'') = (3 :: int32)"
    by (simp_all add: atoi_def isdigit_def isspace_def schar_def)
  with natives_run [OF laws_a(1,3,4) t(3,4) natives_kept_a E t(1,2), of True] show ?thesis by fastforce
qed

end
