(* ===== verification/Call_Tree.thy ===== *)
theory Call_Tree
  imports Native_Calls
begin

section \<open>Trees of calls\<close>

text \<open>
  Code that pushes ints, applies operators and calls static methods, whose code is of the same
  kind, down to native functions: the calls make a tree. It has a value, which does not mention
  frames, blocks or program counters, and the interpreter computes it, with fuel that grows with
  the tree; every method of the tree is entered and left.
\<close>

subsection \<open>The value of a tree\<close>

text \<open>The string at k among the constants of a class.\<close>

definition pooled :: "('c, 'f) qinterp \<Rightarrow> nat \<Rightarrow> int32 \<Rightarrow> string option" where
  "pooled q c k = do {
     jsp \<leftarrow> classes (qworld q) c;
     p \<leftarrow> constdata jsp;
     pp \<leftarrow> progs (ps q) p;
     l \<leftarrow> elem (map (Const p) [0..<ncdata pp]) (sint k);
     v \<leftarrow> var_at q l;
     as_str (data v) }"

text \<open>
  \<open>code_value E q0 c n is s s'\<close>: in a method of the class c of the program of q0 the listing takes the
  values s on the stack to s', calling what its instructions name; n bounds the fuel of the calls.
\<close>

inductive code_value ::
  "('c, 'f) env \<Rightarrow> ('c, 'f) qinterp \<Rightarrow> nat \<Rightarrow> nat \<Rightarrow> instr list \<Rightarrow> (loc, 'f) variant list \<Rightarrow> (loc, 'f) variant list \<Rightarrow> bool"
  for E q0 where
  over: "code_value E q0 c n [] s s"
| step: "abs_step i s = Some s1 \<Longrightarrow> code_value E q0 c n is s1 s2 \<Longrightarrow> code_value E q0 c n (i # is) s s2"
| call: "iop i = OP_SCALL \<Longrightarrow> iargs i = [k] \<Longrightarrow> pooled q0 c k = Some name \<Longrightarrow> static_method E q0 name c' mp
    \<Longrightarrow> body_of (i16 (lb E)) mp pre body \<Longrightarrow> code_value E q0 c' n' body [] [v] \<Longrightarrow> length pre + length body + 2 + n' \<le> n
    \<Longrightarrow> code_value E q0 c n is (v # s) s2 \<Longrightarrow> code_value E q0 c n (i # is) s s2"
| native: "iop i = OP_SCALL \<Longrightarrow> iargs i = [k] \<Longrightarrow> pooled q0 c k = Some name \<Longrightarrow> native_method E q0 name f
    \<Longrightarrow> gives E f v w \<Longrightarrow> int_like w \<Longrightarrow> code_value E q0 c n is (w # s) s2 \<Longrightarrow> code_value E q0 c n (i # is) (v # s) s2"

lemma code_value_typed: "code_value E q0 c n is s s' \<Longrightarrow> list_all int_like s \<Longrightarrow> list_all int_like s'"
  by (induction rule: code_value.induct) (auto dest: abs_step_typed)

subsection \<open>The interpreter computes it\<close>

lemma const_string_pooled: "cur q = Some sf \<Longrightarrow> keeps const_places q0 q \<Longrightarrow> const_string q k = pooled q0 (ctx sf) k"
proof -
  assume "cur q = Some sf" "keeps const_places q0 q"
  moreover from this have "elem (map (Const p) [0..<m]) j = Some l \<Longrightarrow> var_at q l = var_at q0 l" for p m j l
    by (auto simp: elem_def keeps_def const_places_def split: if_splits)
  ultimately show ?thesis
    by (auto simp: const_string_def pooled_def keeps_def same_code_def intro!: Option.bind_cong)
qed

lemma exec_scall_returns:
  assumes "cur q = Some sf" "ferr sf = IERR_NONE" "const_string q k = Some name"
    "callStaticMethod E run name q = Some (IERR_NONE, q')" "frames q' = frames q"
  shows "exec_op E run OP_SCALL m m2 [k] q = Some (None, q')"
proof -
  have "cur q' = Some sf" using assms(1,5) by (simp add: cur_def)
  moreover from this have "set_cur (sf\<lparr>ferr := IERR_NONE\<rparr>) q' = q'" using assms(2) set_cur_same [of q' sf] by (cases sf) simp
  ultimately show ?thesis using assms(3,4)
    by (simp add: exec_op_def operators_def controls_def exec_scall_def after_call_def set_err_def ok_def elem_def)
qed

lemma code_value_runs:
  "code_value E q0 c n is s s' \<Longrightarrow> list_all int_like s \<Longrightarrow> runs E q0 c n is s s'"
proof (induction rule: code_value.induct)
  case over
  show ?case by (rule runs_Nil)
next
  case step
  then show ?case using abs_step_typed by (blast intro: runs_step)
next
  case (call i k c name c' mp pre body n' v n "is" s s2)
  have v: "int_like v" using code_value_typed [OF call.hyps(6)] by simp
  have body: "runs E q0 c' n' body [] [v]" using call.IH(1) by simp
  show ?case
  proof (rule runs_Cons)
    show "runs E q0 c n is (v # s) s2" using call v by simp
  next
    fix q sf j base
    assume q: "ready E q" "cache_ok q" "keeps const_places q0 q" "cur q = Some sf" "ctx sf = c" "ferr sf = IERR_NONE" "stk q = map Some s @ base"
    have m: "static_method E q name c' mp" by (rule static_method_code [OF call.hyps(4) keeps_code [OF q(3)]])
    obtain d where d: "n + j = length pre + length body + 2 + n' + d"
      using call.hyps(7) by (metis le_add1 le_trans nat_le_iff_add)
    from static_call_value [OF body v m call.hyps(5) q(1-3), of d] obtain q' where
      q': "callStaticMethod E (interp (n + j) E) name q = Some (IERR_NONE, q')" "stk q' = Some v # stk q" "frames q' = frames q"
        "keeps (held (frames q)) q q'" "ready E q'" "cache_ok q'" unfolding d by blast
    have "const_string q k = Some name" using const_string_pooled [OF q(4,3)] q(5) call.hyps(3) by simp
    from exec_scall_returns [OF q(4,6) this q'(1,3)] call.hyps(1,2) q' q(7)
    show "\<exists>q'. exec_op E (interp (n + j) E) (iop i) (imode i) (imode2 i) (iargs i) q = Some (None, q')
      \<and> stk q' = map Some (v # s) @ base \<and> ready E q' \<and> cache_ok q' \<and> keeps (held (frames q)) q q' \<and> frames q' = frames q" by auto
  qed
next
  case (native i k c name f v w n "is" s s2)
  have v: "clearable v" "vtype v \<noteq> TYPE_PTR" using native.prems by (auto simp: int_like_scalar dest: int_like_scalar)
  show ?case
  proof (rule runs_Cons)
    show "runs E q0 c n is (w # s) s2" using native by simp
  next
    fix q sf j base
    assume q: "ready E q" "cache_ok q" "keeps const_places q0 q" "cur q = Some sf" "ctx sf = c" "ferr sf = IERR_NONE"
      "stk q = map Some (v # s) @ base"
    have m: "native_method E q name f" by (rule native_method_code [OF native.hyps(4) keeps_code [OF q(3)]])
    from native_call_value [OF m native.hyps(5,6) v q(1,2)] q(7) obtain q' where
      q': "callStaticMethod E (interp (n + j) E) name q = Some (IERR_NONE, q')" "stk q' = Some w # map Some s @ base"
        "frames q' = frames q" "keeps (held (frames q)) q q'" "ready E q'" "cache_ok q'" by fastforce
    have "const_string q k = Some name" using const_string_pooled [OF q(4,3)] q(5) native.hyps(3) by simp
    from exec_scall_returns [OF q(4,6) this q'(1,3)] native.hyps(1,2) q'
    show "\<exists>q'. exec_op E (interp (n + j) E) (iop i) (imode i) (imode2 i) (iargs i) q = Some (None, q')
      \<and> stk q' = map Some (w # s) @ base \<and> ready E q' \<and> cache_ok q' \<and> keeps (held (frames q)) q q' \<and> frames q' = frames q" by auto
  qed
qed

text \<open>C39. Calls return, and are balanced. A static method whose code pushes ints, applies operators
  and calls static methods that do the same, or native functions, returns without an error when
  there is fuel for the deepest path of these calls: the value of the tree of calls is pushed on
  the stack, which is otherwise as it was, all the frames that were entered are left, the
  results of the callers and the constants are untouched, and the interpreter is ready for the
  next call. And whatever other byte code does, when \<open>_interp\<close> or a call of a method or a
  constructor returns, the frames are those it was called with, and \<open>_interp\<close> leaves no more than
  its result on the stack unless it ran out of memory. The native methods and fields are
  required to keep the frames.\<close>
theorem calls_return:
  assumes "natives_kept E" and "ready E q" and "cache_ok q"
    and "static_method E q name c mp" and "body_of (i16 (lb E)) mp pre is" and "code_value E q c n is [] [v]"
  shows "(\<exists>q'. callStaticMethod E (interp (length pre + length is + 2 + n + k) E) name q = Some (IERR_NONE, q')
      \<and> stk q' = Some v # stk q \<and> frames q' = frames q \<and> keeps (held (frames q)) q q' \<and> ready E q' \<and> cache_ok q')
    \<and> (\<forall>j. balanced E (interp j E))"
proof -
  have "int_like v" using code_value_typed [OF assms(6)] by simp
  moreover have "runs E q c n is [] [v]" using code_value_runs [OF assms(6)] by simp
  ultimately show ?thesis
    using static_call_value [OF _ _ assms(4,5,2,3), of q n v k] frames_balanced [OF assms(1)] by simp
qed

text \<open>
  Three classes: \<open>A.f\<close> returns \<open>Object.parseInt\<close> of what \<open>B.g\<close> returns, less 9, and \<open>B.g\<close>, in a
  block of its own, returns 7.
\<close>

definition tree_env :: "((int \<Rightarrow> uint16), int) env" where
  "tree_env = with_intrinsics fun_nlib (Suc 0) env_a"

definition call_const :: "int32 \<Rightarrow> instr" where
  "call_const k = \<lparr>iop = OP_SCALL, imode = MODE_CONST, imode2 = 0, iargs = [k]\<rparr>"

definition push_int :: "int32 \<Rightarrow> instr" where
  "push_int k = \<lparr>iop = OP_PUSH, imode = MODE_IM, imode2 = 0, iargs = [k]\<rparr>"

definition code_f :: "int \<Rightarrow> uint16" where
  "code_f = (\<lambda>i. 0)(0 := encodeOp OP_SCALL 1 MODE_CONST 0, 3 := encodeOp OP_SCALL 1 MODE_CONST 0, 4 := 1,
     6 := encodeOp OP_PUSH 1 MODE_IM 0, 7 := 9, 9 := encodeOp OP_SUB 0 0 0, 10 := encodeOp OP_RET 0 0 0)"

definition code_g :: "int \<Rightarrow> uint16" where
  "code_g = (\<lambda>i. 0)(0 := encodeOp OP_ENTER 1 MODE_IM 0, 3 := encodeOp OP_PUSH 1 MODE_IM 0, 4 := 7, 6 := encodeOp OP_RET 0 0 0)"

definition method_f :: "(int \<Rightarrow> uint16) jsmethod" where
  "method_f = method_a\<lparr>hasretval := True, mpc := 11, code := code_f\<rparr>"

definition method_g :: "(int \<Rightarrow> uint16) jsmethod" where
  "method_g = method_a\<lparr>mname := ''g'', msig := ''g:Sv'', hasretval := True, mpc := 7, code := code_g, mclass := 2\<rparr>"

definition method_p :: "(int \<Rightarrow> uint16) jsmethod" where
  "method_p = method_a\<lparr>mname := ''parseInt'', msig := ''parseInt:Svv'', hasretval := True, misnative := True, mclass := 4,
     nativemethod := Some fn_object_parseInt, margs := [\<lparr>voffset = 0, vname = ''val'', srcmode = MODE_BLOCK, visstatic = False,
       isauto = False, isptr = False, visnative = False, nativefield = None\<rparr>]\<rparr>"

definition tree_world :: "(int \<Rightarrow> uint16, int) world" where
  "tree_world = (world_a [])\<lparr>fresh := 6,
     classes := [0 \<mapsto> class_a\<lparr>cmethods := [1], constdata := Some 0\<rparr>, 2 \<mapsto> class_a\<lparr>cname := ''B'', cmethods := [3]\<rparr>,
       4 \<mapsto> class_a\<lparr>cname := ''Object'', cmethods := [5]\<rparr>],
     methods := [1 \<mapsto> method_f, 3 \<mapsto> method_g, 5 \<mapsto> method_p],
     store := \<lparr>vars = [Tempdata1 \<mapsto> void_variant, Const 0 0 \<mapsto> mk TYPE_STRING (DS ''B.g:Sv''),
       Const 0 1 \<mapsto> mk TYPE_STRING (DS ''Object.parseInt:Svv'')], insts = Map.empty\<rparr>\<rparr>"

definition tree_state :: "((int \<Rightarrow> uint16), int) qinterp" where
  "tree_state = \<lparr>ps = \<lparr>wld = tree_world, progs = [0 \<mapsto> program_a\<lparr>ncdata := 2\<rparr>]\<rparr>, programs = [0],
     qclasses = [''A'' \<mapsto> 0, ''B'' \<mapsto> 2, ''Object'' \<mapsto> 4], nstack = 0, frames = [], stkframecache = [], linenum = 0\<rparr>"

lemmas tree_defs = tree_state_def tree_world_def world_a_def qworld_def qmem_def var_at_def method_f_def method_g_def
  method_p_def method_a_def class_a_def program_a_def

lemma tree_env_parts: "lb tree_env = fun_lib" "0 < cstack (ex tree_env)" "natives_kept tree_env"
  "st_index tree_env s t = int (length (takeWhile (\<lambda>c. [c] \<noteq> t) s))" "st_left tree_env s n = take (nat n) s"
  "st_subend tree_env s n = drop (nat n) s"
  unfolding tree_env_def using natives_kept_with [OF natives_kept_a]
  by (simp_all add: env_a_def int_ext_def del: with_intrinsics.simps)

lemma tree_names: "pooled tree_state 0 0 = Some ''B.g:Sv''" "pooled tree_state 0 1 = Some ''Object.parseInt:Svv''"
  by (simp_all add: pooled_def tree_defs elem_def)

lemma tree_methods:
  "static_method tree_env tree_state ''A.f:Sv'' 0 method_f" "static_method tree_env tree_state ''B.g:Sv'' 2 method_g"
  "native_method tree_env tree_state ''Object.parseInt:Svv'' fn_object_parseInt"
  by (simp_all add: static_method_def native_method_def tree_env_parts tree_defs jsclassFindMethod_def)

lemma tree_code:
  "body_of fun_i16 method_f [] [call_const 0, call_const 1, push_int 9, instr0 OP_SUB]"
  "body_of fun_i16 method_g [enter_0] [push_int 7]"
proof -
  have "coded fun_i16 code_f 0 [call_const 0, call_const 1, push_int 9, instr0 OP_SUB, instr0 OP_RET] 11"
    "coded fun_i16 code_g 0 [enter_0, push_int 7, instr0 OP_RET] 7"
    by (simp_all add: call_const_def push_int_def enter_0_def code_f_def code_g_def instr_ok_def width_def fetch_def
        blockDecode_def blockFetchInt32_def fun_i16_def decode_encode_ok Let_def)
  then show "body_of fun_i16 method_f [] [call_const 0, call_const 1, push_int 9, instr0 OP_SUB]"
    "body_of fun_i16 method_g [enter_0] [push_int 7]"
    unfolding body_of_def prologue_def
    by (auto simp: returns_def method_f_def method_g_def intro!: exI [of _ "[]"] exI [of _ "instr0 OP_RET"])
qed

lemma tree_value: "code_value tree_env tree_state 0 4 [call_const 0, call_const 1, push_int 9, instr0 OP_SUB] [] [mk TYPE_INT (DI (-2))]"
proof -
  let ?v = "\<lambda>k. mk TYPE_INT (DI k) :: (loc, int) variant"
  have g: "code_value tree_env tree_state 2 0 [push_int 7] [] [?v 7]"
    by (rule code_value.step [OF _ code_value.over]) (simp add: abs_step_def push_int_def)
  have sub: "abs_step (instr0 OP_SUB) [?v 9, ?v 7] = Some [?v (-2)]"
    by (simp add: abs_step_def int_operators_def number_def int_result_def rint_def)
  have push: "abs_step (push_int 9) [?v 7] = Some [?v 9, ?v 7]" by (simp add: abs_step_def push_int_def)
  have p: "gives tree_env fn_object_parseInt (?v 7) (?v 7)" "int_like (?v 7)"
    unfolding tree_env_def by (rule parseInt_number) (simp_all add: int_like_def)
  have call: "iop (call_const k) = OP_SCALL" "iargs (call_const k) = [k]" for k by (simp_all add: call_const_def)
  have b: "body_of (i16 (lb tree_env)) method_g [enter_0] [push_int 7]" using tree_code(2) by (simp add: tree_env_parts fun_lib_def)
  show ?thesis
    by (rule code_value.call [OF call tree_names(1) tree_methods(2) b g _
        code_value.native [OF call tree_names(2) tree_methods(3) p
        code_value.step [OF push code_value.step [OF sub code_value.over]]]]) simp
qed

theorem calls_return_witness:
  "\<exists>q'. callStaticMethod tree_env (interp 10 tree_env) ''A.f:Sv'' tree_state = Some (IERR_NONE, q')
     \<and> stk q' = [Some (mk TYPE_INT (DI (-2)))] \<and> frames q' = []"
proof -
  have q: "ready tree_env tree_state" "cache_ok tree_state" "stk tree_state = []" "frames tree_state = []"
    by (simp_all add: ready_def cache_ok_def stk_def tree_env_parts tree_defs scalar_def void_variant_def)
  have b: "body_of (i16 (lb tree_env)) method_f [] [call_const 0, call_const 1, push_int 9, instr0 OP_SUB]"
    using tree_code(1) by (simp add: tree_env_parts fun_lib_def)
  from calls_return [OF tree_env_parts(3) q(1,2) tree_methods(1) b tree_value, of 0] q(3,4) show ?thesis by auto
qed

end
