(* ===== verification/Natives_Spec.thy ===== *)
theory Natives_Spec
  imports Natives_Frames Interp_Return
begin

section \<open>What the containers of the intrinsic classes hold\<close>

text \<open>
  The native data of an instance stands for an abstract value: a vector for the list of the values
  in it, a string buffer for a string, a hash table for a map. The locale \<open>native_value\<close> is the
  contract such a view has to meet: it looks at nothing but the native data and the variants that
  were made for native data. So whatever keeps these keeps the view, in particular the writing of
  results. Each container interprets the locale, and its functions are shown to act on the view
  as the operations on lists, strings and maps do.
\<close>

subsection \<open>States that agree on native data\<close>

definition agree :: "('c, 'f) qinterp \<Rightarrow> ('c, 'f) qinterp \<Rightarrow> bool" where
  "agree q q' \<longleftrightarrow> native_of q' = native_of q
     \<and> (\<forall>a. a < fresh (qworld q) \<longrightarrow> var_at q' (Elem a) = var_at q (Elem a))
     \<and> fresh (qworld q) \<le> fresh (qworld q')"

lemma agree_refl [simp, intro!]: "agree q q" by (simp add: agree_def)

lemma agree_trans [trans]: "agree q q' \<Longrightarrow> agree q' q'' \<Longrightarrow> agree q q''"
  by (auto simp: agree_def)

locale native_value =
  fixes holds :: "('c, 'f) qinterp \<Rightarrow> nat \<Rightarrow> 'a \<Rightarrow> bool"
  assumes holds_agree: "holds q i x \<Longrightarrow> agree q q' \<Longrightarrow> holds q' i x"
begin

lemma holds_set_var: "holds q i x \<Longrightarrow> l \<notin> range Elem \<Longrightarrow> holds (set_var l v q) i x"
  by (rule holds_agree)
     (auto simp: agree_def native_of_def var_at_def qmem_def qworld_def set_var_def set_mem_def set_world_def)

lemma holds_qfree: "holds q i x \<Longrightarrow> holds (qfree n q) i x"
  by (rule holds_agree)
     (auto simp: agree_def native_of_def var_at_def qmem_def qworld_def qfree_def free_blocks_def set_world_def)

end

subsection \<open>The place a native function runs in\<close>

text \<open>
  The values that need no release and are copied as they are; the frame of a native function with
  its arguments, and the place of its result, which is void.
\<close>

definition plain :: "'f ext \<Rightarrow> (loc, 'f) variant \<Rightarrow> bool" where
  "plain X v \<longleftrightarrow> wf_variant v \<and> (vtype v \<in> {TYPE_INT, TYPE_CHAR, TYPE_BOOL, TYPE_FLOAT}
     \<or> vtype v = TYPE_STRING \<and> (\<forall>s. data v = DS s \<longrightarrow> s_dup X s = Some s))"

definition runs_in :: "('c, 'f) qinterp \<Rightarrow> loc \<Rightarrow> (loc, 'f) variant list \<Rightarrow> bool" where
  "runs_in q ret args \<longleftrightarrow> (\<exists>sf. cur q = Some sf \<and> length args \<le> nlocals sf
       \<and> (\<forall>k < length args. var_at q (Local (fid sf) k) = Some (args ! k)))
     \<and> getArgumentCount q = Some (length args) \<and> var_at q ret = Some void_variant
     \<and> ret \<notin> range Elem \<and> mallocs (qworld q) = []"

abbreviation this_arg :: "nat \<Rightarrow> (loc, 'f) variant" where
  "this_arg i \<equiv> mk TYPE_INST (DInst i)"

abbreviation int_arg :: "int32 \<Rightarrow> (loc, 'f) variant" where
  "int_arg k \<equiv> mk TYPE_INT (DI k)"

lemma argument:
  assumes "runs_in q ret args" "k < length args"
  shows "\<exists>l. getArgumentN q (int k) = Some l \<and> l \<notin> range Elem \<and> var_at q l = Some (args ! k)"
proof -
  from assms(1) obtain sf where sf: "cur q = Some sf" "length args \<le> nlocals sf"
    "\<forall>k < length args. var_at q (Local (fid sf) k) = Some (args ! k)" by (auto simp: runs_in_def)
  with assms(2) have "getArgumentN q (int k) = Some (Local (fid sf) k)"
    by (simp add: getArgumentN_def elem_def)
  with sf(3) assms(2) show ?thesis by auto
qed

lemma argument_0: "runs_in q ret (x # args) \<Longrightarrow> \<exists>l. getArgumentN q 0 = Some l \<and> l \<notin> range Elem \<and> var_at q l = Some x"
  using argument [of q ret "x # args" 0] by simp

lemma argument_1:
  "runs_in q ret (x # y # args) \<Longrightarrow> \<exists>l. getArgumentN q 1 = Some l \<and> l \<notin> range Elem \<and> var_at q l = Some y"
  using argument [of q ret "x # y # args" 1] by simp

lemma argument_2:
  "runs_in q ret (x # y # z # args) \<Longrightarrow> \<exists>l. getArgumentN q 2 = Some l \<and> l \<notin> range Elem \<and> var_at q l = Some z"
  using argument [of q ret "x # y # z # args" 2] by simp

lemma get_int:
  "var_at q l = Some (int_arg k) \<Longrightarrow> 0 < cstack X \<Longrightarrow> varGetInt X (qmem q) l = Some (Some k)"
  by (cases "cstack X") (simp_all add: varGetInt_def target_def var_at_def)

lemma VARCLEAR_result: "vars st l = Some void_variant \<Longrightarrow> VARCLEAR X l st = Some st"
  by (simp add: VARCLEAR_def void_variant_def)

lemma varClear_void: "vars st l = Some void_variant \<Longrightarrow> varClear X l st = Some st"
  by (simp add: varClear_def clear_with_def void_variant_def)

lemma put_result:
  assumes "var_at q ret \<noteq> None"
  shows "onmem (put ret t d) q = Some (True, set_var ret (mk t d) q)"
  using assms by (simp add: onmem_def put_def wr_def var_at_def set_var_def)

text \<open>Handing out a value: a void place gets it.\<close>

lemma result_simps:
  assumes "var_at q ret = Some void_variant"
  shows "onmem (varAssignInt X ret k) q = Some (True, set_var ret (mk TYPE_INT (DI k)) q)"
    "onmem (varRef X ret l) q = Some (True, set_var ret (mk TYPE_PTR (DP l)) q)"
    "onmem (varAssignString X ret s) q = Some (True, set_var ret (mk TYPE_STRING (DS s)) q)"
    "onmem (varAssignFloat X ret f) q = Some (True, set_var ret (mk TYPE_FLOAT (DF f)) q)"
    "domem (varClear X ret) q = Some q"
  using assms
  by (simp_all add: varAssignInt_def varRef_def varAssignString_def varAssignFloat_def onmem_def domem_def put_def
      wr_def VARCLEAR_result varClear_void var_at_def set_var_def set_mem_def qmem_def set_world_def qworld_def)

lemma copy_plain:
  assumes "plain X v" "vars st l = Some v" "vars st d = Some u" "vtype u \<in> {TYPE_VOID, TYPE_NULL}"
  shows "varAssign X d l st = Some (True, st\<lparr>vars := (vars st)(d \<mapsto> v)\<rparr>)"
proof -
  have "VARCLEAR X d st = Some st" using assms(3,4) by (auto simp: VARCLEAR_def)
  with assms show ?thesis
    by (cases v) (auto simp: varAssign_def plain_def wf_variant_def put_def wr_def)
qed

lemma destroy_plain:
  assumes "plain X v" "var_at q l = Some v"
  shows "domem (varDestruct X l) q = Some (del_var l q)"
  using assms
  by (cases v) (auto simp: plain_def wf_variant_def domem_def varDestruct_def VARCLEAR_def varClear_def clear_with_def wr_def
      var_at_def del_var_def)

text \<open>The state after memory for a new variant was given.\<close>

definition given :: "('c, 'f) qinterp \<Rightarrow> ('c, 'f) qinterp" where
  "given q = set_world ((qworld q)\<lparr>live := live (qworld q) + 1\<rparr>\<lparr>fresh := fresh (qworld q) + 1\<rparr>) q"

lemma given_ok:
  assumes "mallocs (qworld q) = []"
  shows "\<exists>q1. onworld take_block q = (True, q1) \<and> onworld new_address q1 = (fresh (qworld q), given q)"
proof (intro exI conjI)
  show "onworld take_block q = (True, set_world ((qworld q)\<lparr>live := live (qworld q) + 1\<rparr>) q)"
    using assms by (simp add: onworld_def take_block_def next_malloc_def)
  show "onworld new_address (set_world ((qworld q)\<lparr>live := live (qworld q) + 1\<rparr>) q) = (fresh (qworld q), given q)"
    by (simp add: onworld_def new_address_def qworld_def set_world_def given_def)
qed

lemma given_simps [simp]:
  "qmem (given q) = qmem q" "var_at (given q) = var_at q" "cur (given q) = cur q" "native_of (given q) = native_of q"
  "mallocs (qworld (given q)) = mallocs (qworld q)" "fresh (qworld (given q)) = fresh (qworld q) + 1"
  "getArgumentCount (given q) = getArgumentCount q" "magic_of (given q) = magic_of q"
  by (simp_all add: given_def set_world_def qmem_def qworld_def var_at_def cur_def native_of_def fun_eq_iff
      getArgumentCount_def magic_of_def)

lemma dup_elem_plain:
  assumes "mallocs (qworld q) = []" "var_at q l = Some v" "plain (ex E) v" "l \<notin> range Elem"
  shows "dup_elem E l q = Some (Some (Elem (fresh (qworld q))), set_var (Elem (fresh (qworld q))) v (given q))"
proof -
  let ?a = "Elem (fresh (qworld q))"
  from given_ok [OF assms(1)] obtain q1 where
    g: "onworld take_block q = (True, q1)" "onworld new_address q1 = (fresh (qworld q), given q)" by blast
  have "l \<noteq> ?a" using assms(4) by auto
  then have "varAssign (ex E) ?a l ((qmem q)\<lparr>vars := (vars (qmem q))(?a \<mapsto> void_variant)\<rparr>)
      = Some (True, (qmem q)\<lparr>vars := (vars (qmem q))(?a \<mapsto> v)\<rparr>)"
    using copy_plain [OF assms(3), of "(qmem q)\<lparr>vars := (vars (qmem q))(?a \<mapsto> void_variant)\<rparr>" l ?a void_variant] assms(2)
    by (simp add: var_at_def void_variant_def)
  then have "onmem (varConstructDup (ex E) (Some ?a) l) (given q) = Some (Some ?a, set_var ?a v (given q))"
    by (simp add: onmem_def varConstructDup_def varConstruct_def set_var_def)
  with g show ?thesis by (simp add: dup_elem_def)
qed

text \<open>Reading the state after a write.\<close>

lemma after_writes [simp]:
  "native_of (set_var l v q) = native_of q" "native_of (del_var l q) = native_of q"
  "fresh (qworld (set_var l v q)) = fresh (qworld q)" "fresh (qworld (del_var l q)) = fresh (qworld q)"
  "mallocs (qworld (set_var l v q)) = mallocs (qworld q)" "mallocs (qworld (del_var l q)) = mallocs (qworld q)"
  "var_at (set_var l v q) = (var_at q)(l \<mapsto> v)" "var_at (del_var l q) = (var_at q)(l := None)"
  "cur (set_var l v q) = cur q" "cur (del_var l q) = cur q"
  by (auto simp: set_var_def del_var_def set_mem_def set_world_def qworld_def qmem_def var_at_def native_of_def cur_def fun_eq_iff)

lemma set_native_ok:
  assumes "native_of q i = Some d"
  shows "\<exists>q'. set_native i d' q = Some q' \<and> native_of q' = (native_of q)(i \<mapsto> d') \<and> var_at q' = var_at q
    \<and> fresh (qworld q') = fresh (qworld q) \<and> mallocs (qworld q') = mallocs (qworld q) \<and> cur q' = cur q"
  using assms
  by (auto simp: set_native_def upd_inst_def native_of_def set_mem_def set_world_def qworld_def qmem_def var_at_def cur_def fun_eq_iff)

lemma qfree_simps [simp]:
  "native_of (qfree n q) = native_of q" "var_at (qfree n q) = var_at q" "fresh (qworld (qfree n q)) = fresh (qworld q)"
  "mallocs (qworld (qfree n q)) = mallocs (qworld q)"
  by (auto simp: qfree_def free_blocks_def set_world_def qworld_def qmem_def var_at_def native_of_def fun_eq_iff)

lemma this_of: "runs_in q ret (this_arg i # args) \<Longrightarrow> \<exists>l. getArgumentN q 0 = Some l \<and> inst_of q l = Some i \<and> l \<notin> range Elem"
  using argument_0 [of q ret "this_arg i" args] by (auto simp: inst_of_def)

subsection \<open>Vectors\<close>

text \<open>An instance holds a vector of values: each in a variant of its own.\<close>

definition vector_places :: "('c, 'f) qinterp \<Rightarrow> nat \<Rightarrow> nat list \<Rightarrow> bool" where
  "vector_places q i as \<longleftrightarrow> native_of q i = Some (VectorData (map (\<lambda>a. Some (Elem a)) as)) \<and> distinct as
     \<and> (\<forall>a \<in> set as. a < fresh (qworld q))"

definition holds_vector :: "'f ext \<Rightarrow> ('c, 'f) qinterp \<Rightarrow> nat \<Rightarrow> (loc, 'f) variant list \<Rightarrow> bool" where
  "holds_vector X q i vs \<longleftrightarrow> (\<exists>as. vector_places q i as
     \<and> map (\<lambda>a. var_at q (Elem a)) as = map Some vs \<and> list_all (plain X) vs)"

lemma places_agree:
  assumes "vector_places q i as" "agree q q'"
  shows "vector_places q' i as \<and> map (\<lambda>a. var_at q' (Elem a)) as = map (\<lambda>a. var_at q (Elem a)) as"
  using assms by (auto simp: vector_places_def agree_def)

lemma vector_agree:
  assumes "holds_vector X q i vs" "agree q q'" shows "holds_vector X q' i vs"
proof -
  from assms(1) obtain as where "vector_places q i as" "map (\<lambda>a. var_at q (Elem a)) as = map Some vs"
    "list_all (plain X) vs" by (auto simp: holds_vector_def)
  with places_agree [OF this(1) assms(2)] show ?thesis unfolding holds_vector_def by metis
qed

interpretation vec: native_value "holds_vector X" for X
  by unfold_locales (rule vector_agree)

lemma vector_thisI:
  "runs_in q ret (this_arg i # args) \<Longrightarrow> vector_places q i as
     \<Longrightarrow> vector_this q = Some (i, map (\<lambda>a. Some (Elem a)) as)"
  using this_of [of q ret i args] by (auto simp: vector_this_def vector_places_def)

lemma map_Some_eq:
  "map f as = map Some vs \<longleftrightarrow> length as = length vs \<and> (\<forall>k < length vs. f (as ! k) = Some (vs ! k))"
  by (simp add: list_eq_iff_nth_eq) (metis nth_map)

lemma vector_add_ok:
  assumes r: "runs_in q ret [this_arg i, v]" and h: "holds_vector (ex E) q i vs" and v: "plain (ex E) v"
  shows "\<exists>q'. vector_add E ret q = Some (IERR_NONE, q') \<and> holds_vector (ex E) q' i (vs @ [v])"
proof -
  from h obtain as where as: "vector_places q i as" "map (\<lambda>a. var_at q (Elem a)) as = map Some vs"
    "list_all (plain (ex E)) vs" by (auto simp: holds_vector_def)
  from argument_1 [OF r] obtain l where l: "getArgumentN q 1 = Some l" "l \<notin> range Elem" "var_at q l = Some v" by blast
  have q: "mallocs (qworld q) = []" "var_at q ret = Some void_variant" "ret \<notin> range Elem" using r by (auto simp: runs_in_def)
  let ?a = "fresh (qworld q)"
  let ?q1 = "set_var (Elem ?a) v (given q)"
  have "native_of ?q1 i = Some (VectorData (map (\<lambda>a. Some (Elem a)) as))" using as(1) by (simp add: vector_places_def)
  from set_native_ok [OF this, of "VectorData (map (\<lambda>a. Some (Elem a)) as @ [Some (Elem ?a)])"] obtain q2 where
    q2: "set_native i (VectorData (map (\<lambda>a. Some (Elem a)) as @ [Some (Elem ?a)])) ?q1 = Some q2"
      "native_of q2 = (native_of ?q1)(i \<mapsto> VectorData (map (\<lambda>a. Some (Elem a)) (as @ [?a])))"
      "var_at q2 = var_at ?q1" "fresh (qworld q2) = Suc ?a" by auto
  have g: "onworld grow ?q1 = (True, ?q1)" using q(1) by (simp add: onworld_grow)
  have "var_at q2 ret = Some void_variant" using q(2,3) q2(3) by auto
  from result_simps(5) [OF this, of "ex E"] have "vector_add E ret q = Some (IERR_NONE, q2)"
    using vector_thisI [OF r as(1)] l(1) dup_elem_plain [where E = E, OF q(1) l(3) v l(2)] g q2(1)
    by (simp add: vector_add_def return_nothing_def)
  moreover have "vector_places q2 i (as @ [?a])" using as(1) q2(2,4) by (auto simp: vector_places_def)
  moreover have "map (\<lambda>a. var_at q2 (Elem a)) (as @ [?a]) = map Some (vs @ [v])"
  proof -
    have "map (\<lambda>a. var_at q2 (Elem a)) as = map (\<lambda>a. var_at q (Elem a)) as"
      using as(1) q2(3) by (auto simp: vector_places_def)
    then show ?thesis using as(2) q2(3) by simp
  qed
  ultimately show ?thesis using as(3) v unfolding holds_vector_def by fastforce
qed

lemma vector_size_ok:
  assumes r: "runs_in q ret [this_arg i]" and h: "holds_vector (ex E) q i vs"
  shows "vector_size E ret q = Some (IERR_NONE, set_var ret (int_arg (of_nat (length vs))) q)"
proof -
  from h obtain as where as: "vector_places q i as" "map (\<lambda>a. var_at q (Elem a)) as = map Some vs"
    by (auto simp: holds_vector_def)
  from arg_cong [OF as(2), of length] have "length as = length vs" by simp
  then show ?thesis using vector_thisI [OF r as(1)] r
    by (auto simp: vector_size_def runs_in_def result_simps(1))
qed

lemma v_get_laws:
  assumes "nlib_laws N"
  shows "v_get N xs k = (if 0 \<le> k \<and> k < int (length xs) then xs ! nat k else None)"
  using assms [unfolded nlib_laws_def, THEN conjunct1] by simp

lemma vector_elementat_ok:
  assumes N: "nlib_laws N" and r: "runs_in q ret [this_arg i, int_arg k]" and h: "holds_vector (ex E) q i vs"
    and c: "0 < cstack (ex E)"
  shows "if 0 \<le> sint k \<and> sint k < int (length vs)
    then \<exists>l. vector_elementat N E ret q = Some (IERR_NONE, set_var ret (mk TYPE_PTR (DP l)) q)
           \<and> var_at q l = Some (vs ! nat (sint k))
    else vector_elementat N E ret q = Some (IERR_INDEX_OUT_OF_BOUNDS, q)"
proof -
  from h obtain as where as: "vector_places q i as" "map (\<lambda>a. var_at q (Elem a)) as = map Some vs"
    by (auto simp: holds_vector_def)
  then have len: "length as = length vs" "\<And>k. k < length vs \<Longrightarrow> var_at q (Elem (as ! k)) = Some (vs ! k)"
    by (auto simp: map_Some_eq)
  from argument_1 [OF r] obtain l where l: "getArgumentN q 1 = Some l" "var_at q l = Some (int_arg k)" by blast
  have v: "var_at q ret = Some void_variant" using r by (auto simp: runs_in_def)
  show ?thesis
    using vector_thisI [OF r as(1)] l(1) get_int [OF l(2) c] len v_get_laws [OF N] result_simps(2) [OF v]
    by (auto simp: vector_elementat_def refused_def)
qed

lemma v_set_inside:
  assumes "nlib_laws N" "0 \<le> k" "k < int (length xs)"
  shows "v_set N xs l k = Some (xs[nat k := l])"
proof -
  have "\<forall>xs l k ys. 0 \<le> k \<longrightarrow> v_set N xs l k = Some ys \<longrightarrow>
      ys = (xs @ replicate (Suc (nat k) - length xs) None)[nat k := l]"
    using assms(1) unfolding nlib_laws_def by (elim conjE)
  moreover have "\<forall>xs l k. 0 \<le> k \<and> k < int (length xs) \<longrightarrow> v_set N xs l k \<noteq> None"
    using assms(1) unfolding nlib_laws_def by (elim conjE)
  ultimately obtain ys where ys: "v_set N xs l k = Some ys"
    "ys = (xs @ replicate (Suc (nat k) - length xs) None)[nat k := l]" using assms(2,3) by blast
  moreover have "Suc (nat k) - length xs = 0" using assms(2,3) by simp
  ultimately show ?thesis by simp
qed

lemma vector_set_ok:
  assumes N: "nlib_laws N" and r: "runs_in q ret [this_arg i, int_arg k, v]" and h: "holds_vector (ex E) q i vs"
    and c: "0 < cstack (ex E)" and v: "plain (ex E) v" and k: "0 \<le> sint k" "sint k < int (length vs)"
  shows "\<exists>q'. vector_setelementat N E ret q = Some (IERR_NONE, q') \<and> holds_vector (ex E) q' i (vs[nat (sint k) := v])"
proof -
  from h obtain as where as: "vector_places q i as" "map (\<lambda>a. var_at q (Elem a)) as = map Some vs"
    "list_all (plain (ex E)) vs" by (auto simp: holds_vector_def)
  then have len: "length as = length vs" "\<And>j. j < length vs \<Longrightarrow> var_at q (Elem (as ! j)) = Some (vs ! j)"
    by (auto simp: map_Some_eq)
  have d: "distinct as" "\<And>j. j < length as \<Longrightarrow> as ! j < fresh (qworld q)"
    using as(1) by (auto simp: vector_places_def)
  let ?k = "nat (sint k)" and ?a = "fresh (qworld q)"
  have k': "?k < length vs" using k by simp
  from argument_1 [OF r] obtain l where l: "getArgumentN q 1 = Some l" "var_at q l = Some (int_arg k)" by blast
  from argument_2 [OF r] obtain m where m: "getArgumentN q 2 = Some m" "m \<notin> range Elem" "var_at q m = Some v" by blast
  have q: "mallocs (qworld q) = []" "var_at q ret = Some void_variant" "ret \<notin> range Elem" using r by (auto simp: runs_in_def)
  let ?q1 = "set_var (Elem ?a) v (given q)"
  have "plain (ex E) (vs ! ?k)" using as(3) k' by (simp add: list_all_length)
  moreover have old: "var_at ?q1 (Elem (as ! ?k)) = Some (vs ! ?k)" using d(2) [of ?k] len k' by auto
  ultimately have des: "domem (varDestruct (ex E) (Elem (as ! ?k))) ?q1 = Some (del_var (Elem (as ! ?k)) ?q1)"
    by (rule destroy_plain)
  let ?q2 = "qfree 1 (del_var (Elem (as ! ?k)) ?q1)"
  have "native_of ?q2 i = Some (VectorData (map (\<lambda>a. Some (Elem a)) as))" using as(1) by (simp add: vector_places_def)
  from set_native_ok [OF this, of "VectorData ((map (\<lambda>a. Some (Elem a)) as)[?k := Some (Elem ?a)])"] obtain q3 where
    q3: "set_native i (VectorData ((map (\<lambda>a. Some (Elem a)) as)[?k := Some (Elem ?a)])) ?q2 = Some q3"
      "native_of q3 = (native_of ?q2)(i \<mapsto> VectorData (map (\<lambda>a. Some (Elem a)) (as[?k := ?a])))"
      "var_at q3 = var_at ?q2" "fresh (qworld q3) = Suc ?a" by (auto simp: map_update)
  have "var_at q3 ret = Some void_variant" using q(2,3) q3(3) by auto
  from result_simps(5) [OF this, of "ex E"] have "vector_setelementat N E ret q = Some (IERR_NONE, q3)"
    using vector_thisI [OF r as(1)] l(1) m(1) get_int [OF l(2) c] dup_elem_plain [where E = E, OF q(1) m(3) v m(2)]
      v_get_laws [OF N] v_set_inside [OF N k(1), of "map (\<lambda>a. Some (Elem a)) as"] k len(1) des q3(1)
    by (simp add: vector_setelementat_def return_nothing_def)
  moreover have "vector_places q3 i (as[?k := ?a])"
    using as(1) q3(2,4) d(2) k' len(1)
    by (auto simp: vector_places_def in_set_conv_nth intro!: distinct_list_update dest!: set_update_subset_insert [THEN subsetD])
  moreover have "map (\<lambda>a. var_at q3 (Elem a)) (as[?k := ?a]) = map Some (vs[?k := v])"
  proof -
    have "var_at q3 (Elem (as[?k := ?a] ! j)) = Some (vs[?k := v] ! j)" if j: "j < length vs" for j
    proof (cases "j = ?k")
      case True
      then show ?thesis using q3(3) d(2) [of ?k] len(1) k' by auto
    next
      case False
      then have "as ! j \<noteq> as ! ?k" using d(1) j k' len(1) by (simp add: nth_eq_iff_index_eq)
      moreover have "as ! j \<noteq> ?a" using d(2) [of j] j len(1) by simp
      ultimately show ?thesis using False q3(3) len j by simp
    qed
    then show ?thesis using len(1) by (simp add: map_Some_eq)
  qed
  moreover have "list_all (plain (ex E)) (vs[?k := v])"
    using as(3) v k' by (auto simp: list_all_length nth_list_update)
  ultimately show ?thesis unfolding holds_vector_def by blast
qed

lemma vector_set_outside:
  assumes N: "nlib_laws N" and r: "runs_in q ret [this_arg i, int_arg k, v]" and h: "holds_vector (ex E) q i vs"
    and c: "0 < cstack (ex E)" and v: "plain (ex E) v" and k: "\<not> (0 \<le> sint k \<and> sint k < int (length vs))"
  shows "vector_setelementat N E ret q = None"
proof -
  from h obtain as where as: "vector_places q i as" "map (\<lambda>a. var_at q (Elem a)) as = map Some vs"
    by (auto simp: holds_vector_def)
  then have len: "length as = length vs" by (simp add: map_Some_eq)
  from argument_1 [OF r] obtain l where l: "getArgumentN q 1 = Some l" "var_at q l = Some (int_arg k)" by blast
  from argument_2 [OF r] obtain m where m: "getArgumentN q 2 = Some m" "m \<notin> range Elem" "var_at q m = Some v" by blast
  have q: "mallocs (qworld q) = []" using r by (auto simp: runs_in_def)
  show ?thesis
    using vector_thisI [OF r as(1)] l(1) m(1) get_int [OF l(2) c] dup_elem_plain [where E = E, OF q(1) m(3) v m(2)]
      v_get_laws [OF N] k len
    by (auto simp: vector_setelementat_def)
qed

lemma destroy_elems_plain:
  "distinct as \<Longrightarrow> \<forall>a \<in> set as. \<exists>v. var_at q (Elem a) = Some v \<and> plain (ex E) v \<Longrightarrow>
     \<exists>q'. destroy_elems E (map (\<lambda>a. Some (Elem a)) as) q = Some q' \<and> native_of q' = native_of q
       \<and> fresh (qworld q') = fresh (qworld q) \<and> (\<forall>l. l \<notin> range Elem \<longrightarrow> var_at q' l = var_at q l)"
proof (induction as arbitrary: q)
  case (Cons a as)
  then obtain v where v: "var_at q (Elem a) = Some v" "plain (ex E) v" by auto
  let ?q = "qfree 1 (del_var (Elem a) q)"
  have "\<forall>b \<in> set as. \<exists>v. var_at ?q (Elem b) = Some v \<and> plain (ex E) v" using Cons.prems by auto
  from Cons.IH [OF _ this] Cons.prems(1) obtain q' where
    "destroy_elems E (map (\<lambda>a. Some (Elem a)) as) ?q = Some q'" "native_of q' = native_of ?q"
    "fresh (qworld q') = fresh (qworld ?q)" "\<forall>l. l \<notin> range Elem \<longrightarrow> var_at q' l = var_at ?q l" by auto
  then show ?case using destroy_plain [OF v(2,1)] by auto
qed simp

lemma vector_clear_ok:
  assumes r: "runs_in q ret [this_arg i]" and h: "holds_vector (ex E) q i vs"
  shows "\<exists>q'. vector_clear E ret q = Some (IERR_NONE, q') \<and> holds_vector (ex E) q' i []"
proof -
  from h obtain as where as: "vector_places q i as" "map (\<lambda>a. var_at q (Elem a)) as = map Some vs"
    "list_all (plain (ex E)) vs" by (auto simp: holds_vector_def)
  have "\<forall>a \<in> set as. \<exists>v. var_at q (Elem a) = Some v \<and> plain (ex E) v"
    using as(2,3) by (auto simp: map_Some_eq list_all_length in_set_conv_nth)
  with as(1) obtain q1 where q1: "destroy_elems E (map (\<lambda>a. Some (Elem a)) as) q = Some q1"
    "native_of q1 = native_of q" "\<forall>l. l \<notin> range Elem \<longrightarrow> var_at q1 l = var_at q l"
    using destroy_elems_plain [of as q E] by (auto simp: vector_places_def)
  have "native_of q1 i = Some (VectorData (map (\<lambda>a. Some (Elem a)) as))" using as(1) q1(2) by (simp add: vector_places_def)
  from set_native_ok [OF this, of "VectorData []"] obtain q2 where q2: "set_native i (VectorData []) q1 = Some q2"
    "native_of q2 = (native_of q1)(i \<mapsto> VectorData [])" "var_at q2 = var_at q1" by auto
  have "var_at q2 ret = Some void_variant" using r q1(3) q2(3) by (simp add: runs_in_def)
  from result_simps(5) [OF this, of "ex E"] have "vector_clear E ret q = Some (IERR_NONE, q2)"
    using vector_thisI [OF r as(1)] q1(1) q2(1) by (simp add: vector_clear_def return_nothing_def)
  moreover have "holds_vector (ex E) q2 i []" using q2(2) by (auto simp: holds_vector_def vector_places_def)
  ultimately show ?thesis by blast
qed

text \<open>A state that runs a native function on instance 4, with two variants in its native data.\<close>

definition method_n :: "nat \<Rightarrow> (int \<Rightarrow> uint16) jsmethod" where
  "method_n n = \<lparr>mname = ''f'', margs = replicate n \<lparr>voffset = 0, vname = ''x'', srcmode = MODE_BLOCK, visstatic = False,
       isauto = False, isptr = False, visnative = False, nativefield = None\<rparr>,
     misstatic = False, misnative = True, hasretval = True, access = ACC_PUBLIC, msig = ''f'', mclass = 0, mpc = 0,
     code = (\<lambda>k. 0), nativemethod = Some 0\<rparr>"

definition native_a :: "loc native \<Rightarrow> (loc, int) variant list \<Rightarrow> ((int \<Rightarrow> uint16), int) qinterp" where
  "native_a d args = qinterp_a\<lparr>
     ps := pstate_a\<lparr>wld := (wld pstate_a)\<lparr>methods := [0 \<mapsto> method_n (length args)], fresh := 10,
       store := \<lparr>
         vars = (\<lambda>l. case l of Local f k \<Rightarrow> if f = 9 \<and> k < length args then Some (args ! k) else None | _ \<Rightarrow> None)
           (Retval 9 \<mapsto> void_variant, Null \<mapsto> mk TYPE_NULL (DI 0), Elem 0 \<mapsto> int_arg 5, Elem 1 \<mapsto> int_arg 6),
         insts = [4 \<mapsto> \<lparr>myclass = 0, ifields = [], refcount = 1, nativedata = d, magic = Some 104\<rparr>]\<rparr>\<rparr>\<rparr>,
     frames := [frame_a\<lparr>fmethod := Some 0, nlocals := length args\<rparr>]\<rparr>"

lemmas native_a_defs = native_a_def qinterp_a_def pstate_a_def world_a_def frame_a_def method_n_def qmem_def qworld_def
  cur_def var_at_def

lemma native_a_runs: "runs_in (native_a d args) (Retval 9) args"
  by (auto simp: runs_in_def native_a_defs getArgumentCount_def)

lemma native_a_vector: "holds_vector int_ext (native_a (VectorData [Some (Elem 1), Some (Elem 0)]) args) 4 [int_arg 6, int_arg 5]"
  unfolding holds_vector_def
  by (rule exI [of _ "[1, 0]"]) (simp add: vector_places_def native_of_def native_a_defs plain_def wf_variant_def)

text \<open>C4. The class Vector is a list. Its functions act on the values an instance holds as append,
  length, nth and update on lists do, and clear empties it. Reading outside is the error
  IERR\_INDEX\_OUT\_OF\_BOUNDS; writing outside is undefined, the element that is not there is
  destroyed without a test.\<close>
theorem vector_refines_list:
  assumes "nlib_laws N" "0 < cstack (ex E)" "holds_vector (ex E) q i vs"
  shows "(runs_in q ret [this_arg i, v] \<longrightarrow> plain (ex E) v \<longrightarrow>
        (\<exists>q'. vector_add E ret q = Some (IERR_NONE, q') \<and> holds_vector (ex E) q' i (vs @ [v])))
    \<and> (runs_in q ret [this_arg i] \<longrightarrow>
        (\<exists>q'. vector_size E ret q = Some (IERR_NONE, q') \<and> holds_vector (ex E) q' i vs
           \<and> var_at q' ret = Some (int_arg (of_nat (length vs)))))
    \<and> (runs_in q ret [this_arg i, int_arg k] \<longrightarrow>
        (if 0 \<le> sint k \<and> sint k < int (length vs)
         then \<exists>q' l. vector_elementat N E ret q = Some (IERR_NONE, q') \<and> holds_vector (ex E) q' i vs
           \<and> var_at q' ret = Some (mk TYPE_PTR (DP l)) \<and> var_at q' l = Some (vs ! nat (sint k))
         else vector_elementat N E ret q = Some (IERR_INDEX_OUT_OF_BOUNDS, q)))
    \<and> (runs_in q ret [this_arg i, int_arg k, v] \<longrightarrow> plain (ex E) v \<longrightarrow>
        (if 0 \<le> sint k \<and> sint k < int (length vs)
         then \<exists>q'. vector_setelementat N E ret q = Some (IERR_NONE, q')
           \<and> holds_vector (ex E) q' i (vs[nat (sint k) := v])
         else vector_setelementat N E ret q = None))
    \<and> (runs_in q ret [this_arg i] \<longrightarrow>
        (\<exists>q'. vector_clear E ret q = Some (IERR_NONE, q') \<and> holds_vector (ex E) q' i []))"
proof (intro conjI impI)
  show "\<exists>q'. vector_size E ret q = Some (IERR_NONE, q') \<and> holds_vector (ex E) q' i vs
           \<and> var_at q' ret = Some (int_arg (of_nat (length vs)))" if r: "runs_in q ret [this_arg i]"
    using vector_size_ok [OF r assms(3)] vec.holds_set_var [OF assms(3)] r by (auto simp: runs_in_def)
  assume r: "runs_in q ret [this_arg i, int_arg k]"
  have "ret \<notin> range Elem" using r by (simp add: runs_in_def)
  note keep = vec.holds_set_var [OF assms(3) this]
  have differ: "var_at q l = Some (vs ! nat (sint k)) \<Longrightarrow> l \<noteq> ret" if "0 \<le> sint k" "sint k < int (length vs)" for l
  proof
    assume l: "var_at q l = Some (vs ! nat (sint k))" "l = ret"
    have "plain (ex E) (vs ! nat (sint k))" using assms(3) that by (auto simp: holds_vector_def list_all_length)
    moreover have "vs ! nat (sint k) = void_variant" using r l by (auto simp: runs_in_def)
    ultimately show False by (simp add: plain_def void_variant_def)
  qed
  show "if 0 \<le> sint k \<and> sint k < int (length vs)
         then \<exists>q' l. vector_elementat N E ret q = Some (IERR_NONE, q') \<and> holds_vector (ex E) q' i vs
           \<and> var_at q' ret = Some (mk TYPE_PTR (DP l)) \<and> var_at q' l = Some (vs ! nat (sint k))
         else vector_elementat N E ret q = Some (IERR_INDEX_OUT_OF_BOUNDS, q)"
    using vector_elementat_ok [OF assms(1) r assms(3,2)] keep differ by (fastforce split: if_splits)
qed (use vector_add_ok [OF _ assms(3)] vector_clear_ok [OF _ assms(3)]
      vector_set_ok [OF assms(1) _ assms(3,2)] vector_set_outside [OF assms(1) _ assms(3,2)] in auto)

theorem vector_refines_list_witness:
  "\<exists>q'. vector_setelementat fun_nlib env_a (Retval 9)
       (native_a (VectorData [Some (Elem 1), Some (Elem 0)]) [this_arg 4, int_arg 1, int_arg 7]) = Some (IERR_NONE, q')
     \<and> holds_vector int_ext q' 4 [int_arg 6, int_arg 7]"
proof -
  let ?args = "[this_arg 4, int_arg 1, int_arg 7] :: (loc, int) variant list"
  have x: "ex env_a = int_ext" "0 < cstack (ex env_a)" by (simp_all add: env_a_def int_ext_def)
  have "plain int_ext (int_arg 7)" by (simp add: plain_def wf_variant_def)
  with vector_refines_list [OF fun_nlib_laws x(2), of _ 4 "[int_arg 6, int_arg 5]" "Retval 9" "int_arg 7" 1]
    native_a_vector [of ?args] native_a_runs [of _ ?args] x(1)
  show ?thesis by fastforce
qed

subsection \<open>String buffers and hash tables\<close>

definition holds_string :: "('c, 'f) qinterp \<Rightarrow> nat \<Rightarrow> string \<Rightarrow> bool" where
  "holds_string q i s \<longleftrightarrow> native_of q i = Some (StrbufData s)"

interpretation buf: native_value holds_string
  by unfold_locales (simp add: holds_string_def agree_def)

lemma string_laws:
  assumes "nlib_laws N"
  shows "sb_append N s t = Some u \<Longrightarrow> u = s @ t" "sb_string N s = Some t \<Longrightarrow> t = s"
proof -
  have "\<forall>s t u. sb_append N s t = Some u \<longrightarrow> u = s @ t" using assms unfolding nlib_laws_def by (elim conjE)
  then show "sb_append N s t = Some u \<Longrightarrow> u = s @ t" by blast
  have "\<forall>s t. sb_string N s = Some t \<longrightarrow> t = s" using assms unfolding nlib_laws_def by (elim conjE)
  then show "sb_string N s = Some t \<Longrightarrow> t = s" by blast
qed

lemma string_thisI:
  "runs_in q ret (this_arg i # args) \<Longrightarrow> holds_string q i s \<Longrightarrow> strbuf_this q = Some (i, s)"
  using this_of [of q ret i args] by (auto simp: strbuf_this_def holds_string_def)

lemma string_append_ok:
  assumes N: "nlib_laws N" and r: "runs_in q ret [this_arg i, v]" and h: "holds_string q i s"
    and t: "\<And>l. var_at q l = Some v \<Longrightarrow> varToString (ex E) (qmem q) l = Some (Some t)"
  shows "\<exists>e q'. stringbuffer_append N E ret q = Some (e, q')
    \<and> (e = IERR_NONE \<and> holds_string q' i (s @ c_str t) \<or> e = IERR_OUT_OF_MEM \<and> q' = q)"
proof -
  from argument_1 [OF r] obtain l where l: "getArgumentN q 1 = Some l" "var_at q l = Some v" by blast
  note st = string_thisI [OF r h] l(1) t [OF l(2)]
  show ?thesis
  proof (cases "sb_append N s (c_str t)")
    case None
    with st show ?thesis by (simp add: stringbuffer_append_def refused_def)
  next
    case (Some u)
    then have u: "u = s @ c_str t" by (rule string_laws(1) [OF N])
    from set_native_ok [of q i "StrbufData s" "StrbufData u"] h obtain q' where
      "set_native i (StrbufData u) q = Some q'" "native_of q' i = Some (StrbufData u)" by (auto simp: holds_string_def)
    with st Some u show ?thesis by (simp add: stringbuffer_append_def holds_string_def)
  qed
qed

lemma string_result_ok:
  assumes N: "nlib_laws N" and r: "runs_in q ret [this_arg i]" and h: "holds_string q i s"
  shows "\<exists>e q'. stringbuffer_tostring N E ret q = Some (e, q') \<and> holds_string q' i s
    \<and> (e = IERR_NONE \<and> var_at q' ret = Some (mk TYPE_STRING (DS s)) \<or> e = IERR_OUT_OF_MEM \<and> q' = q)"
proof (cases "sb_string N s")
  case None
  with string_thisI [OF r h] h show ?thesis by (simp add: stringbuffer_tostring_def refused_def)
next
  case (Some t)
  then have "t = s" by (rule string_laws(2) [OF N])
  moreover have v: "var_at q ret = Some void_variant" "ret \<notin> range Elem" using r by (auto simp: runs_in_def)
  ultimately show ?thesis
    using string_thisI [OF r h] Some buf.holds_set_var [OF h v(2)]
    by (simp add: stringbuffer_tostring_def result_simps(3) [OF v(1)])
qed

text \<open>A hash table stands for the map from keys to the values of the variants in it.\<close>

definition holds_map :: "'f ext \<Rightarrow> ('c, 'f) qinterp \<Rightarrow> nat \<Rightarrow> (string \<rightharpoonup> (loc, 'f) variant) \<Rightarrow> bool" where
  "holds_map X q i m \<longleftrightarrow> (\<exists>t f. native_of q i = Some (HashData t) \<and> map_of t = map_option Elem \<circ> f
     \<and> (\<forall>s. case f s of None \<Rightarrow> m s = None
            | Some a \<Rightarrow> a < fresh (qworld q) \<and> m s \<noteq> None \<and> var_at q (Elem a) = m s \<and> plain X (the (m s))))"

lemma map_agree: "holds_map X q i m \<Longrightarrow> agree q q' \<Longrightarrow> holds_map X q' i m"
  unfolding holds_map_def agree_def by (elim exE conjE) (rule exI, rule exI, force split: option.splits)

interpretation tab: native_value "holds_map X" for X
  by unfold_locales (rule map_agree)

lemma table_laws:
  assumes "nlib_laws N"
  shows "h_add N t s l = Some t' \<Longrightarrow> map_of t' = (map_of t)(s \<mapsto> l)" "h_get N t s = map_of t s"
proof -
  have "\<forall>t s l t'. h_add N t s l = Some t' \<longrightarrow> map_of t' = (map_of t)(s \<mapsto> l)"
    using assms unfolding nlib_laws_def by (elim conjE)
  then show "h_add N t s l = Some t' \<Longrightarrow> map_of t' = (map_of t)(s \<mapsto> l)" by blast
  have "\<forall>t s. h_get N t s = map_of t s" using assms unfolding nlib_laws_def by (elim conjE)
  then show "h_get N t s = map_of t s" by blast
qed

lemma key_string:
  "var_at q l = Some (mk TYPE_STRING (DS s)) \<Longrightarrow> 0 < cstack X \<Longrightarrow> s_dup X s = Some s
     \<Longrightarrow> varToString X (qmem q) l = Some (Some s)"
  by (cases "cstack X") (simp_all add: varToString_def target_def var_at_def)

abbreviation string_arg :: "string \<Rightarrow> (loc, 'f) variant" where
  "string_arg s \<equiv> mk TYPE_STRING (DS s)"

lemma map_this:
  assumes "runs_in q ret (this_arg i # args)" "native_of q i = Some (HashData t)"
  shows "hashtable_this q = Some (i, t)"
  using this_of [OF assms(1)] assms(2) by (auto simp: hashtable_this_def)

lemma hashtable_put_ok:
  assumes N: "nlib_laws N" and r: "runs_in q ret [this_arg i, string_arg k, v]" and h: "holds_map (ex E) q i m"
    and c: "0 < cstack (ex E)" and v: "plain (ex E) v" and k: "s_dup (ex E) k = Some k"
  shows "\<exists>e q'. hashtable_put N E ret q = Some (e, q')
    \<and> (e = IERR_NONE \<and> holds_map (ex E) q' i (m(k \<mapsto> v)) \<or> e = IERR_OUT_OF_MEM \<and> holds_map (ex E) q' i m)"
proof -
  from h obtain t f where t: "native_of q i = Some (HashData t)" "map_of t = map_option Elem \<circ> f"
    and f: "\<And>s. case f s of None \<Rightarrow> m s = None
      | Some a \<Rightarrow> a < fresh (qworld q) \<and> m s \<noteq> None \<and> var_at q (Elem a) = m s \<and> plain (ex E) (the (m s))"
    unfolding holds_map_def by blast
  have fk: "case f s of None \<Rightarrow> m s = None | Some a \<Rightarrow> a < fresh (qworld q') \<and> m s \<noteq> None
      \<and> var_at q' (Elem a) = m s \<and> plain (ex E) (the (m s))"
    if "fresh (qworld q) \<le> fresh (qworld q')" "\<forall>a < fresh (qworld q). var_at q' (Elem a) = var_at q (Elem a)" for s q'
    using f [of s] that by (auto split: option.splits)
  from argument_1 [OF r] obtain l where l: "getArgumentN q 1 = Some l" "l \<notin> range Elem" "var_at q l = Some (string_arg k)" by blast
  from argument_2 [OF r] obtain d where d: "getArgumentN q 2 = Some d" "d \<notin> range Elem" "var_at q d = Some v" by blast
  have q: "mallocs (qworld q) = []" using r by (auto simp: runs_in_def)
  let ?a = "fresh (qworld q)"
  let ?q1 = "set_var (Elem ?a) v (given q)"
  have "var_at ?q1 l = Some (string_arg k)" using l(2,3) by auto
  note steps = map_this [OF r t(1)] l(1) d(1) dup_elem_plain [where E = E, OF q d(3) v d(2)] key_string [OF this c k]
  show ?thesis
  proof (cases "h_add N t k (Elem ?a)")
    case None
    let ?q2 = "qfree 1 (del_var (Elem ?a) ?q1)"
    have "domem (varDestruct (ex E) (Elem ?a)) ?q1 = Some (del_var (Elem ?a) ?q1)" by (rule destroy_plain [OF v]) simp
    with None steps have "hashtable_put N E ret q = Some (IERR_OUT_OF_MEM, ?q2)"
      by (simp add: hashtable_put_def refused_def)
    moreover have "agree q ?q2" by (simp add: agree_def)
    ultimately show ?thesis using map_agree [OF h] by blast
  next
    case (Some t')
    have "native_of ?q1 i = Some (HashData t)" using t(1) by simp
    from set_native_ok [OF this, of "HashData t'"] obtain q2 where q2: "set_native i (HashData t') ?q1 = Some q2"
      "native_of q2 = (native_of ?q1)(i \<mapsto> HashData t')" "var_at q2 = var_at ?q1" "fresh (qworld q2) = Suc ?a" by auto
    have "hashtable_put N E ret q = Some (IERR_NONE, q2)" using Some steps q2(1) by (simp add: hashtable_put_def)
    moreover have "holds_map (ex E) q2 i (m(k \<mapsto> v))"
      unfolding holds_map_def
    proof (intro exI conjI allI)
      show "native_of q2 i = Some (HashData t')" using q2(2) by simp
      show "map_of t' = map_option Elem \<circ> (f(k \<mapsto> ?a))" using table_laws(1) [OF N Some] t(2) by (auto simp: fun_eq_iff)
      show "case (f(k \<mapsto> ?a)) s of None \<Rightarrow> (m(k \<mapsto> v)) s = None
          | Some a \<Rightarrow> a < fresh (qworld q2) \<and> (m(k \<mapsto> v)) s \<noteq> None \<and> var_at q2 (Elem a) = (m(k \<mapsto> v)) s
              \<and> plain (ex E) (the ((m(k \<mapsto> v)) s))" for s
        using fk [of q2 s] q2(3,4) v by (cases "f s") auto
    qed
    ultimately show ?thesis by blast
  qed
qed

lemma hashtable_get_ok:
  assumes N: "nlib_laws N" and r: "runs_in q ret [this_arg i, string_arg k]" and h: "holds_map (ex E) q i m"
    and c: "0 < cstack (ex E)" and k: "s_dup (ex E) k = Some k" and n: "var_at q Null = Some (mk TYPE_NULL (DI 0))"
  shows "\<exists>q'. hashtable_get N E ret q = Some (IERR_NONE, q') \<and> holds_map (ex E) q' i m
    \<and> var_at q' ret = Some (case m k of None \<Rightarrow> mk TYPE_NULL (DI 0) | Some v \<Rightarrow> v)"
proof -
  from h obtain t f where t: "native_of q i = Some (HashData t)" "map_of t = map_option Elem \<circ> f"
    and f: "\<And>s. case f s of None \<Rightarrow> m s = None
      | Some a \<Rightarrow> a < fresh (qworld q) \<and> m s \<noteq> None \<and> var_at q (Elem a) = m s \<and> plain (ex E) (the (m s))"
    unfolding holds_map_def by blast
  from argument_1 [OF r] obtain l where l: "getArgumentN q 1 = Some l" "var_at q l = Some (string_arg k)" by blast
  have v: "var_at q ret = Some void_variant" "ret \<notin> range Elem" using r by (auto simp: runs_in_def)
  let ?l = "case map_of t k of None \<Rightarrow> Null | Some l \<Rightarrow> l"
  let ?v = "case m k of None \<Rightarrow> mk TYPE_NULL (DI 0) | Some v \<Rightarrow> v"
  have "onmem (varAssign (ex E) ret ?l) q = Some (True, set_var ret ?v q)"
  proof (cases "f k")
    case None
    with f [of k] have "map_of t k = None" "m k = None" using t(2) by auto
    with n v show ?thesis
      by (simp add: onmem_def varAssign_def VARCLEAR_result put_def wr_def var_at_def set_var_def)
  next
    case (Some a)
    with f [of k] obtain w where w: "map_of t k = Some (Elem a)" "m k = Some w" "var_at q (Elem a) = Some w" "plain (ex E) w"
      using t(2) by auto
    from copy_plain [OF w(4), of "qmem q" "Elem a" ret void_variant] w v show ?thesis
      by (simp add: onmem_def var_at_def set_var_def void_variant_def)
  qed
  with map_this [OF r t(1)] l(1) key_string [OF l(2) c k] table_laws(2) [OF N]
  have "hashtable_get N E ret q = Some (IERR_NONE, set_var ret ?v q)" by (simp add: hashtable_get_def)
  with tab.holds_set_var [OF h v(2)] show ?thesis by auto
qed

text \<open>The class Hashtable is a map: put maps the key to a copy of the value and
  get returns a copy of the last value, null for a key that has none. Where memory or the table
  refuses, put leaves the map as it was.\<close>
lemma hashtable_refines_map:
  assumes "nlib_laws N" "0 < cstack (ex E)" "holds_map (ex E) q i m" "s_dup (ex E) k = Some k"
    and "var_at q Null = Some (mk TYPE_NULL (DI 0))"
  shows "(runs_in q ret [this_arg i, string_arg k, v] \<longrightarrow> plain (ex E) v \<longrightarrow>
        (\<exists>e q'. hashtable_put N E ret q = Some (e, q')
           \<and> (e = IERR_NONE \<and> holds_map (ex E) q' i (m(k \<mapsto> v)) \<or> e = IERR_OUT_OF_MEM \<and> holds_map (ex E) q' i m)))
    \<and> (runs_in q ret [this_arg i, string_arg k] \<longrightarrow>
        (\<exists>q'. hashtable_get N E ret q = Some (IERR_NONE, q') \<and> holds_map (ex E) q' i m
           \<and> var_at q' ret = Some (case m k of None \<Rightarrow> mk TYPE_NULL (DI 0) | Some v \<Rightarrow> v)))"
  using hashtable_put_ok [OF assms(1) _ assms(3,2) _ assms(4)] hashtable_get_ok [OF assms(1) _ assms(3,2,4,5)] by blast

lemma native_a_map: "holds_map int_ext (native_a (HashData [(''a'', Elem 1)]) args) 4 [''a'' \<mapsto> int_arg 6]"
  unfolding holds_map_def
  by (rule exI [of _ "[(''a'', Elem 1)]"], rule exI [of _ "[''a'' \<mapsto> 1]"])
     (simp add: native_of_def native_a_defs plain_def wf_variant_def fun_eq_iff)

lemma hashtable_refines_map_witness:
  "\<exists>q'. hashtable_get fun_nlib env_a (Retval 9) (native_a (HashData [(''a'', Elem 1)]) [this_arg 4, string_arg ''a''])
      = Some (IERR_NONE, q') \<and> var_at q' (Retval 9) = Some (int_arg 6)"
proof -
  let ?args = "[this_arg 4, string_arg ''a''] :: (loc, int) variant list"
  let ?q = "native_a (HashData [(''a'', Elem 1)]) ?args"
  have x: "ex env_a = int_ext" "0 < cstack (ex env_a)" "s_dup int_ext ''a'' = Some ''a''"
    by (simp_all add: env_a_def int_ext_def)
  have "var_at ?q Null = Some (mk TYPE_NULL (DI 0))" by (simp add: native_a_defs)
  with hashtable_refines_map [OF fun_nlib_laws x(2), of ?q 4 "[''a'' \<mapsto> int_arg 6]" "''a''" "Retval 9"]
    native_a_map [of ?args] native_a_runs [of _ ?args] x(1,3)
  show ?thesis by fastforce
qed

text \<open>The class StringBuffer collects text: append adds the text of its argument up to its first
  NUL, toString returns all that was added; where memory is exhausted nothing changes.\<close>
lemma stringbuffer_collects:
  assumes "nlib_laws N" "holds_string q i s"
  shows "(runs_in q ret [this_arg i, v] \<longrightarrow>
        (\<forall>l. var_at q l = Some v \<longrightarrow> varToString (ex E) (qmem q) l = Some (Some t)) \<longrightarrow>
        (\<exists>e q'. stringbuffer_append N E ret q = Some (e, q')
           \<and> (e = IERR_NONE \<and> holds_string q' i (s @ c_str t) \<or> e = IERR_OUT_OF_MEM \<and> q' = q)))
    \<and> (runs_in q ret [this_arg i] \<longrightarrow>
        (\<exists>e q'. stringbuffer_tostring N E ret q = Some (e, q') \<and> holds_string q' i s
           \<and> (e = IERR_NONE \<and> var_at q' ret = Some (string_arg s) \<or> e = IERR_OUT_OF_MEM \<and> q' = q)))"
  using string_append_ok [OF assms(1) _ assms(2)] string_result_ok [OF assms(1) _ assms(2)] by blast

lemma stringbuffer_collects_witness:
  "\<exists>e q'. stringbuffer_tostring fun_nlib env_a (Retval 9) (native_a (StrbufData ''ab'') [this_arg 4]) = Some (e, q')
     \<and> holds_string q' 4 ''ab''"
proof -
  have "holds_string (native_a (StrbufData ''ab'') [this_arg 4]) 4 ''ab''"
    by (simp add: holds_string_def native_of_def native_a_defs)
  from stringbuffer_collects [OF fun_nlib_laws this, of "Retval 9" "this_arg 4" env_a "[]"] native_a_runs
  show ?thesis by blast
qed

subsection \<open>Arrays\<close>

definition holds_array :: "('c, 'f) qinterp \<Rightarrow> nat \<Rightarrow> int32 list \<times> loc option list \<Rightarrow> bool" where
  "holds_array q i = (\<lambda>(lens, xs). native_of q i = Some (ArrayData (length lens) lens xs))"

interpretation arr: native_value holds_array
  by unfold_locales (auto simp: holds_array_def agree_def)

lemma read_ints_ok:
  assumes "runs_in q ret args" "0 < cstack (ex E)"
  shows "x + length ns \<le> length args \<Longrightarrow> \<forall>j < length ns. args ! (x + j) = int_arg (ns ! j)
     \<Longrightarrow> read_ints E True q x (length ns) = Some (IERR_NONE, ns)"
proof (induction ns arbitrary: x)
  case (Cons n ns)
  from Cons.prems(1) have "x < length args" by simp
  moreover have "args ! x = int_arg n" using Cons.prems(2) by fastforce
  ultimately obtain l where "getArgumentN q (int x) = Some l" "varGetInt (ex E) (qmem q) l = Some (Some n)"
    using argument [OF assms(1), of x] get_int [OF _ assms(2)] by fastforce
  moreover have "\<forall>j < length ns. args ! (Suc x + j) = int_arg (ns ! j)"
    using Cons.prems(2) by (metis Suc_less_eq add_Suc add_Suc_right length_Cons nth_Cons_Suc)
  ultimately show ?case using Cons.IH [of "Suc x"] Cons.prems(1) by simp
qed simp

lemma given_set:
  assumes "mallocs (qworld q) = []"
  shows "\<exists>q1. onworld take_block q = (True, q1) \<and> onworld new_address q1 = (fresh (qworld q), given q)
    \<and> domem (\<lambda>st. Some (snd (varConstruct (Some l) st))) (given q) = Some (set_var l void_variant (given q))
    \<and> onmem (varCast X l TYPE_NULL) (set_var l void_variant (given q))
        = Some (True, set_var l (mk TYPE_NULL (DI 0)) (set_var l void_variant (given q)))"
proof -
  have "domem (\<lambda>st. Some (snd (varConstruct (Some l) st))) (given q) = Some (set_var l void_variant (given q))"
    by (simp add: domem_def varConstruct_def set_var_def)
  moreover have "onmem (varCast X l TYPE_NULL) (set_var l void_variant (given q))
      = onmem (put l TYPE_NULL (DI 0)) (set_var l void_variant (given q))"
    by (simp add: onmem_def varCast_def cast_at_def cast_null_def VARCLEAR_def void_variant_def set_var_def)
  ultimately show ?thesis using given_ok [OF assms] by (simp add: put_result)
qed

lemma array_thisI:
  assumes "runs_in q ret (this_arg i # args)" "holds_array q i (lens, xs)" "magic_of q i = Some 104"
  shows "array_this q = Some (Some (i, length lens, lens))"
  using argument_0 [OF assms(1)] assms(2,3) by (auto simp: array_this_def holds_array_def)

lemma item_arguments:
  assumes r: "runs_in q ret (this_arg i # map int_arg idx)" and c: "0 < cstack (ex E)"
  shows "read_ints E True q 1 (length idx) = Some (IERR_NONE, idx)" "getArgumentCount q = Some (Suc (length idx))"
  using read_ints_ok [OF r c, of 1 idx] r by (auto simp: runs_in_def)

lemma borrowed_simps [simp]:
  "var_at (borrowed q) = var_at q" "native_of (borrowed q) = native_of q" "magic_of (borrowed q) = magic_of q"
  by (simp_all add: borrowed_def var_at_def native_of_def magic_of_def qmem_def qworld_def set_world_def fun_eq_iff)

lemma array_this_borrowed [simp]: "array_this (borrowed q) = array_this q"
  by (simp add: array_this_def getArgumentN_def borrow cong: if_cong)

lemma item_steps:
  assumes r: "runs_in q ret (this_arg i # map int_arg idx)" and c: "0 < cstack (ex E)"
    and h: "holds_array q i (lens, xs)" "magic_of q i = Some 104" "length lens = length idx"
  shows "array_itemX N E ret q = do {
    (cell, q) \<leftarrow> array_cell N E i (sint (array_element idx lens)) q;
    (case cell of None \<Rightarrow> refused IERR_OUT_OF_MEM q
     | Some l \<Rightarrow> do { (_, q) \<leftarrow> onmem (varRef (ex E) ret l) q; Some (IERR_NONE, q) }) }"
proof -
  have "mallocs (qworld q) = []" using r by (auto simp: runs_in_def)
  then show ?thesis
    using item_arguments [OF r c] array_thisI [OF r h(1,2)] h(3) borrow(2) [of q]
    by (simp add: array_itemX_def borrow)
qed

text \<open>An element that is there is referred to; one that is not is made, null, and the array extended to it.\<close>

lemma item_old:
  assumes N: "nlib_laws N" and r: "runs_in q ret (this_arg i # map int_arg idx)" and c: "0 < cstack (ex E)"
    and h: "holds_array q i (lens, xs)" "magic_of q i = Some 104" "length lens = length idx"
    and e: "e = sint (array_element idx lens)" "0 \<le> e" "e < int (length xs)" "xs ! nat e = Some l"
  shows "array_itemX N E ret q = Some (IERR_NONE, set_var ret (mk TYPE_PTR (DP l)) q)"
proof -
  have "array_cell N E i e q = Some (Some l, q)"
    using h(1) e v_get_laws [OF N] by (simp add: array_cell_def holds_array_def)
  then show ?thesis using item_steps [OF r c h] e(1) r
    by (auto simp: result_simps(2) runs_in_def)
qed

lemma item_new:
  assumes N: "nlib_laws N" and r: "runs_in q ret (this_arg i # map int_arg idx)" and c: "0 < cstack (ex E)"
    and h: "holds_array q i (lens, xs)" "magic_of q i = Some 104" "length lens = length idx"
    and e: "e = sint (array_element idx lens)" "0 \<le> e" "e < int (length xs) \<longrightarrow> xs ! nat e = None"
    and m: "v_set N xs (Some (Elem (fresh (qworld q)))) e \<noteq> None"
  shows "\<exists>q'. array_itemX N E ret q = Some (IERR_NONE, q')
    \<and> holds_array q' i (lens, (xs @ replicate (Suc (nat e) - length xs) None)[nat e := Some (Elem (fresh (qworld q)))])
    \<and> var_at q' ret = Some (mk TYPE_PTR (DP (Elem (fresh (qworld q)))))
    \<and> var_at q' (Elem (fresh (qworld q))) = Some (mk TYPE_NULL (DI 0)) \<and> fresh (qworld q') = Suc (fresh (qworld q))"
proof -
  let ?a = "Elem (fresh (qworld q))"
  let ?ys = "(xs @ replicate (Suc (nat e) - length xs) None)[nat e := Some ?a]"
  from m obtain ys where ys: "v_set N xs (Some ?a) e = Some ys" by auto
  have "\<forall>xs l k ys. 0 \<le> k \<longrightarrow> v_set N xs l k = Some ys \<longrightarrow>
      ys = (xs @ replicate (Suc (nat k) - length xs) None)[nat k := l]"
    using N unfolding nlib_laws_def by (elim conjE)
  with ys e(2) have ys': "ys = ?ys" by blast
  have q: "mallocs (qworld q) = []" "var_at q ret = Some void_variant" "ret \<notin> range Elem" using r by (auto simp: runs_in_def)
  let ?q1 = "set_var ?a (mk TYPE_NULL (DI 0)) (set_var ?a void_variant (given q))"
  have "native_of ?q1 i = Some (ArrayData (length lens) lens xs)" using h(1) by (simp add: holds_array_def)
  from set_native_ok [OF this, of "ArrayData (length lens) lens ys"] obtain q2 where
    q2: "set_native i (ArrayData (length lens) lens ys) ?q1 = Some q2"
      "native_of q2 = (native_of ?q1)(i \<mapsto> ArrayData (length lens) lens ys)" "var_at q2 = var_at ?q1"
      "fresh (qworld q2) = Suc (fresh (qworld q))" by auto
  have "v_get N xs e = None" using v_get_laws [OF N] e(2,3) by simp
  with given_set [OF q(1), of ?a "ex E"] ys q2(1) h(1)
  have cell: "array_cell N E i e q = Some (Some ?a, q2)"
    by (auto simp: array_cell_def holds_array_def)
  have "var_at q2 ret = Some void_variant" using q2(3) q(2,3) by auto
  note s = result_simps(2) [OF this]
  let ?q3 = "set_var ret (mk TYPE_PTR (DP ?a)) q2"
  have "array_itemX N E ret q = Some (IERR_NONE, ?q3)" using item_steps [OF r c h] cell e(1) s by simp
  moreover have "holds_array q2 i (lens, ?ys)" using q2(2) ys' by (simp add: holds_array_def)
  note arr.holds_set_var [OF this q(3)]
  moreover have "ret \<noteq> ?a" using q(3) by blast
  ultimately show ?thesis using q2(3,4) by auto
qed

text \<open>
  The element of indexes i, j in an array of lengths m, n is i * m + j * n, so the rows of a square
  array are mixed with its columns.
\<close>

lemma element_square: "array_element [x, y] [n, n] = array_element [y, x] [n, n]"
  by (simp add: array_element_def algebra_simps)

text \<open>C5. Arrays of two dimensions confuse their elements: in a square array the elements [x, y] and
  [y, x] are one variable. The first access makes it, and whatever happens afterwards to other
  variables, the access with the indexes exchanged refers to the same one and finds it there.\<close>
theorem array_transposed_alias:
  assumes "nlib_laws N" "0 < cstack (ex E)"
    and "runs_in q ret [this_arg i, int_arg x, int_arg y]" "holds_array q i ([n, n], xs)" "magic_of q i = Some 104"
    and "0 \<le> sint (x * n + y * n)" "sint (x * n + y * n) < int (length xs) \<longrightarrow> xs ! nat (sint (x * n + y * n)) = None"
    and "\<forall>l. v_set N xs l (sint (x * n + y * n)) \<noteq> None"
  shows "\<exists>q' l. array_itemX N E ret q = Some (IERR_NONE, q') \<and> var_at q' ret = Some (mk TYPE_PTR (DP l))
    \<and> (\<forall>p ret'. agree q' p \<longrightarrow> runs_in p ret' [this_arg i, int_arg y, int_arg x] \<longrightarrow> magic_of p i = Some 104 \<longrightarrow>
         array_itemX N E ret' p = Some (IERR_NONE, set_var ret' (mk TYPE_PTR (DP l)) p))"
proof -
  let ?e = "sint (x * n + y * n)" and ?l = "Elem (fresh (qworld q))"
  have e: "?e = sint (array_element [x, y] [n, n])" by (simp add: array_element_def algebra_simps)
  have r: "runs_in q ret (this_arg i # map int_arg [x, y])" using assms(3) by simp
  from item_new [OF assms(1) r assms(2,4,5) _ e assms(6,7)] assms(8) obtain q' where
    q': "array_itemX N E ret q = Some (IERR_NONE, q')" "var_at q' ret = Some (mk TYPE_PTR (DP ?l))"
      "holds_array q' i ([n, n], (xs @ replicate (Suc (nat ?e) - length xs) None)[nat ?e := Some ?l])"
    by auto
  let ?ys = "(xs @ replicate (Suc (nat ?e) - length xs) None)[nat ?e := Some ?l]"
  have len: "?e < int (length ?ys)" using assms(6) by simp
  have "array_itemX N E ret' p = Some (IERR_NONE, set_var ret' (mk TYPE_PTR (DP ?l)) p)"
    if "agree q' p" "runs_in p ret' [this_arg i, int_arg y, int_arg x]" "magic_of p i = Some 104" for p ret'
  proof (rule item_old [OF assms(1) _ assms(2) arr.holds_agree [OF q'(3) that(1)] that(3)])
    show "runs_in p ret' (this_arg i # map int_arg [y, x])" using that(2) by simp
    show "?e = sint (array_element [y, x] [n, n])" using e by (simp add: element_square)
    show "?ys ! nat ?e = Some ?l" using assms(6) len by (simp add: nth_list_update)
  qed (use assms(6) len in simp_all)
  with q'(1,2) show ?thesis by blast
qed

theorem array_transposed_alias_witness:
  "\<exists>q' l. array_itemX fun_nlib env_a (Retval 9)
      (native_a (ArrayData 2 [2, 2] [None, None, None, None]) [this_arg 4, int_arg 0, int_arg 1]) = Some (IERR_NONE, q')
    \<and> var_at q' (Retval 9) = Some (mk TYPE_PTR (DP l))
    \<and> (\<forall>p ret'. agree q' p \<longrightarrow> runs_in p ret' [this_arg 4, int_arg 1, int_arg 0] \<longrightarrow> magic_of p 4 = Some 104 \<longrightarrow>
         array_itemX fun_nlib env_a ret' p = Some (IERR_NONE, set_var ret' (mk TYPE_PTR (DP l)) p))"
proof (rule array_transposed_alias [OF fun_nlib_laws, where n = 2 and xs = "[None, None, None, None]"])
  let ?q = "native_a (ArrayData 2 [2, 2] [None, None, None, None]) [this_arg 4, int_arg 0, int_arg 1]"
  show "0 < cstack (ex env_a)" by (simp add: env_a_def int_ext_def)
  show "runs_in ?q (Retval 9) [this_arg 4, int_arg 0, int_arg 1]" by (rule native_a_runs)
  show "holds_array ?q 4 ([2, 2], [None, None, None, None])" "magic_of ?q 4 = Some 104"
    by (simp_all add: holds_array_def native_of_def magic_of_def native_a_defs)
  have e: "sint ((0::int32) * 2 + 1 * 2) = 2" by simp
  show "0 \<le> sint ((0::int32) * 2 + 1 * 2)" by simp
  show "sint ((0::int32) * 2 + 1 * 2) < int (length [None, None, None, None :: loc option]) \<longrightarrow>
      [None, None, None, None :: loc option] ! nat (sint ((0::int32) * 2 + 1 * 2)) = None"
    unfolding e by (simp add: numeral_2_eq_2)
  show "\<forall>l. v_set fun_nlib [None, None, None, None] l (sint ((0::int32) * 2 + 1 * 2)) \<noteq> None"
    unfolding e by (simp add: fun_nlib_def)
qed

end
