(* ===== verification/Spl_String.thy ===== *)
theory Spl_String
  imports Prelude "HOL-Library.Monad_Syntax"
begin

section \<open>Strings of the support library, splc/src/string.c\<close>

text \<open>
  The service under splc/ has a support library of its own; the interpreter is linked with an
  older one. A C string is the list of its characters up to the NUL. A \<open>spl_string\<close> keeps the
  length it was made with, which the functions trust, next to a C string that may be shorter:
  reading it within its C string and at its NUL is defined, beyond it is not (None).

  Allocation is explicit: \<open>answers\<close> says, call by call, whether \<open>malloc\<close> succeeds (an empty list:
  it does), \<open>blocks\<close> counts what is allocated. Lengths and indexes are ints. What the code computes
  of them, the size of a buffer, the end of a part, goes through \<open>c_int\<close>: a result of more than 32
  bits is undefined. The length of a C string given to the library, and one more, is an int.
\<close>

definition c_int :: "int \<Rightarrow> int option" where
  "c_int k = (if - (2 ^ 31) \<le> k \<and> k < 2 ^ 31 then Some k else None)"

record sys =
  answers :: "bool list"
  blocks :: int

definition malloc :: "sys \<Rightarrow> bool \<times> sys" where
  "malloc m = (case answers m of
     [] \<Rightarrow> (True, m\<lparr>blocks := blocks m + 1\<rparr>)
   | b # bs \<Rightarrow> (b, m\<lparr>answers := bs, blocks := (if b then blocks m + 1 else blocks m)\<rparr>))"

definition release :: "int \<Rightarrow> sys \<Rightarrow> sys" where
  "release n m = m\<lparr>blocks := blocks m - n\<rparr>"

abbreviation (input) NUL :: char where "NUL \<equiv> CHR 0x00"

definition toupper :: "char \<Rightarrow> char" where
  "toupper c = (if 97 \<le> schar c \<and> schar c \<le> 122 then to_char (schar c - 32) else c)"

definition fold_case :: "bool \<Rightarrow> char \<Rightarrow> char" where
  "fold_case ignore c = (if ignore then toupper c else c)"

definition char_at :: "string \<Rightarrow> int \<Rightarrow> char option" where
  "char_at s k =
     (if 0 \<le> k \<and> k < int (length s) then Some (s ! nat k)
      else if k = int (length s) then Some NUL else None)"

subsection \<open>C strings\<close>

text \<open>The length counts one character more than it says, and different letters are compared as they are.\<close>

fun StrCmpNoCase :: "string \<Rightarrow> int \<Rightarrow> string \<Rightarrow> int" where
  "StrCmpNoCase [] n t = (if t = [] then 0 else -1)"
| "StrCmpNoCase (c # s) n [] = 1"
| "StrCmpNoCase (c # s) n (d # t) =
     (if n < 0 then 1
      else if toupper c \<noteq> toupper d then (if schar c > schar d then 1 else -1)
      else StrCmpNoCase s (n - 1) t)"

text \<open>What is copied, and how often the count was decremented.\<close>

fun StrCpyLen :: "string \<Rightarrow> int \<Rightarrow> string \<times> int" where
  "StrCpyLen [] len = ([], 0)"
| "StrCpyLen (c # s) len =
     (if len - 1 > 0 then case StrCpyLen s (len - 1) of (t, n) \<Rightarrow> (c # t, n + 1) else ([], 1))"

fun index_ch :: "string \<Rightarrow> (char \<Rightarrow> bool) \<Rightarrow> int \<Rightarrow> nat \<Rightarrow> int option" where
  "index_ch s P pos 0 = Some (-1)"
| "index_ch s P pos (Suc k) = do {
     c \<leftarrow> char_at s pos;
     if P c then Some pos else index_ch s P (pos + 1) k }"

definition IndexofchfromWithLen :: "string \<Rightarrow> char \<Rightarrow> int \<Rightarrow> int \<Rightarrow> int option" where
  "IndexofchfromWithLen s ch start len = index_ch s (\<lambda>c. c = ch) start (nat (len - start))"

definition IndexOfAnyCh :: "string \<Rightarrow> string \<Rightarrow> int \<Rightarrow> int \<Rightarrow> int option" where
  "IndexOfAnyCh s cp start len = index_ch s (\<lambda>c. c \<in> set cp) start (nat (len - start))"

text \<open>
  The search for a string: the first character is compared as it is, the rest through f. At an
  empty string only the NUL matches, and what follows it is read.
\<close>

fun match_rest :: "(char \<Rightarrow> char) \<Rightarrow> string \<Rightarrow> int \<Rightarrow> int \<Rightarrow> string \<Rightarrow> bool option" where
  "match_rest f s len e [] = Some True"
| "match_rest f s len e (c # cs) =
     (if e < len then do {
        d \<leftarrow> char_at s e;
        if f d \<noteq> f c then Some False else match_rest f s len (e + 1) cs }
      else Some False)"

fun index_str :: "(char \<Rightarrow> char) \<Rightarrow> string \<Rightarrow> int \<Rightarrow> string \<Rightarrow> int \<Rightarrow> nat \<Rightarrow> int option" where
  "index_str f s len cp pos 0 = Some (-1)"
| "index_str f s len cp pos (Suc k) = do {
     d \<leftarrow> char_at s pos;
     c \<leftarrow> char_at cp 0;
     if d = c then do {
       found \<leftarrow> (if cp = [] then None else match_rest f s len (pos + 1) (tl cp));
       if found then Some pos else index_str f s len cp (pos + 1) k }
     else index_str f s len cp (pos + 1) k }"

definition StrIndexOfWithLen :: "string \<Rightarrow> string \<Rightarrow> int \<Rightarrow> int \<Rightarrow> int option" where
  "StrIndexOfWithLen s cp start len =
     (let m_len = int (length s) in index_str (\<lambda>c. c) s m_len cp start (nat (m_len - start)))"

definition StrCatLen :: "string \<Rightarrow> string \<Rightarrow> int \<Rightarrow> string \<times> int" where
  "StrCatLen to frm len =
     (let n = nat (len - 1);
          kept = take n to;
          added = take (n - length kept) frm
      in (kept @ added, int (length (kept @ added))))"

definition ChRequiresXmlEncoding :: "char \<Rightarrow> bool" where
  "ChRequiresXmlEncoding ch \<longleftrightarrow> ch = CHR ''&'' \<or> ch = CHR 0x27 \<or> ch = CHR ''<'' \<or> ch = CHR ''>'' \<or> ch = CHR 0x22"

definition xml_special :: string where
  "xml_special = [CHR ''&'', CHR 0x27, CHR ''<'', CHR ''>'', CHR 0x22, CHR 0x0D, CHR 0x0A]"

definition StrRequiresXmlEncoding :: "string \<Rightarrow> bool option" where
  "StrRequiresXmlEncoding s = map_option (\<lambda>k. k > -1) (IndexOfAnyCh s xml_special 0 (int (length s)))"

definition StrReplaceChLen :: "string \<Rightarrow> char \<Rightarrow> char \<Rightarrow> int \<Rightarrow> string" where
  "StrReplaceChLen s chfrom chto maxlen =
     takeWhile (\<lambda>c. c \<noteq> NUL) (map (\<lambda>c. if c = chfrom then chto else c) (take (nat maxlen) s) @ drop (nat maxlen) s)"

text \<open>The blanks it removes are those at the end.\<close>

definition StrLTrimInPlace :: "string \<Rightarrow> string" where
  "StrLTrimInPlace s = rev (dropWhile (\<lambda>c. c = CHR '' '') (rev s))"

subsection \<open>The string objects\<close>

record spl_string =
  m_cstr :: string
  m_isintern :: bool
  m_len :: int

text \<open>
  \<open>stringNew\<close> gives \<open>StrCpyLen\<close> the length of the string where it wants that of the buffer.
\<close>

definition stringNew :: "string \<Rightarrow> sys \<Rightarrow> spl_string option \<times> sys" where
  "stringNew cp m =
     (let (ok, m) = malloc m in if \<not> ok then (None, m) else
      let len = int (length cp); (ok, m) = malloc m in if \<not> ok then (None, release 1 m) else
      (Some \<lparr>m_cstr = fst (StrCpyLen cp len), m_isintern = False, m_len = len\<rparr>, m))"

definition stringDup :: "spl_string \<Rightarrow> sys \<Rightarrow> spl_string option \<times> sys" where
  "stringDup str = stringNew (m_cstr str)"

definition stringIntern :: "string \<Rightarrow> sys \<Rightarrow> spl_string option \<times> sys" where
  "stringIntern cp m =
     (let (ok, m) = malloc m in if \<not> ok then (None, m) else
      (Some \<lparr>m_cstr = cp, m_isintern = True, m_len = int (length cp)\<rparr>, m))"

definition stringTakeOwnership :: "string \<Rightarrow> sys \<Rightarrow> spl_string option \<times> sys" where
  "stringTakeOwnership cp m =
     (case stringIntern cp m of
        (None, m) \<Rightarrow> (None, m)
      | (Some str, m) \<Rightarrow> (Some (str\<lparr>m_isintern := False\<rparr>), m))"

definition stringDelete :: "spl_string \<Rightarrow> sys \<Rightarrow> sys" where
  "stringDelete str m = release (if m_isintern str then 1 else 2) m"

text \<open>
  Replacing characters of the copy, its NUL included where the copy is shorter than its length.
\<close>

definition StrReplaceCh :: "string \<Rightarrow> char \<Rightarrow> char \<Rightarrow> sys \<Rightarrow> (spl_string option \<times> sys) option" where
  "StrReplaceCh cp frm to m =
     (case stringNew cp m of
        (None, m) \<Rightarrow> Some (None, m)
      | (Some ret, m) \<Rightarrow>
          if frm = NUL \<and> int (length (m_cstr ret)) < m_len ret then None
          else Some (Some (ret\<lparr>m_cstr := takeWhile (\<lambda>c. c \<noteq> NUL) (map (\<lambda>c. if c = frm then to else c) (m_cstr ret))\<rparr>), m))"

definition stringReplaceCh :: "spl_string \<Rightarrow> char \<Rightarrow> char \<Rightarrow> sys \<Rightarrow> (spl_string option \<times> sys) option" where
  "stringReplaceCh str = StrReplaceCh (m_cstr str)"

definition stringToUpperCh :: "string \<Rightarrow> sys \<Rightarrow> spl_string option \<times> sys" where
  "stringToUpperCh cp m =
     (case stringNew cp m of
        (None, m) \<Rightarrow> (None, m)
      | (Some s2, m) \<Rightarrow> (Some (s2\<lparr>m_cstr := map toupper (m_cstr s2)\<rparr>), m))"

definition stringToUpper :: "spl_string \<Rightarrow> sys \<Rightarrow> spl_string option \<times> sys" where
  "stringToUpper str = stringToUpperCh (m_cstr str)"

fun equal_with :: "(char \<Rightarrow> char) \<Rightarrow> string \<Rightarrow> string \<Rightarrow> bool" where
  "equal_with f (c # s) (d # t) \<longleftrightarrow> f c = f d \<and> equal_with f s t"
| "equal_with f s t \<longleftrightarrow> s = [] \<and> t = []"

definition stringIsEqual :: "spl_string \<Rightarrow> string \<Rightarrow> bool \<Rightarrow> bool" where
  "stringIsEqual str cp ignore = equal_with (fold_case ignore) cp (m_cstr str)"

text \<open>The characters from x on against those of cp; the string's NUL differs from all of them.\<close>

fun agrees :: "(char \<Rightarrow> char) \<Rightarrow> spl_string \<Rightarrow> int \<Rightarrow> string \<Rightarrow> bool option" where
  "agrees f str x [] = Some True"
| "agrees f str x (c # cp) =
     (if x < m_len str then do {
        d \<leftarrow> char_at (m_cstr str) x;
        if f d \<noteq> f c then Some False else agrees f str (x + 1) cp }
      else Some True)"

definition stringStartsWith :: "spl_string \<Rightarrow> string \<Rightarrow> bool \<Rightarrow> bool option" where
  "stringStartsWith str cp ignore =
     (if m_len str < int (length cp) then Some False else agrees (fold_case ignore) str 0 cp)"

definition stringEndsWith :: "spl_string \<Rightarrow> string \<Rightarrow> bool \<Rightarrow> bool option" where
  "stringEndsWith str cp ignore =
     (let pos = m_len str - int (length cp)
      in if pos \<le> 0 then Some False else agrees (fold_case ignore) str pos cp)"

definition stringCat :: "spl_string \<Rightarrow> string \<Rightarrow> int \<Rightarrow> sys \<Rightarrow> (spl_string option \<times> sys) option" where
  "stringCat s cp cplen m = do {
     chars \<leftarrow> c_int (m_len s + cplen);
     len \<leftarrow> c_int (chars + 1);
     let (ok, m) = malloc m;
     if \<not> ok then Some (None, m)
     else (let buf = fst (StrCpyLen (m_cstr s) len)
           in Some (stringTakeOwnership (fst (StrCatLen buf cp len)) m)) }"

definition stringIndexOf :: "spl_string \<Rightarrow> string \<Rightarrow> int \<Rightarrow> bool \<Rightarrow> int option" where
  "stringIndexOf str cp start ignore =
     index_str (fold_case ignore) (m_cstr str) (m_len str) cp start (nat (m_len str - start))"

definition stringIndexOfCh :: "spl_string \<Rightarrow> char \<Rightarrow> int \<Rightarrow> int option" where
  "stringIndexOfCh str ch start = IndexofchfromWithLen (m_cstr str) ch start (m_len str)"

definition stringIndexOfAnyCh :: "spl_string \<Rightarrow> string \<Rightarrow> int \<Rightarrow> int option" where
  "stringIndexOfAnyCh str cp start = IndexOfAnyCh (m_cstr str) cp start (m_len str)"

end
