(* ===== verification/Spl_Containers.thy ===== *)
theory Spl_Containers
  imports Spl_String
begin

section \<open>Vectors, string buffers and hash tables of the support library\<close>

subsection \<open>Vectors, splc/src/vector.c\<close>

text \<open>
  The buffer of a vector has \<open>m_count\<close> places, of which the first \<open>m_pos\<close> are in use; a place that
  was not written yet is None. A step is None where the C code reads such a place, writes outside
  the buffer or overflows an int. Sizes in bytes are unsigned and taken to be large enough.
\<close>

record 'a vec =
  m_vdata :: "'a option list"
  m_pos :: nat

abbreviation m_count :: "'a vec \<Rightarrow> nat" where
  "m_count v \<equiv> length (m_vdata v)"

abbreviation vectorCount :: "'a vec \<Rightarrow> nat" where
  "vectorCount v \<equiv> m_pos v"

definition vectorExtend :: "nat \<Rightarrow> 'a vec \<Rightarrow> sys \<Rightarrow> 'a vec option \<times> sys" where
  "vectorExtend newlen v m =
     (let (ok, m) = malloc m in if \<not> ok then (None, m) else
      (Some (v\<lparr>m_vdata := take newlen (m_vdata v) @ replicate (newlen - m_count v) None\<rparr>), release 1 m))"

definition vectorExtendTo :: "int \<Rightarrow> 'a vec \<Rightarrow> sys \<Rightarrow> ('a vec option \<times> sys) option" where
  "vectorExtendTo index v m =
     (if index > int (m_count v)
      then do { newlen \<leftarrow> c_int (index + 1); Some (vectorExtend (nat newlen) v m) }
      else Some (Some v, m))"

definition vectorNewSized :: "nat \<Rightarrow> sys \<Rightarrow> 'a vec option \<times> sys" where
  "vectorNewSized count m =
     (let (ok, m) = malloc m in if \<not> ok then (None, m) else
      let (ok, m) = malloc m in if \<not> ok then (None, release 1 m) else
      (Some \<lparr>m_vdata = replicate count None, m_pos = 0\<rparr>, m))"

definition vectorNew :: "sys \<Rightarrow> 'a vec option \<times> sys" where
  "vectorNew = vectorNewSized 20"

definition vectorDelete :: "'a vec \<Rightarrow> sys \<Rightarrow> sys" where
  "vectorDelete v m = release 2 m"

text \<open>The inner option is the pointer that is returned, null outside.\<close>

definition vectorElementAt :: "'a vec \<Rightarrow> int \<Rightarrow> 'a option option" where
  "vectorElementAt v idx =
     (if idx \<ge> int (m_pos v) \<or> 0 > idx then Some None
      else map_option Some (m_vdata v ! nat idx))"

definition vectorSetElementAt :: "'a vec \<Rightarrow> int \<Rightarrow> 'a \<Rightarrow> sys \<Rightarrow> ('a vec option \<times> sys) option" where
  "vectorSetElementAt v idx x m = do {
     (w, m) \<leftarrow> (if idx \<ge> int (m_count v) then do { index \<leftarrow> c_int (idx + 1); vectorExtendTo index v m }
               else Some (Some v, m));
     case w of
       None \<Rightarrow> Some (None, m)
     | Some v \<Rightarrow>
         if idx < 0 then None
         else Some (Some (v\<lparr>m_pos := max (m_pos v) (nat idx + 1), m_vdata := (m_vdata v)[nat idx := Some x]\<rparr>), m) }"

definition vectorAdd :: "'a vec \<Rightarrow> 'a \<Rightarrow> sys \<Rightarrow> ('a vec option \<times> sys) option" where
  "vectorAdd v x m = do {
     (w, m) \<leftarrow> (if m_pos v = m_count v
               then do { newlen \<leftarrow> c_int (int (m_count v) * 2); Some (vectorExtend (nat newlen) v m) }
               else Some (Some v, m));
     case w of
       None \<Rightarrow> Some (None, m)
     | Some v \<Rightarrow>
         if m_pos v \<ge> m_count v then None
         else Some (Some (v\<lparr>m_vdata := (m_vdata v)[m_pos v := Some x], m_pos := m_pos v + 1\<rparr>), m) }"

primrec delete_strings :: "spl_string option option list \<Rightarrow> sys \<Rightarrow> sys option" where
  "delete_strings [] m = Some m"
| "delete_strings (s # ss) m = do {
     p \<leftarrow> s;
     str \<leftarrow> p;
     delete_strings ss (stringDelete str m) }"

text \<open>The elements are pointers to strings that may be null, and are deleted all the same.\<close>

definition vectorDeleteStrings :: "spl_string option vec \<Rightarrow> sys \<Rightarrow> sys option" where
  "vectorDeleteStrings v m = map_option (vectorDelete v) (delete_strings (take (m_pos v) (m_vdata v)) m)"

subsection \<open>String buffers, splc/src/stringbuffer.c\<close>

text \<open>
  A buffer of \<open>m_size\<close> bytes (the field m\_len of the struct) holds \<open>m_bytes\<close>, of which there are
  \<open>m_used\<close>, and a NUL. Doubling a buffer of no bytes goes on forever, and doubling one of 2 ^ 30
  bytes overflows.
\<close>

record stringbuffer =
  m_bytes :: string
  m_size :: int

abbreviation m_used :: "stringbuffer \<Rightarrow> int" where
  "m_used b \<equiv> int (length (m_bytes b))"

definition stringbufferExtend :: "stringbuffer \<Rightarrow> sys \<Rightarrow> (stringbuffer option \<times> sys) option" where
  "stringbufferExtend buf m = do {
     newlen \<leftarrow> c_int (m_size buf * 2);
     let (ok, m) = malloc m;
     if \<not> ok then Some (None, m)
     else Some (Some (buf\<lparr>m_size := newlen\<rparr>), release 1 m) }"

definition stringbufferSizeNew :: "int \<Rightarrow> sys \<Rightarrow> (stringbuffer option \<times> sys) option" where
  "stringbufferSizeNew n m =
     (let (ok, m) = malloc m in if \<not> ok then Some (None, m) else
      let (ok, m) = malloc m in if \<not> ok then Some (None, release 1 m) else
      if n \<le> 0 then None else Some (Some \<lparr>m_bytes = [], m_size = n\<rparr>, m))"

definition stringbufferNew :: "sys \<Rightarrow> (stringbuffer option \<times> sys) option" where
  "stringbufferNew = stringbufferSizeNew 32"

definition stringbufferDelete :: "stringbuffer \<Rightarrow> sys \<Rightarrow> sys" where
  "stringbufferDelete buf m = release 2 m"

definition stringbufferClear :: "stringbuffer \<Rightarrow> stringbuffer" where
  "stringbufferClear buf = buf\<lparr>m_bytes := []\<rparr>"

partial_function (option) extend_for :: "int \<Rightarrow> stringbuffer \<Rightarrow> sys \<Rightarrow> (bool \<times> stringbuffer \<times> sys) option" where
  "extend_for len buf m = do {
     chars \<leftarrow> c_int (len + m_used buf);
     needed \<leftarrow> c_int (chars + 1);
     if needed > m_size buf
     then do {
       (extended, m) \<leftarrow> stringbufferExtend buf m;
       case extended of
         None \<Rightarrow> Some (False, buf, m)
       | Some buf \<Rightarrow> extend_for len buf m }
     else Some (True, buf, m) }"

text \<open>The bytes to append; a failed extension leaves the buffer as it was extended so far.\<close>

definition stringbufferAppendBuf :: "stringbuffer \<Rightarrow> string \<Rightarrow> sys \<Rightarrow> (bool \<times> stringbuffer \<times> sys) option" where
  "stringbufferAppendBuf buf cp m =
     (if cp = [] then Some (True, buf, m)
      else do {
        (ok, buf, m) \<leftarrow> extend_for (int (length cp)) buf m;
        if \<not> ok then Some (False, buf, m)
        else Some (True, buf\<lparr>m_bytes := m_bytes buf @ cp\<rparr>, m) })"

definition stringbufferAppendCh :: "stringbuffer \<Rightarrow> char \<Rightarrow> sys \<Rightarrow> (bool \<times> stringbuffer \<times> sys) option" where
  "stringbufferAppendCh buf c = stringbufferAppendBuf buf [c]"

text \<open>Bytes of a string from start on: its characters and its NUL, no further.\<close>

definition bytes_from :: "string \<Rightarrow> int \<Rightarrow> int \<Rightarrow> string option" where
  "bytes_from s start len =
     (if 0 \<le> start \<and> 0 \<le> len \<and> start + len \<le> int (length s) + 1
      then Some (take (nat len) (drop (nat start) (s @ [NUL]))) else None)"

definition stringbufferAppendEx ::
  "stringbuffer \<Rightarrow> string \<Rightarrow> int \<Rightarrow> int \<Rightarrow> sys \<Rightarrow> (bool \<times> stringbuffer \<times> sys) option" where
  "stringbufferAppendEx buf cp start len m = do {
     bs \<leftarrow> (if len = 0 then Some [] else bytes_from cp start len);
     stringbufferAppendBuf buf bs m }"

definition stringbufferAppend :: "stringbuffer \<Rightarrow> string \<Rightarrow> sys \<Rightarrow> (bool \<times> stringbuffer \<times> sys) option" where
  "stringbufferAppend = stringbufferAppendBuf"

definition stringbufferAppendString :: "stringbuffer \<Rightarrow> spl_string \<Rightarrow> sys \<Rightarrow> (bool \<times> stringbuffer \<times> sys) option" where
  "stringbufferAppendString buf s = stringbufferAppend buf (m_cstr s)"

definition stringbufferToString :: "stringbuffer \<Rightarrow> sys \<Rightarrow> spl_string option \<times> sys" where
  "stringbufferToString buf = stringNew (takeWhile (\<lambda>c. c \<noteq> NUL) (m_bytes buf))"

text \<open>What a character is encoded to; the results of the appends are ignored.\<close>

definition xml_encoded :: "bool \<Rightarrow> char \<Rightarrow> string" where
  "xml_encoded isAttribute c =
     (if c = CHR ''&'' then ''&amp;''
      else if c = CHR 0x27 then ''&#39;''
      else if c = CHR ''<'' then ''&lt;''
      else if c = CHR ''>'' then ''&gt;''
      else if c = CHR 0x22 then ''&quot;''
      else if c = CHR 0x0D then (if isAttribute then ''&#10;'' else [c])
      else if c = CHR 0x0A then (if isAttribute then ''&#13;'' else [c])
      else [c])"

primrec append_encoded :: "bool \<Rightarrow> string \<Rightarrow> stringbuffer \<Rightarrow> sys \<Rightarrow> (stringbuffer \<times> sys) option" where
  "append_encoded att [] buf m = Some (buf, m)"
| "append_encoded att (c # cs) buf m = do {
     (_, buf, m) \<leftarrow> stringbufferAppend buf (xml_encoded att c) m;
     append_encoded att cs buf m }"

definition stringbufferAppendXmlEncode ::
  "stringbuffer \<Rightarrow> string \<Rightarrow> bool \<Rightarrow> sys \<Rightarrow> (bool \<times> stringbuffer \<times> sys) option" where
  "stringbufferAppendXmlEncode buf cp isAttribute m = do {
     special \<leftarrow> StrRequiresXmlEncoding cp;
     if \<not> special then stringbufferAppend buf cp m
     else do { (buf, m) \<leftarrow> append_encoded isAttribute cp buf m; Some (True, buf, m) } }"

subsection \<open>Hash tables, splc/src/hashtable.c\<close>

text \<open>
  A table of 701 chains; an item is put in front of its chain. The key of an item is a copy that
  \<open>stringNew\<close> makes. The hash is of the characters as signed bytes.
\<close>

unbundle bit_operations_syntax

definition charHashLong :: "string \<Rightarrow> bool \<Rightarrow> 64 word" where
  "charHashLong s ignore =
     fold (\<lambda>c h. push_bit 6 h XOR drop_bit 58 h XOR word_of_int (schar (fold_case ignore c))) s 0"

definition charHash :: "string \<Rightarrow> bool \<Rightarrow> 32 word" where
  "charHash s ignore = (let h = charHashLong s ignore in ucast (h AND 0xFFFFFFFF XOR drop_bit 32 h))"

record 'v hashtable =
  m_items :: nat
  m_keyIgnoreCase :: bool
  m_table :: "(spl_string \<times> 'v) list list"

definition hashtableNew :: "sys \<Rightarrow> 'v hashtable option \<times> sys" where
  "hashtableNew m =
     (let (ok, m) = malloc m in if \<not> ok then (None, m) else
      let (ok, m) = malloc m in if \<not> ok then (None, release 1 m) else
      (Some \<lparr>m_items = 0, m_keyIgnoreCase = False, m_table = replicate 701 []\<rparr>, m))"

definition bucket :: "'v hashtable \<Rightarrow> string \<Rightarrow> nat" where
  "bucket ht cp = unat (charHash cp (m_keyIgnoreCase ht)) mod length (m_table ht)"

fun chain_find :: "bool \<Rightarrow> string \<Rightarrow> (spl_string \<times> 'v) list \<Rightarrow> 'v option" where
  "chain_find ignore cp [] = None"
| "chain_find ignore cp ((key, val) # items) =
     (if stringIsEqual key cp ignore then Some val else chain_find ignore cp items)"

definition hashtableGet :: "'v hashtable \<Rightarrow> string \<Rightarrow> 'v option" where
  "hashtableGet ht cp = chain_find (m_keyIgnoreCase ht) cp (m_table ht ! bucket ht cp)"

definition hashtableContainsKey :: "'v hashtable \<Rightarrow> string \<Rightarrow> bool" where
  "hashtableContainsKey ht cp \<longleftrightarrow> hashtableGet ht cp \<noteq> None"

fun chain_replace :: "bool \<Rightarrow> string \<Rightarrow> 'v \<Rightarrow> (spl_string \<times> 'v) list \<Rightarrow> (spl_string \<times> 'v) list" where
  "chain_replace ignore cp val [] = []"
| "chain_replace ignore cp val ((key, old) # items) =
     (if stringIsEqual key cp ignore then (key, val) # items else (key, old) # chain_replace ignore cp val items)"

definition hashtablePut ::
  "'v hashtable \<Rightarrow> string \<Rightarrow> 'v \<Rightarrow> bool \<Rightarrow> sys \<Rightarrow> bool \<times> 'v hashtable \<times> sys" where
  "hashtablePut ht cp val freeOld m =
     (let b = bucket ht cp; chain = m_table ht ! b
      in if chain_find (m_keyIgnoreCase ht) cp chain \<noteq> None
         then (True, ht\<lparr>m_table := (m_table ht)[b := chain_replace (m_keyIgnoreCase ht) cp val chain]\<rparr>,
               if freeOld then release 1 m else m)
         else
           (let (ok, m) = malloc m in if \<not> ok then (False, ht, m) else
            case stringNew cp m of
              (None, m) \<Rightarrow> (False, ht, release 1 m)
            | (Some key, m) \<Rightarrow>
                (True, ht\<lparr>m_items := m_items ht + 1, m_table := (m_table ht)[b := (key, val) # chain]\<rparr>, m)))"

definition hashtableCount :: "'v hashtable \<Rightarrow> nat" where
  "hashtableCount = m_items"

text \<open>Deleting frees the first item of every chain.\<close>

definition delete_first :: "bool \<Rightarrow> (spl_string \<times> 'v) list \<Rightarrow> sys \<Rightarrow> sys" where
  "delete_first freeValues chain m =
     (case chain of
        [] \<Rightarrow> m
      | (key, val) # items \<Rightarrow> release (if freeValues then 2 else 1) (stringDelete key m))"

definition hashtableDelete :: "'v hashtable \<Rightarrow> bool \<Rightarrow> sys \<Rightarrow> sys" where
  "hashtableDelete ht freeValues m = release 2 (fold (delete_first freeValues) (m_table ht) m)"

definition delete_first_strings :: "(spl_string \<times> spl_string) list \<Rightarrow> sys \<Rightarrow> sys" where
  "delete_first_strings chain m =
     (case chain of
        [] \<Rightarrow> m
      | (key, val) # items \<Rightarrow> release 1 (stringDelete val (stringDelete key m)))"

definition hashtableDeleteStringValues :: "spl_string hashtable \<Rightarrow> sys \<Rightarrow> sys" where
  "hashtableDeleteStringValues ht m = release 2 (fold delete_first_strings (m_table ht) m)"

end
