(* ===== verification/Spl_Text.thy ===== *)
theory Spl_Text
  imports Spl_Containers Variant
begin

section \<open>Strings made of other strings, and numbers, in the support library\<close>

text \<open>
  The functions of splc/src/string.c that use the string buffers and vectors, and the conversions
  of splc/src/integer.c. As before None stands for a read of memory that was not written, a write
  outside a buffer or an overflow of an int; the assertions, which only the DEBUG build has, are
  left out.
\<close>

subsection \<open>Parts of a string\<close>

definition stringSubstring :: "spl_string \<Rightarrow> int \<Rightarrow> int \<Rightarrow> sys \<Rightarrow> (spl_string option \<times> sys) option" where
  "stringSubstring str start len m =
     (if len = 0 then Some (stringNew [] m)
      else do {
        let start = (if start > m_len str then m_len str else start);
        stop \<leftarrow> c_int (start + len);
        len \<leftarrow> (if stop > m_len str then c_int (m_len str - start) else Some len);
        let len = (if len < 0 then 0 else len);
        if start < 0 \<or> start > int (length (m_cstr str)) then None
        else do {
          size \<leftarrow> c_int (len + 1);
          let (ok, m) = malloc m;
          if \<not> ok then Some (None, m)
          else (case stringNew (fst (StrCpyLen (drop (nat start) (m_cstr str)) len)) m of
                  (strret, m) \<Rightarrow> Some (strret, release 1 m)) } })"

definition stringMid :: "spl_string \<Rightarrow> int \<Rightarrow> int \<Rightarrow> sys \<Rightarrow> (spl_string option \<times> sys) option" where
  "stringMid str start stop m = do { len \<leftarrow> c_int (stop - start); stringSubstring str start len m }"

definition stringSubstringFrom :: "spl_string \<Rightarrow> int \<Rightarrow> sys \<Rightarrow> (spl_string option \<times> sys) option" where
  "stringSubstringFrom str start m = do { len \<leftarrow> c_int (m_len str - start); stringSubstring str start len m }"

definition stringRight :: "spl_string \<Rightarrow> int \<Rightarrow> sys \<Rightarrow> (spl_string option \<times> sys) option" where
  "stringRight str len m = do {
     let len = (if len > m_len str then m_len str else len);
     start \<leftarrow> c_int (m_len str - len);
     stringSubstringFrom str start m }"

definition stringReverse :: "spl_string \<Rightarrow> sys \<Rightarrow> spl_string option \<times> sys" where
  "stringReverse str m =
     (case stringDup str m of
        (None, m) \<Rightarrow> (None, m)
      | (Some ret, m) \<Rightarrow> (Some (ret\<lparr>m_cstr := rev (m_cstr ret)\<rparr>), m))"

subsection \<open>Replacing and trimming\<close>

text \<open>The results of the appends are ignored. A loop that does not end would be None as well.\<close>

partial_function (option) replace_from ::
  "spl_string \<Rightarrow> string \<Rightarrow> string \<Rightarrow> int \<Rightarrow> int \<Rightarrow> stringbuffer \<Rightarrow> sys \<Rightarrow> (stringbuffer \<times> sys) option" where
  "replace_from s frm to start pos buf m =
     (if start < m_len s
      then do {
        (_, buf, m) \<leftarrow> stringbufferAppendEx buf (m_cstr s) start (pos - start) m;
        (_, buf, m) \<leftarrow> stringbufferAppend buf to m;
        let start = pos + int (length frm);
        pos \<leftarrow> stringIndexOf s frm start False;
        if 0 > pos
        then do {
          (_, buf, m) \<leftarrow> stringbufferAppendEx buf (m_cstr s) start (m_len s - start) m;
          Some (buf, m) }
        else replace_from s frm to start pos buf m }
      else Some (buf, m))"

definition stringReplace :: "spl_string \<Rightarrow> string \<Rightarrow> string \<Rightarrow> sys \<Rightarrow> (spl_string option \<times> sys) option" where
  "stringReplace s frm to m = do {
     pos \<leftarrow> stringIndexOf s frm 0 False;
     if 0 > pos then Some (stringDup s m)
     else do {
       size \<leftarrow> c_int (m_len s + 10);
       (buf, m) \<leftarrow> stringbufferSizeNew size m;
       case buf of
         None \<Rightarrow> Some (None, m)
       | Some buf \<Rightarrow> do {
           (buf, m) \<leftarrow> replace_from s frm to 0 pos buf m;
           (case stringbufferToString buf m of (ret, m) \<Rightarrow> Some (ret, stringbufferDelete buf m)) } } }"

partial_function (option) skip_blanks :: "string \<Rightarrow> int \<Rightarrow> int \<Rightarrow> int option" where
  "skip_blanks s len pos = do {
     c \<leftarrow> char_at s pos;
     if c = CHR '' '' \<and> pos < len then skip_blanks s len (pos + 1) else Some pos }"

partial_function (option) skip_blanks_back :: "string \<Rightarrow> int \<Rightarrow> int option" where
  "skip_blanks_back s pos = do {
     c \<leftarrow> char_at s pos;
     if c = CHR '' '' \<and> pos \<ge> 0 then skip_blanks_back s (pos - 1) else Some pos }"

primrec append_chars :: "string \<Rightarrow> stringbuffer \<Rightarrow> sys \<Rightarrow> (stringbuffer \<times> sys) option" where
  "append_chars [] buf m = Some (buf, m)"
| "append_chars (c # cs) buf m = do {
     (_, buf, m) \<leftarrow> stringbufferAppendCh buf c m;
     append_chars cs buf m }"

definition stringTrim :: "spl_string \<Rightarrow> sys \<Rightarrow> (spl_string option \<times> sys) option" where
  "stringTrim str m = do {
     (buf, m) \<leftarrow> stringbufferSizeNew (m_len str) m;
     case buf of
       None \<Rightarrow> Some (None, m)
     | Some buf \<Rightarrow> do {
         pos \<leftarrow> skip_blanks (m_cstr str) (m_len str) 0;
         endpos \<leftarrow> skip_blanks_back (m_cstr str) (m_len str - 1);
         cs \<leftarrow> (if pos \<le> endpos then bytes_from (m_cstr str) pos (endpos - pos + 1) else Some []);
         (buf, m) \<leftarrow> append_chars cs buf m;
         (case stringbufferToString buf m of (ret, m) \<Rightarrow> Some (ret, stringbufferDelete buf m)) } }"

subsection \<open>Splitting\<close>

definition stringDeleteSplitVector :: "spl_string option vec \<Rightarrow> sys \<Rightarrow> sys option" where
  "stringDeleteSplitVector v m = map_option (vectorDelete v) (delete_strings (take (vectorCount v) (m_vdata v)) m)"

text \<open>
  Adding a span, or deleting the vector with what it holds; the span itself is lost then. The
  vector is None when NULL is returned.
\<close>

definition add_span ::
  "spl_string option vec \<Rightarrow> spl_string option \<Rightarrow> sys \<Rightarrow> (spl_string option vec option \<times> sys) option" where
  "add_span v span m = do {
     (w, m) \<leftarrow> vectorAdd v span m;
     case w of
       None \<Rightarrow> do { m \<leftarrow> stringDeleteSplitVector v m; Some (None, m) }
     | Some v \<Rightarrow> Some (Some v, m) }"

partial_function (option) split_from ::
  "spl_string \<Rightarrow> string \<Rightarrow> int \<Rightarrow> int \<Rightarrow> spl_string option vec \<Rightarrow> sys
     \<Rightarrow> (int \<times> spl_string option vec option \<times> sys) option" where
  "split_from str cp pos delimpos v m =
     (if pos < m_len str
      then do {
        (span, m) \<leftarrow> stringMid str pos delimpos m;
        let pos = delimpos + int (length cp);
        (w, m) \<leftarrow> add_span v span m;
        case w of
          None \<Rightarrow> Some (pos, None, m)
        | Some v \<Rightarrow> do {
            delimpos \<leftarrow> stringIndexOf str cp (delimpos + 1) False;
            if delimpos < 0 then Some (pos, Some v, m)
            else split_from str cp pos delimpos v m } }
      else Some (pos, Some v, m))"

definition stringSplit :: "spl_string \<Rightarrow> string \<Rightarrow> sys \<Rightarrow> (spl_string option vec option \<times> sys) option" where
  "stringSplit str cp m = do {
     delimpos \<leftarrow> stringIndexOf str cp 0 False;
     (case vectorNew m of
        (None, m) \<Rightarrow> Some (None, m)
      | (Some v, m) \<Rightarrow>
          if delimpos < 0
          then (case stringDup str m of (span, m) \<Rightarrow> add_span v span m)
          else do {
            (pos, w, m) \<leftarrow> split_from str cp 0 delimpos v m;
            case w of
              None \<Rightarrow> Some (None, m)
            | Some v \<Rightarrow>
                (let pos = m_len str - pos
                 in if pos > 0
                    then do { (span, m) \<leftarrow> stringRight str pos m; add_span v span m }
                    else Some (Some v, m)) }) }"

text \<open>The variant for any of several delimiters checks its spans and drops the empty ones.\<close>

definition add_nonempty ::
  "spl_string option vec \<Rightarrow> spl_string option \<Rightarrow> sys \<Rightarrow> (spl_string option vec option \<times> sys) option" where
  "add_nonempty v span m =
     (case span of
        None \<Rightarrow> do { m \<leftarrow> stringDeleteSplitVector v m; Some (None, m) }
      | Some s \<Rightarrow> if m_len s = 0 then Some (Some v, stringDelete s m) else add_span v span m)"

partial_function (option) split_any ::
  "spl_string \<Rightarrow> string \<Rightarrow> int \<Rightarrow> int \<Rightarrow> spl_string option vec \<Rightarrow> sys
     \<Rightarrow> (int \<times> spl_string option vec option \<times> sys) option" where
  "split_any str cp pos delimpos v m =
     (if pos < m_len str
      then do {
        (span, m) \<leftarrow> stringMid str pos delimpos m;
        let pos = delimpos + 1;
        (w, m) \<leftarrow> add_nonempty v span m;
        case w of
          None \<Rightarrow> Some (pos, None, m)
        | Some v \<Rightarrow> do {
            delimpos \<leftarrow> stringIndexOfAnyCh str cp (delimpos + 1);
            if delimpos < 0 then Some (pos, Some v, m)
            else split_any str cp pos delimpos v m } }
      else Some (pos, Some v, m))"

definition stringSplitAnyCh :: "spl_string \<Rightarrow> string \<Rightarrow> sys \<Rightarrow> (spl_string option vec option \<times> sys) option" where
  "stringSplitAnyCh str cp m = do {
     delimpos \<leftarrow> stringIndexOfAnyCh str cp 0;
     (case vectorNew m of
        (None, m) \<Rightarrow> Some (None, m)
      | (Some v, m) \<Rightarrow>
          if delimpos < 0
          then (case stringDup str m of (span, m) \<Rightarrow> add_span v span m)
          else do {
            (pos, w, m) \<leftarrow> split_any str cp 0 delimpos v m;
            case w of
              None \<Rightarrow> Some (None, m)
            | Some v \<Rightarrow>
                (let pos = m_len str - pos
                 in if pos > 0
                    then do { (span, m) \<leftarrow> stringRight str pos m; add_nonempty v span m }
                    else Some (Some v, m)) }) }"

subsection \<open>Tests of a string\<close>

text \<open>They go over as many characters as the length says; \<open>k\<close> of them are left.\<close>

fun count_from :: "string \<Rightarrow> char \<Rightarrow> int \<Rightarrow> nat \<Rightarrow> int option" where
  "count_from s ch x 0 = Some 0"
| "count_from s ch x (Suc k) = do {
     c \<leftarrow> char_at s x;
     n \<leftarrow> count_from s ch (x + 1) k;
     Some (if c = ch then n + 1 else n) }"

definition stringCountChars :: "spl_string \<Rightarrow> char \<Rightarrow> int option" where
  "stringCountChars str ch = count_from (m_cstr str) ch 0 (nat (m_len str))"

fun all_digits :: "string \<Rightarrow> int \<Rightarrow> nat \<Rightarrow> bool option" where
  "all_digits s x 0 = Some True"
| "all_digits s x (Suc k) = do {
     c \<leftarrow> char_at s x;
     if \<not> isdigit (schar c) then Some False else all_digits s (x + 1) k }"

definition stringIsInt :: "spl_string \<Rightarrow> bool option" where
  "stringIsInt str = all_digits (m_cstr str) 0 (nat (m_len str))"

fun digits_and_dot :: "string \<Rightarrow> int \<Rightarrow> int \<Rightarrow> nat \<Rightarrow> bool option" where
  "digits_and_dot s x dotcount 0 = Some True"
| "digits_and_dot s x dotcount (Suc k) = do {
     ch \<leftarrow> char_at s x;
     if isdigit (schar ch) then digits_and_dot s (x + 1) dotcount k
     else if ch = CHR ''.'' \<and> dotcount = 0 then digits_and_dot s (x + 1) (dotcount + 1) k
     else Some False }"

definition stringIsFloat :: "spl_string \<Rightarrow> bool option" where
  "stringIsFloat str = digits_and_dot (m_cstr str) 0 0 (nat (m_len str))"

definition stringIsNumeric :: "spl_string \<Rightarrow> bool option" where
  "stringIsNumeric str = do {
     i \<leftarrow> stringIsInt str;
     if i then Some True else stringIsFloat str }"

definition stringHash :: "spl_string \<Rightarrow> bool \<Rightarrow> 32 word option" where
  "stringHash str ignore = do {
     bs \<leftarrow> bytes_from (m_cstr str) 0 (m_len str);
     Some (charHash bs ignore) }"

subsection \<open>Numbers, splc/src/integer.c\<close>

text \<open>An int product that does not fit is undefined.\<close>

definition int_times :: "int \<Rightarrow> int \<Rightarrow> int option" where
  "int_times a b = c_int (a * b)"

text \<open>
  The table of the hexadecimal digits has six entries, from the letter A; every letter compares
  greater than or equal to that, so the other branch is not reached.
\<close>

definition digit_of :: "int \<Rightarrow> char \<Rightarrow> int option" where
  "digit_of numbase ch =
     (if numbase > 10 \<and> isalpha (schar ch)
      then let k = (if schar ch \<ge> 65 then schar ch - 65 else schar ch - 97)
           in if 0 \<le> k \<and> k < 6 then Some (10 + k) else None
      else Some (schar ch - 48))"

fun base_value :: "int \<Rightarrow> int \<Rightarrow> string \<Rightarrow> 64 word \<Rightarrow> 64 word option" where
  "base_value numbase iProduct [] dec = Some dec"
| "base_value numbase iProduct (ch # cs) dec = do {
     b \<leftarrow> digit_of numbase ch;
     x \<leftarrow> int_times b iProduct;
     iProduct \<leftarrow> int_times iProduct numbase;
     base_value numbase iProduct cs (dec + word_of_int x) }"

definition baseToInt :: "string \<Rightarrow> int \<Rightarrow> 64 word option" where
  "baseToInt sbase numbase =
     (let stopAt = (case sbase of
            c # d # _ \<Rightarrow> if c = CHR ''0'' \<and> (d = CHR ''x'' \<or> d = CHR ''X'') then 2 else 0
          | _ \<Rightarrow> 0)
      in base_value numbase 1 (rev (drop stopAt sbase)) 0)"

definition int32Parse :: "string \<Rightarrow> int \<Rightarrow> 32 word option" where
  "int32Parse cp radix =
     (if radix = 10 then Some (atoi cp)
      else case cp of
             CHR ''-'' # ds \<Rightarrow> do { i \<leftarrow> baseToInt ds radix; Some (- ucast i) }
           | _ \<Rightarrow> do { i \<leftarrow> baseToInt cp radix; Some (ucast i) })"

definition int64Parse :: "string \<Rightarrow> int \<Rightarrow> 64 word option" where
  "int64Parse cp radix =
     (case cp of
        CHR ''-'' # ds \<Rightarrow> do { i \<leftarrow> baseToInt ds radix; Some (- i) }
      | _ \<Rightarrow> baseToInt cp radix)"

text \<open>What \<open>printf\<close> writes for a decimal integer.\<close>

definition decimal :: "int \<Rightarrow> string" where
  "decimal k = (if k < 0 then CHR ''-'' # itoa_digits (nat (- k)) else itoa_digits (nat k))"

definition int32ToString :: "32 word \<Rightarrow> sys \<Rightarrow> spl_string option \<times> sys" where
  "int32ToString i = stringNew (decimal (sint i))"

definition int64ToString :: "64 word \<Rightarrow> sys \<Rightarrow> spl_string option \<times> sys" where
  "int64ToString i = stringNew (decimal (sint i))"

definition stringbufferAppendInt :: "stringbuffer \<Rightarrow> 32 word \<Rightarrow> sys \<Rightarrow> (bool \<times> stringbuffer \<times> sys) option" where
  "stringbufferAppendInt buf i = stringbufferAppend buf (decimal (sint i))"

definition stringbufferAppendLong :: "stringbuffer \<Rightarrow> 64 word \<Rightarrow> sys \<Rightarrow> (bool \<times> stringbuffer \<times> sys) option" where
  "stringbufferAppendLong buf i = stringbufferAppend buf (decimal (sint i))"

text \<open>
  Floats are printed by a parameter, what \<open>sprintf\<close> writes for the format of 15 decimals; it goes
  into 64 bytes on the stack.
\<close>

definition float64ToString :: "('f \<Rightarrow> string) \<Rightarrow> 'f \<Rightarrow> sys \<Rightarrow> (spl_string option \<times> sys) option" where
  "float64ToString print d m = (if length (print d) < 64 then Some (stringNew (print d) m) else None)"

definition stringbufferAppendReal ::
  "('f \<Rightarrow> string) \<Rightarrow> stringbuffer \<Rightarrow> 'f \<Rightarrow> sys \<Rightarrow> (bool \<times> stringbuffer \<times> sys) option" where
  "stringbufferAppendReal print buf d m =
     (if length (print d) < 64 then stringbufferAppend buf (print d) m else None)"

end
