(* ===== verification/Spl_Spec.thy ===== *)
theory Spl_Spec
  imports Spl_Text
begin

section \<open>What the support library does\<close>

text \<open>
  First what allocation gives and what the copying functions of C strings do, then the buffers that
  grow (a locale, interpreted by string buffers and vectors), the searches and \<open>stringReplace\<close>
  against a reference definition, hash tables and the parsing of numbers.
\<close>

subsection \<open>Allocation and copies\<close>

lemma malloc_plenty [simp]: "answers m = [] \<Longrightarrow> malloc m = (True, m\<lparr>blocks := blocks m + 1\<rparr>)"
  by (simp add: malloc_def)

lemma malloc_blocks: "malloc m = (ok, m') \<Longrightarrow> blocks m' = blocks m + (if ok then 1 else 0)"
  by (auto simp: malloc_def split: list.splits if_splits)

lemma malloc_answers: "malloc m = (ok, m') \<Longrightarrow> answers m = [] \<Longrightarrow> ok \<and> answers m' = []"
  by (auto simp: malloc_def)

lemma malloc_result:
  "malloc m = (ok, m') \<Longrightarrow> blocks m' = blocks m + (if ok then 1 else 0) \<and> (answers m = [] \<longrightarrow> ok \<and> answers m' = [])"
  using malloc_blocks malloc_answers by blast

lemma release_simps [simp]: "blocks (release n m) = blocks m - n" "answers (release n m) = answers m"
  by (simp_all add: release_def)

lemma StrCpyLen_take: "fst (StrCpyLen s len) = take (nat (len - 1)) s"
proof (induction s len rule: StrCpyLen.induct)
  case (2 c s len)
  show ?case
  proof (cases "len - 1 > 0")
    case True
    then have "nat (len - 1) = Suc (nat (len - 2))" by simp
    with 2 True show ?thesis by (simp add: case_prod_beta)
  qed simp
qed simp

lemma StrCatLen_take: "fst (StrCatLen a b len) = take (nat (len - 1)) (a @ b)"
  by (simp add: StrCatLen_def Let_def min_def)

lemma stringNew_result:
  "stringNew cp m = (Some s, m') \<Longrightarrow>
     s = \<lparr>m_cstr = butlast cp, m_isintern = False, m_len = int (length cp)\<rparr> \<and> blocks m' = blocks m + 2"
  by (auto simp: stringNew_def StrCpyLen_take butlast_conv_take nat_diff_distrib' Let_def
    split: prod.splits if_splits dest!: malloc_blocks)

lemma stringNew_null: "stringNew cp m = (None, m') \<Longrightarrow> blocks m' = blocks m"
  by (auto simp: stringNew_def Let_def split: prod.splits if_splits dest!: malloc_blocks)

lemma stringNew_plenty:
  assumes "answers m = []"
  shows "stringNew cp m = (Some \<lparr>m_cstr = butlast cp, m_isintern = False, m_len = int (length cp)\<rparr>,
    m\<lparr>blocks := blocks m + 2\<rparr>)"
  using assms by (simp add: stringNew_def StrCpyLen_take butlast_conv_take nat_diff_distrib' Let_def)

lemma stringCat_plenty:
  assumes "answers m = []" "m_len s = int (length (m_cstr s))" "m_len s + int (length cp) + 1 < 2 ^ 31"
  shows "stringCat s cp (int (length cp)) m = Some
    (Some \<lparr>m_cstr = m_cstr s @ cp, m_isintern = False, m_len = m_len s + int (length cp)\<rparr>, m\<lparr>blocks := blocks m + 2\<rparr>)"
  using assms by (simp add: stringCat_def c_int_def stringTakeOwnership_def stringIntern_def StrCpyLen_take StrCatLen_take Let_def nat_add_distrib)

lemma equal_with_map: "equal_with f s t \<longleftrightarrow> map f s = map f t"
  by (induction f s t rule: equal_with.induct) auto

lemma schar_to_char: "0 \<le> k \<Longrightarrow> k < 128 \<Longrightarrow> schar (to_char k) = k"
  by (simp add: schar_def to_char_def Let_def of_char_nat_int)

lemma toupper_NUL [simp]: "toupper c = NUL \<longleftrightarrow> c = NUL"
proof (cases "97 \<le> schar c \<and> schar c \<le> 122")
  case True
  then have "schar (to_char (schar c - 32)) = schar c - 32" by (intro schar_to_char) auto
  then have "to_char (schar c - 32) \<noteq> NUL" using True by (auto simp: schar_def)
  then show ?thesis using True by (auto simp: toupper_def schar_def)
qed (auto simp: toupper_def)

lemma fold_case_NUL [simp]: "fold_case ig c = NUL \<longleftrightarrow> c = NUL"
  by (simp add: fold_case_def)

text \<open>
  The last character a string was made of is lost: at its place there is a NUL that the length
  still counts.
\<close>

lemma agrees_short:
  assumes "m_len str = int (length (m_cstr str)) + 1" "0 \<le> x" "x + int (length cp) = m_len str" "cp \<noteq> []" "NUL \<notin> set cp"
  shows "agrees (fold_case ig) str x cp = Some False"
  using assms(2-)
proof (induction cp arbitrary: x)
  case (Cons c cp)
  then have x: "x \<le> int (length (m_cstr str))" "x < m_len str" using assms(1) by auto
  show ?case
  proof (cases "cp = []")
    case True
    then have "char_at (m_cstr str) x = Some NUL" using Cons.prems assms(1) by (simp add: char_at_def)
    moreover have "fold_case ig NUL \<noteq> fold_case ig c"
      using Cons.prems fold_case_NUL [of ig c] fold_case_NUL [THEN iffD2, of NUL ig, OF refl]
      by (auto simp del: fold_case_NUL)
    ultimately show ?thesis using x by simp
  next
    case False
    then have "x < int (length (m_cstr str))" using Cons.prems assms(1) by (cases cp) auto
    then show ?thesis using x Cons False by (simp add: char_at_def)
  qed
qed simp

lemma digits_end:
  "x = int (length s) - int k \<Longrightarrow> k \<le> length s \<Longrightarrow> all_digits s x (Suc k) = Some False
     \<and> digits_and_dot s x d (Suc k) = Some False"
proof (induction k arbitrary: x d)
  case 0
  then show ?case by (simp add: char_at_def isdigit_def schar_def)
next
  case (Suc k)
  have "all_digits s (x + 1) (Suc k) = Some False" "\<And>d. digits_and_dot s (x + 1) d (Suc k) = Some False"
    using Suc.IH [of "x + 1"] Suc.prems by auto
  moreover have "\<exists>c. char_at s x = Some c" using Suc.prems by (auto simp: char_at_def)
  ultimately show ?case by (auto simp del: all_digits.simps digits_and_dot.simps
    simp: all_digits.simps(2) [of s x "Suc k"] digits_and_dot.simps(2) [of s x d "Suc k"])
qed

text \<open>C34. A string object that \<open>stringNew\<close> makes of a nonempty C string keeps all characters but
  the last, which a NUL replaces, while its length still counts it: it is not equal to the string it
  was made of, it ends with no nonempty string, whatever its last characters are, and it is
  never numeric. Two blocks are allocated, and none when NULL is returned.\<close>

theorem stringNew_drops_last:
  assumes "stringNew cp m = (r, m')" "cp \<noteq> []" "suffix \<noteq> []" "NUL \<notin> set suffix"
  shows "case r of
     None \<Rightarrow> blocks m' = blocks m
   | Some s \<Rightarrow> blocks m' = blocks m + 2 \<and> m_cstr s = butlast cp \<and> m_len s = int (length cp)
       \<and> \<not> stringIsEqual s cp ignore
       \<and> stringEndsWith s suffix ignore = Some False
       \<and> stringIsNumeric s = Some False"
proof (cases r)
  case None
  then show ?thesis using assms stringNew_null [of cp m m'] by simp
next
  case (Some s)
  obtain t a where cp: "cp = t @ [a]" using assms(2) by (metis rev_exhaust)
  have s: "s = \<lparr>m_cstr = t, m_isintern = False, m_len = int (length t) + 1\<rparr>" "blocks m' = blocks m + 2"
    using assms Some stringNew_result [of cp m s m'] by (auto simp: cp)
  have "map f cp \<noteq> map f t" for f :: "char \<Rightarrow> char"
    by (auto simp: cp dest: arg_cong [where f = length])
  then have e: "\<not> stringIsEqual s cp ignore" by (simp add: stringIsEqual_def s equal_with_map)
  have "stringEndsWith s suffix ignore = Some False"
  proof (cases "m_len s - int (length suffix) \<le> 0")
    case False
    then have "agrees (fold_case ignore) s (m_len s - int (length suffix)) suffix = Some False"
      using assms by (intro agrees_short) (simp_all add: s(1))
    then show ?thesis by (simp add: stringEndsWith_def Let_def)
  qed (simp add: stringEndsWith_def Let_def)
  moreover have "nat (m_len s) = Suc (length t)" by (simp add: s)
  then have "stringIsNumeric s = Some False"
    using digits_end [of 0 t "length t" 0]
    by (simp add: stringIsNumeric_def stringIsInt_def stringIsFloat_def s(1) del: all_digits.simps digits_and_dot.simps)
  ultimately show ?thesis using Some s e by (simp add: cp)
qed

theorem stringNew_drops_last_witness:
  "(case stringNew ''12'' \<lparr>answers = [], blocks = 0\<rparr> of (Some s, m') \<Rightarrow>
      m_cstr s = ''1'' \<and> stringEndsWith s ''2'' False = Some False \<and> stringIsNumeric s = Some False
    | _ \<Rightarrow> False)"
  using stringNew_drops_last [of "''12''" "\<lparr>answers = [], blocks = 0\<rparr>" _ _ "''2''" False]
  by (simp add: stringNew_plenty)

subsection \<open>Buffers that grow\<close>

text \<open>
  String buffers and vectors share a contract: adding an element to a well-formed buffer returns as
  long as doubling its size does not overflow, which it may do from 2 ^ 30 elements on; it reports
  whether the element was added, and keeps the blocks that are allocated. The client adds a whole list.
\<close>

primrec add_all :: "('b \<Rightarrow> 'x \<Rightarrow> sys \<Rightarrow> (bool \<times> 'b \<times> sys) option) \<Rightarrow> 'x list \<Rightarrow> 'b \<Rightarrow> sys \<Rightarrow> ('b \<times> sys) option" where
  "add_all add [] b m = Some (b, m)"
| "add_all add (x # xs) b m = do {
     (_, b, m) \<leftarrow> add b x m;
     add_all add xs b m }"

locale growing =
  fixes good :: "'b \<Rightarrow> bool" and contents :: "'b \<Rightarrow> 'x list"
    and add :: "'b \<Rightarrow> 'x \<Rightarrow> sys \<Rightarrow> (bool \<times> 'b \<times> sys) option"
  assumes add_result: "good b \<Longrightarrow> add b x m = Some (ok, b', m') \<Longrightarrow> good b' \<and> blocks m' = blocks m
      \<and> contents b' = (if ok then contents b @ [x] else contents b) \<and> (answers m = [] \<longrightarrow> ok \<and> answers m' = [])"
    and add_defined: "good b \<Longrightarrow> length (contents b) < 2 ^ 30 - 1 \<Longrightarrow> add b x m \<noteq> None"
begin

lemma add_all_result:
  assumes "good b" "add_all add xs b m = Some (b', m')"
  shows "\<exists>ys. good b' \<and> blocks m' = blocks m \<and> contents b' = contents b @ ys \<and> set ys \<subseteq> set xs
    \<and> (answers m = [] \<longrightarrow> ys = xs \<and> answers m' = [])"
  using assms
proof (induction xs arbitrary: b m)
  case (Cons x xs)
  from Cons.prems(2) obtain ok b1 m1 where 1: "add b x m = Some (ok, b1, m1)" "add_all add xs b1 m1 = Some (b', m')"
    by (auto simp: bind_eq_Some_conv)
  note r = add_result [OF Cons.prems(1) 1(1)]
  from Cons.IH [OF _ 1(2)] r obtain ys where 2: "good b'" "blocks m' = blocks m1"
    "contents b' = contents b1 @ ys" "set ys \<subseteq> set xs" "answers m1 = [] \<longrightarrow> ys = xs \<and> answers m' = []" by auto
  with r show ?case by (intro exI [of _ "(if ok then [x] else []) @ ys"]) auto
qed simp

lemma add_all_defined:
  "good b \<Longrightarrow> length (contents b) + length xs < 2 ^ 30 \<Longrightarrow> \<exists>b' m'. add_all add xs b m = Some (b', m')"
proof (induction xs arbitrary: b m)
  case (Cons x xs)
  then obtain ok b1 m1 where 1: "add b x m = Some (ok, b1, m1)"
    using add_defined [of b x m] by fastforce
  with Cons add_result [OF Cons.prems(1) 1] show ?case by simp
qed simp

lemma add_all_returns:
  assumes "good b" "length (contents b) + length xs < 2 ^ 30"
  shows "\<exists>b' m' ys. add_all add xs b m = Some (b', m') \<and> good b' \<and> blocks m' = blocks m
    \<and> contents b' = contents b @ ys \<and> set ys \<subseteq> set xs \<and> (answers m = [] \<longrightarrow> ys = xs \<and> answers m' = [])"
  using add_all_defined [OF assms, of m] add_all_result [OF assms(1), of xs m] by blast

end

subsubsection \<open>String buffers\<close>

definition good_buffer :: "stringbuffer \<Rightarrow> bool" where
  "good_buffer b \<longleftrightarrow> m_size b < 2 ^ 31 \<and> m_used b < m_size b"

lemma c_int_simps [simp]: "- (2 ^ 31) \<le> k \<Longrightarrow> k < 2 ^ 31 \<Longrightarrow> c_int k = Some k" "2 ^ 31 \<le> k \<Longrightarrow> c_int k = None"
  by (simp_all add: c_int_def)

lemma c_int_Some: "c_int k = Some i \<longleftrightarrow> i = k \<and> - (2 ^ 31) \<le> k \<and> k < 2 ^ 31"
  by (auto simp: c_int_def)

text \<open>Doubling the size reaches n bytes below the bound of an int.\<close>

definition doubles_to :: "int \<Rightarrow> int \<Rightarrow> bool" where
  "doubles_to sz n \<longleftrightarrow> (\<exists>k. n \<le> sz * 2 ^ k \<and> sz * 2 ^ k < 2 ^ 31)"

lemma doubles_step: "sz < n \<Longrightarrow> doubles_to sz n \<longleftrightarrow> doubles_to (sz * 2) n"
proof -
  assume "sz < n"
  then have "n \<le> sz * 2 ^ k \<Longrightarrow> \<exists>j. k = Suc j" for k by (cases k) auto
  then show ?thesis unfolding doubles_to_def
    by (metis (no_types, lifting) mult.assoc power_Suc)
qed

lemma doubles_small: "doubles_to sz n \<Longrightarrow> 0 < sz \<Longrightarrow> n < 2 ^ 31 \<and> sz < 2 ^ 31"
proof -
  assume a: "doubles_to sz n" "0 < sz"
  then obtain k where k: "n \<le> sz * 2 ^ k" "sz * 2 ^ k < 2 ^ 31" by (auto simp: doubles_to_def)
  have "sz * 1 \<le> sz * 2 ^ k" using a(2) by (intro mult_left_mono) auto
  with k show ?thesis by linarith
qed

lemma doubles_room:
  assumes "0 < sz" "sz < 2 ^ 31" "n \<le> 2 ^ 30"
  shows "doubles_to sz n"
  using assms
proof (induction "nat (2 ^ 30 - sz)" arbitrary: sz rule: less_induct)
  case less
  show ?case
  proof (cases "n \<le> sz")
    case True
    then show ?thesis using less.prems unfolding doubles_to_def by (intro exI [of _ 0]) simp
  next
    case False
    then have "doubles_to (sz * 2) n" using less.prems by (intro less.hyps) auto
    with False show ?thesis using doubles_step [of sz n] by simp
  qed
qed

lemma stringbufferExtend_result:
  "stringbufferExtend b m = Some (r, m') \<Longrightarrow> m_size b * 2 < 2 ^ 31 \<and> blocks m' = blocks m
     \<and> (r = None \<or> r = Some (b\<lparr>m_size := m_size b * 2\<rparr>)) \<and> (answers m = [] \<longrightarrow> r \<noteq> None \<and> answers m' = [])"
  by (auto simp: stringbufferExtend_def Let_def bind_eq_Some_conv c_int_Some dest!: malloc_result split: prod.splits if_splits)

lemma stringbufferExtend_defined:
  "0 \<le> m_size b \<Longrightarrow> stringbufferExtend b m = None \<longleftrightarrow> 2 ^ 31 \<le> m_size b * 2"
  by (auto simp: stringbufferExtend_def c_int_def split: prod.splits)

text \<open>
  Whether the loop returns: always when doubling gets there; otherwise only when an allocation fails.
\<close>

lemma extend_for_cases:
  assumes "0 < m_size b" "m_size b < 2 ^ 31" "0 \<le> len"
  shows "case extend_for len b m of
      None \<Rightarrow> \<not> doubles_to (m_size b) (len + m_used b + 1)
    | Some (ok, b', m') \<Rightarrow> m_bytes b' = m_bytes b \<and> m_size b \<le> m_size b' \<and> m_size b' < 2 ^ 31 \<and> blocks m' = blocks m
        \<and> (ok \<longrightarrow> len + m_used b + 1 \<le> m_size b')
        \<and> (answers m = [] \<longrightarrow> ok \<and> answers m' = [] \<and> doubles_to (m_size b) (len + m_used b + 1))"
  using assms
proof (induction "nat (len + m_used b + 1 - m_size b)" arbitrary: b m rule: less_induct)
  case less
  define n where "n = len + m_used b + 1"
  have n: "0 < n" using less.prems by (simp add: n_def)
  have body: "extend_for len b m = (if 2 ^ 31 \<le> n then None else if n > m_size b then do {
       (extended, m) \<leftarrow> stringbufferExtend b m;
       case extended of None \<Rightarrow> Some (False, b, m) | Some b \<Rightarrow> extend_for len b m }
     else Some (True, b, m))"
    using less.prems(3) by (subst extend_for.simps) (simp add: c_int_def n_def)
  consider "2 ^ 31 \<le> n" | "n \<le> m_size b" | "m_size b < n" "n < 2 ^ 31" by linarith
  then show ?case
  proof cases
    case 1
    then have "\<not> doubles_to (m_size b) n" using doubles_small [of "m_size b" n] less.prems by auto
    with 1 show ?thesis by (simp add: body n_def)
  next
    case 2
    then have "doubles_to (m_size b) n" unfolding doubles_to_def using less.prems by (intro exI [of _ 0]) simp
    with 2 less.prems show ?thesis by (simp add: body n_def)
  next
    case 3
    note d = doubles_step [OF 3(1)]
    show ?thesis
    proof (cases "stringbufferExtend b m")
      case None
      then have "2 ^ 31 \<le> m_size b * 2" using stringbufferExtend_defined [of b m] less.prems by simp
      then have "\<not> doubles_to (m_size b) n" using d doubles_small [of "m_size b * 2" n] less.prems by auto
      with None 3 show ?thesis by (simp add: body n_def)
    next
      case (Some p)
      obtain r m1 where e: "stringbufferExtend b m = Some (r, m1)" using Some by (cases p) simp
      note x = stringbufferExtend_result [OF e]
      show ?thesis
      proof (cases r)
        case None
        with x e 3 less.prems show ?thesis by (simp add: body)
      next
        case r: (Some b1)
        with x have b1: "b1 = b\<lparr>m_size := m_size b * 2\<rparr>" by auto
        have f: "extend_for len b m = extend_for len b1 m1" using e 3 r by (simp add: body)
        have "nat (len + m_used b1 + 1 - m_size b1) < nat (len + m_used b + 1 - m_size b)"
          using less.prems 3 by (simp add: b1 n_def)
        from less.hyps [OF this, of m1] x less.prems d show ?thesis
          by (auto simp: f b1 n_def split: option.splits)
      qed
    qed
  qed
qed

lemma append_cases:
  assumes "good_buffer b"
  shows "case stringbufferAppendBuf b cp m of
      None \<Rightarrow> cp \<noteq> [] \<and> \<not> doubles_to (m_size b) (m_used b + int (length cp) + 1)
    | Some (ok, b', m') \<Rightarrow> good_buffer b' \<and> blocks m' = blocks m \<and> m_bytes b' = (if ok then m_bytes b @ cp else m_bytes b)
        \<and> (answers m = [] \<longrightarrow> ok \<and> answers m' = []
             \<and> (cp = [] \<or> doubles_to (m_size b) (m_used b + int (length cp) + 1)))"
proof (cases "cp = []")
  case False
  have g: "0 < m_size b" "m_size b < 2 ^ 31" using assms by (auto simp: good_buffer_def)
  have a: "stringbufferAppendBuf b cp m = (case extend_for (int (length cp)) b m of None \<Rightarrow> None
      | Some (ok, b', m') \<Rightarrow> if ok then Some (True, b'\<lparr>m_bytes := m_bytes b' @ cp\<rparr>, m') else Some (False, b', m'))"
    using False by (simp add: stringbufferAppendBuf_def split: option.splits prod.splits)
  have s: "int (length cp) + m_used b + 1 = m_used b + int (length cp) + 1" by simp
  show ?thesis
  proof (cases "extend_for (int (length cp)) b m")
    case None
    then show ?thesis using extend_for_cases [OF g, of "int (length cp)" m] False by (simp add: a s)
  next
    case (Some p)
    then obtain ok b' m' where p: "extend_for (int (length cp)) b m = Some (ok, b', m')" by (cases p) auto
    then show ?thesis using extend_for_cases [OF g, of "int (length cp)" m] assms False by (auto simp: a s good_buffer_def)
  qed
qed (use assms in \<open>simp add: stringbufferAppendBuf_def\<close>)

lemma append_result:
  assumes "good_buffer b" "stringbufferAppendBuf b cp m = Some (ok, b', m')"
  shows "good_buffer b' \<and> blocks m' = blocks m \<and> m_bytes b' = (if ok then m_bytes b @ cp else m_bytes b)
    \<and> (answers m = [] \<longrightarrow> ok \<and> answers m' = [])"
  using append_cases [OF assms(1), of cp m] assms(2) by auto

lemma append_defined:
  assumes "good_buffer b" "m_used b + int (length cp) < 2 ^ 30"
  shows "stringbufferAppendBuf b cp m \<noteq> None"
  using append_cases [OF assms(1), of cp m] doubles_room [of "m_size b" "m_used b + int (length cp) + 1"] assms
  by (cases "stringbufferAppendBuf b cp m") (auto simp: good_buffer_def)

lemma append_plenty:
  assumes "good_buffer b" "answers m = []" "length (m_bytes b) + length cp < 2 ^ 30"
  obtains b' m' where "stringbufferAppendBuf b cp m = Some (True, b', m')" "good_buffer b'"
    "m_bytes b' = m_bytes b @ cp" "answers m' = []" "blocks m' = blocks m"
proof -
  have "m_used b + int (length cp) < 2 ^ 30" using assms(3) by simp
  then obtain ok b' m' where "stringbufferAppendBuf b cp m = Some (ok, b', m')"
    using append_defined [OF assms(1), of cp m] by auto
  with append_result [OF assms(1) this] assms(2) that show ?thesis by auto
qed

lemma extend_for_empty:
  assumes "extend_for len b m = Some r"
  shows "\<not> (m_size b = 0 \<and> answers m = [] \<and> 0 \<le> len)"
proof (rule extend_for.raw_induct [where P = "\<lambda>len b m r. \<not> (m_size b = 0 \<and> answers m = [] \<and> 0 \<le> len)", OF _ assms])
  fix f :: "int \<Rightarrow> stringbuffer \<Rightarrow> sys \<Rightarrow> (bool \<times> stringbuffer \<times> sys) option" and len b m r
  assume IH: "\<And>len b m r. f len b m = Some r \<Longrightarrow> \<not> (m_size b = 0 \<and> answers m = [] \<and> 0 \<le> len)"
    and f: "do {
       chars \<leftarrow> c_int (len + m_used b);
       needed \<leftarrow> c_int (chars + 1);
       if needed > m_size b
       then do {
         (extended, m) \<leftarrow> stringbufferExtend b m;
         case extended of
           None \<Rightarrow> Some (False, b, m)
         | Some b \<Rightarrow> f len b m }
       else Some (True, b, m) } = Some r"
  show "\<not> (m_size b = 0 \<and> answers m = [] \<and> 0 \<le> len)"
  proof
    assume a: "m_size b = 0 \<and> answers m = [] \<and> 0 \<le> len"
    then have "stringbufferExtend b m = Some (Some b, release 1 (m\<lparr>blocks := blocks m + 1\<rparr>))"
      by (simp add: stringbufferExtend_def)
    with f a have "f len b (release 1 (m\<lparr>blocks := blocks m + 1\<rparr>)) = Some r" by (auto simp: bind_eq_Some_conv c_int_Some)
    from IH [OF this] a show False by simp
  qed
qed

interpretation sb: growing good_buffer m_bytes stringbufferAppendCh
proof
  fix b x m ok b' m'
  assume "good_buffer b" "stringbufferAppendCh b x m = Some (ok, b', m')"
  then show "good_buffer b' \<and> blocks m' = blocks m \<and> m_bytes b' = (if ok then m_bytes b @ [x] else m_bytes b)
      \<and> (answers m = [] \<longrightarrow> ok \<and> answers m' = [])"
    using append_result [of b "[x]" m] by (auto simp: stringbufferAppendCh_def)
next
  fix b x m assume "good_buffer b" "length (m_bytes b) < 2 ^ 30 - 1"
  then show "stringbufferAppendCh b x m \<noteq> None"
    using append_defined [of b "[x]" m] by (simp add: stringbufferAppendCh_def)
qed

lemma append_chars_all: "append_chars cs b m = add_all stringbufferAppendCh cs b m"
  by (induction cs arbitrary: b m) simp_all

text \<open>C33. Appending to a buffer of at least one byte that has room for its NUL. The size is an int that
  is doubled until the bytes and a NUL fit. When doubling gets there below 2 ^ 31 (\<open>doubles_to\<close>), which
  it does up to 2 ^ 30 bytes, the call returns: either all the bytes are appended and there is still room for a
  NUL after them, or an allocation failed and the buffer holds what it did, and the number of
  blocks is the same; it succeeds while there is memory. When it does not get there, the addition
  or the doubling overflows, as long as there is memory: the largest full buffer cannot take one
  byte more. Appending to a buffer of no bytes does not return either.\<close>

theorem stringbufferAppendBuf_returns:
  assumes "0 \<le> m_size b" "m_size b < 2 ^ 31" "0 < m_size b \<longrightarrow> m_used b < m_size b"
  shows "(0 < m_size b \<and> (cp = [] \<or> doubles_to (m_size b) (m_used b + int (length cp) + 1)) \<longrightarrow>
      (\<exists>ok b' m'. stringbufferAppendBuf b cp m = Some (ok, b', m') \<and> m_used b' < m_size b' \<and> m_size b' < 2 ^ 31
        \<and> blocks m' = blocks m \<and> m_bytes b' = (if ok then m_bytes b @ cp else m_bytes b) \<and> (answers m = [] \<longrightarrow> ok)))
    \<and> (cp \<noteq> [] \<and> answers m = [] \<and> \<not> doubles_to (m_size b) (m_used b + int (length cp) + 1) \<longrightarrow>
         stringbufferAppendBuf b cp m = None)
    \<and> (0 < m_size b \<and> m_used b + int (length cp) < 2 ^ 30 \<longrightarrow> doubles_to (m_size b) (m_used b + int (length cp) + 1))
    \<and> (m_size b = 0 \<longrightarrow> \<not> doubles_to (m_size b) (m_used b + int (length cp) + 1))"
proof (cases "0 < m_size b")
  case True
  let ?n = "m_used b + int (length cp) + 1"
  have g: "good_buffer b" using assms True by (simp add: good_buffer_def)
  have r: "m_used b + int (length cp) < 2 ^ 30 \<longrightarrow> doubles_to (m_size b) ?n"
    using doubles_room [OF True assms(2), of ?n] by simp
  show ?thesis
  proof (cases "stringbufferAppendBuf b cp m")
    case None
    then show ?thesis using append_cases [OF g, of cp m] r True by simp
  next
    case (Some p)
    obtain ok b' m' where p: "p = (ok, b', m')" by (cases p)
    then show ?thesis using append_cases [OF g, of cp m] r True Some by (auto simp: good_buffer_def)
  qed
next
  case False
  then have z: "m_size b = 0" using assms(1) by simp
  then show ?thesis using extend_for_empty [of "int (length cp)" b m]
    by (cases "extend_for (int (length cp)) b m") (auto simp: stringbufferAppendBuf_def doubles_to_def)
qed

theorem stringbufferAppendBuf_returns_witness:
  "(\<exists>ok b' m'. stringbufferAppendBuf \<lparr>m_bytes = ''a'', m_size = 2\<rparr> ''bcd'' \<lparr>answers = [True, False], blocks = 0\<rparr> = Some (ok, b', m')
     \<and> m_used b' < m_size b' \<and> blocks m' = 0 \<and> m_bytes b' = (if ok then ''abcd'' else ''a''))
   \<and> stringbufferAppendBuf \<lparr>m_bytes = replicate (2 ^ 30 - 1) CHR ''a'', m_size = 2 ^ 30\<rparr> ''b'' \<lparr>answers = [], blocks = 0\<rparr> = None"
proof
  show "\<exists>ok b' m'. stringbufferAppendBuf \<lparr>m_bytes = ''a'', m_size = 2\<rparr> ''bcd'' \<lparr>answers = [True, False], blocks = 0\<rparr> = Some (ok, b', m')
     \<and> m_used b' < m_size b' \<and> blocks m' = 0 \<and> m_bytes b' = (if ok then ''abcd'' else ''a'')"
    using stringbufferAppendBuf_returns [of "\<lparr>m_bytes = ''a'', m_size = 2\<rparr>" "''bcd''" "\<lparr>answers = [True, False], blocks = 0\<rparr>"]
    by auto
  have "\<not> ((2::int) ^ 30 + 1 \<le> 2 ^ 30 * 2 ^ k \<and> (2::int) ^ 30 * 2 ^ k < 2 ^ 31)" for k by (cases k) auto
  then have "\<not> doubles_to (2 ^ 30) (2 ^ 30 + 1)" unfolding doubles_to_def by blast
  then show "stringbufferAppendBuf \<lparr>m_bytes = replicate (2 ^ 30 - 1) CHR ''a'', m_size = 2 ^ 30\<rparr> ''b'' \<lparr>answers = [], blocks = 0\<rparr> = None"
    using stringbufferAppendBuf_returns [of "\<lparr>m_bytes = replicate (2 ^ 30 - 1) CHR ''a'', m_size = 2 ^ 30\<rparr>" "''b''" "\<lparr>answers = [], blocks = 0\<rparr>"]
    by simp
qed

subsubsection \<open>Vectors\<close>

definition good_vec :: "'a vec \<Rightarrow> bool" where
  "good_vec v \<longleftrightarrow> 0 < m_count v \<and> m_pos v \<le> m_count v \<and> None \<notin> set (take (m_pos v) (m_vdata v))"

definition elements :: "'a vec \<Rightarrow> 'a list" where
  "elements v = map the (take (m_pos v) (m_vdata v))"

definition vec_add :: "'a vec \<Rightarrow> 'a \<Rightarrow> sys \<Rightarrow> (bool \<times> 'a vec \<times> sys) option" where
  "vec_add v x m = do {
     (w, m) \<leftarrow> vectorAdd v x m;
     Some (case w of None \<Rightarrow> (False, v, m) | Some v \<Rightarrow> (True, v, m)) }"

lemma length_elements: "good_vec v \<Longrightarrow> length (elements v) = m_pos v"
  by (simp add: elements_def good_vec_def)

lemma vec_add_cases:
  assumes "good_vec v"
  shows "case vec_add v x m of
      None \<Rightarrow> 2 ^ 30 \<le> m_pos v
    | Some (ok, v', m') \<Rightarrow> good_vec v' \<and> blocks m' = blocks m
        \<and> elements v' = (if ok then elements v @ [x] else elements v) \<and> (answers m = [] \<longrightarrow> ok \<and> answers m' = [])"
proof (cases "m_pos v = m_count v")
  case False
  then have "m_pos v < m_count v" using assms by (simp add: good_vec_def)
  then show ?thesis using assms
    by (simp add: vec_add_def vectorAdd_def good_vec_def elements_def take_Suc_conv_app_nth)
next
  case True
  obtain ok m1 where a: "malloc m = (ok, m1)" by force
  note b = malloc_blocks [OF a] malloc_answers [OF a]
  show ?thesis
  proof (cases "c_int (int (m_count v) * 2)")
    case None
    then have "2 ^ 30 \<le> m_pos v" using True by (simp add: c_int_def split: if_splits)
    moreover have "vec_add v x m = None" using True None by (simp add: vec_add_def vectorAdd_def)
    ultimately show ?thesis by simp
  next
    case c: (Some k)
    then have k: "nat k = m_count v * 2" by (simp add: c_int_Some)
    show ?thesis
    proof (cases ok)
      case False
      then show ?thesis using assms True a b c by (auto simp: vec_add_def vectorAdd_def vectorExtend_def)
    next
      case ok: True
      let ?d = "m_vdata v" and ?r = "replicate (m_count v) None"
      have n: "0 < m_count v" "None \<notin> set ?d" "elements v = map the ?d" using assms True by (auto simp: good_vec_def elements_def)
      then have e: "vec_add v x m = Some (True, v\<lparr>m_vdata := ?d @ ?r[0 := Some x], m_pos := m_count v + 1\<rparr>, release 1 m1)"
        using True a ok c k by (simp add: vec_add_def vectorAdd_def vectorExtend_def list_update_append)
      have "take (m_count v + 1) (?d @ ?r[0 := Some x]) = ?d @ [Some x]"
        using n by (cases "m_count v") auto
      then show ?thesis using n b ok by (auto simp: e good_vec_def elements_def Suc_le_eq)
    qed
  qed
qed

interpretation vec: growing good_vec elements vec_add
proof
  fix v :: "'a vec" and x m ok v' m'
  assume "good_vec v" "vec_add v x m = Some (ok, v', m')"
  then show "good_vec v' \<and> blocks m' = blocks m \<and> elements v' = (if ok then elements v @ [x] else elements v)
      \<and> (answers m = [] \<longrightarrow> ok \<and> answers m' = [])"
    using vec_add_cases [where v = v and x = x and m = m] by simp
next
  fix v :: "'a vec" and x m assume "good_vec v" "length (elements v) < 2 ^ 30 - 1"
  then show "vec_add v x m \<noteq> None"
    using vec_add_cases [where v = v and x = x and m = m] length_elements [of v]
    by (cases "vec_add v x m") auto
qed

lemma element_at:
  assumes "good_vec v"
  shows "vectorElementAt v k = Some (if 0 \<le> k \<and> nat k < length (elements v) then Some (elements v ! nat k) else None)"
proof (cases "0 \<le> k \<and> nat k < m_pos v")
  case True
  then have "m_vdata v ! nat k \<in> set (take (m_pos v) (m_vdata v))"
    using assms by (auto simp: good_vec_def in_set_conv_nth)
  then obtain y where "m_vdata v ! nat k = Some y" using assms unfolding good_vec_def by (metis not_None_eq)
  then show ?thesis using True assms by (auto simp: vectorElementAt_def elements_def good_vec_def)
next
  case False
  then show ?thesis using assms by (auto simp: vectorElementAt_def elements_def good_vec_def)
qed

text \<open>A new vector takes any number of elements in turn. While there is memory it holds them in order and
  counts them, reading at an index gives the element there, and NULL outside; the buffer doubles
  but the number of blocks stays that of the new vector, also when allocations fail and elements are
  left out.\<close>

lemma vector_collects:
  assumes "vectorNew m = (Some v, m1)" "length xs < 2 ^ 30"
  shows "\<exists>v' m'. add_all vec_add xs v m1 = Some (v', m') \<and> blocks m' = blocks m + 2
    \<and> (answers m = [] \<longrightarrow> vectorCount v' = length xs
         \<and> (\<forall>k. vectorElementAt v' k = Some (if 0 \<le> k \<and> nat k < length xs then Some (xs ! nat k) else None)))"
proof -
  have v: "good_vec v" "elements v = []" "blocks m1 = blocks m + 2" "answers m = [] \<longrightarrow> answers m1 = []"
    using assms(1) by (auto simp: vectorNew_def vectorNewSized_def good_vec_def elements_def dest!: malloc_result split: prod.splits if_splits)
  obtain v' m' ys where r: "add_all vec_add xs v m1 = Some (v', m')" "good_vec v'" "blocks m' = blocks m1"
    "elements v' = ys" "answers m1 = [] \<longrightarrow> ys = xs"
    using vec.add_all_returns [OF v(1), of xs m1] v(2) assms(2) by auto
  have "length (elements v') = vectorCount v'" using r(2) by (rule length_elements)
  then show ?thesis using r v element_at [OF r(2)] by auto
qed

subsection \<open>Searching and replacing\<close>

text \<open>
  The reference definitions: the first place from start on at which cp occurs, and the string with
  every occurrence replaced, from the left and without overlaps.
\<close>

definition occurs :: "string \<Rightarrow> string \<Rightarrow> nat \<Rightarrow> bool" where
  "occurs cp s i \<longleftrightarrow> take (length cp) (drop i s) = cp"

definition first_occurrence :: "string \<Rightarrow> string \<Rightarrow> nat \<Rightarrow> nat option" where
  "first_occurrence cp s start = find (occurs cp s) [start..<length s]"

function replace_all :: "string \<Rightarrow> string \<Rightarrow> string \<Rightarrow> string" where
  "replace_all frm to s =
     (if s = [] \<or> frm = [] then s
      else if occurs frm s 0 then to @ replace_all frm to (drop (length frm) s)
      else hd s # replace_all frm to (tl s))"
  by auto
termination by (relation "measure (\<lambda>(frm, to, s). length s)") (auto simp: neq_Nil_conv)

declare replace_all.simps [simp del]

lemma match_rest_occurs:
  assumes "len = int (length s)" "e \<le> length s"
  shows "match_rest (\<lambda>c. c) s len (int e) cs = Some (occurs cs s e)"
  using assms(2)
proof (induction cs arbitrary: e)
  case (Cons c cs)
  show ?case
  proof (cases "e < length s")
    case True
    then have "char_at s (int e) = Some (s ! e)" "drop e s = s ! e # drop (Suc e) s"
      by (simp_all add: char_at_def Cons_nth_drop_Suc)
    then show ?thesis using True Cons.IH [of "Suc e"] assms(1) by (auto simp: occurs_def add.commute)
  qed (use Cons.prems assms(1) in \<open>simp add: occurs_def\<close>)
qed (simp add: occurs_def)

lemma index_str_first:
  assumes "len = int (length s)" "cp \<noteq> []" "start + k = length s"
  shows "index_str (\<lambda>c. c) s len cp (int start) k =
    Some (case find (occurs cp s) [start..<length s] of None \<Rightarrow> -1 | Some i \<Rightarrow> int i)"
  using assms(3)
proof (induction k arbitrary: start)
  case (Suc k)
  then have l: "start < length s" by simp
  obtain c cs where cp: "cp = c # cs" using assms(2) by (cases cp) auto
  have d: "drop start s = s ! start # drop (Suc start) s" using l by (simp add: Cons_nth_drop_Suc)
  have m: "match_rest (\<lambda>c. c) s len (int start + 1) cs = Some (occurs cs s (Suc start))"
    using match_rest_occurs [of len s "Suc start" cs] l assms(1) by (simp add: add.commute)
  have o: "occurs cp s start \<longleftrightarrow> s ! start = c \<and> occurs cs s (Suc start)" by (simp add: occurs_def cp d)
  have i: "index_str (\<lambda>c. c) s len cp (int start + 1) k =
    Some (case find (occurs cp s) [Suc start..<length s] of None \<Rightarrow> -1 | Some i \<Rightarrow> int i)"
    using Suc.IH [of "Suc start"] Suc.prems by (simp add: add.commute)
  have "char_at s (int start) = Some (s ! start)" "char_at cp 0 = Some c" using l by (simp_all add: char_at_def cp)
  then show ?case using m o i l by (simp add: upt_conv_Cons cp)
qed simp

lemma fold_case_False: "fold_case False = (\<lambda>c. c)"
  by (simp add: fold_case_def fun_eq_iff)

lemma stringIndexOf_first:
  assumes "m_len str = int (length (m_cstr str))" "cp \<noteq> []" "start \<le> length (m_cstr str)"
  shows "stringIndexOf str cp (int start) False =
    Some (case first_occurrence cp (m_cstr str) start of None \<Rightarrow> -1 | Some i \<Rightarrow> int i)"
  using index_str_first [of "m_len str" "m_cstr str" cp start "length (m_cstr str) - start"] assms
  by (simp add: stringIndexOf_def first_occurrence_def fold_case_False of_nat_diff nat_diff_distrib')

lemma first_occurrence_Some:
  "first_occurrence cp s start = Some i \<Longrightarrow> start \<le> i \<and> i < length s \<and> occurs cp s i \<and> (\<forall>j. start \<le> j \<and> j < i \<longrightarrow> \<not> occurs cp s j)"
  by (auto simp: first_occurrence_def find_Some_iff) (metis add_diff_inverse_nat less_diff_conv2 linorder_not_less nat_add_left_cancel_less)

lemma first_occurrence_None:
  "first_occurrence cp s start = None \<longleftrightarrow> (\<forall>j. start \<le> j \<and> j < length s \<longrightarrow> \<not> occurs cp s j)"
  by (auto simp: first_occurrence_def find_None_iff)

lemma replace_all_skip:
  "frm \<noteq> [] \<Longrightarrow> start \<le> i \<Longrightarrow> i \<le> length s \<Longrightarrow> (\<forall>j. start \<le> j \<and> j < i \<longrightarrow> \<not> occurs frm s j) \<Longrightarrow>
    replace_all frm to (drop start s) = take (i - start) (drop start s) @ replace_all frm to (drop i s)"
proof (induction "i - start" arbitrary: start)
  case (Suc n)
  then have l: "start < length s" "start < i" by auto
  then have d: "drop start s = s ! start # drop (Suc start) s" by (simp add: Cons_nth_drop_Suc)
  have "\<not> occurs frm (drop start s) 0" using Suc.prems l by (auto simp: occurs_def)
  then have "replace_all frm to (drop start s) = s ! start # replace_all frm to (drop (Suc start) s)"
    using Suc.prems d by (subst replace_all.simps) simp
  moreover have "replace_all frm to (drop (Suc start) s) = take (i - Suc start) (drop (Suc start) s) @ replace_all frm to (drop i s)"
    using Suc l by (intro Suc.hyps) auto
  moreover have "i - start = Suc (i - Suc start)" using l by simp
  ultimately show ?case using d by simp
qed simp

lemma replace_all_at:
  "frm \<noteq> [] \<Longrightarrow> i < length s \<Longrightarrow> occurs frm s i \<Longrightarrow>
    replace_all frm to (drop i s) = to @ replace_all frm to (drop (i + length frm) s)"
  by (subst replace_all.simps) (auto simp: occurs_def add.commute)

lemma bytes_from_within:
  "i \<le> j \<Longrightarrow> j \<le> length s \<Longrightarrow> bytes_from s (int i) (int j - int i) = Some (take (j - i) (drop i s))"
  by (auto simp: bytes_from_def nat_diff_distrib')

lemma append_ex:
  assumes "i \<le> j" "j \<le> length s"
  shows "stringbufferAppendEx b s (int i) (int j - int i) m = stringbufferAppendBuf b (take (j - i) (drop i s)) m"
  using assms by (auto simp: stringbufferAppendEx_def bytes_from_within)

lemma replace_all_rest:
  assumes "frm \<noteq> []" "first_occurrence frm s start = None"
  shows "replace_all frm to (drop start s) = drop start s"
proof (cases "start \<le> length s")
  case True
  then show ?thesis using replace_all_skip [of frm start "length s" s to] assms
    by (auto simp: first_occurrence_None replace_all.simps [of _ _ "[]"])
qed (simp add: replace_all.simps [of _ _ "[]"])

lemma replace_all_chars: "c \<in> set (replace_all frm to s) \<Longrightarrow> c \<in> set to \<union> set s"
proof (induction frm to s rule: replace_all.induct)
  case (1 frm to s)
  show ?case
  proof (cases "s = [] \<or> frm = []")
    case False
    then have "replace_all frm to s = (if occurs frm s 0 then to @ replace_all frm to (drop (length frm) s)
        else hd s # replace_all frm to (tl s))" by (simp add: replace_all.simps [of frm to s])
    then have "c \<in> set to \<or> c = hd s \<or> c \<in> set to \<union> set (drop (length frm) s) \<or> c \<in> set to \<union> set (tl s)"
      using 1 False by (cases "occurs frm s 0") auto
    then show ?thesis using False by (auto dest: in_set_dropD list.set_sel)
  qed (use 1 in \<open>auto simp: replace_all.simps\<close>)
qed

lemma replace_from_all:
  assumes "m_len s = int (length (m_cstr s))" "frm \<noteq> []"
  shows "good_buffer b \<Longrightarrow> answers m = [] \<Longrightarrow> first_occurrence frm (m_cstr s) start = Some pos \<Longrightarrow>
    length (m_bytes b) + length (replace_all frm to (drop start (m_cstr s))) < 2 ^ 30 \<Longrightarrow>
    \<exists>b' m'. replace_from s frm to (int start) (int pos) b m = Some (b', m') \<and> answers m' = [] \<and> blocks m' = blocks m
      \<and> m_bytes b' = m_bytes b @ replace_all frm to (drop start (m_cstr s))"
proof (induction "length (m_cstr s) - start" arbitrary: start pos b m rule: less_induct)
  case less
  let ?s = "m_cstr s" and ?n = "length frm"
  note f = first_occurrence_Some [OF less.prems(3)]
  have n: "pos + ?n \<le> length ?s" using f by (auto simp: occurs_def dest!: arg_cong [where f = length])
  have r: "replace_all frm to (drop start ?s) = take (pos - start) (drop start ?s) @ to @ replace_all frm to (drop (pos + ?n) ?s)"
    using replace_all_skip [of frm start pos ?s to] replace_all_at [of frm pos ?s to] f assms(2) by simp
  have room: "length (m_bytes b) + length (take (pos - start) (drop start ?s)) + length to
      + length (replace_all frm to (drop (pos + ?n) ?s)) < 2 ^ 30" using less.prems(4) by (simp only: r length_append)
  obtain b1 m1 where 1: "stringbufferAppendBuf b (take (pos - start) (drop start ?s)) m = Some (True, b1, m1)" "good_buffer b1"
    "m_bytes b1 = m_bytes b @ take (pos - start) (drop start ?s)" "answers m1 = []" "blocks m1 = blocks m"
    by (rule append_plenty [OF less.prems(1,2), of "take (pos - start) (drop start ?s)"]) (use room in linarith)
  obtain b2 m2 where 2: "stringbufferAppendBuf b1 to m1 = Some (True, b2, m2)" "good_buffer b2"
    "m_bytes b2 = m_bytes b1 @ to" "answers m2 = []" "blocks m2 = blocks m1"
    by (rule append_plenty [OF 1(2,4), of to]) (use room 1(3) in simp)
  have room2: "length (m_bytes b2) + length (replace_all frm to (drop (pos + ?n) ?s)) < 2 ^ 30"
    using room 1(3) 2(3) by (simp only: length_append)
  have x: "stringbufferAppendEx b ?s (int start) (int pos - int start) m = Some (True, b1, m1)"
    using f 1(1) by (simp add: append_ex)
  have i: "stringIndexOf s frm (int pos + int ?n) False =
      Some (case first_occurrence frm ?s (pos + ?n) of None \<Rightarrow> -1 | Some i \<Rightarrow> int i)"
    using stringIndexOf_first [of s frm "pos + ?n"] assms n by simp
  note step = replace_from.simps [of s frm to "int start" "int pos" b m]
  show ?case
  proof (cases "first_occurrence frm ?s (pos + ?n)")
    case None
    obtain b3 m3 where 3: "stringbufferAppendBuf b2 (take (length ?s - (pos + ?n)) (drop (pos + ?n) ?s)) m2 = Some (True, b3, m3)"
      "m_bytes b3 = m_bytes b2 @ take (length ?s - (pos + ?n)) (drop (pos + ?n) ?s)" "answers m3 = []" "blocks m3 = blocks m2"
      by (rule append_plenty [OF 2(2,4), of "take (length ?s - (pos + ?n)) (drop (pos + ?n) ?s)"])
        (use room2 replace_all_rest [OF assms(2) None, of to] in simp)
    have "stringbufferAppendEx b2 ?s (int pos + int ?n) (m_len s - (int pos + int ?n)) m2 = Some (True, b3, m3)"
      using append_ex [of "pos + ?n" "length ?s" ?s b2 m2] n 3(1) assms(1) by simp
    then show ?thesis using step x i None f assms(1) 1 2 3 replace_all_rest [OF assms(2) None, of to]
      by (simp add: stringbufferAppend_def r)
  next
    case (Some pos')
    have "length ?s - (pos + ?n) < length ?s - start" using f assms(2) by (cases frm) auto
    from less.hyps [OF this 2(2,4) Some room2] obtain b' m' where
      "replace_from s frm to (int (pos + ?n)) (int pos') b2 m2 = Some (b', m')" "answers m' = []" "blocks m' = blocks m2"
      "m_bytes b' = m_bytes b2 @ replace_all frm to (drop (pos + ?n) ?s)" by blast
    then show ?thesis using step x i Some f assms(1) 1 2 by (simp add: stringbufferAppend_def r)
  qed
qed

text \<open>C27. On a well-formed string, while there is memory and the result is shorter than 2 ^ 30 bytes, \<open>stringReplace\<close>
  returns: its loop ends for every nonempty string to look for. The bytes it collects are those of the reference definition,
  which replaces the occurrences from the left without overlaps; the string that is handed out
  lacks the last of them. Two blocks are allocated, the buffer is freed.\<close>

theorem stringReplace_all:
  assumes "m_len s = int (length (m_cstr s))" "NUL \<notin> set (m_cstr s)" "NUL \<notin> set to" "frm \<noteq> []" "answers m = []"
    and "m_len s + 10 < 2 ^ 31" "length (replace_all frm to (m_cstr s)) < 2 ^ 30"
  shows "\<exists>m'. stringReplace s frm to m = Some (Some \<lparr>m_cstr = butlast (replace_all frm to (m_cstr s)), m_isintern = False,
      m_len = int (length (replace_all frm to (m_cstr s)))\<rparr>, m') \<and> blocks m' = blocks m + 2"
proof (cases "first_occurrence frm (m_cstr s) 0")
  case None
  then show ?thesis using stringIndexOf_first [of s frm 0] assms replace_all_rest [of frm "m_cstr s" 0 to]
    by (auto simp: stringReplace_def stringDup_def stringNew_plenty)
next
  case (Some pos)
  let ?b = "\<lparr>m_bytes = [], m_size = m_len s + 10\<rparr>" and ?m = "m\<lparr>blocks := blocks m + 2\<rparr>"
  obtain b' m' where r: "replace_from s frm to 0 (int pos) ?b ?m = Some (b', m')" "answers m' = []" "blocks m' = blocks m + 2"
    "m_bytes b' = replace_all frm to (m_cstr s)"
    using replace_from_all [OF assms(1,4), of ?b ?m 0 pos to] Some assms by (auto simp: good_buffer_def)
  have w: "takeWhile (\<lambda>c. c \<noteq> NUL) (replace_all frm to (m_cstr s)) = replace_all frm to (m_cstr s)"
    using replace_all_chars [of NUL frm to "m_cstr s"] assms by (auto simp: takeWhile_eq_all_conv)
  have "stringbufferSizeNew (m_len s + 10) m = Some (Some ?b, ?m)" "c_int (m_len s + 10) = Some (m_len s + 10)"
    using assms by (simp_all add: stringbufferSizeNew_def)
  then show ?thesis using stringIndexOf_first [of s frm 0] r Some assms
    by (simp add: w stringReplace_def stringbufferToString_def stringbufferDelete_def stringNew_plenty)
qed

theorem stringReplace_all_witness:
  "\<exists>m'. stringReplace \<lparr>m_cstr = ''aXbXc'', m_isintern = True, m_len = 5\<rparr> ''X'' ''--'' \<lparr>answers = [], blocks = 0\<rparr>
    = Some (Some \<lparr>m_cstr = ''a--b--'', m_isintern = False, m_len = 7\<rparr>, m') \<and> blocks m' = 2"
  using stringReplace_all [of "\<lparr>m_cstr = ''aXbXc'', m_isintern = True, m_len = 5\<rparr>" "''--''" "''X''" "\<lparr>answers = [], blocks = 0\<rparr>"]
  by (simp add: replace_all.simps occurs_def)

subsection \<open>Hash tables\<close>

abbreviation same_key :: "bool \<Rightarrow> string \<Rightarrow> string \<Rightarrow> bool" where
  "same_key ig k k' \<equiv> map (fold_case ig) k = map (fold_case ig) k'"

lemma chain_find_replace:
  "chain_find ig k (chain_replace ig cp v ch) =
     (if same_key ig k cp \<and> chain_find ig cp ch \<noteq> None then Some v else chain_find ig k ch)"
  by (induction ch rule: chain_find.induct [of _ ig cp]) (auto simp: stringIsEqual_def equal_with_map)

lemma charHash_same: "same_key ig k k' \<Longrightarrow> charHash k ig = charHash k' ig"
proof -
  have "fold (\<lambda>c h. push_bit 6 h XOR drop_bit 58 h XOR word_of_int (schar (fold_case ig c))) s h
      = fold (\<lambda>d h. push_bit 6 h XOR drop_bit 58 h XOR word_of_int (schar d)) (map (fold_case ig) s) h" for s and h :: "64 word"
    by (simp add: fold_map comp_def)
  then show "same_key ig k k' \<Longrightarrow> charHash k ig = charHash k' ig" by (simp add: charHash_def charHashLong_def)
qed

lemma butlast_key: "cp \<noteq> [] \<Longrightarrow> \<not> same_key ig cp (butlast cp)"
  by (cases cp rule: rev_cases) (auto dest: arg_cong [where f = length])

lemma put_found:
  assumes "hashtableGet ht cp \<noteq> None" "0 < length (m_table ht)"
  shows "hashtableGet (fst (snd (hashtablePut ht cp v fr m))) k =
    (if same_key (m_keyIgnoreCase ht) k cp then Some v else hashtableGet ht k)"
proof -
  let ?ig = "m_keyIgnoreCase ht"
  define b where "b = bucket ht cp"
  define ch where "ch = m_table ht ! b"
  have b: "b < length (m_table ht)" using assms(2) by (simp add: bucket_def b_def)
  have f: "chain_find ?ig cp ch \<noteq> None" using assms(1) by (simp add: hashtableGet_def b_def ch_def)
  then have p: "fst (snd (hashtablePut ht cp v fr m)) = ht\<lparr>m_table := (m_table ht)[b := chain_replace ?ig cp v ch]\<rparr>"
    by (simp add: hashtablePut_def Let_def b_def ch_def)
  have g: "hashtableGet (ht\<lparr>m_table := (m_table ht)[b := x]\<rparr>) k =
      (if bucket ht k = b then chain_find ?ig k x else hashtableGet ht k)" for x
    using b by (simp add: hashtableGet_def bucket_def)
  have s: "same_key ?ig k cp \<Longrightarrow> bucket ht k = b"
    using charHash_same [of ?ig k cp] by (simp add: bucket_def b_def)
  have h: "bucket ht k = b \<Longrightarrow> hashtableGet ht k = chain_find ?ig k ch" by (simp add: hashtableGet_def ch_def)
  show ?thesis
  proof (cases "bucket ht k = b")
    case True
    then show ?thesis using f by (simp add: p g chain_find_replace h)
  next
    case False
    moreover from False have "\<not> same_key ?ig k cp" using s by blast
    ultimately show ?thesis by (simp only: p g if_False)
  qed
qed

lemma put_new:
  assumes "hashtableGet ht cp = None" "0 < length (m_table ht)" "hashtablePut ht cp v fr m = (True, ht', m')"
  shows "hashtableGet ht' k = (if bucket ht k = bucket ht cp \<and> same_key (m_keyIgnoreCase ht) k (butlast cp) then Some v
      else hashtableGet ht k) \<and> hashtableCount ht' = hashtableCount ht + 1"
proof -
  let ?b = "bucket ht cp"
  have b: "?b < length (m_table ht)" using assms(2) by (simp add: bucket_def)
  obtain key where p: "ht' = ht\<lparr>m_items := m_items ht + 1, m_table := (m_table ht)[?b := (key, v) # m_table ht ! ?b]\<rparr>"
    and "m_cstr key = butlast cp"
    using assms(1,3) by (auto simp: hashtablePut_def hashtableGet_def Let_def dest!: stringNew_result
      split: prod.splits if_splits option.splits)
  moreover have k: "bucket ht' k = bucket ht k" by (simp add: p bucket_def)
  ultimately show ?thesis using b
    by (cases "bucket ht k = ?b") (auto simp: hashtableGet_def hashtableCount_def bucket_def stringIsEqual_def equal_with_map)
qed

text \<open>C32. What every key reads after \<open>hashtablePut\<close> succeeded. A key that was there has the new value and all
  others theirs. A key that was not is counted, and its value is found under the key without its last character
  if that hashes to the same chain, under no other; in particular a nonempty key that was put into a table is
  not found in it.\<close>

theorem hashtablePut_loses_key:
  assumes "hashtablePut ht cp v fr m = (True, ht', m')" "0 < length (m_table ht)"
  shows "if hashtableContainsKey ht cp
    then hashtableGet ht' k = (if same_key (m_keyIgnoreCase ht) k cp then Some v else hashtableGet ht k)
    else hashtableGet ht' k = (if bucket ht k = bucket ht cp \<and> same_key (m_keyIgnoreCase ht) k (butlast cp) then Some v
           else hashtableGet ht k)
      \<and> hashtableCount ht' = hashtableCount ht + 1 \<and> (cp \<noteq> [] \<longrightarrow> \<not> hashtableContainsKey ht' cp)"
proof (cases "hashtableContainsKey ht cp")
  case True
  then show ?thesis using put_found [of ht cp v fr m k] assms by (simp add: hashtableContainsKey_def)
next
  case False
  then have n: "hashtableGet ht cp = None" by (simp add: hashtableContainsKey_def)
  show ?thesis using put_new [OF n assms(2,1)] n False butlast_key [of cp "m_keyIgnoreCase ht"]
    by (auto simp: hashtableContainsKey_def)
qed

theorem hashtablePut_loses_key_witness:
  "\<not> hashtableContainsKey (fst (snd (hashtablePut \<lparr>m_items = 0, m_keyIgnoreCase = False, m_table = replicate 701 []\<rparr>
      ''uid'' (7::nat) False \<lparr>answers = [], blocks = 0\<rparr>))) ''uid''"
  using hashtablePut_loses_key [of "\<lparr>m_items = 0, m_keyIgnoreCase = False, m_table = replicate 701 []\<rparr>" "''uid''" "7::nat" False
    "\<lparr>answers = [], blocks = 0\<rparr>"]
  by (simp add: hashtablePut_def hashtableContainsKey_def hashtableGet_def bucket_def Let_def stringNew_plenty stringIsEqual_def)

text \<open>The tables that can be reached: made by \<open>hashtableNew\<close> where b blocks were allocated, and filled, with or
  without memory.\<close>

inductive table_run :: "int \<Rightarrow> 'v hashtable \<Rightarrow> sys \<Rightarrow> bool" for b where
  run_new: "hashtableNew m = (Some ht, m') \<Longrightarrow> blocks m = b \<Longrightarrow> table_run b ht m'"
| run_put: "table_run b ht m \<Longrightarrow> hashtablePut ht cp v False m = (ok, ht', m') \<Longrightarrow> table_run b ht' m'"

definition owns_keys :: "(spl_string \<times> 'v) list \<Rightarrow> bool" where
  "owns_keys ch \<longleftrightarrow> (\<forall>key\<in>fst ` set ch. \<not> m_isintern key)"

definition table_good :: "int \<Rightarrow> 'v hashtable \<Rightarrow> sys \<Rightarrow> bool" where
  "table_good b ht m \<longleftrightarrow> length (m_table ht) = 701 \<and> m_items ht = sum_list (map length (m_table ht))
     \<and> blocks m = b + 2 + 3 * int (m_items ht) \<and> (\<forall>ch\<in>set (m_table ht). owns_keys ch)"

lemma sum_list_update_nat: "i < length xs \<Longrightarrow> sum_list (xs[i := x]) + xs ! i = sum_list xs + (x :: nat)"
  by (induction xs arbitrary: i) (auto simp: less_Suc_eq_0_disj nth_Cons')

lemma ball_update: "\<forall>x\<in>set xs. P x \<Longrightarrow> P y \<Longrightarrow> \<forall>x\<in>set (xs[i := y]). P x"
  using set_update_subset_insert [of xs i y] by blast

lemma length_chain_replace: "length (chain_replace ig cp v ch) = length ch"
  by (induction ig cp v ch rule: chain_replace.induct) auto

lemma keys_chain_replace: "map fst (chain_replace ig cp v ch) = map fst ch"
  by (induction ig cp v ch rule: chain_replace.induct) auto

lemma put_good:
  assumes "table_good b ht m" "hashtablePut ht cp v False m = (ok, ht', m')"
  shows "table_good b ht' m'"
proof -
  let ?ig = "m_keyIgnoreCase ht"
  define i where "i = bucket ht cp"
  define ch where "ch = m_table ht ! i"
  have i: "i < length (m_table ht)" using assms(1) by (simp add: i_def bucket_def table_good_def)
  have l: "sum_list (map length ((m_table ht)[i := x])) + length ch = sum_list (map length (m_table ht)) + length x" for x
    using sum_list_update_nat [of i "map length (m_table ht)" "length x"] i by (simp add: map_update ch_def)
  have c: "ch \<in> set (m_table ht)" using i by (simp add: ch_def)
  show ?thesis
  proof (cases "chain_find ?ig cp ch")
    case (Some old)
    then have "ht' = ht\<lparr>m_table := (m_table ht)[i := chain_replace ?ig cp v ch]\<rparr>" "m' = m"
      using assms(2) by (simp_all add: hashtablePut_def Let_def i_def [symmetric] ch_def [symmetric])
    moreover have "fst ` set (chain_replace ?ig cp v ch) = fst ` set ch"
      by (metis keys_chain_replace list.set_map)
    then have "owns_keys (chain_replace ?ig cp v ch)" using assms(1) c by (simp add: owns_keys_def table_good_def)
    ultimately show ?thesis
      using assms(1) l [of "chain_replace ?ig cp v ch"] ball_update [of "m_table ht" owns_keys "chain_replace ?ig cp v ch" i]
      by (simp add: table_good_def length_chain_replace)
  next
    case None
    obtain ok1 m1 where a: "malloc m = (ok1, m1)" by force
    obtain r m2 where n: "stringNew cp m1 = (r, m2)" by force
    note put = assms(2) [unfolded hashtablePut_def Let_def i_def [symmetric] ch_def [symmetric]]
    show ?thesis
    proof (cases "ok1 \<and> r \<noteq> None")
      case True
      then obtain key where r: "r = Some key" by auto
      with True None a n put have ht': "ht' = ht\<lparr>m_items := m_items ht + 1, m_table := (m_table ht)[i := (key, v) # ch]\<rparr>" "m' = m2"
        by auto
      have "blocks m' = blocks m + 3" "\<not> m_isintern key"
        using malloc_blocks [OF a] True stringNew_result [OF n [unfolded r]] by (simp_all add: ht')
      moreover have "owns_keys ((key, v) # ch)" using assms(1) c calculation by (simp add: owns_keys_def table_good_def)
      ultimately show ?thesis
        using assms(1) l [of "(key, v) # ch"] ball_update [of "m_table ht" owns_keys "(key, v) # ch" i]
        by (simp add: table_good_def ht')
    next
      case False
      then have "ht' = ht" "blocks m' = blocks m"
        using None a n put malloc_blocks [OF a] stringNew_null [of cp m1 m2] by (auto split: if_splits option.splits)
      then show ?thesis using assms(1) by (simp add: table_good_def)
    qed
  qed
qed

lemma table_run_good: "table_run b ht m \<Longrightarrow> table_good b ht m"
proof (induction rule: table_run.induct)
  case (run_new m ht m')
  then show ?case
    by (auto simp: hashtableNew_def Let_def table_good_def owns_keys_def sum_list_replicate dest!: malloc_blocks split: prod.splits if_splits)
qed (rule put_good)

lemma delete_first_blocks:
  "\<forall>ch\<in>set css. owns_keys ch \<Longrightarrow>
    blocks (fold (delete_first False) css m) = blocks m - 3 * int (length (filter (\<lambda>chain. chain \<noteq> []) css))"
  by (induction css arbitrary: m)
    (auto simp: delete_first_def stringDelete_def owns_keys_def neq_Nil_conv split: list.splits)

text \<open>C28. In every table that can be reached, with any failures of allocation on the way, the count is
  the number of items in the css, and the memory in use is that of the table and three blocks for each item.
  Deleting the table gives back the items at the head of a chain and loses all others.\<close>

theorem hashtableDelete_leaks:
  assumes "table_run b ht m"
  shows "hashtableCount ht = sum_list (map length (m_table ht))
    \<and> blocks m = b + 2 + 3 * int (hashtableCount ht)
    \<and> blocks (hashtableDelete ht False m) =
        b + 3 * (int (hashtableCount ht) - int (length (filter (\<lambda>chain. chain \<noteq> []) (m_table ht))))"
  using table_run_good [OF assms] delete_first_blocks [of "m_table ht" m]
  by (simp add: table_good_def hashtableCount_def hashtableDelete_def)

theorem hashtableDelete_leaks_witness:
  "\<exists>ht :: nat hashtable. \<exists>m. table_run 0 ht m \<and> hashtableCount ht = 2 \<and> blocks (hashtableDelete ht False m) = 3"
proof -
  define ht0 :: "nat hashtable" where "ht0 = \<lparr>m_items = 0, m_keyIgnoreCase = False, m_table = replicate 701 []\<rparr>"
  have n: "hashtableNew \<lparr>answers = [], blocks = 0\<rparr> = (Some ht0, \<lparr>answers = [], blocks = 2\<rparr>)" by (simp add: hashtableNew_def ht0_def)
  have r0: "table_run 0 ht0 \<lparr>answers = [], blocks = 2\<rparr>" by (rule run_new [OF n]) simp
  define i where "i = unat (charHash ''ab'' False) mod 701"
  have i: "i < 701" by (simp add: i_def)
  define key where "key = \<lparr>m_cstr = ''a'', m_isintern = False, m_len = 2\<rparr>"
  define ht1 where "ht1 = ht0\<lparr>m_items := 1, m_table := (replicate 701 [])[i := [(key, 7)]]\<rparr>"
  define ht2 where "ht2 = ht0\<lparr>m_items := 2, m_table := (replicate 701 [])[i := [(key, 8), (key, 7)]]\<rparr>"
  have b: "bucket ht0 ''ab'' = i" "bucket ht1 ''ab'' = i" by (simp_all add: bucket_def ht0_def ht1_def i_def)
  have e: "\<not> stringIsEqual key ''ab'' False" by (simp add: stringIsEqual_def key_def)
  have p1: "hashtablePut ht0 ''ab'' 7 False \<lparr>answers = [], blocks = 2\<rparr> = (True, ht1, \<lparr>answers = [], blocks = 5\<rparr>)"
    using i by (simp add: hashtablePut_def Let_def b stringNew_plenty key_def ht1_def) (simp add: ht0_def)
  have r1: "table_run 0 ht1 \<lparr>answers = [], blocks = 5\<rparr>" by (rule run_put [OF r0 p1])
  have p2: "hashtablePut ht1 ''ab'' 8 False \<lparr>answers = [], blocks = 5\<rparr> = (True, ht2, \<lparr>answers = [], blocks = 8\<rparr>)"
  proof -
    have t: "m_table ht1 = (replicate 701 [])[i := [(key, 7)]]" "m_keyIgnoreCase ht1 = False" "m_items ht1 = 1"
      by (simp_all add: ht1_def ht0_def)
    have "ht1\<lparr>m_items := 2, m_table := (replicate 701 [])[i := [(key, 8), (key, 7)]]\<rparr> = ht2" by (simp add: ht1_def ht2_def)
    then show ?thesis using i e by (simp add: hashtablePut_def Let_def b t stringNew_plenty numeral_2_eq_2 flip: key_def)
  qed
  have r2: "table_run 0 ht2 \<lparr>answers = [], blocks = 8\<rparr>" by (rule run_put [OF r1 p2])
  have "m_items ht2 = 2" by (simp add: ht2_def)
  moreover have "length (filter (\<lambda>chain. chain \<noteq> []) (m_table ht2)) = 1"
    using i by (simp add: ht2_def length_filter_conv_card nth_list_update) (simp add: conj_commute cong: conj_cong)
  ultimately show ?thesis using hashtableDelete_leaks [OF r2] r2 by (auto simp: hashtableCount_def)
qed

subsection \<open>Numbers\<close>

definition radix_digits :: "int \<Rightarrow> string \<Rightarrow> bool" where
  "radix_digits r ds \<longleftrightarrow> (\<forall>c\<in>set ds. \<exists>b. digit_of r c = Some b \<and> 0 \<le> b \<and> b < r)"

definition radix_value :: "int \<Rightarrow> string \<Rightarrow> int" where
  "radix_value r ds = foldl (\<lambda>n c. n * r + the (digit_of r c)) 0 ds"

lemma radix_value_snoc: "radix_value r (ds @ [c]) = radix_value r ds * r + the (digit_of r c)"
  by (simp add: radix_value_def)

lemma base_value_parts:
  assumes "2 \<le> r"
  shows "radix_digits r ds \<Longrightarrow> 0 < p \<Longrightarrow> p < 2 ^ 31 \<Longrightarrow>
    base_value r p (rev ds) dec =
      (if p * r ^ length ds < 2 ^ 31 then Some (dec + word_of_int (p * radix_value r ds)) else None)"
proof (induction ds arbitrary: p dec rule: rev_induct)
  case (snoc c ds)
  obtain b where b: "digit_of r c = Some b" "0 \<le> b" "b < r" using snoc.prems(1) by (auto simp: radix_digits_def)
  have ds: "radix_digits r ds" using snoc.prems(1) by (simp add: radix_digits_def)
  have le: "p * r \<le> p * r ^ length (ds @ [c])" using assms snoc.prems(2) by (simp add: self_le_power)
  have bp: "b * p < p * r" "0 \<le> b * p" "0 \<le> p * r" using b snoc.prems(2) by (simp_all add: mult.commute)
  show ?case
  proof (cases "p * r < 2 ^ 31")
    case True
    then have "int_times b p = Some (b * p)" "int_times p r = Some (p * r)" using bp by (auto simp: int_times_def c_int_def)
    moreover have "base_value r (p * r) (rev ds) (dec + word_of_int (b * p)) =
      (if p * r * r ^ length ds < 2 ^ 31 then Some (dec + word_of_int (b * p) + word_of_int (p * r * radix_value r ds)) else None)"
      using snoc.IH [OF ds, of "p * r"] True assms snoc.prems(2) by simp
    ultimately show ?thesis using b
      by (simp add: radix_value_snoc algebra_simps)
  next
    case False
    then have "int_times p r = None" "\<not> p * r ^ length (ds @ [c]) < 2 ^ 31" using le by (auto simp: int_times_def c_int_def)
    then show ?thesis using b by (cases "int_times b p") simp_all
  qed
qed (simp add: radix_value_def)

lemma radix_digits_plain:
  assumes "radix_digits r ds"
  shows "baseToInt ds r = base_value r 1 (rev ds) 0" "\<And>ds'. ds \<noteq> CHR ''-'' # ds'"
proof -
  have "digit_of r CHR ''x'' = Some b \<Longrightarrow> b \<ge> r \<or> b < 0" "digit_of r CHR ''X'' = Some b \<Longrightarrow> b \<ge> r \<or> b < 0" for b
    by (auto simp: digit_of_def isalpha_def schar_def Let_def split: if_splits)
  then have "d \<in> set ds \<Longrightarrow> d \<noteq> CHR ''x'' \<and> d \<noteq> CHR ''X''" for d
    using assms by (fastforce simp: radix_digits_def)
  then show "baseToInt ds r = base_value r 1 (rev ds) 0"
    by (auto simp: baseToInt_def split: list.splits)
  have "digit_of r CHR ''-'' = Some (-3)" by (simp add: digit_of_def isalpha_def schar_def)
  then show "\<And>ds'. ds \<noteq> CHR ''-'' # ds'" using assms by (auto simp: radix_digits_def)
qed

text \<open>C35. \<open>int64Parse\<close> reads a numeral of any radix from 2 on, with or without a sign, exactly when the
  power of the radix after its last digit still fits an int of 32 bits: nine decimal or seven hexadecimal digits,
  leading zeros included. Longer numerals overflow an int, far below the 64 bits of the result.\<close>

theorem int64Parse_bounds:
  assumes "2 \<le> r" "radix_digits r ds"
  shows "int64Parse ds r = (if r ^ length ds < 2 ^ 31 then Some (word_of_int (radix_value r ds)) else None)
    \<and> int64Parse (CHR ''-'' # ds) r = (if r ^ length ds < 2 ^ 31 then Some (word_of_int (- radix_value r ds)) else None)"
proof -
  have b: "baseToInt ds r = (if r ^ length ds < 2 ^ 31 then Some (word_of_int (radix_value r ds)) else None)"
    using base_value_parts [OF assms, of 1 0] radix_digits_plain(1) [OF assms(2)] by simp
  have "int64Parse ds r = baseToInt ds r"
    using radix_digits_plain(2) [OF assms(2)] by (auto simp: int64Parse_def split: list.splits char.splits bool.splits)
  then show ?thesis using b by (simp add: int64Parse_def)
qed

theorem int64Parse_bounds_witness:
  "int64Parse ''-123456789'' 10 = Some (- 123456789) \<and> int64Parse ''1234567890'' 10 = None"
  using int64Parse_bounds [of 10 "''123456789''"] int64Parse_bounds [of 10 "''1234567890''"]
  by (simp add: radix_digits_def radix_value_def digit_of_def isalpha_def schar_def)

text \<open>The letters of hexadecimal digits have to be capitals.\<close>

lemma small_digit: "baseToInt ''a'' 16 = None" "baseToInt ''0xA'' 16 = Some 10"
  by (simp_all add: baseToInt_def digit_of_def isalpha_def schar_def int_times_def c_int_def)

end
