(* ===== verification/Sql_Lex.thy ===== *)
theory Sql_Lex
  imports Spl_Spec
begin

section \<open>The tokeniser of the service, splc/sqllex.c\<close>

text \<open>
  The lexer of the SQL procedures is a client of the strings and string buffers of the support
  library. Its text is a copy that \<open>stringDup\<close> makes, its lexemes are made by \<open>stringbufferToString\<close>.
  The byte after the last of the text is inside its block but was not written; that it is read does not
  matter as long as it is not looked at.
\<close>

text \<open>The token is an int of the enumeration in splc/sqltoken.h.\<close>

type_synonym sqltoken = int

abbreviation (input) SQL_BOF :: int where "SQL_BOF \<equiv> - 1"

abbreviation (input) SQL_UNKNOWN :: int where "SQL_UNKNOWN \<equiv> 0"

abbreviation (input) SQL_CREATE :: int where "SQL_CREATE \<equiv> 1"

abbreviation (input) SQL_PROC :: int where "SQL_PROC \<equiv> 2"

abbreviation (input) SQL_AS :: int where "SQL_AS \<equiv> 3"

abbreviation (input) SQL_VAR :: int where "SQL_VAR \<equiv> 4"

abbreviation (input) SQL_ID :: int where "SQL_ID \<equiv> 5"

abbreviation (input) SQL_DOT :: int where "SQL_DOT \<equiv> 6"

abbreviation (input) SQL_SELECT :: int where "SQL_SELECT \<equiv> 7"

abbreviation (input) SQL_FROM :: int where "SQL_FROM \<equiv> 8"

abbreviation (input) SQL_SPLAT :: int where "SQL_SPLAT \<equiv> 9"

abbreviation (input) SQL_LPAR :: int where "SQL_LPAR \<equiv> 10"

abbreviation (input) SQL_RPAR :: int where "SQL_RPAR \<equiv> 11"

abbreviation (input) SQL_STRLIT :: int where "SQL_STRLIT \<equiv> 12"

abbreviation (input) SQL_EQ :: int where "SQL_EQ \<equiv> 13"

abbreviation (input) SQL_SEMI :: int where "SQL_SEMI \<equiv> 14"

abbreviation (input) SQL_COMMA :: int where "SQL_COMMA \<equiv> 15"

abbreviation (input) SQL_INT :: int where "SQL_INT \<equiv> 16"

abbreviation (input) SQL_SMALLINT :: int where "SQL_SMALLINT \<equiv> 17"

abbreviation (input) SQL_BIGINT :: int where "SQL_BIGINT \<equiv> 18"

abbreviation (input) SQL_CHAR :: int where "SQL_CHAR \<equiv> 19"

abbreviation (input) SQL_NUM :: int where "SQL_NUM \<equiv> 20"

abbreviation (input) SQL_WHERE :: int where "SQL_WHERE \<equiv> 21"

abbreviation (input) SQL_AND :: int where "SQL_AND \<equiv> 22"

abbreviation (input) SQL_INNER :: int where "SQL_INNER \<equiv> 23"

abbreviation (input) SQL_JOIN :: int where "SQL_JOIN \<equiv> 24"

abbreviation (input) SQL_RIGHT :: int where "SQL_RIGHT \<equiv> 25"

abbreviation (input) SQL_LEFT :: int where "SQL_LEFT \<equiv> 26"

abbreviation (input) SQL_ON :: int where "SQL_ON \<equiv> 27"

abbreviation (input) SQL_OR :: int where "SQL_OR \<equiv> 28"

abbreviation (input) SQL_INSERT :: int where "SQL_INSERT \<equiv> 29"

abbreviation (input) SQL_INTO :: int where "SQL_INTO \<equiv> 30"

abbreviation (input) SQL_VALUES :: int where "SQL_VALUES \<equiv> 31"

abbreviation (input) SQL_UPDATE :: int where "SQL_UPDATE \<equiv> 32"

abbreviation (input) SQL_SET :: int where "SQL_SET \<equiv> 33"

abbreviation (input) SQL_ORDER :: int where "SQL_ORDER \<equiv> 34"

abbreviation (input) SQL_BY :: int where "SQL_BY \<equiv> 35"

abbreviation (input) SQL_DESC :: int where "SQL_DESC \<equiv> 36"

abbreviation (input) SQL_ASC :: int where "SQL_ASC \<equiv> 37"

abbreviation (input) SQL_IN :: int where "SQL_IN \<equiv> 38"

abbreviation (input) SQL_DELETE :: int where "SQL_DELETE \<equiv> 40"

abbreviation (input) SQL_GROUP :: int where "SQL_GROUP \<equiv> 41"

abbreviation (input) SQL_HAVING :: int where "SQL_HAVING \<equiv> 42"

abbreviation (input) SQL_GT :: int where "SQL_GT \<equiv> 43"

abbreviation (input) SQL_LT :: int where "SQL_LT \<equiv> 44"

abbreviation (input) SQL_GTEQ :: int where "SQL_GTEQ \<equiv> 45"

abbreviation (input) SQL_LTEQ :: int where "SQL_LTEQ \<equiv> 46"

abbreviation (input) SQL_NEQ :: int where "SQL_NEQ \<equiv> 47"

abbreviation (input) SQL_LIKE :: int where "SQL_LIKE \<equiv> 48"

abbreviation (input) SQL_IS :: int where "SQL_IS \<equiv> 49"

abbreviation (input) SQL_NULL :: int where "SQL_NULL \<equiv> 50"

abbreviation (input) SQL_NOT :: int where "SQL_NOT \<equiv> 51"

abbreviation (input) SQL_UNION :: int where "SQL_UNION \<equiv> 52"

abbreviation (input) SQL_CASE :: int where "SQL_CASE \<equiv> 53"

abbreviation (input) SQL_WHEN :: int where "SQL_WHEN \<equiv> 54"

abbreviation (input) SQL_THEN :: int where "SQL_THEN \<equiv> 55"

abbreviation (input) SQL_ELSE :: int where "SQL_ELSE \<equiv> 56"

abbreviation (input) SQL_END :: int where "SQL_END \<equiv> 57"

abbreviation (input) SQL_DISTINCT :: int where "SQL_DISTINCT \<equiv> 58"

abbreviation (input) SQL_EOS :: int where "SQL_EOS \<equiv> 59"

abbreviation (input) SQL_BEGIN :: int where "SQL_BEGIN \<equiv> 60"

abbreviation (input) SQL_TRANS :: int where "SQL_TRANS \<equiv> 61"

abbreviation (input) SQL_COMMIT :: int where "SQL_COMMIT \<equiv> 62"

abbreviation (input) SQL_ABORT :: int where "SQL_ABORT \<equiv> 63"

abbreviation (input) SQL_INVOKE :: int where "SQL_INVOKE \<equiv> 64"

abbreviation (input) SQL_ALTER :: int where "SQL_ALTER \<equiv> 65"

abbreviation (input) SQL_DECLARE :: int where "SQL_DECLARE \<equiv> 66"

abbreviation (input) SQL_SECTION :: int where "SQL_SECTION \<equiv> 67"

abbreviation (input) SQL_INCLUDE :: int where "SQL_INCLUDE \<equiv> 68"

abbreviation (input) SQL_CURSOR :: int where "SQL_CURSOR \<equiv> 69"

abbreviation (input) SQL_FOR :: int where "SQL_FOR \<equiv> 70"

abbreviation (input) SQL_COLON :: int where "SQL_COLON \<equiv> 71"

abbreviation (input) SQL_OPEN :: int where "SQL_OPEN \<equiv> 72"

abbreviation (input) SQL_FETCH :: int where "SQL_FETCH \<equiv> 73"

abbreviation (input) SQL_BETWEEN :: int where "SQL_BETWEEN \<equiv> 74"

abbreviation (input) SQL_CLOSE :: int where "SQL_CLOSE \<equiv> 75"

abbreviation (input) SQL_DATETIME :: int where "SQL_DATETIME \<equiv> 76"

abbreviation (input) SQL_FREE :: int where "SQL_FREE \<equiv> 77"

abbreviation (input) SQL_ROLLBACK :: int where "SQL_ROLLBACK \<equiv> 78"

abbreviation (input) SQL_CONTROL :: int where "SQL_CONTROL \<equiv> 79"

abbreviation (input) SQL_CAST :: int where "SQL_CAST \<equiv> 80"

abbreviation (input) SQL_EXISTS :: int where "SQL_EXISTS \<equiv> 81"

abbreviation (input) SQL_BROWSE :: int where "SQL_BROWSE \<equiv> 82"

abbreviation (input) SQL_STABLE :: int where "SQL_STABLE \<equiv> 83"

abbreviation (input) SQL_INTERVAL :: int where "SQL_INTERVAL \<equiv> 84"

abbreviation (input) SQL_LOCK :: int where "SQL_LOCK \<equiv> 85"

abbreviation (input) SQL_SUBSTRING :: int where "SQL_SUBSTRING \<equiv> 86"

abbreviation (input) SQL_EOF :: int where "SQL_EOF \<equiv> 87"

abbreviation (input) SQL_DATEFORMAT :: int where "SQL_DATEFORMAT \<equiv> 88"

abbreviation (input) SQL_TRIM :: int where "SQL_TRIM \<equiv> 89"

abbreviation (input) SQL_POSITION :: int where "SQL_POSITION \<equiv> 90"

abbreviation (input) SQL_PREPARE :: int where "SQL_PREPARE \<equiv> 91"

abbreviation (input) SQL_DESCRIBE :: int where "SQL_DESCRIBE \<equiv> 92"

abbreviation (input) SQL_EXEC :: int where "SQL_EXEC \<equiv> 93"

record sqllex =
  m_token :: sqltoken
  m_lexum :: "spl_string option"
  m_lineNum :: int
  m_position :: int
  m_text :: spl_string
  m_buf :: stringbuffer

abbreviation word_char :: "char \<Rightarrow> bool" where
  "word_char c \<equiv> isalnum (schar c) \<or> c = CHR ''_''"

definition ISEOF :: "sqllex \<Rightarrow> bool" where
  "ISEOF l \<longleftrightarrow> m_token l = SQL_EOF \<or> m_position l \<ge> m_len (m_text l)"

subsection \<open>The loops of reading\<close>

text \<open>They go on from pos, with as many characters left as the first argument says.\<close>

fun skip_sql :: "nat \<Rightarrow> string \<Rightarrow> int \<Rightarrow> int \<Rightarrow> (int \<times> int) option" where
  "skip_sql 0 s pos line = Some (pos, line)"
| "skip_sql (Suc k) s pos line = do {
     ch \<leftarrow> char_at s pos;
     if isalnum (schar ch) \<or> ispunct (schar ch) then Some (pos, line)
     else skip_sql k s (pos + 1) (if schar ch = 10 then line + 1 else line) }"

text \<open>A string literal ends at its quote only.\<close>

fun quoted :: "nat \<Rightarrow> string \<Rightarrow> char \<Rightarrow> int \<Rightarrow> (string \<times> int) option" where
  "quoted 0 s exitch pos = None"
| "quoted (Suc k) s exitch pos = do {
     ch \<leftarrow> char_at s pos;
     if ch = exitch then Some ([], pos + 1)
     else do { (cs, p) \<leftarrow> quoted k s exitch (pos + 1); Some (ch # cs, p) } }"

fun word_run :: "nat \<Rightarrow> string \<Rightarrow> int \<Rightarrow> (string \<times> int) option" where
  "word_run 0 s pos = Some ([], pos)"
| "word_run (Suc k) s pos = do {
     ch \<leftarrow> char_at s pos;
     if \<not> word_char ch then Some ([], pos)
     else do { (cs, p) \<leftarrow> word_run k s (pos + 1); Some (ch # cs, p) } }"

text \<open>A run of punctuation ends before a closing parenthesis.\<close>

fun punct_run :: "nat \<Rightarrow> string \<Rightarrow> int \<Rightarrow> (string \<times> int) option" where
  "punct_run 0 s pos = Some ([], pos)"
| "punct_run (Suc k) s pos = do {
     ch \<leftarrow> char_at s pos;
     if \<not> ispunct (schar ch) then Some ([], pos)
     else do {
       next \<leftarrow> char_at s (pos + 1);
       if next = CHR '')'' then Some ([ch], pos + 1)
       else do { (cs, p) \<leftarrow> punct_run k s (pos + 1); Some (ch # cs, p) } } }"

text \<open>The characters of the next lexeme, where it ends, and whether it is a literal.\<close>

definition read_lexeme :: "spl_string \<Rightarrow> int \<Rightarrow> (string \<times> int \<times> bool) option" where
  "read_lexeme t pos = do {
     let left = (\<lambda>pos. nat (m_len t - pos));
     ch \<leftarrow> char_at (m_cstr t) pos;
     if ch = CHR 0x27 \<or> ch = CHR 0x22
     then do { (cs, p) \<leftarrow> quoted (left (pos + 1)) (m_cstr t) ch (pos + 1); Some (cs, p, True) }
     else if word_char ch
     then do { (cs, p) \<leftarrow> word_run (left pos) (m_cstr t) pos; Some (cs, p, False) }
     else do { (cs, p) \<leftarrow> punct_run (left pos) (m_cstr t) pos; Some (cs, p, False) } }"

definition sqllexRead :: "sqllex \<Rightarrow> sys \<Rightarrow> (sqllex \<times> sys) option" where
  "sqllexRead l m = do {
     let l = l\<lparr>m_buf := stringbufferClear (m_buf l)\<rparr>;
     (pos, line) \<leftarrow> (if ISEOF l then Some (m_position l, m_lineNum l)
       else skip_sql (nat (m_len (m_text l) - m_position l)) (m_cstr (m_text l)) (m_position l) (m_lineNum l));
     let l = l\<lparr>m_position := pos, m_lineNum := line\<rparr>;
     if ISEOF l then Some (l, m)
     else do {
       (cs, pos, literal) \<leftarrow> read_lexeme (m_text l) pos;
       (buf, m) \<leftarrow> append_chars cs (m_buf l) m;
       Some (l\<lparr>m_position := pos, m_buf := buf, m_token := (if literal then SQL_STRLIT else m_token l)\<rparr>, m) } }"

subsection \<open>Tokens\<close>

text \<open>The spellings in the order of the comparisons, with whether their case is ignored.\<close>

definition operator_spellings :: "(string \<times> bool \<times> sqltoken) list" where
  "operator_spellings = [
    (''('', False, SQL_LPAR), ('')'', False, SQL_RPAR), (''>'', False, SQL_GT), (''>='', False, SQL_GTEQ),
    (''<'', False, SQL_LT), (''<='', False, SQL_LTEQ), (''<>'', False, SQL_NEQ), (''*'', False, SQL_SPLAT),
    ('':'', False, SQL_COLON), (''?'', False, SQL_COLON), ('';'', False, SQL_SEMI), (''='', False, SQL_EQ),
    (''.'', False, SQL_DOT), ('','', False, SQL_COMMA)]"

definition keyword_spellings :: "(string \<times> bool \<times> sqltoken) list" where
  "keyword_spellings = [
    (''CREATE'', True, SQL_CREATE), (''PROCEDURE'', True, SQL_PROC), (''SELECT'', True, SQL_SELECT),
    (''FROM'', True, SQL_FROM), (''AS'', True, SQL_AS), (''INT'', True, SQL_INT), (''INTEGER'', True, SQL_INT),
    (''SMALLINT'', True, SQL_SMALLINT), (''BIGINT'', True, SQL_BIGINT), (''CHAR'', True, SQL_CHAR),
    (''WHERE'', True, SQL_WHERE), (''AND'', True, SQL_AND), (''OR'', True, SQL_OR), (''INNER'', True, SQL_INNER),
    (''JOIN'', True, SQL_JOIN), (''LEFT'', True, SQL_LEFT), (''RIGHT'', True, SQL_RIGHT), (''ON'', True, SQL_ON),
    (''INSERT'', True, SQL_INSERT), (''INTO'', True, SQL_INTO), (''VALUES'', True, SQL_VALUES),
    (''UPDATE'', True, SQL_UPDATE), (''SET'', True, SQL_SET), (''ORDER'', True, SQL_ORDER),
    (''BY'', True, SQL_BY), (''DESC'', True, SQL_DESC), (''ASC'', True, SQL_ASC), (''IN'', True, SQL_IN),
    (''DELETE'', True, SQL_DELETE), (''GROUP'', True, SQL_GROUP), (''HAVING'', True, SQL_HAVING),
    (''LIKE'', True, SQL_LIKE), (''IS'', True, SQL_IS), (''NULL'', True, SQL_NULL), (''NOT'', True, SQL_NOT),
    (''UNION'', True, SQL_UNION)]"

definition more_keyword_spellings :: "(string \<times> bool \<times> sqltoken) list" where
  "more_keyword_spellings = [
    (''CASE'', True, SQL_CASE), (''WHEN'', True, SQL_WHEN), (''THEN'', True, SQL_THEN),
    (''ELSE'', True, SQL_ELSE), (''END'', True, SQL_END), (''DISTINCT'', True, SQL_DISTINCT),
    (''BEGIN'', True, SQL_BEGIN), (''TRANSACTION'', True, SQL_TRANS), (''COMMIT'', True, SQL_COMMIT),
    (''ABORT'', True, SQL_ABORT), (''INVOKE'', True, SQL_INVOKE), (''ALTER'', True, SQL_ALTER),
    (''DECLARE'', True, SQL_DECLARE), (''SECTION'', True, SQL_SECTION), (''INCLUDE'', True, SQL_INCLUDE),
    (''CURSOR'', True, SQL_CURSOR), (''FOR'', True, SQL_FOR), (''OPEN'', True, SQL_OPEN),
    (''FETCH'', True, SQL_FETCH), (''BETWEEN'', True, SQL_BETWEEN), (''CLOSE'', True, SQL_CLOSE),
    (''DATETIME'', True, SQL_DATETIME), (''FREE'', True, SQL_FREE), (''ROLLBACK'', True, SQL_ROLLBACK),
    (''CONTROL'', True, SQL_CONTROL), (''CAST'', True, SQL_CAST), (''EXISTS'', True, SQL_EXISTS),
    (''BROWSE'', True, SQL_BROWSE), (''STABLE'', True, SQL_STABLE), (''INTERVAL'', True, SQL_INTERVAL),
    (''SUBSTRING'', True, SQL_SUBSTRING), (''DATEFORMAT'', True, SQL_DATEFORMAT),
    (''POSITION'', True, SQL_POSITION), (''TRIM'', True, SQL_TRIM), (''EXEC'', True, SQL_EXEC),
    (''EXECUTE'', True, SQL_EXEC)]"

definition spellings :: "(string \<times> bool \<times> sqltoken) list" where
  "spellings = operator_spellings @ keyword_spellings @ more_keyword_spellings"

definition token_of :: "spl_string \<Rightarrow> sqltoken option" where
  "token_of lexum =
     (case find (\<lambda>(cp, ignore, t). stringIsEqual lexum cp ignore) spellings of
        Some (cp, ignore, t) \<Rightarrow> Some t
      | None \<Rightarrow> map_option (\<lambda>num. if num then SQL_NUM else SQL_ID) (stringIsNumeric lexum))"

definition sqllexNext :: "sqllex \<Rightarrow> sys \<Rightarrow> (bool \<times> sqllex \<times> sys) option" where
  "sqllexNext l m =
     (if m_token l = SQL_EOF then Some (False, l, m) else
      let (l, m) = (case m_lexum l of
            None \<Rightarrow> (l, m)
          | Some s \<Rightarrow> (l\<lparr>m_lexum := None\<rparr>, stringDelete s m))
      in if m_position l \<ge> m_len (m_text l) then Some (True, l\<lparr>m_token := SQL_EOF\<rparr>, m)
      else do {
        (l, m) \<leftarrow> sqllexRead (l\<lparr>m_token := SQL_UNKNOWN\<rparr>) m;
        if m_used (m_buf l) = 0 then Some (False, l, m)
        else (case stringbufferToString (m_buf l) m of (lexum, m) \<Rightarrow>
          let l = l\<lparr>m_lexum := lexum\<rparr>
          in if m_token l = SQL_STRLIT then Some (True, l, m)
             else do {
               s \<leftarrow> lexum;
               t \<leftarrow> token_of s;
               Some (True, l\<lparr>m_token := t\<rparr>, m) }) })"

definition sqllexNew :: "spl_string \<Rightarrow> sys \<Rightarrow> (sqllex option \<times> sys) option" where
  "sqllexNew sql m =
     (let (ok, m) = malloc m in if \<not> ok then Some (None, m) else
      case stringDup sql m of
        (None, m) \<Rightarrow> Some (None, release 1 m)
      | (Some text, m) \<Rightarrow> do {
          (buf, m) \<leftarrow> stringbufferNew m;
          case buf of
            None \<Rightarrow> Some (None, release 1 (stringDelete text m))
          | Some buf \<Rightarrow> do {
              (_, l, m) \<leftarrow> sqllexNext \<lparr>m_token = SQL_BOF, m_lexum = None, m_lineNum = 1, m_position = 0,
                 m_text = text, m_buf = buf\<rparr> m;
              Some (Some l, m) } })"

definition sqllexDelete :: "sqllex \<Rightarrow> sys \<Rightarrow> sys" where
  "sqllexDelete l m =
     (let m = stringbufferDelete (m_buf l) (stringDelete (m_text l) m);
          m = (case m_lexum l of None \<Rightarrow> m | Some s \<Rightarrow> stringDelete s m)
      in release 1 m)"

definition sqllexMatch :: "sqllex \<Rightarrow> string \<Rightarrow> sys \<Rightarrow> (bool \<times> sqllex \<times> sys) option" where
  "sqllexMatch l cp m = do {
     s \<leftarrow> m_lexum l;
     if stringIsEqual s cp True then sqllexNext l m else Some (False, l, m) }"

definition sqllexMatchToken :: "sqllex \<Rightarrow> sqltoken \<Rightarrow> sys \<Rightarrow> (bool \<times> sqllex \<times> sys) option" where
  "sqllexMatchToken l tok m = (if m_token l = tok then sqllexNext l m else Some (False, l, m))"

end
