(* ===== verification/Sql_Spec.thy ===== *)
theory Sql_Spec
  imports Sql_Lex
begin

section \<open>What the tokeniser of the service does\<close>

text \<open>
  The states that can be reached, with any failures of allocation: positions, memory, progress, and which
  tokens there are. The text and the lexemes lack their last characters as everything that \<open>stringNew\<close> makes.
\<close>

subsection \<open>The loops\<close>

lemma skip_sql_stops:
  "skip_sql k s pos line = Some (p, n) \<Longrightarrow> pos \<le> p \<and> p \<le> pos + int k
     \<and> (p < pos + int k \<longrightarrow> (\<exists>c. char_at s p = Some c \<and> (isalnum (schar c) \<or> ispunct (schar c))))"
  by (induction k s pos line rule: skip_sql.induct) (fastforce split: if_splits bind_splits)+

lemma quoted_ends: "quoted k s q pos = Some (cs, p) \<Longrightarrow> pos < p \<and> p \<le> pos + int k \<and> char_at s (p - 1) = Some q"
  by (induction k s q pos arbitrary: cs rule: quoted.induct) (fastforce split: if_splits bind_splits)+

lemma word_run_ends:
  "word_run k s pos = Some (cs, p) \<Longrightarrow> p = pos + int (length cs) \<and> length cs \<le> k \<and> (\<forall>c\<in>set cs. word_char c)
     \<and> (\<forall>c. 0 < k \<and> char_at s pos = Some c \<and> word_char c \<longrightarrow> cs \<noteq> [])"
  by (induction k s pos arbitrary: cs p rule: word_run.induct) (fastforce split: if_splits bind_splits)+

lemma punct_run_ends:
  "punct_run k s pos = Some (cs, p) \<Longrightarrow> p = pos + int (length cs) \<and> length cs \<le> k \<and> (\<forall>c\<in>set cs. ispunct (schar c))
     \<and> (\<forall>c. 0 < k \<and> char_at s pos = Some c \<and> ispunct (schar c) \<longrightarrow> cs \<noteq> [])"
  by (induction k s pos arbitrary: cs p rule: punct_run.induct) (fastforce split: if_splits bind_splits)+

lemma word_run_last:
  "word_run k s pos = Some (cs, p) \<Longrightarrow> cs \<noteq> [] \<Longrightarrow> \<exists>c. char_at s (p - 1) = Some c \<and> word_char c"
proof (induction k s pos arbitrary: cs p rule: word_run.induct)
  case (2 k s pos)
  then obtain c ds where r: "char_at s pos = Some c" "word_char c" "word_run k s (pos + 1) = Some (ds, p)" "cs = c # ds"
    by (auto split: if_splits bind_splits)
  then show ?case using 2(1) [of c ds p] word_run_ends [OF r(3)] by (cases "ds = []") auto
qed simp

lemma punct_run_last:
  "punct_run k s pos = Some (cs, p) \<Longrightarrow> cs \<noteq> [] \<Longrightarrow> \<exists>c. char_at s (p - 1) = Some c \<and> ispunct (schar c)"
proof (induction k s pos arbitrary: cs p rule: punct_run.induct)
  case (2 k s pos)
  then obtain c where c: "char_at s pos = Some c" "ispunct (schar c)" by (auto split: if_splits bind_splits)
  show ?case
  proof (cases "cs = [c] \<and> p = pos + 1")
    case True
    then show ?thesis using c by simp
  next
    case False
    then obtain n ds where r: "char_at s (pos + 1) = Some n" "n \<noteq> CHR '')''" "punct_run k s (pos + 1) = Some (ds, p)" "cs = c # ds"
      using 2(2) c by (auto split: if_splits bind_splits)
    moreover have "ds \<noteq> []" using False r punct_run_ends [OF r(3)] by auto
    ultimately show ?thesis using 2(1) [of c n ds p] c by simp
  qed
qed simp

lemma not_NUL: "word_char c \<or> ispunct (schar c) \<Longrightarrow> c \<noteq> NUL"
  by (auto simp: isalnum_def isalpha_def isdigit_def ispunct_def schar_def)

lemma read_lexeme_ends:
  assumes "read_lexeme t pos = Some (cs, p, literal)" "pos < m_len t"
    and "char_at (m_cstr t) pos = Some c" "isalnum (schar c) \<or> ispunct (schar c)"
  shows "pos < p \<and> p \<le> m_len t \<and> (\<not> literal \<longrightarrow> cs \<noteq> [] \<and> NUL \<notin> set cs)
    \<and> (\<exists>c. char_at (m_cstr t) (p - 1) = Some c \<and> c \<noteq> NUL)"
proof -
  let ?k = "\<lambda>pos. nat (m_len t - pos)"
  consider (quote) "quoted (?k (pos + 1)) (m_cstr t) c (pos + 1) = Some (cs, p)" "literal" "c \<noteq> NUL"
    | (word) "word_run (?k pos) (m_cstr t) pos = Some (cs, p)" "\<not> literal" "word_char c"
    | (punct) "punct_run (?k pos) (m_cstr t) pos = Some (cs, p)" "\<not> literal" "ispunct (schar c)"
    using assms(1,3,4) by (auto simp: read_lexeme_def Let_def split: if_splits bind_splits)
  then show ?thesis
  proof cases
    case quote
    then show ?thesis using quoted_ends [OF quote(1)] assms(2) by auto
  next
    case word
    note e = word_run_ends [OF word(1)]
    have ne: "cs \<noteq> []" using e word assms(2,3) by auto
    obtain d where "char_at (m_cstr t) (p - 1) = Some d" "d \<noteq> NUL" using word_run_last [OF word(1) ne] not_NUL by blast
    moreover have "NUL \<notin> set cs" using e not_NUL by blast
    moreover have "0 < length cs" using ne by simp
    then have "pos < p" "p \<le> m_len t" using e assms(2) by linarith+
    ultimately show ?thesis using ne by blast
  next
    case punct
    note e = punct_run_ends [OF punct(1)]
    have ne: "cs \<noteq> []" using e punct assms(2,3) by auto
    obtain d where "char_at (m_cstr t) (p - 1) = Some d" "d \<noteq> NUL" using punct_run_last [OF punct(1) ne] not_NUL by blast
    moreover have "NUL \<notin> set cs" using e not_NUL by blast
    moreover have "0 < length cs" using ne by simp
    then have "pos < p" "p \<le> m_len t" using e assms(2) by linarith+
    ultimately show ?thesis using ne by blast
  qed
qed

subsection \<open>Tokens\<close>

text \<open>The token of a spelling, as the table has it.\<close>

definition keyword_of :: "string \<Rightarrow> sqltoken" where
  "keyword_of w = (case find (\<lambda>(cp, ig, t). same_key ig cp w) spellings of Some (cp, ig, t) \<Rightarrow> t | None \<Rightarrow> SQL_ID)"

lemma new_not_numeric:
  assumes "w \<noteq> []"
  shows "stringIsNumeric \<lparr>m_cstr = butlast w, m_isintern = False, m_len = int (length w)\<rparr> = Some False"
proof -
  obtain t a where "w = t @ [a]" using assms by (metis rev_exhaust)
  moreover have "nat (1 + int (length t)) = Suc (length t)" by simp
  ultimately show ?thesis using digits_end [of 0 t "length t" 0]
    by (simp add: stringIsNumeric_def stringIsInt_def stringIsFloat_def add.commute del: all_digits.simps digits_and_dot.simps)
qed

lemma token_of_new:
  "w \<noteq> [] \<Longrightarrow> token_of \<lparr>m_cstr = butlast w, m_isintern = False, m_len = int (length w)\<rparr> = Some (keyword_of (butlast w))"
  by (simp add: token_of_def keyword_of_def new_not_numeric stringIsEqual_def equal_with_map split: option.split)

lemma spellings_no_number: "(cp, ig, t) \<in> set spellings \<Longrightarrow> t \<noteq> SQL_NUM \<and> t \<noteq> SQL_EOF \<and> t \<noteq> SQL_STRLIT \<and> cp \<noteq> []"
  by (auto simp: spellings_def operator_spellings_def keyword_spellings_def more_keyword_spellings_def)

lemma keyword_of_props: "keyword_of w \<noteq> SQL_NUM" "keyword_of [] = SQL_ID" "keyword_of w \<noteq> SQL_EOF"
proof -
  show "keyword_of w \<noteq> SQL_EOF"
    by (auto simp: keyword_of_def find_Some_iff split: option.split dest!: nth_mem dest: spellings_no_number)
  show "keyword_of w \<noteq> SQL_NUM"
    by (auto simp: keyword_of_def find_Some_iff split: option.split dest!: nth_mem dest: spellings_no_number)
  have "find (\<lambda>(cp, ig, t). same_key ig cp []) spellings = None"
    by (auto simp: find_None_iff dest: spellings_no_number)
  then show "keyword_of [] = SQL_ID" by (simp add: keyword_of_def)
qed

subsection \<open>Reachable states\<close>

definition lexer_good :: "int \<Rightarrow> sqllex \<Rightarrow> sys \<Rightarrow> bool" where
  "lexer_good b l m \<longleftrightarrow> 0 \<le> m_position l \<and> m_position l \<le> m_len (m_text l) \<and> good_buffer (m_buf l)
     \<and> \<not> m_isintern (m_text l) \<and> (\<forall>s. m_lexum l = Some s \<longrightarrow> \<not> m_isintern s)
     \<and> blocks m = b + 5 + (if m_lexum l = None then 0 else 2)"

text \<open>The last character that was read is one of the text, not its NUL.\<close>

definition ended :: "sqllex \<Rightarrow> bool" where
  "ended l \<longleftrightarrow> (\<exists>c. char_at (m_cstr (m_text l)) (m_position l - 1) = Some c \<and> c \<noteq> NUL)"

lemma sqllexRead_result:
  assumes "lexer_good b l m" "m_token l = SQL_UNKNOWN" "m_position l < m_len (m_text l)" "sqllexRead l m = Some (l', m')"
  shows "lexer_good b l' m' \<and> m_position l < m_position l' \<and> m_lexum l' = m_lexum l \<and> m_text l' = m_text l
    \<and> (m_token l' = SQL_STRLIT \<or> m_token l' = SQL_UNKNOWN \<and> NUL \<notin> set (m_bytes (m_buf l')))
    \<and> (m_token l' = SQL_UNKNOWN \<and> m_bytes (m_buf l') = [] \<or> ended l')"
proof -
  let ?t = "m_text l" and ?b = "stringbufferClear (m_buf l)"
  note g = assms(1) [unfolded lexer_good_def]
  have b: "good_buffer ?b" "m_bytes ?b = []" using g by (auto simp: good_buffer_def stringbufferClear_def)
  obtain p n where sk: "skip_sql (nat (m_len ?t - m_position l)) (m_cstr ?t) (m_position l) (m_lineNum l) = Some (p, n)"
    using assms(2-4) by (cases "skip_sql (nat (m_len ?t - m_position l)) (m_cstr ?t) (m_position l) (m_lineNum l)")
      (auto simp: sqllexRead_def ISEOF_def Let_def)
  note r = assms(2-4) sk
  have p: "m_position l \<le> p" "p \<le> m_len ?t"
    "p < m_len ?t \<Longrightarrow> \<exists>c. char_at (m_cstr ?t) p = Some c \<and> (isalnum (schar c) \<or> ispunct (schar c))"
    using skip_sql_stops [OF sk] assms(3) by auto
  show ?thesis
  proof (cases "p = m_len ?t")
    case True
    then have "l' = l\<lparr>m_buf := ?b, m_position := p, m_lineNum := n\<rparr>" "m' = m"
      using r by (simp_all add: sqllexRead_def ISEOF_def Let_def)
    then show ?thesis using g b p True assms(2,3) by (simp add: lexer_good_def)
  next
    case False
    then obtain c where c: "char_at (m_cstr ?t) p = Some c" "isalnum (schar c) \<or> ispunct (schar c)" using p by force
    have lt: "\<not> m_len ?t \<le> p" "\<not> m_len ?t \<le> m_position l" using False p assms(3) by auto
    obtain cs q literal where e1: "read_lexeme ?t p = Some (cs, q, literal)"
      using r lt by (cases "read_lexeme ?t p") (auto simp: sqllexRead_def ISEOF_def Let_def)
    obtain buf m5 where e2: "append_chars cs ?b m = Some (buf, m5)"
      using r lt e1 by (cases "append_chars cs ?b m") (auto simp: sqllexRead_def ISEOF_def Let_def)
    have "l' = l\<lparr>m_lineNum := n, m_position := q, m_buf := buf, m_token := (if literal then SQL_STRLIT else m_token l)\<rparr>" "m' = m5"
      using r lt e1 e2 by (cases literal; force simp: sqllexRead_def ISEOF_def Let_def)+
    note e = e1 e2 [folded this(2)] this(1)
    have q: "p < q" "q \<le> m_len ?t" "\<not> literal \<longrightarrow> NUL \<notin> set cs" "\<exists>c. char_at (m_cstr ?t) (q - 1) = Some c \<and> c \<noteq> NUL"
      using read_lexeme_ends [OF e(1) _ c] False p by auto
    obtain ys where "good_buffer buf" "blocks m' = blocks m" "m_bytes buf = ys" "set ys \<subseteq> set cs"
      using sb.add_all_result [OF b(1), of cs m buf m'] e(2) b(2) by (auto simp: append_chars_all)
    then show ?thesis using g q p assms(2) by (auto simp: e(3) lexer_good_def ended_def)
  qed
qed

text \<open>The lexeme a successful call hands out, and the progress of every call.\<close>

lemma sqllexNext_result:
  assumes "lexer_good b l m" "sqllexNext l m = Some (ok, l', m')"
  shows "lexer_good b l' m' \<and> m_text l' = m_text l
    \<and> (m_token l \<noteq> SQL_EOF \<longrightarrow> m_position l < m_position l' \<or> m_token l' = SQL_EOF)
    \<and> (ok \<and> m_token l' \<noteq> SQL_EOF \<and> m_token l' \<noteq> SQL_STRLIT \<longrightarrow>
         m_bytes (m_buf l') \<noteq> [] \<and> m_token l' = keyword_of (butlast (m_bytes (m_buf l'))))
    \<and> m_token l' \<noteq> SQL_NUM
    \<and> (m_token l \<noteq> SQL_EOF \<and> m_position l < m_len (m_text l) \<longrightarrow>
         m_token l' \<noteq> SQL_EOF \<and> (m_token l' = SQL_UNKNOWN \<and> \<not> ok \<or> ended l'))"
proof (cases "m_token l = SQL_EOF")
  case True
  then show ?thesis using assms by (simp add: sqllexNext_def)
next
  case eof: False
  define l1 where "l1 = l\<lparr>m_lexum := None\<rparr>"
  define m1 where "m1 = (case m_lexum l of None \<Rightarrow> m | Some s \<Rightarrow> stringDelete s m)"
  have d: "(case m_lexum l of None \<Rightarrow> (l, m) | Some s \<Rightarrow> (l\<lparr>m_lexum := None\<rparr>, stringDelete s m)) = (l1, m1)"
    by (auto simp: l1_def m1_def split: option.split)
  have g1: "lexer_good b l1 m1" using assms(1)
    by (auto simp: lexer_good_def l1_def m1_def stringDelete_def split: option.split)
  note n = assms(2) [unfolded sqllexNext_def d]
  show ?thesis
  proof (cases "m_position l1 \<ge> m_len (m_text l1)")
    case True
    then have "l' = l1\<lparr>m_token := SQL_EOF\<rparr>" "m' = m1" using n eof by simp_all
    then show ?thesis using g1 True by (simp add: lexer_good_def l1_def)
  next
    case False
    let ?l2 = "l1\<lparr>m_token := SQL_UNKNOWN\<rparr>"
    have g2: "lexer_good b ?l2 m1" using g1 by (simp add: lexer_good_def)
    from n eof False obtain l3 m3 where rd: "sqllexRead ?l2 m1 = Some (l3, m3)" by (auto split: bind_splits)
    have r: "lexer_good b l3 m3" "m_position l < m_position l3" "m_lexum l3 = None" "m_text l3 = m_text l"
      "m_token l3 = SQL_STRLIT \<or> m_token l3 = SQL_UNKNOWN \<and> NUL \<notin> set (m_bytes (m_buf l3))"
      "m_token l3 = SQL_UNKNOWN \<and> m_bytes (m_buf l3) = [] \<or> ended l3"
      using sqllexRead_result [OF g2 _ _ rd] False by (auto simp: l1_def)
    show ?thesis
    proof (cases "m_bytes (m_buf l3) = []")
      case True
      then have "l' = l3" "m' = m3" "\<not> ok" using n eof False rd by simp_all
      then show ?thesis using r by auto
    next
      case bytes: False
      obtain lexum m4 where ts: "stringbufferToString (m_buf l3) m3 = (lexum, m4)" by force
      have l4: "blocks m4 = blocks m3 + (if lexum = None then 0 else 2)" "\<forall>s. lexum = Some s \<longrightarrow> \<not> m_isintern s"
        using ts stringNew_result [of _ m3 _ m4] stringNew_null [of _ m3 m4]
        by (cases lexum; fastforce simp: stringbufferToString_def)+
      then have g4: "lexer_good b (l3\<lparr>m_lexum := lexum\<rparr>) m4" using r(1,3) by (auto simp: lexer_good_def)
      show ?thesis
      proof (cases "m_token l3 = SQL_STRLIT")
        case True
        then have "l' = l3\<lparr>m_lexum := lexum\<rparr>" "m' = m4" using n eof False rd bytes ts by simp_all
        then show ?thesis using g4 r True by (auto simp: ended_def)
      next
        case lit: False
        then obtain s t where t: "lexum = Some s" "token_of s = Some t" "l' = l3\<lparr>m_lexum := lexum, m_token := t\<rparr>" "m' = m4"
          using n eof False rd bytes ts by (auto split: bind_splits)
        have "takeWhile (\<lambda>c. c \<noteq> NUL) (m_bytes (m_buf l3)) = m_bytes (m_buf l3)"
          using r(5) lit by (auto simp: takeWhile_eq_all_conv)
        then have "stringNew (m_bytes (m_buf l3)) m3 = (Some s, m4)"
          using ts t(1) by (simp only: stringbufferToString_def)
        then have "s = \<lparr>m_cstr = butlast (m_bytes (m_buf l3)), m_isintern = False, m_len = int (length (m_bytes (m_buf l3)))\<rparr>"
          using stringNew_result by blast
        then have "t = keyword_of (butlast (m_bytes (m_buf l3)))" using t(2) token_of_new [OF bytes] by simp
        then show ?thesis using g4 r t bytes keyword_of_props(1,3) by (auto simp: lexer_good_def ended_def)
      qed
    qed
  qed
qed

text \<open>The lexers that can be reached, made where b blocks were allocated.\<close>

inductive sql_run :: "int \<Rightarrow> sqllex \<Rightarrow> sys \<Rightarrow> bool" for b where
  sql_new: "sqllexNew sql m = Some (Some l, m') \<Longrightarrow> blocks m = b \<Longrightarrow> sql_run b l m'"
| sql_next: "sql_run b l m \<Longrightarrow> sqllexNext l m = Some (ok, l', m') \<Longrightarrow> sql_run b l' m'"

lemma sql_run_token: "sql_run b l m \<Longrightarrow> lexer_good b l m \<and> m_token l \<noteq> SQL_NUM"
proof (induction rule: sql_run.induct)
  case (sql_new sql m l m')
  obtain ok m1 where a: "malloc m = (ok, m1)" by force
  obtain t0 m2 where d: "stringDup sql m1 = (t0, m2)" by force
  from sql_new(1) a d obtain t buf m3 m4 where t: "ok" "t0 = Some t" "stringbufferNew m2 = Some (Some buf, m3)"
    "sqllexNext \<lparr>m_token = SQL_BOF, m_lexum = None, m_lineNum = 1, m_position = 0, m_text = t, m_buf = buf\<rparr> m3 = Some (m4, l, m')"
    by (auto simp: sqllexNew_def Let_def split: if_splits option.splits bind_splits)
  have "blocks m2 = b + 3" "\<not> m_isintern t" "0 \<le> m_len t"
    using malloc_blocks [OF a] stringNew_result [of "m_cstr sql" m1 t m2] d t(1,2) sql_new(2) by (simp_all add: stringDup_def)
  moreover have "blocks m3 = blocks m2 + 2" "good_buffer buf"
    using t(3) by (auto simp: stringbufferNew_def stringbufferSizeNew_def good_buffer_def dest!: malloc_blocks
      split: prod.splits if_splits)
  ultimately have "lexer_good b \<lparr>m_token = SQL_BOF, m_lexum = None, m_lineNum = 1, m_position = 0, m_text = t, m_buf = buf\<rparr> m3"
    by (simp add: lexer_good_def)
  from sqllexNext_result [OF this t(4)] show ?case by simp
next
  case (sql_next l m ok l' m')
  then show ?case using sqllexNext_result by blast
qed

lemmas sql_run_good = sql_run_token [THEN conjunct1]

text \<open>C29. In every state of the tokeniser that can be reached, with any failures of allocation, its position is within
  the text, and it holds five blocks and two for its lexeme. A call of \<open>sqllexNext\<close> moves the position on or
  reaches the end. The token it finds is that of the lexeme without its last character: a lexeme of one character
  is an identifier, also a parenthesis, and no lexeme is a number.\<close>

theorem sqllexNext_tokens:
  assumes "sql_run b l m" "sqllexNext l m = Some (ok, l', m')"
  shows "0 \<le> m_position l' \<and> m_position l' \<le> m_len (m_text l')
    \<and> blocks m' = b + 5 + (if m_lexum l' = None then 0 else 2)
    \<and> (m_token l \<noteq> SQL_EOF \<longrightarrow> m_position l < m_position l' \<or> m_token l' = SQL_EOF)
    \<and> (ok \<and> m_token l' \<noteq> SQL_EOF \<and> m_token l' \<noteq> SQL_STRLIT \<longrightarrow>
         m_token l' = keyword_of (butlast (m_bytes (m_buf l'))) \<and> m_token l' \<noteq> SQL_NUM
         \<and> (length (m_bytes (m_buf l')) = 1 \<longrightarrow> m_token l' = SQL_ID))"
proof -
  note r = sqllexNext_result [OF sql_run_good [OF assms(1)] assms(2)]
  have "length w = 1 \<Longrightarrow> keyword_of (butlast w) = SQL_ID" for w by (cases w) (simp_all add: keyword_of_props)
  then show ?thesis using r keyword_of_props(1) by (auto simp: lexer_good_def)
qed

theorem sqllexNext_tokens_witness:
  "\<exists>l m l' m'. sql_run 0 l m \<and> sqllexNext l m = Some (True, l', m') \<and> m_bytes (m_buf l') = ''('' \<and> m_token l' = SQL_ID"
proof -
  let ?t = "\<lparr>m_cstr = ''a ( '', m_isintern = False, m_len = 5\<rparr>" and ?s = "\<lparr>m_cstr = [], m_isintern = False, m_len = 1\<rparr>"
  let ?l = "\<lparr>m_token = SQL_ID, m_lexum = Some ?s, m_lineNum = 1, m_position = 1, m_text = ?t,
    m_buf = \<lparr>m_bytes = ''a'', m_size = 32\<rparr>\<rparr>"
  let ?l' = "\<lparr>m_token = SQL_ID, m_lexum = Some ?s, m_lineNum = 1, m_position = 3, m_text = ?t,
    m_buf = \<lparr>m_bytes = ''('', m_size = 32\<rparr>\<rparr>"
  let ?m = "\<lparr>answers = [], blocks = 7\<rparr>"
  have a: "stringbufferAppendCh \<lparr>m_bytes = [], m_size = 32\<rparr> c m = Some (True, \<lparr>m_bytes = [c], m_size = 32\<rparr>, m)" for c m
    by (simp add: stringbufferAppendCh_def stringbufferAppendBuf_def extend_for.simps)
  have t: "token_of ?s = Some SQL_ID" using token_of_new [of "''a''"] by (simp add: keyword_of_props)
  have k: "skip_sql 5 ''a ( '' 0 1 = Some (0, 1)" "skip_sql 4 ''a ( '' 1 1 = Some (2, 1)" by code_simp+
  have q: "read_lexeme ?t 0 = Some (''a'', 1, False)" "read_lexeme ?t 2 = Some (''('', 3, False)" by code_simp+
  note defs = sqllexNext_def sqllexRead_def ISEOF_def stringbufferClear_def stringbufferToString_def stringNew_plenty Let_def a t k q
  have 1: "sqllexNew \<lparr>m_cstr = ''a ( b'', m_isintern = True, m_len = 5\<rparr> \<lparr>answers = [], blocks = 0\<rparr> = Some (Some ?l, ?m)"
    by (simp add: sqllexNew_def stringDup_def stringbufferNew_def stringbufferSizeNew_def defs)
  have r: "sql_run 0 ?l ?m" by (rule sql_new [OF 1]) simp
  have 2: "sqllexNext ?l ?m = Some (True, ?l', ?m)" by (simp add: defs stringDelete_def release_def)
  have "m_token ?l' = SQL_ID" using sqllexNext_tokens [OF r 2] by simp
  then show ?thesis using r 2 by (intro exI [of _ ?l] exI [of _ ?m] exI [of _ ?l']) auto
qed

end
