(* ===== verification/Sql_Request.thy ===== *)
theory Sql_Request
  imports Sql_Spec
begin

section \<open>Requests of the service, splc/src/packet.c and splc/request.c\<close>

text \<open>
  A request arrives as a buffer of typed values, or as the text of an EXEC statement. The bytes of
  a packet are characters. C does not fix the order in which the operands of | read their bytes; they
  are read in the order they are written here. Floats are a parameter: what \<open>sscanf\<close> reads
  (None when it reads nothing, and the variable keeps what it was), what is printed, \<open>atof\<close> and the conversions.
\<close>

unbundle bit_operations_syntax

record 'f reals =
  r_scan :: "string \<Rightarrow> 'f option"
  r_print :: "'f \<Rightarrow> string"
  r_atof :: "string \<Rightarrow> 'f"
  r_zero :: 'f
  r_int32 :: "'f \<Rightarrow> 32 word"
  r_int64 :: "'f \<Rightarrow> 64 word"
  r_of_int :: "int \<Rightarrow> 'f"

subsection \<open>Packets\<close>

record packet =
  p_buf :: stringbuffer
  m_readpos :: nat
  m_isError :: bool

definition packetIsEof :: "packet \<Rightarrow> bool" where
  "packetIsEof pkt \<longleftrightarrow> m_readpos pkt \<ge> length (m_bytes (p_buf pkt))"

definition packetPeekByte :: "packet \<Rightarrow> char" where
  "packetPeekByte pkt = (if packetIsEof pkt then NUL else m_bytes (p_buf pkt) ! m_readpos pkt)"

definition packetNextByte :: "packet \<Rightarrow> char \<times> packet" where
  "packetNextByte pkt = (packetPeekByte pkt, pkt\<lparr>m_readpos := m_readpos pkt + 1\<rparr>)"

definition packetNew :: "stringbuffer \<Rightarrow> sys \<Rightarrow> packet option \<times> sys" where
  "packetNew buf m =
     (let (ok, m) = malloc m in if \<not> ok then (None, m) else
      (Some \<lparr>p_buf = buf, m_readpos = 0, m_isError = False\<rparr>, m))"

definition packetDelete :: "packet \<Rightarrow> sys \<Rightarrow> sys" where
  "packetDelete pkt = release 1"

definition packetIsError :: "packet \<Rightarrow> bool" where
  "packetIsError pkt = m_isError pkt"

definition packetIsEofOrError :: "packet \<Rightarrow> bool" where
  "packetIsEofOrError pkt \<longleftrightarrow> packetIsEof pkt \<or> packetIsError pkt"

definition packetNextType :: "packet \<Rightarrow> char" where
  "packetNextType pkt = packetPeekByte pkt"

definition packetIsValidNext :: "packet \<Rightarrow> bool" where
  "packetIsValidNext pkt \<longleftrightarrow> packetPeekByte pkt \<in> {CHR ''I'', CHR ''S'', CHR ''d'', CHR ''L''}"

primrec next_bytes :: "nat \<Rightarrow> packet \<Rightarrow> string \<times> packet" where
  "next_bytes 0 pkt = ([], pkt)"
| "next_bytes (Suc n) pkt =
     (let (c, pkt) = packetNextByte pkt; (cs, pkt) = next_bytes n pkt in (c # cs, pkt))"

text \<open>The bytes from the highest down, or from the lowest up; \<open>little\<close> is LITTLE\_ENDIAN.\<close>

definition bytes_word :: "bool \<Rightarrow> string \<Rightarrow> 'a::len word" where
  "bytes_word little bs = foldl (\<lambda>w c. push_bit 8 w OR of_int (of_char c)) 0 (if little then bs else rev bs)"

definition packetReadInt :: "bool \<Rightarrow> packet \<Rightarrow> 32 word \<times> packet" where
  "packetReadInt little pkt =
     (let (t, pkt) = packetNextByte pkt
      in if t \<noteq> CHR ''I'' then (0, pkt\<lparr>m_isError := True\<rparr>)
         else let (bs, pkt) = next_bytes 4 pkt in (bytes_word little bs, pkt))"

definition packetReadLong :: "bool \<Rightarrow> packet \<Rightarrow> 64 word \<times> packet" where
  "packetReadLong little pkt =
     (let (t, pkt) = packetNextByte pkt
      in if t \<noteq> CHR ''L'' then (0, pkt\<lparr>m_isError := True\<rparr>)
         else let (bs, pkt) = next_bytes 8 pkt in (bytes_word little bs, pkt))"

text \<open>The length of the printed float is one byte. The buffer is created in its fixed size.\<close>

definition packetReadDouble :: "'f reals \<Rightarrow> packet \<Rightarrow> sys \<Rightarrow> ('f \<times> packet \<times> sys) option" where
  "packetReadDouble F pkt m =
     (let (t, pkt) = packetNextByte pkt
      in if t \<noteq> CHR ''d'' then Some (r_zero F, pkt\<lparr>m_isError := True\<rparr>, m)
         else let (len, pkt) = packetNextByte pkt
         in do {
           (buf, m) \<leftarrow> stringbufferNew m;
           case buf of
             None \<Rightarrow> Some (r_zero F, pkt\<lparr>m_isError := True\<rparr>, m)
           | Some buf \<Rightarrow>
               (let (cs, pkt) = next_bytes (of_char len) pkt
                in do {
                  (buf, m) \<leftarrow> append_chars cs buf m;
                  val \<leftarrow> r_scan F (takeWhile (\<lambda>c. c \<noteq> NUL) (m_bytes buf));
                  Some (val, pkt, stringbufferDelete buf m) }) })"

text \<open>Characters of one, two or four bytes, of which the first is taken.\<close>

primrec wide_chars :: "nat \<Rightarrow> nat \<Rightarrow> packet \<Rightarrow> string \<times> packet" where
  "wide_chars 0 extra pkt = ([], pkt)"
| "wide_chars (Suc n) extra pkt =
     (let (c, pkt) = packetNextByte pkt;
          (_, pkt) = next_bytes extra pkt;
          (cs, pkt) = wide_chars n extra pkt
      in (c # cs, pkt))"

definition packetReadString :: "packet \<Rightarrow> sys \<Rightarrow> (spl_string option \<times> packet \<times> sys) option" where
  "packetReadString pkt m =
     (let (t, pkt) = packetNextByte pkt
      in if t \<noteq> CHR ''S'' then Some (None, pkt\<lparr>m_isError := True\<rparr>, m)
         else let (hi, pkt) = packetNextByte pkt; (lo, pkt) = packetNextByte pkt;
                  numchars = 256 * of_char hi + of_char lo;
                  (charsize, pkt) = packetNextByte pkt
         in do {
           (buf, m) \<leftarrow> stringbufferNew m;
           case buf of
             None \<Rightarrow> Some (None, pkt\<lparr>m_isError := True\<rparr>, m)
           | Some buf \<Rightarrow>
               (let (cs, pkt) = wide_chars numchars
                      (if charsize = CHR 0x01 then 0 else if charsize = CHR 0x02 then 1 else 3) pkt
                in do {
                  (buf, m) \<leftarrow> append_chars cs buf m;
                  (case stringbufferToString buf m of (str, m) \<Rightarrow> Some (str, pkt, stringbufferDelete buf m)) }) })"

subsection \<open>Requests\<close>

text \<open>The union of an item holds the member that was written last.\<close>

datatype 'f item_data = RInt "32 word" | RLong "64 word" | RReal 'f | RStr "spl_string option"

record 'f requestItem =
  i_name :: "spl_string option"
  i_type :: char
  i_data :: "'f item_data"

record 'f request =
  m_name :: "spl_string option"
  m_transid :: "64 word"
  m_userId :: "spl_string option"
  m_password :: "spl_string option"
  req_items :: "'f requestItem list"
  m_itemCount :: int
  m_reqbytes :: int

definition delete_opt :: "spl_string option \<Rightarrow> sys \<Rightarrow> sys" where
  "delete_opt s m = (case s of None \<Rightarrow> m | Some s \<Rightarrow> stringDelete s m)"

primrec delete_items :: "'f requestItem list \<Rightarrow> sys \<Rightarrow> sys option" where
  "delete_items [] m = Some m"
| "delete_items (i # is) m = do {
     let m = delete_opt (i_name i) m;
     m \<leftarrow> (if i_type i = CHR ''S''
           then (case i_data i of RStr (Some s) \<Rightarrow> Some (stringDelete s m) | _ \<Rightarrow> None)
           else Some m);
     delete_items is (release 1 m) }"

definition requestDelete :: "'f request \<Rightarrow> sys \<Rightarrow> sys option" where
  "requestDelete req m = do {
     m \<leftarrow> delete_items (req_items req) m;
     Some (release 1 (delete_opt (m_password req) (delete_opt (m_userId req) (delete_opt (m_name req) m)))) }"

text \<open>A new request has one item without a name, which stays the last of the list.\<close>

definition sentinel :: "'f requestItem" where
  "sentinel = \<lparr>i_name = None, i_type = NUL, i_data = RStr None\<rparr>"

definition requestAlloc :: "sys \<Rightarrow> 'f request option \<times> sys" where
  "requestAlloc m =
     (let (ok, m) = malloc m in if \<not> ok then (None, m) else
      let (ok, m) = malloc m in if \<not> ok then (None, release 1 m) else
      (Some \<lparr>m_name = None, m_transid = 0, m_userId = None, m_password = None, req_items = [sentinel],
         m_itemCount = 0, m_reqbytes = 0\<rparr>, m))"

fun requestGetItem_in :: "'f requestItem list \<Rightarrow> string \<Rightarrow> 'f requestItem option" where
  "requestGetItem_in [] name = None"
| "requestGetItem_in (i # is) name =
     (case i_name i of
        None \<Rightarrow> None
      | Some n \<Rightarrow> if stringIsEqual n name False then Some i else requestGetItem_in is name)"

definition requestGetItem :: "'f request \<Rightarrow> string \<Rightarrow> 'f requestItem option" where
  "requestGetItem req = requestGetItem_in (req_items req)"

text \<open>The index is not advanced: the loop ends behind the list.\<close>

fun walk_items :: "int \<Rightarrow> int \<Rightarrow> int \<Rightarrow> 'f requestItem list \<Rightarrow> 'f requestItem list" where
  "walk_items x count idx [] = []"
| "walk_items x count idx (i # is) = (if x < count \<and> x < idx then walk_items x count idx is else i # is)"

definition requestGetItemAt :: "'f request \<Rightarrow> int \<Rightarrow> 'f requestItem option" where
  "requestGetItemAt req idx =
     (let is = walk_items 0 (m_itemCount req) idx (req_items req)
      in if 0 < m_itemCount req then (case is of [] \<Rightarrow> None | i # _ \<Rightarrow> Some i) else None)"

subsection \<open>Requests from packets\<close>

text \<open>The way out of every failure: the packet and the request are freed, an item that is not in the list yet is not.\<close>

definition give_up :: "packet \<Rightarrow> 'f request \<Rightarrow> sys \<Rightarrow> ('f request option \<times> sys) option" where
  "give_up pkt req m = do {
     m \<leftarrow> requestDelete req (packetDelete pkt m);
     Some (None, m) }"

definition read_data :: "bool \<Rightarrow> 'f reals \<Rightarrow> packet \<Rightarrow> sys \<Rightarrow> ('f item_data option \<times> packet \<times> sys) option" where
  "read_data little F pkt m =
     (let t = packetNextType pkt
      in if t = CHR ''S'' then do { (s, pkt, m) \<leftarrow> packetReadString pkt m; Some (Some (RStr s), pkt, m) }
         else if t = CHR ''d'' then do { (d, pkt, m) \<leftarrow> packetReadDouble F pkt m; Some (Some (RReal d), pkt, m) }
         else if t = CHR ''I'' then (case packetReadInt little pkt of (i, pkt) \<Rightarrow> Some (Some (RInt i), pkt, m))
         else if t = CHR ''L'' then (case packetReadLong little pkt of (i, pkt) \<Rightarrow> Some (Some (RLong i), pkt, m))
         else Some (None, pkt, m))"

definition read_item ::
  "bool \<Rightarrow> 'f reals \<Rightarrow> packet \<Rightarrow> sys \<Rightarrow> ('f requestItem option \<times> packet \<times> sys) option" where
  "read_item little F pkt m =
     (let (ok, m) = malloc m in if \<not> ok then Some (None, pkt, m)
      else if \<not> packetIsValidNext pkt then Some (None, pkt, m)
      else do {
        (name, pkt, m) \<leftarrow> packetReadString pkt m;
        if name = None then Some (None, pkt, m)
        else do {
          let t = packetNextType pkt;
          (d, pkt, m) \<leftarrow> read_data little F pkt m;
          Some (map_option (\<lambda>d. \<lparr>i_name = name, i_type = t, i_data = d\<rparr>) d, pkt, m) } })"

partial_function (option) read_items ::
  "bool \<Rightarrow> 'f reals \<Rightarrow> packet \<Rightarrow> 'f request \<Rightarrow> sys \<Rightarrow> (bool \<times> packet \<times> 'f request \<times> sys) option" where
  "read_items little F pkt req m =
     (if packetIsEofOrError pkt then Some (True, pkt, req, m)
      else do {
        let req = req\<lparr>m_itemCount := m_itemCount req + 1\<rparr>;
        (item, pkt, m) \<leftarrow> read_item little F pkt m;
        case item of
          None \<Rightarrow> Some (False, pkt, req, m)
        | Some item \<Rightarrow> read_items little F pkt (req\<lparr>req_items := item # req_items req\<rparr>) m })"

definition read_field ::
  "(spl_string \<Rightarrow> 'f request \<Rightarrow> 'f request) \<Rightarrow> packet \<Rightarrow> 'f request \<Rightarrow> sys
     \<Rightarrow> (bool \<times> packet \<times> 'f request \<times> sys) option" where
  "read_field upd pkt req m = do {
     (s, pkt, m) \<leftarrow> packetReadString pkt m;
     case s of
       None \<Rightarrow> Some (False, pkt, req, m)
     | Some s \<Rightarrow> Some (True, pkt, upd s req, m) }"

definition transaction_id :: string where
  "transaction_id = ''%%TRANSACTION-ID%%''"

text \<open>An item of that name is read as a 64-bit int, which the other members of the union are not.\<close>

definition take_transid :: "'f request \<Rightarrow> 'f request option" where
  "take_transid req =
     (case requestGetItem req transaction_id of
        None \<Rightarrow> Some req
      | Some i \<Rightarrow> (case i_data i of RLong t \<Rightarrow> Some (req\<lparr>m_transid := t\<rparr>) | _ \<Rightarrow> None))"

definition requestNew :: "bool \<Rightarrow> 'f reals \<Rightarrow> stringbuffer \<Rightarrow> sys \<Rightarrow> ('f request option \<times> sys) option" where
  "requestNew little F buf m =
     (case requestAlloc m of
        (None, m) \<Rightarrow> Some (None, m)
      | (Some req, m) \<Rightarrow>
     (case packetNew buf m of
        (None, m) \<Rightarrow> do { m \<leftarrow> requestDelete req m; Some (None, m) }
      | (Some pkt, m) \<Rightarrow> do {
          let req = req\<lparr>m_reqbytes := m_used buf\<rparr>;
          if packetNextType pkt \<noteq> CHR ''S'' then give_up pkt req m
          else do {
            (ok, pkt, req, m) \<leftarrow> read_field (\<lambda>s r. r\<lparr>m_name := Some s\<rparr>) pkt req m;
            if \<not> ok \<or> \<not> packetIsValidNext pkt then give_up pkt req m
            else do {
              (ok, pkt, req, m) \<leftarrow> read_field (\<lambda>s r. r\<lparr>m_userId := Some s\<rparr>) pkt req m;
              if \<not> ok then give_up pkt req m
              else do {
                (ok, pkt, req, m) \<leftarrow> read_field (\<lambda>s r. r\<lparr>m_password := Some s\<rparr>) pkt req m;
                if \<not> ok then give_up pkt req m
                else do {
                  (ok, pkt, req, m) \<leftarrow> read_items little F pkt req m;
                  if \<not> ok then give_up pkt req m
                  else do {
                    req \<leftarrow> take_transid req;
                    Some (Some req, packetDelete pkt m) } } } } } }))"

subsection \<open>Requests from EXEC statements\<close>

definition give_up_sql :: "sqllex \<Rightarrow> 'f request \<Rightarrow> sys \<Rightarrow> ('f request option \<times> sys) option" where
  "give_up_sql l req m = do {
     m \<leftarrow> requestDelete req (sqllexDelete l m);
     Some (None, m) }"

definition item_of_token :: "'f reals \<Rightarrow> sqllex \<Rightarrow> sys \<Rightarrow> ('f requestItem option \<times> sys) option" where
  "item_of_token F l m =
     (if m_token l = SQL_STRLIT then do {
        s \<leftarrow> m_lexum l;
        (case stringNew (m_cstr s) m of (str, m) \<Rightarrow> Some (Some \<lparr>i_name = None, i_type = CHR ''S'', i_data = RStr str\<rparr>, m)) }
      else if m_token l = SQL_NUM then do {
        s \<leftarrow> m_lexum l;
        real \<leftarrow> stringIsFloat s;
        Some (Some (if real then \<lparr>i_name = None, i_type = CHR ''d'', i_data = RReal (r_atof F (m_cstr s))\<rparr>
          else \<lparr>i_name = None, i_type = CHR ''I'', i_data = RInt (atoi (m_cstr s))\<rparr>), m) }
      else Some (None, m))"

partial_function (option) exec_items ::
  "'f reals \<Rightarrow> sqllex \<Rightarrow> 'f request \<Rightarrow> sys \<Rightarrow> (bool \<times> sqllex \<times> 'f request \<times> sys) option" where
  "exec_items F l req m =
     (if m_token l = SQL_EOF then Some (True, l, req, m)
      else do {
        let req = req\<lparr>m_itemCount := m_itemCount req + 1\<rparr>;
        (ok, l, m) \<leftarrow> (if m_token l = SQL_COMMA then sqllexNext l m else Some (True, l, m));
        if \<not> ok then Some (False, l, req, m)
        else (case malloc m of (ok, m) \<Rightarrow>
          if \<not> ok then Some (False, l, req, m)
          else do {
            (item, m) \<leftarrow> item_of_token F l m;
            case item of
              None \<Rightarrow> Some (False, l, req, m)
            | Some item \<Rightarrow> do {
                let req = req\<lparr>req_items := item # req_items req\<rparr>;
                (_, l, m) \<leftarrow> sqllexNext l m;
                exec_items F l req m } }) })"

text \<open>The second part of the name; the results of \<open>stringCat\<close> are used as they come.\<close>

definition qualified_name :: "sqllex \<Rightarrow> 'f request \<Rightarrow> sys \<Rightarrow> (bool \<times> sqllex \<times> 'f request \<times> sys) option" where
  "qualified_name l req m =
     (if m_token l \<noteq> SQL_DOT then Some (True, l, req, m)
      else do {
        str \<leftarrow> m_name req;
        (name, m) \<leftarrow> stringCat str ''.'' 1 m;
        let m = stringDelete str m;
        (_, l, m) \<leftarrow> sqllexMatchToken l SQL_DOT m;
        str \<leftarrow> name;
        w \<leftarrow> m_lexum l;
        (name, m) \<leftarrow> stringCat str (m_cstr w) (m_len w) m;
        let m = stringDelete str m;
        (ok, l, m) \<leftarrow> sqllexMatchToken l SQL_ID m;
        Some (ok, l, req\<lparr>m_name := name\<rparr>, m) })"

definition requestNewFromExecSql :: "'f reals \<Rightarrow> spl_string \<Rightarrow> sys \<Rightarrow> ('f request option \<times> sys) option" where
  "requestNewFromExecSql F sql m =
     (case requestAlloc m of
        (None, m) \<Rightarrow> Some (None, m)
      | (Some req, m) \<Rightarrow> do {
          (l, m) \<leftarrow> sqllexNew sql m;
          case l of
            None \<Rightarrow> do { m \<leftarrow> requestDelete req m; Some (None, m) }
          | Some l \<Rightarrow> do {
              (ok, l, m) \<leftarrow> sqllexMatchToken l SQL_EXEC m;
              if \<not> ok then give_up_sql l req m
              else do {
                w \<leftarrow> m_lexum l;
                (case stringDup w m of (name, m) \<Rightarrow>
                  if name = None then give_up_sql l req m
                  else do {
                    let req = req\<lparr>m_name := name\<rparr>;
                    (ok, l, m) \<leftarrow> sqllexMatchToken l SQL_ID m;
                    if \<not> ok then give_up_sql l req m
                    else do {
                      (ok, l, req, m) \<leftarrow> qualified_name l req m;
                      if \<not> ok then give_up_sql l req m
                      else do {
                        (ok, l, req, m) \<leftarrow> exec_items F l req m;
                        if \<not> ok then give_up_sql l req m
                        else Some (Some req, sqllexDelete l m) } } }) } } })"

subsection \<open>The values of items\<close>

definition requestItemToString :: "'f reals \<Rightarrow> 'f requestItem \<Rightarrow> sys \<Rightarrow> (spl_string option \<times> sys) option" where
  "requestItemToString F i m =
     (if i_type i = CHR ''S'' then (case i_data i of RStr (Some s) \<Rightarrow> Some (stringDup s m) | _ \<Rightarrow> None)
      else if i_type i = CHR ''d'' then (case i_data i of RReal d \<Rightarrow> float64ToString (r_print F) d m | _ \<Rightarrow> None)
      else if i_type i = CHR ''I'' then (case i_data i of RInt k \<Rightarrow> Some (int32ToString k m) | _ \<Rightarrow> None)
      else if i_type i = CHR ''L'' then (case i_data i of RLong k \<Rightarrow> Some (int64ToString k m) | _ \<Rightarrow> None)
      else Some (stringNew ''unknown'' m))"

text \<open>What is copied into the buffer, None inside when the buffer is left alone.\<close>

definition requestItemToCharBuf :: "'f reals \<Rightarrow> 'f requestItem \<Rightarrow> int \<Rightarrow> sys \<Rightarrow> (string option \<times> sys) option" where
  "requestItemToCharBuf F i buflen m =
     (if i_type i = CHR ''S''
      then (case i_data i of RStr (Some s) \<Rightarrow> Some (Some (fst (StrCpyLen (m_cstr s) buflen)), m) | _ \<Rightarrow> None)
      else if i_type i \<in> {CHR ''d'', CHR ''I'', CHR ''L''}
      then do {
        (s, m) \<leftarrow> requestItemToString F i m;
        s \<leftarrow> s;
        Some (Some (fst (StrCpyLen (m_cstr s) buflen)), stringDelete s m) }
      else Some (None, m))"

definition requestItemToInt :: "'f reals \<Rightarrow> 'f requestItem \<Rightarrow> 32 word option" where
  "requestItemToInt F i =
     (if i_type i = CHR ''S''
      then (case i_data i of
              RStr (Some s) \<Rightarrow> do {
                int \<leftarrow> stringIsInt s;
                if int then Some (atoi (m_cstr s))
                else do {
                  real \<leftarrow> stringIsFloat s;
                  Some (if real then r_int32 F (r_atof F (m_cstr s)) else 0) } }
            | _ \<Rightarrow> None)
      else if i_type i = CHR ''d'' then (case i_data i of RReal d \<Rightarrow> Some (r_int32 F d) | _ \<Rightarrow> None)
      else if i_type i = CHR ''I'' then (case i_data i of RInt k \<Rightarrow> Some k | _ \<Rightarrow> None)
      else if i_type i = CHR ''L'' then (case i_data i of RLong k \<Rightarrow> Some (ucast k) | _ \<Rightarrow> None)
      else Some 0)"

definition requestItemToLong :: "'f reals \<Rightarrow> 'f requestItem \<Rightarrow> 64 word option" where
  "requestItemToLong F i =
     (if i_type i = CHR ''S''
      then (case i_data i of
              RStr (Some s) \<Rightarrow> do {
                int \<leftarrow> stringIsInt s;
                if int then Some (scast (atoi (m_cstr s)))
                else do {
                  real \<leftarrow> stringIsFloat s;
                  Some (if real then r_int64 F (r_atof F (m_cstr s)) else 0) } }
            | _ \<Rightarrow> None)
      else if i_type i = CHR ''d'' then (case i_data i of RReal d \<Rightarrow> Some (r_int64 F d) | _ \<Rightarrow> None)
      else if i_type i = CHR ''I'' then (case i_data i of RInt k \<Rightarrow> Some (scast k) | _ \<Rightarrow> None)
      else if i_type i = CHR ''L'' then (case i_data i of RLong k \<Rightarrow> Some k | _ \<Rightarrow> None)
      else Some 0)"

definition requestItemToDouble :: "'f reals \<Rightarrow> 'f requestItem \<Rightarrow> 'f option" where
  "requestItemToDouble F i =
     (if i_type i = CHR ''S''
      then (case i_data i of
              RStr (Some s) \<Rightarrow> do {
                real \<leftarrow> stringIsFloat s;
                Some (if real then r_atof F (m_cstr s) else r_of_int F 0) }
            | _ \<Rightarrow> None)
      else if i_type i = CHR ''d'' then (case i_data i of RReal d \<Rightarrow> Some d | _ \<Rightarrow> None)
      else if i_type i = CHR ''I'' then (case i_data i of RInt k \<Rightarrow> Some (r_of_int F (sint k)) | _ \<Rightarrow> None)
      else if i_type i = CHR ''L'' then (case i_data i of RLong k \<Rightarrow> Some (r_of_int F (sint k)) | _ \<Rightarrow> None)
      else Some (r_of_int F 0))"

end
