(* ===== verification/Sql_Wire.thy ===== *)
theory Sql_Wire
  imports Sql_Request
begin

section \<open>Requests read back\<close>

text \<open>
  The source has no writer of packets; a reference encoding of requests is given here, and
  \<open>requestNew\<close> reads back what is encoded, but for the last characters of its strings.
\<close>

subsection \<open>The encoding\<close>

datatype 'f wire = WInt "32 word" | WLong "64 word" | WReal string | WStr string

definition word_bytes :: "nat \<Rightarrow> 'a::len word \<Rightarrow> string" where
  "word_bytes n k = map (\<lambda>i. char_of (unat (drop_bit (8 * i) k AND 0xFF))) (rev [0..<n])"

definition encode_string :: "string \<Rightarrow> string" where
  "encode_string w = CHR ''S'' # char_of (length w div 256) # char_of (length w mod 256) # CHR 0x01 # w"

primrec encode_data :: "'f wire \<Rightarrow> string" where
  "encode_data (WInt k) = CHR ''I'' # word_bytes 4 k"
| "encode_data (WLong k) = CHR ''L'' # word_bytes 8 k"
| "encode_data (WReal ds) = CHR ''d'' # char_of (length ds) # ds"
| "encode_data (WStr w) = encode_string w"

lemma byte_char: "of_int (of_char (char_of (unat (w AND 0xFF :: 'a::len word)) :: char)) = (w AND 0xFF :: 'a word)"
proof -
  have m: "unat (w AND 0xFF) < 256"
  proof -
    have "w AND 0xFF = take_bit 8 w" by (simp add: take_bit_eq_mask mask_eq_exp_minus_1 flip: and.commute [of "0xFF"])
    then have "unat (w AND 0xFF) = take_bit 8 (unat w)" by (simp add: unsigned_take_bit_eq)
    then show ?thesis using take_bit_nat_less_exp [of 8 "unat w"] by simp
  qed
  then have "(of_char (char_of (unat (w AND 0xFF)) :: char) :: nat) = unat (w AND 0xFF)" by simp
  then have "(of_char (char_of (unat (w AND 0xFF)) :: char) :: int) = int (unat (w AND 0xFF))"
    by (simp add: of_char_nat_int)
  then show ?thesis by (simp add: of_int_of_nat_eq)
qed

lemma byte_join: "push_bit 8 (drop_bit (8 * Suc n) w) OR (drop_bit (8 * n) w AND 0xFF) = drop_bit (8 * n) (w :: 'a::len word)"
proof (rule bit_word_eqI)
  fix i assume "i < LENGTH('a)"
  have m: "(0xFF :: 'a word) = mask 8" by (simp add: mask_eq_exp_minus_1)
  show "bit (push_bit 8 (drop_bit (8 * Suc n) w) OR (drop_bit (8 * n) w AND 0xFF)) i = bit (drop_bit (8 * n) w) i"
    unfolding m using \<open>i < LENGTH('a)\<close> by (cases "i < 8") (auto simp: bit_simps)
qed

lemma bytes_word_fold:
  "foldl (\<lambda>w c. push_bit 8 w OR of_int (of_char c)) (drop_bit (8 * n) k) (word_bytes n k) = (k :: 'a::len word)"
  by (induction n) (simp_all add: word_bytes_def byte_char byte_join del: mult_Suc_right)

lemma word_bytes_read: "LENGTH('a) \<le> 8 * n \<Longrightarrow> bytes_word True (word_bytes n k) = (k :: 'a::len word)"
  using bytes_word_fold [of n k] by (simp add: bytes_word_def drop_bit_word_beyond)

lemma word_bytes_length [simp]: "length (word_bytes n k) = n"
  by (simp add: word_bytes_def)

subsection \<open>Reading\<close>

text \<open>What is left of a packet, and the packet after n more bytes.\<close>

definition ahead :: "packet \<Rightarrow> string" where
  "ahead pkt = drop (m_readpos pkt) (m_bytes (p_buf pkt))"

definition past :: "nat \<Rightarrow> packet \<Rightarrow> packet" where
  "past n pkt = pkt\<lparr>m_readpos := m_readpos pkt + n\<rparr>"

lemma ahead_past [simp]: "ahead (past n pkt) = drop n (ahead pkt)" "past n (past k pkt) = past (n + k) pkt"
  "past 0 pkt = pkt" "m_isError (past n pkt) = m_isError pkt"
  by (simp_all add: ahead_def past_def add.commute)

lemma peek_ahead: "packetPeekByte pkt = (case ahead pkt of [] \<Rightarrow> NUL | c # _ \<Rightarrow> c)" "packetIsEof pkt \<longleftrightarrow> ahead pkt = []"
  by (auto simp: packetPeekByte_def packetIsEof_def ahead_def not_le hd_drop_conv_nth [symmetric] split: list.split)

lemma next_ahead: "ahead pkt = c # cs \<Longrightarrow> packetNextByte pkt = (c, past 1 pkt)"
  by (simp add: packetNextByte_def peek_ahead past_def)

lemma next_bytes_ahead:
  "ahead pkt = bs @ rest \<Longrightarrow> next_bytes (length bs) pkt = (bs, past (length bs) pkt)"
  by (induction bs arbitrary: pkt) (simp_all add: next_ahead add.commute)

lemma wide_chars_ahead:
  "ahead pkt = w @ rest \<Longrightarrow> wide_chars (length w) 0 pkt = (w, past (length w) pkt)"
  by (induction w arbitrary: pkt) (simp_all add: next_ahead add.commute)

lemma read_int_ahead:
  "ahead pkt = encode_data (WInt k) @ rest \<Longrightarrow> packetReadInt True pkt = (k, past 5 pkt)"
  using next_bytes_ahead [of "past 1 pkt" "word_bytes 4 k" rest]
  by (simp add: packetReadInt_def next_ahead word_bytes_read)

lemma read_long_ahead:
  "ahead pkt = encode_data (WLong k) @ rest \<Longrightarrow> packetReadLong True pkt = (k, past 9 pkt)"
  using next_bytes_ahead [of "past 1 pkt" "word_bytes 8 k" rest]
  by (simp add: packetReadLong_def next_ahead word_bytes_read)

text \<open>The string that is made of the characters w.\<close>

definition string_of :: "string \<Rightarrow> spl_string" where
  "string_of w = \<lparr>m_cstr = butlast w, m_isintern = False, m_len = int (length w)\<rparr>"

lemma buffer_new: "answers m = [] \<Longrightarrow>
    stringbufferNew m = Some (Some \<lparr>m_bytes = [], m_size = 32\<rparr>, m\<lparr>blocks := blocks m + 2\<rparr>)"
  by (simp add: stringbufferNew_def stringbufferSizeNew_def)

lemma append_chars_plenty:
  assumes "answers m = []" "length cs < 2 ^ 30"
  obtains b' where "append_chars cs \<lparr>m_bytes = [], m_size = 32\<rparr> m = Some (b', m)" "m_bytes b' = cs"
proof -
  have "good_buffer \<lparr>m_bytes = [], m_size = 32\<rparr>" by (simp add: good_buffer_def)
  from sb.add_all_returns [OF this, of cs m] assms obtain b' m' where
    r: "append_chars cs \<lparr>m_bytes = [], m_size = 32\<rparr> m = Some (b', m')" "m_bytes b' = cs" "blocks m' = blocks m" "answers m' = []"
    by (auto simp: append_chars_all)
  then have "m' = m" using assms by (simp add: sys.equality)
  with r that show ?thesis by simp
qed

definition wire_string :: "string \<Rightarrow> bool" where
  "wire_string w \<longleftrightarrow> NUL \<notin> set w \<and> length w < 65536"

lemma read_string_ahead:
  assumes "ahead pkt = encode_string w @ rest" "wire_string w" "answers m = []"
  shows "packetReadString pkt m = Some (Some (string_of w), past (4 + length w) pkt, m\<lparr>blocks := blocks m + 2\<rparr>)"
proof -
  obtain b where b: "append_chars w \<lparr>m_bytes = [], m_size = 32\<rparr> (m\<lparr>blocks := blocks m + 2\<rparr>) = Some (b, m\<lparr>blocks := blocks m + 2\<rparr>)"
    "m_bytes b = w" by (rule append_chars_plenty [of "m\<lparr>blocks := blocks m + 2\<rparr>" w]) (use assms(2,3) in \<open>simp_all add: wire_string_def\<close>)
  have w: "takeWhile (\<lambda>c. c \<noteq> NUL) w = w" using assms(2) by (auto simp: wire_string_def takeWhile_eq_all_conv)
  have t: "stringbufferToString b (m\<lparr>blocks := blocks m + 2\<rparr>) = (Some (string_of w), m\<lparr>blocks := blocks m + 4\<rparr>)"
    using assms(3) by (simp add: w stringbufferToString_def b stringNew_plenty string_of_def)
  let ?p = "past (Suc (Suc (Suc (Suc 0)))) pkt"
  have "wide_chars (length w) 0 ?p = (w, past (length w) ?p)"
    using assms(1) by (intro wide_chars_ahead [of _ _ rest]) (simp add: encode_string_def)
  moreover have e: "4 + length w = Suc (Suc (Suc (Suc (length w))))" by simp
  moreover have "length w div 256 < 256" using assms(2) by (auto simp: wire_string_def intro: less_mult_imp_div_less)
  ultimately show ?thesis using assms(1,3) b t
    by (simp add: e packetReadString_def encode_string_def next_ahead buffer_new stringbufferDelete_def release_def)
qed

lemma read_double_ahead:
  assumes "ahead pkt = encode_data (WReal ds) @ rest" "length ds < 256" "NUL \<notin> set ds" "r_scan F ds = Some d" "answers m = []"
  shows "packetReadDouble F pkt m = Some (d, past (2 + length ds) pkt, m)"
proof -
  obtain b where b: "append_chars ds \<lparr>m_bytes = [], m_size = 32\<rparr> (m\<lparr>blocks := blocks m + 2\<rparr>) = Some (b, m\<lparr>blocks := blocks m + 2\<rparr>)"
    "m_bytes b = ds" by (rule append_chars_plenty [of "m\<lparr>blocks := blocks m + 2\<rparr>" ds]) (use assms(2,5) in simp_all)
  have w: "takeWhile (\<lambda>c. c \<noteq> NUL) ds = ds" using assms(3) by (auto simp: takeWhile_eq_all_conv)
  have "next_bytes (length ds) (past (Suc (Suc 0)) pkt) = (ds, past (length ds) (past (Suc (Suc 0)) pkt))"
    using assms(1) by (intro next_bytes_ahead [of _ _ rest]) simp
  then show ?thesis using assms b
    by (simp add: w packetReadDouble_def next_ahead buffer_new stringbufferDelete_def release_def add.commute)
qed

subsection \<open>Whole requests\<close>

text \<open>An item is a name and a value. What is made of it, and the blocks it takes.\<close>

primrec data_of :: "'f reals \<Rightarrow> 'f wire \<Rightarrow> char \<times> 'f item_data" where
  "data_of F (WInt k) = (CHR ''I'', RInt k)"
| "data_of F (WLong k) = (CHR ''L'', RLong k)"
| "data_of F (WReal ds) = (CHR ''d'', RReal (the (r_scan F ds)))"
| "data_of F (WStr w) = (CHR ''S'', RStr (Some (string_of w)))"

definition item_of :: "'f reals \<Rightarrow> string \<times> 'f wire \<Rightarrow> 'f requestItem" where
  "item_of F x = \<lparr>i_name = Some (string_of (fst x)), i_type = fst (data_of F (snd x)), i_data = snd (data_of F (snd x))\<rparr>"

definition item_blocks :: "string \<times> 'f wire \<Rightarrow> int" where
  "item_blocks x = (case snd x of WStr w \<Rightarrow> 5 | _ \<Rightarrow> 3)"

definition encode_item :: "string \<times> 'f wire \<Rightarrow> string" where
  "encode_item x = encode_string (fst x) @ encode_data (snd x)"

definition wire_ok :: "'f reals \<Rightarrow> string \<times> 'f wire \<Rightarrow> bool" where
  "wire_ok F x \<longleftrightarrow> wire_string (fst x) \<and> (case snd x of
     WStr w \<Rightarrow> wire_string w
   | WReal ds \<Rightarrow> length ds < 256 \<and> NUL \<notin> set ds \<and> r_scan F ds \<noteq> None
   | _ \<Rightarrow> True)"

lemma read_item_ahead:
  assumes "ahead pkt = encode_item x @ rest" "wire_ok F x" "answers m = []"
  shows "read_item True F pkt m = Some (Some (item_of F x), past (length (encode_item x)) pkt, m\<lparr>blocks := blocks m + item_blocks x\<rparr>)"
proof -
  obtain n v where x: "x = (n, v)" by force
  let ?m = "m\<lparr>blocks := blocks m + 1\<rparr>" and ?p = "past (4 + length n) pkt"
  have name: "packetReadString pkt ?m = Some (Some (string_of n), ?p, m\<lparr>blocks := blocks m + 3\<rparr>)"
    using read_string_ahead [of pkt n "encode_data v @ rest" ?m] assms by (simp add: encode_item_def x wire_ok_def)
  have e: "4 + length n = length (encode_string n)" by (simp add: encode_string_def)
  have v: "ahead ?p = encode_data v @ rest" using assms(1) by (simp add: e encode_item_def x)
  have s: "packetIsValidNext pkt" using assms(1) by (simp add: packetIsValidNext_def peek_ahead encode_item_def encode_string_def)
  have l: "length (encode_item x) = length (encode_data v) + (4 + length n)" by (simp add: encode_item_def x encode_string_def)
  have "packetNextType ?p = fst (data_of F v)"
    using v by (cases v) (simp_all add: packetNextType_def peek_ahead encode_string_def)
  moreover have "read_data True F ?p (m\<lparr>blocks := blocks m + 3\<rparr>) =
      Some (Some (snd (data_of F v)), past (length (encode_data v)) ?p, m\<lparr>blocks := blocks m + item_blocks x\<rparr>)"
  proof (cases v)
    case (WStr w)
    then have "packetPeekByte ?p = CHR ''S''" using v by (simp add: peek_ahead encode_string_def)
    moreover have "length (encode_string w) = 4 + length w" by (simp add: encode_string_def)
    ultimately show ?thesis using WStr v assms(2,3) read_string_ahead [of ?p w rest "m\<lparr>blocks := blocks m + 3\<rparr>"]
      by (simp add: read_data_def packetNextType_def x wire_ok_def item_blocks_def del: ahead_past)
  next
    case (WReal ds)
    then obtain d where "r_scan F ds = Some d" using assms(2) by (auto simp: wire_ok_def x)
    then show ?thesis using WReal v assms(2,3) read_double_ahead [of ?p ds rest F d "m\<lparr>blocks := blocks m + 3\<rparr>"]
      by (simp add: read_data_def packetNextType_def peek_ahead x wire_ok_def item_blocks_def del: ahead_past)
  next
    case (WInt k)
    then show ?thesis using v read_int_ahead [of ?p k rest]
      by (simp add: read_data_def packetNextType_def peek_ahead x item_blocks_def del: ahead_past)
  next
    case (WLong k)
    then show ?thesis using v read_long_ahead [of ?p k rest]
      by (simp add: read_data_def packetNextType_def peek_ahead x item_blocks_def del: ahead_past)
  qed
  ultimately show ?thesis using name s assms(3) l by (simp add: read_item_def item_of_def x)
qed

lemma read_items_ahead:
  assumes "\<forall>x\<in>set its. wire_ok F x"
  shows "ahead pkt = concat (map encode_item its) \<Longrightarrow> \<not> m_isError pkt \<Longrightarrow> answers m = [] \<Longrightarrow>
    read_items True F pkt req m = Some (True, past (length (concat (map encode_item its))) pkt,
      req\<lparr>m_itemCount := m_itemCount req + int (length its), req_items := rev (map (item_of F) its) @ req_items req\<rparr>,
      m\<lparr>blocks := blocks m + sum_list (map item_blocks its)\<rparr>)"
  using assms
proof (induction its arbitrary: pkt req m)
  case Nil
  then show ?case by (subst read_items.simps) (simp add: packetIsEofOrError_def peek_ahead)
next
  case (Cons x its)
  have n: "\<not> packetIsEofOrError pkt" using Cons.prems
    by (simp add: packetIsEofOrError_def packetIsError_def peek_ahead encode_item_def encode_string_def)
  have r: "read_item True F pkt m =
      Some (Some (item_of F x), past (length (encode_item x)) pkt, m\<lparr>blocks := blocks m + item_blocks x\<rparr>)"
    using read_item_ahead [of pkt x "concat (map encode_item its)" F m] Cons.prems by simp
  show ?case using n r Cons.prems Cons.IH [of "past (length (encode_item x)) pkt" "m\<lparr>blocks := blocks m + item_blocks x\<rparr>"]
    by (subst read_items.simps) (simp add: add.commute add.left_commute)
qed

lemma no_transaction:
  assumes "\<forall>x\<in>set its. butlast (fst x) \<noteq> transaction_id"
  shows "requestGetItem_in (rev (map (item_of F) its) @ [sentinel]) transaction_id = None"
proof -
  have "\<forall>x\<in>set xs. butlast (fst x) \<noteq> transaction_id \<Longrightarrow> requestGetItem_in (map (item_of F) xs @ [sentinel]) transaction_id = None" for xs
  proof (induction xs)
    case (Cons x xs)
    then have "\<not> stringIsEqual (string_of (fst x)) transaction_id False"
      by (auto simp: stringIsEqual_def equal_with_map fold_case_False string_of_def)
    then show ?case using Cons by (simp add: item_of_def)
  qed (simp add: sentinel_def)
  from this [of "rev its"] assms show ?thesis by (simp add: rev_map)
qed

text \<open>C30. A packet with a name, a user, a password and items with names and values of every type is read back
  while there is memory: ints, longs and reals as they were, every string without its last character,
  and the items in the reverse order before the one that has no name. The item that is named
  like the transaction id is not recognised, so the id stays 0; the blocks of the request are three for each item and
  two more for a string.\<close>

theorem requestNew_reads:
  assumes "m_bytes buf = encode_string name @ encode_string user @ encode_string pw @ concat (map encode_item its)"
    and "wire_string name" "wire_string user" "wire_string pw" "\<forall>x\<in>set its. wire_ok F x" "answers m = []"
    and "\<forall>x\<in>set its. butlast (fst x) \<noteq> transaction_id"
  shows "requestNew True F buf m = Some (Some \<lparr>m_name = Some (string_of name), m_transid = 0,
      m_userId = Some (string_of user), m_password = Some (string_of pw),
      req_items = rev (map (item_of F) its) @ [sentinel], m_itemCount = int (length its), m_reqbytes = m_used buf\<rparr>,
    m\<lparr>blocks := blocks m + 8 + sum_list (map item_blocks its)\<rparr>)"
proof -
  let ?p = "\<lparr>p_buf = buf, m_readpos = 0, m_isError = False\<rparr>" and ?m = "\<lambda>k. m\<lparr>blocks := k + blocks m\<rparr>"
  let ?n = "length (encode_string name)" and ?u = "length (encode_string user)" and ?w = "length (encode_string pw)"
  have l: "length (encode_string s) = 4 + length s" for s by (simp add: encode_string_def)
  have a: "ahead ?p = m_bytes buf" by (simp add: ahead_def)
  have t: "packetNextType ?p = CHR ''S''" using assms(1) by (simp add: packetNextType_def peek_ahead a encode_string_def)
  have v: "packetIsValidNext (past ?n ?p)"
    using assms(1) by (simp add: packetIsValidNext_def peek_ahead a) (simp add: encode_string_def)
  have 1: "packetReadString ?p (?m 3) = Some (Some (string_of name), past ?n ?p, ?m 5)"
    using read_string_ahead [of ?p name _ "?m 3"] assms(1,2,6) a by (simp add: l)
  have 2: "packetReadString (past ?n ?p) (?m 5) = Some (Some (string_of user), past ?u (past ?n ?p), ?m 7)"
    using read_string_ahead [of "past ?n ?p" user _ "?m 5"] assms(1,3,6) a by (simp add: l)
  have 3: "packetReadString (past ?u (past ?n ?p)) (?m 7) = Some (Some (string_of pw), past ?w (past ?u (past ?n ?p)), ?m 9)"
    using read_string_ahead [of "past ?u (past ?n ?p)" pw _ "?m 7"] assms(1,4,6) a by (simp add: l)
  have a3: "ahead (past ?w (past ?u (past ?n ?p))) = concat (map encode_item its)" using assms(1) by (simp add: a)
  have e3: "\<not> m_isError (past ?w (past ?u (past ?n ?p)))" by simp
  note 4 = read_items_ahead [OF assms(5) a3 e3]
  show ?thesis
    using t v 1 2 3 4 assms(6) no_transaction [OF assms(7), of F]
    by (simp add: requestNew_def requestAlloc_def packetNew_def read_field_def take_transid_def requestGetItem_def
      packetDelete_def release_def Let_def del: ahead_past)
qed

theorem requestNew_reads_witness:
  "requestNew True \<lparr>r_scan = \<lambda>s. Some (0 :: int), r_print = \<lambda>d. ''0'', r_atof = \<lambda>s. 0, r_zero = 0, r_int32 = word_of_int,
      r_int64 = word_of_int, r_of_int = \<lambda>k. k\<rparr>
    \<lparr>m_bytes = encode_string ''proc'' @ encode_string ''u'' @ encode_string ''pw'' @
      concat (map encode_item [(''id'', WInt 7), (''%%TRANSACTION-ID%%'', WLong 9), (''s'', WStr ''ab'')]), m_size = 100\<rparr>
    \<lparr>answers = [], blocks = 0\<rparr> =
   Some (Some \<lparr>m_name = Some (string_of ''proc''), m_transid = 0, m_userId = Some (string_of ''u''), m_password = Some (string_of ''pw''),
      req_items = [\<lparr>i_name = Some (string_of ''s''), i_type = CHR ''S'', i_data = RStr (Some (string_of ''ab''))\<rparr>,
        \<lparr>i_name = Some (string_of ''%%TRANSACTION-ID%%''), i_type = CHR ''L'', i_data = RLong 9\<rparr>,
        \<lparr>i_name = Some (string_of ''id''), i_type = CHR ''I'', i_data = RInt 7\<rparr>, sentinel],
      m_itemCount = 3, m_reqbytes = 72\<rparr>,
    \<lparr>answers = [], blocks = 19\<rparr>)"
  by (subst requestNew_reads [of _ "''proc''" "''u''" "''pw''" "[(''id'', WInt 7), (''%%TRANSACTION-ID%%'', WLong 9), (''s'', WStr ''ab'')]"])
    (simp_all add: wire_string_def wire_ok_def transaction_id_def item_of_def item_blocks_def encode_item_def encode_string_def)

lemma get_at_none: "0 < idx \<Longrightarrow> requestGetItemAt req idx = None"
proof -
  have "0 < count \<Longrightarrow> 0 < idx \<Longrightarrow> walk_items 0 count idx is = []" for count idx and "is" :: "'a requestItem list"
    by (induction "0 :: int" count idx "is" rule: walk_items.induct) auto
  then show "0 < idx \<Longrightarrow> requestGetItemAt req idx = None" by (simp add: requestGetItemAt_def Let_def)
qed

subsection \<open>Requests from EXEC statements\<close>

text \<open>
  The text of the lexer ends with a NUL that its length counts. It is read as a blank, and then there is no lexeme: the
  token is unknown, not the end. The well-formed lexers before that point, and at it.
\<close>

definition in_text :: "sqllex \<Rightarrow> bool" where
  "in_text l \<longleftrightarrow> (\<forall>m. \<exists>b. lexer_good b l m) \<and> m_len (m_text l) = int (length (m_cstr (m_text l))) + 1
     \<and> NUL \<notin> set (m_cstr (m_text l)) \<and> m_token l \<noteq> SQL_EOF"

definition unfinished :: "sqllex \<Rightarrow> bool" where
  "unfinished l \<longleftrightarrow> in_text l \<and> (m_position l < m_len (m_text l) \<or> m_token l = SQL_UNKNOWN)"

lemma good_any: "lexer_good b l m \<Longrightarrow> \<exists>b. lexer_good b l m'"
  by (rule exI [of _ "blocks m' - blocks m + b"]) (simp add: lexer_good_def)

lemma ended_before: "ended l \<Longrightarrow> m_len (m_text l) = int (length (m_cstr (m_text l))) + 1 \<Longrightarrow> m_position l < m_len (m_text l)"
  by (auto simp: ended_def char_at_def split: if_splits)

lemma next_unfinished:
  assumes "in_text l" "m_position l < m_len (m_text l)" "sqllexNext l m = Some (ok, l', m')"
  shows "unfinished l' \<and> (ok \<longrightarrow> m_position l' < m_len (m_text l'))"
proof -
  obtain b where g: "lexer_good b l m" using assms(1) by (auto simp: in_text_def)
  note r = sqllexNext_result [OF g assms(3)]
  have "in_text l'" using r assms(1,2) good_any [of b l' m'] by (auto simp: in_text_def)
  moreover have "m_token l' = SQL_UNKNOWN \<and> \<not> ok \<or> ended l'" using r assms(1,2) by (auto simp: in_text_def)
  ultimately show ?thesis using ended_before [of l'] by (auto simp: unfinished_def in_text_def)
qed

lemma match_unfinished:
  assumes "unfinished l" "t \<noteq> SQL_UNKNOWN" "sqllexMatchToken l t m = Some (ok, l', m')"
  shows "unfinished l' \<and> (ok \<longrightarrow> m_position l' < m_len (m_text l'))"
proof (cases "m_token l = t")
  case True
  then show ?thesis using assms next_unfinished [of l m ok l' m'] by (auto simp: sqllexMatchToken_def unfinished_def)
next
  case False
  then show ?thesis using assms by (simp add: sqllexMatchToken_def)
qed

lemma new_unfinished:
  assumes "sqllexNew sql m = Some (Some l, m')" "NUL \<notin> set (m_cstr sql)"
  shows "unfinished l \<or> m_token l = SQL_EOF"
proof -
  obtain ok m1 where a: "malloc m = (ok, m1)" by force
  obtain t0 m2 where d: "stringDup sql m1 = (t0, m2)" by force
  from assms(1) a d obtain t buf m3 ok4 where t: "t0 = Some t" "stringbufferNew m2 = Some (Some buf, m3)"
    "sqllexNext \<lparr>m_token = SQL_BOF, m_lexum = None, m_lineNum = 1, m_position = 0, m_text = t, m_buf = buf\<rparr> m3 = Some (ok4, l, m')"
    by (auto simp: sqllexNew_def Let_def split: if_splits option.splits bind_splits)
  have tx: "t = string_of (m_cstr sql)" using stringNew_result [of "m_cstr sql" m1 t m2] d t(1)
    by (simp add: stringDup_def string_of_def)
  have b: "good_buffer buf" using t(2)
    by (auto simp: stringbufferNew_def stringbufferSizeNew_def good_buffer_def split: prod.splits if_splits)
  show ?thesis
  proof (cases "m_cstr sql = []")
    case True
    then show ?thesis using t(3) by (auto simp: sqllexNext_def tx string_of_def Let_def)
  next
    case False
    let ?l = "\<lparr>m_token = SQL_BOF, m_lexum = None, m_lineNum = 1, m_position = 0, m_text = t, m_buf = buf\<rparr>"
    obtain u c where u: "m_cstr sql = u @ [c]" using False by (metis rev_exhaust)
    have "lexer_good (blocks m3 - 5) ?l m3" using b by (simp add: lexer_good_def tx string_of_def)
    then have "in_text ?l" using good_any assms(2) by (auto simp: in_text_def tx string_of_def u)
    moreover have "m_position ?l < m_len (m_text ?l)" by (simp add: tx string_of_def u)
    ultimately show ?thesis using next_unfinished [OF _ _ t(3)] by blast
  qed
qed

lemma qualified_unfinished:
  assumes "qualified_name l req m = Some (ok, l', req', m')" "unfinished l"
  shows "unfinished l'"
proof (cases "m_token l = SQL_DOT")
  case False
  then show ?thesis using assms by (auto simp: qualified_name_def)
next
  case True
  note q = assms(1) [unfolded qualified_name_def, simplified True, simplified]
  obtain str where s: "m_name req = Some str" using q by (auto split: bind_splits)
  obtain n1 m1 where c: "stringCat str ''.'' 1 m = Some (n1, m1)" using q s by (auto split: bind_splits)
  obtain ok2 l2 m2 where t: "sqllexMatchToken l SQL_DOT (stringDelete str m1) = Some (ok2, l2, m2)"
    using q s c by (auto simp: Let_def split: bind_splits)
  obtain w str2 where w: "n1 = Some str2" "m_lexum l2 = Some w" using q s c t by (auto simp: Let_def split: bind_splits)
  obtain n3 m3 where c2: "stringCat str2 (m_cstr w) (m_len w) m2 = Some (n3, m3)"
    using q s c t w by (auto simp: Let_def split: bind_splits)
  have x: "sqllexMatchToken l2 SQL_ID (stringDelete str2 m3) = Some (ok, l', m')"
    using q s c t w c2 by (auto simp: Let_def split: bind_splits)
  have "unfinished l2" using match_unfinished [OF assms(2) _ t] by simp
  then show ?thesis using match_unfinished [OF _ _ x] by simp
qed

text \<open>The items of an unfinished lexer never come to an end without a failure.\<close>

lemma exec_items_fail:
  assumes "exec_items F l req m = Some (ok, l', req', m')" "unfinished l"
  shows "\<not> ok"
proof -
  have "unfinished l \<longrightarrow> \<not> fst (ok, l', req', m')"
  proof (rule exec_items.raw_induct [where P = "\<lambda>F l req m r. unfinished l \<longrightarrow> \<not> fst r", OF _ assms(1)])
    fix f :: "'a reals \<Rightarrow> sqllex \<Rightarrow> 'a request \<Rightarrow> sys \<Rightarrow> (bool \<times> sqllex \<times> 'a request \<times> sys) option" and F l req m r
    assume IH: "\<And>F l req m r. f F l req m = Some r \<Longrightarrow> unfinished l \<longrightarrow> \<not> fst r"
      and body: "(if m_token l = SQL_EOF then Some (True, l, req, m)
      else do {
        let req = req\<lparr>m_itemCount := m_itemCount req + 1\<rparr>;
        (ok, l, m) \<leftarrow> (if m_token l = SQL_COMMA then sqllexNext l m else Some (True, l, m));
        if \<not> ok then Some (False, l, req, m)
        else (case malloc m of (ok, m) \<Rightarrow>
          if \<not> ok then Some (False, l, req, m)
          else do {
            (item, m) \<leftarrow> item_of_token F l m;
            case item of
              None \<Rightarrow> Some (False, l, req, m)
            | Some item \<Rightarrow> do {
                let req = req\<lparr>req_items := item # req_items req\<rparr>;
                (_, l, m) \<leftarrow> sqllexNext l m;
                f F l req m } }) }) = Some r"
    show "unfinished l \<longrightarrow> \<not> fst r"
    proof
      assume a: "unfinished l"
      then have e: "m_token l \<noteq> SQL_EOF" by (simp add: unfinished_def in_text_def)
      with body obtain ok l1 m1 where n: "(if m_token l = SQL_COMMA then sqllexNext l m else Some (True, l, m)) = Some (ok, l1, m1)"
        by (auto simp: Let_def split: if_splits bind_splits)
      have l1: "unfinished l1" using n a next_unfinished [of l m ok l1 m1] by (auto simp: unfinished_def split: if_splits)
      obtain ok2 m2 where al: "malloc m1 = (ok2, m2)" by force
      note body = body [unfolded Let_def n, simplified al e, simplified]
      show "\<not> fst r"
      proof (cases "ok \<and> ok2")
        case False
        then show ?thesis using body al by (auto split: if_splits)
      next
        case True
        with body al obtain item m3 where i: "item_of_token F l1 m2 = Some (item, m3)" by (auto split: bind_splits)
        show ?thesis
        proof (cases item)
          case None
          then show ?thesis using body al True i by auto
        next
          case (Some it)
          then obtain ok4 l4 m4 where x: "sqllexNext l1 m3 = Some (ok4, l4, m4)"
            using body al True i by (auto split: bind_splits)
          then have r: "f F l4 (req\<lparr>m_itemCount := m_itemCount req + 1, req_items := it # req_items req\<rparr>) m4 = Some r"
            using body al True i Some by simp
          have "m_token l1 \<noteq> SQL_UNKNOWN" using i Some by (auto simp: item_of_token_def split: if_splits)
          then have "unfinished l4" using l1 next_unfinished [OF _ _ x] by (auto simp: unfinished_def)
          then show ?thesis using IH [OF r] by simp
        qed
      qed
    qed
  qed
  with assms(2) show ?thesis by simp
qed

text \<open>C31. No EXEC statement is ever made into a request: the NUL that the copy of the text ends with is read as a
  blank after the last parameter, the token is then unknown, and the loop over the parameters,
  which waits for the end, takes it for one that it does not know.\<close>

theorem exec_requests_fail:
  assumes "NUL \<notin> set (m_cstr sql)"
  shows "\<not> (\<exists>req m'. requestNewFromExecSql (F :: 'f reals) sql m = Some (Some req, m'))"
proof
  assume "\<exists>req m'. requestNewFromExecSql F sql m = Some (Some req, m')"
  then obtain req :: "'f request" and m' where q: "requestNewFromExecSql F sql m = Some (Some req, m')" by blast
  obtain r0 :: "'f request" and m0 where 0: "requestAlloc m = (Some r0, m0)"
    using q by (auto simp: requestNewFromExecSql_def requestAlloc_def Let_def split: prod.splits if_splits option.splits)
  note a = q [unfolded requestNewFromExecSql_def 0 Let_def, simplified]
  obtain l1 m1 where 1: "sqllexNew sql m0 = Some (Some l1, m1)"
    using a by (auto split: option.splits bind_splits)
  obtain ok2 l2 m2 where 2: "sqllexMatchToken l1 SQL_EXEC m1 = Some (ok2, l2, m2)"
    using a 1 by (auto split: bind_splits)
  have ok2: ok2 using a 1 2 by (auto simp: give_up_sql_def split: if_splits bind_splits)
  obtain w where w: "m_lexum l2 = Some w" using a 1 2 ok2 by (auto split: bind_splits)
  obtain n3 m3 where 3: "stringDup w m2 = (n3, m3)" by force
  have n3: "n3 \<noteq> None" using a 1 2 ok2 w 3 by (auto simp: give_up_sql_def split: if_splits bind_splits)
  obtain ok4 l4 m4 where 4: "sqllexMatchToken l2 SQL_ID m3 = Some (ok4, l4, m4)"
    using a 1 2 ok2 w 3 n3 by (auto split: bind_splits)
  have ok4: ok4 using a 1 2 ok2 w 3 n3 4 by (auto simp: give_up_sql_def split: if_splits bind_splits)
  obtain ok5 l5 r5 m5 where 5: "qualified_name l4 (r0\<lparr>m_name := n3\<rparr>) m4 = Some (ok5, l5, r5, m5)"
    using a 1 2 ok2 w 3 n3 4 ok4 by (auto split: bind_splits)
  have ok5: ok5 using a 1 2 ok2 w 3 n3 4 ok4 5 by (auto simp: give_up_sql_def split: if_splits bind_splits)
  obtain ok6 l6 r6 m6 where 6: "exec_items F l5 r5 m5 = Some (ok6, l6, r6, m6)"
    using a 1 2 ok2 w 3 n3 4 ok4 5 ok5 by (auto split: bind_splits)
  have ok6: ok6 using a 1 2 ok2 w 3 n3 4 ok4 5 ok5 6 by (auto simp: give_up_sql_def split: if_splits bind_splits)
  have "m_token l1 \<noteq> SQL_EOF" using 2 ok2 by (auto simp: sqllexMatchToken_def)
  then have "unfinished l1" using new_unfinished [OF 1 assms] by blast
  then have "unfinished l5" using match_unfinished [OF _ _ 2] match_unfinished [OF _ _ 4] qualified_unfinished [OF 5] by simp
  then show False using exec_items_fail [OF 6] ok6 by blast
qed

theorem exec_requests_fail_witness:
  "\<not> (\<exists>req m'. requestNewFromExecSql \<lparr>r_scan = \<lambda>s. Some (0 :: int), r_print = \<lambda>d. ''0'', r_atof = \<lambda>s. 0, r_zero = 0,
      r_int32 = word_of_int, r_int64 = word_of_int, r_of_int = \<lambda>k. k\<rparr>
    \<lparr>m_cstr = ''EXECS proc 'a' '', m_isintern = True, m_len = 15\<rparr> \<lparr>answers = [], blocks = 0\<rparr> = Some (Some req, m'))"
  by (rule exec_requests_fail) simp

end
