(* ===== verification/Spec2Isabelle.thy ===== *)
theory Spec2Isabelle
  imports Lexer_Literals Call_Tree Natives_Spec Sql_Wire
begin

section \<open>A verification of the JS++ interpreter\<close>

text \<open>
  jspp compiles a small class-based language to byte code and interprets it. The parts modelled
  here, from the bottom up, with the theories that hold them:

  \<^item> Variants (jspp/src/variant.c, jspp/jspp/variant.h, the instances of jspp/src/jsclass.c): tagged
    values and reference-counted instances in a store from places to variants. Theory Variant has
    the operations, in the order of the file; Variant\_Heap the invariant of exact reference counts
    that clearing and assigning keep; Variant\_Ops the contract of the binary operators, as the
    locale \<open>binop\<close> that each operator interprets, arithmetic at 32 bits, and casts.
  \<^item> Lexer (jspp/src/lex.c): theory Lexer has \<open>jsppLex\<close> and what it calls; Lexer\_Spec the reachable
    states, termination, words, numbers and the longest match of operators; Lexer\_Literals string
    literals and comments.
  \<^item> Instruction coding (encodeOp to blockFetchInt32 of jspp/src/program.c): theory Bytecode.
  \<^item> Classes (jspp/src/jsclass.c): theory Classes; Classes\_Spec shows that constructors do not leak,
    that signatures tell methods apart, and that virtual tables refine the lookup along the chain
    of base classes.
  \<^item> Programs (jspp/src/program.c): theory Program; Program\_Spec relates the code of a method to the
    listing of instructions it stands for: emitting appends, fixing up replaces an operand, and
    the interpreter's \<open>fetch\<close> reads the listing back.
  \<^item> The machine (jspp/src/interpinner.c, qinterpResolve and qinterpFindClass of jspp/src/interp.c):
    theory Frames has the stack, the frames and their blocks, Calls the calls of methods and
    constructors, Interp one definition per group of instructions and the loop of \<open>_interp\<close>.
    Blocks\_Spec shows the discipline of blocks, catching and breaking; Interp\_Frames that a run
    leaves the frames as they were; Interp\_Ops that the operators refine the int operations;
    Interp\_Eval and Interp\_Return that a method which computes an expression returns its value to its
    caller, through the relation \<open>runs\<close> of listings that give control back with what they leave on
    the stack. Call\_Tree composes such methods: code that calls static methods and native functions
    has a value, the tree of its calls, and a call of it returns that value with enough fuel.
  \<^item> The parser (jspp/src/parse.c): theory Parser has its state, errors and symbol tables,
    Parser\_Expr the procedures for expressions, Parser\_Stmt those for statements, methods and
    classes, up to \<open>parse\<close>. They drive the lexer and emit through the operations of Program.
    Parser\_Spec shows that the descent through the levels of the grammar emits the postfix listing
    of an expression, Parser\_Text that printed tokens are read back by the lexer, Compile what the
    parser makes of a class with a method that returns an expression.
  \<^item> The life of an interpreter (jspp/src/interp.c, jspp/src/libcommon.c): theory Embed has
    construction with the tables of intrinsic classes, adding and removing programs, running
    static methods, destruction. Theory Life shows that a new interpreter has all these classes and
    puts the parts together: the source text of a program is compiled, loaded and run, and the
    result is the value of its expression (\<open>program_runs\<close>).

  \<^item> Native functions (jspp/src/native.c, jspp/src/intrinsics.c): theory Natives has the functions of
    the intrinsic classes, with the native data they keep in an instance, and the calls of methods
    and constructors from C. Natives\_Frames shows that they keep the frames, so that the balance of
    calls holds with them; Native\_Calls runs them: from a constructed interpreter a call of a native
    function returns its result on the stack; Natives\_Spec that Vector, Hashtable and StringBuffer act on what they
    hold as lists, maps and strings, through the locale \<open>native_value\<close>, and what arrays confuse.

  \<^item> The support library of the service (splc/src/string.c, stringbuffer.c, vector.c, hashtable.c,
    integer.c): theory Spl\_String has C strings and string objects, Spl\_Containers the vectors,
    string buffers and hash tables, Spl\_Text the parts, replacements and splits of strings and the
    numerals. Spl\_Spec shows that \<open>stringReplace\<close> agrees with a reference definition, when appending
    to a buffer returns (through the locale \<open>growing\<close> that string buffers and vectors share), what
    tables hold and leak, up to which length numerals are read, and what the copies of strings lose.
  \<^item> The tokeniser of the SQL procedures (splc/sqllex.c), a client of that library: theory Sql\_Lex;
    Sql\_Spec shows the invariant of its reachable states, that it makes progress, and what the lost
    characters do to its tokens.
  \<^item> The requests of the service (splc/request.c, splc/src/packet.c): theory Sql\_Request reads them from
    packets and from EXEC statements. Sql\_Wire gives a reference encoding, which \<open>requestNew\<close> reads
    back, and shows that EXEC statements always fail.

  The state. A \<open>world\<close> (theory Classes) holds the classes and methods by address, the store of
  variants, and the memory: \<open>mallocs\<close> is the list of answers the next allocations get, all succeed
  when it is empty, and \<open>live\<close> counts the blocks that are allocated. A \<open>pstate\<close> (Program) adds the
  programs, a \<open>qinterp\<close> (Frames) the stack and the frames. C structs are records with the fields of
  the source, pointers are addresses (nat) or places of variants (\<open>loc\<close>), the null pointer is None.
  An operation is a function from the state to an option of a result and a state: None is undefined
  behaviour of the C code (a null or dangling pointer, an element that is not there, a division
  trap), error codes are values. The support library has a state of its own, \<open>sys\<close>, with the answers of
  the allocator and the count of blocks. The int of the
  interpreter is \<open>int32\<close>, a 32-bit word whose arithmetic wraps, the two's complement that the source
  takes for granted where C leaves it open: programs compute with it. The sizes and counts of the support library are ints of C that its code never means to
  overflow: there \<open>c_int\<close> (Spl\_String) makes an overflow undefined, None. Pointers passed to the operations on
  variants are places, so their tests for a null argument have no counterpart; a lookup that would
  give one is None where it happens. Reference counts are unbounded: to overflow one takes more
  variants than a 32-bit address space holds.

  Bounds and fuel. \<open>cstack\<close> bounds the recursion of releasing instances and of base classes, as the
  C stack does; the theorems need it to be positive, or as deep as the instances are nested. The
  interpreter's loop has fuel for the instructions it may execute, calls within calls included;
  \<open>program_runs\<close> says how much is enough for a method that returns an expression, \<open>calls_return\<close> for a
  tree of calls. The lexer and its loops need none, they are proved to terminate; \<open>break_loop\<close>, which may not end in C, is None then. The parser has fuel for the
  rounds of its loops and the depth of its nesting; \<open>expr_compiles\<close> says how much is enough for an
  expression.

  Parameters, for what is not under src/ or rests on the machine: \<open>ext\<close> (theory Variant) has the
  float operations and the string functions the variants call, \<open>lib\<close> (Classes) the int16 array of
  the code with the laws \<open>i16_laws\<close>, and the hash table of classes and virtual tables, \<open>pcx\<close>
  (Parser) the hash table of symbol tables (the parser calls a version of the spl library that is
  older than the one under splc/), \<open>env\<close> (Frames) the native methods
  and string functions of calls, \<open>nlib\<close> (Natives) the containers of native data, the clock and the
  random numbers, with the laws \<open>nlib_laws\<close>; \<open>with_intrinsics\<close> puts the native functions of the
  source into an \<open>env\<close>. Each law is met by an instance (\<open>int_ext\<close>, \<open>fun_lib\<close>, \<open>env_a\<close>, \<open>fun_nlib\<close>)
  that the witnesses use.

  Not modelled: that a vector moves its elements when it grows, which leaves pointers to stack
  elements and locals dangling; the ASSERTs and the memory checks of debug builds;
  jspplexConstructFile and parseFile, which open files; the native libraries for sockets, HTTP and
  ciphers, of which only the tables of methods are here. The rest of the SQL service, the operating system wrappers of splc/, tests, generated code and
  the SQLite headers are outside the development: they call a database, sockets and files, or are
  not written by hand.
\<close>

end
